(* ===== verification/Prelude.thy ===== *)
theory Prelude
  imports Main "HOL-Library.Word"
begin

text \<open>
  Shared vocabulary of the development: the C integer types and their casts, the result type
  of operations that may crash or run out of fuel, and generic lemmas on lists that several
  components use. Nothing here models a function of the repository; the components do.

  Platform assumptions, made once: \<open>int\<close> is 32 bits, \<open>long\<close> and \<open>long long\<close> are 64 bits in
  two's complement, and signed arithmetic wraps as the target's instructions do.
\<close>

named_theorems codec_simps "facts that evaluate the byte readers"
named_theorems vm_inv "preservation lemmas of the interpreter's frame discipline"
named_theorems evt_simps "fields left alone by the event emitters"

type_synonym llong = "64 word"
type_synonym cint = "32 word"
type_synonym byte = "8 word"

text \<open>Casts between the C integer types.\<close>

definition cint_of_ll :: "llong \<Rightarrow> cint" where
  "cint_of_ll x = ucast x"

definition ll_of_cint :: "cint \<Rightarrow> llong" where
  "ll_of_cint x = scast x"

definition int_of_ll :: "llong \<Rightarrow> int" where
  \<comment> \<open>\<open>(int)x\<close>, read as a mathematical integer\<close>
  "int_of_ll x = sint (cint_of_ll x)"

definition ll_bool :: "bool \<Rightarrow> llong" where
  "ll_bool b = (if b then 1 else 0)"

lemma ll_bool_simps [simp]: "ll_bool True = 1" "ll_bool False = 0"
  by (simp_all add: ll_bool_def)

lemma ll_bool_eq_0 [simp]: "ll_bool b = 0 \<longleftrightarrow> \<not> b"
  by (simp add: ll_bool_def)

lemma ll_bool_inject [simp]: "ll_bool a = ll_bool b \<longleftrightarrow> a = b"
  by (simp add: ll_bool_def)

subsection \<open>Results\<close>

text \<open>
  What a step of the emulator can end in besides a value: it does not end as far as the fuel of the
  model reaches (the C code is still running, or its stack overflowed), the processor trapped on an
  integer division, the code dereferenced a null pointer, or it read memory it must not read.
\<close>

datatype vm_error = OutOfFuel | DivTrap | NullDeref | BadMemory

type_synonym 'a res = "vm_error + 'a"

fun rbind :: "'a res \<Rightarrow> ('a \<Rightarrow> 'b res) \<Rightarrow> 'b res" where
  "rbind (Inl e) f = Inl e"
| "rbind (Inr x) f = f x"

lemma rbind_eq_Inr: "rbind m f = Inr y \<longleftrightarrow> (\<exists>x. m = Inr x \<and> f x = Inr y)"
  by (cases m) auto

lemma rbind_eq_Inl: "rbind m f = Inl e \<longleftrightarrow> m = Inl e \<or> (\<exists>x. m = Inr x \<and> f x = Inl e)"
  by (cases m) auto

lemma rbind_cong [fundef_cong]:
  "m = m' \<Longrightarrow> (\<And>x. m' = Inr x \<Longrightarrow> f x = f' x) \<Longrightarrow> rbind m f = rbind m' f'"
  by (cases m') auto

subsection \<open>Lists\<close>

lemma take_Suc_conv_nth: "i < length xs \<Longrightarrow> take (Suc i) xs = take i xs @ [xs ! i]"
  by (rule take_Suc_conv_app_nth)

text \<open>The first position whose element satisfies a predicate: the C code's search loops.\<close>

fun find_index :: "('a \<Rightarrow> bool) \<Rightarrow> 'a list \<Rightarrow> nat option" where
  "find_index P [] = None"
| "find_index P (x # xs) = (if P x then Some 0 else map_option Suc (find_index P xs))"

lemma find_index_None: "find_index P xs = None \<longleftrightarrow> (\<forall>x \<in> set xs. \<not> P x)"
  by (induction xs) auto

lemma find_index_Some:
  "find_index P xs = Some i \<Longrightarrow> i < length xs \<and> P (xs ! i) \<and> (\<forall>j < i. \<not> P (xs ! j))"
proof (induction xs arbitrary: i)
  case Nil
  then show ?case by simp
next
  case (Cons x xs)
  show ?case
  proof (cases "P x")
    case True
    with Cons.prems show ?thesis by simp
  next
    case False
    with Cons.prems obtain k where k: "find_index P xs = Some k" and i: "i = Suc k"
      by auto
    have IH: "k < length xs \<and> P (xs ! k) \<and> (\<forall>j < k. \<not> P (xs ! j))"
      by (rule Cons.IH [OF k])
    have "\<not> P ((x # xs) ! j)" if "j < i" for j
      using that False IH i by (cases j) auto
    with IH i show ?thesis by auto
  qed
qed

lemma find_index_lt [dest]: "find_index P xs = Some i \<Longrightarrow> i < length xs"
  by (drule find_index_Some) simp

lemma find_index_nth: "find_index P xs = Some i \<Longrightarrow> P (xs ! i)"
  by (drule find_index_Some) simp

lemma find_index_append:
  "find_index P (xs @ ys) = (case find_index P xs of Some i \<Rightarrow> Some i
     | None \<Rightarrow> map_option ((+) (length xs)) (find_index P ys))"
proof (induction xs)
  case Nil
  have "((+) 0) = (\<lambda>x::nat. x)" by (rule ext) simp
  then show ?case by (simp add: option.map_ident)
next
  case (Cons x xs)
  then show ?case
    by (cases "find_index P ys") (auto split: option.splits)
qed

lemma find_index_map: "find_index P xs = find_index (\<lambda>b. b) (map P xs)"
  by (induction xs) auto

text \<open>Updating one element in place, and the field of a record list it leaves alone.\<close>

definition update_nth :: "nat \<Rightarrow> ('a \<Rightarrow> 'a) \<Rightarrow> 'a list \<Rightarrow> 'a list" where
  "update_nth i f xs = (if i < length xs then xs[i := f (xs ! i)] else xs)"

lemma length_update_nth [simp]: "length (update_nth i f xs) = length xs"
  by (simp add: update_nth_def)

lemma nth_update_nth:
  "j < length xs \<Longrightarrow> update_nth i f xs ! j = (if i = j then f (xs ! j) else xs ! j)"
  by (simp add: update_nth_def nth_list_update)

lemma nth_update_nth_neq [simp]: "i \<noteq> j \<Longrightarrow> update_nth i f xs ! j = xs ! j"
  by (simp add: update_nth_def)

lemma nth_update_nth_eq [simp]: "i < length xs \<Longrightarrow> update_nth i f xs ! i = f (xs ! i)"
  by (simp add: update_nth_def)

lemma map_update_nth_same: "(\<And>x. g (f x) = g x) \<Longrightarrow> map g (update_nth i f xs) = map g xs"
  by (rule nth_equalityI) (auto simp: nth_update_nth)

lemma update_nth_update_nth:
  "update_nth i f (update_nth i g xs) = update_nth i (\<lambda>x. f (g x)) xs"
  by (simp add: update_nth_def)

end
