(* ===== verification/Float64.thy ===== *)
theory Float64
  imports Complex_Main Prelude
begin

text \<open>
  C's \<open>double\<close>: IEEE 754 binary64 with round-to-nearest-even. A finite value is a sign, a
  mantissa \<open>m\<close> and an exponent \<open>e\<close> standing for \<open>m * 2 ^ e\<close>, canonical when \<open>m < 2 ^ 53\<close>,
  \<open>-1074 \<le> e \<le> 971\<close> and \<open>m\<close> has its top bit set unless \<open>e = -1074\<close>. A NaN keeps its sign (printf
  shows it) and drops its payload (nothing in the program can observe it); an invalid
  operation produces the negative NaN of x86-64. All operations round one exact rational.
\<close>

datatype double = DNaN bool | DInf bool | DFin bool int int

fun wf_double :: "double \<Rightarrow> bool" where
  "wf_double (DFin s m e) \<longleftrightarrow> 0 \<le> m \<and> m < 2 ^ 53 \<and> -1074 \<le> e \<and> e \<le> 971
     \<and> (2 ^ 52 \<le> m \<or> e = -1074)"
| "wf_double _ \<longleftrightarrow> True"

function bl :: "int \<Rightarrow> nat" where
  \<comment> \<open>bit length\<close>
  "bl x = (if x \<le> 0 then 0 else Suc (bl (x div 2)))"
  by pat_completeness auto
termination
  by (relation "measure nat") auto

declare bl.simps [simp del]

lemma bl_upper: "x < 2 ^ bl x"
proof (induction x rule: bl.induct)
  case (1 x)
  show ?case
  proof (cases "x \<le> 0")
    case True
    then show ?thesis by (simp add: bl.simps [of x])
  next
    case False
    then have "x div 2 < 2 ^ bl (x div 2)" by (rule "1.IH")
    with False show ?thesis by (simp add: bl.simps [of x])
  qed
qed

lemma bl_lower: "0 < x \<Longrightarrow> 2 ^ bl x \<le> 2 * x"
proof (induction x rule: bl.induct)
  case (1 x)
  show ?case
  proof (cases "x = 1")
    case True
    then show ?thesis by (simp add: bl.simps [of 1] bl.simps [of 0])
  next
    case False
    with "1.prems" have "2 ^ bl (x div 2) \<le> 2 * (x div 2)" by (intro "1.IH") auto
    with "1.prems" show ?thesis by (simp add: bl.simps [of x])
  qed
qed

lemma bl_pos: "0 < x \<Longrightarrow> 0 < bl x"
  by (simp add: bl.simps [of x])

text \<open>Division rounded to the nearest integer, ties to even.\<close>

definition rne :: "int \<Rightarrow> int \<Rightarrow> int" where
  "rne num den = (let q = num div den; r = num mod den
     in if 2 * r > den \<or> (2 * r = den \<and> odd q) then q + 1 else q)"

lemma rne_1 [simp]: "rne n 1 = n"
  by (simp add: rne_def Let_def)

lemma rne_nonneg: "0 \<le> n \<Longrightarrow> 0 < d \<Longrightarrow> 0 \<le> rne n d"
  by (simp add: rne_def Let_def pos_imp_zdiv_nonneg_iff)

lemma rne_upper: "0 < d \<Longrightarrow> n < d * k \<Longrightarrow> rne n d \<le> k"
proof -
  assume d: "0 < d" and n: "n < d * k"
  have "d * (n div d) \<le> n" using d by (simp add: minus_mod_eq_mult_div [symmetric])
  with n have "d * (n div d) < d * k" by simp
  with d have "n div d < k" by simp
  then show ?thesis by (auto simp: rne_def Let_def)
qed

lemma rne_lower: "0 < d \<Longrightarrow> d * k \<le> n \<Longrightarrow> k \<le> rne n d"
proof -
  assume d: "0 < d" and "d * k \<le> n"
  then have "k \<le> n div d"
    by (metis nonzero_mult_div_cancel_left order_less_irrefl zdiv_mono1)
  then show ?thesis by (auto simp: rne_def Let_def)
qed

lemma rne_exact: "0 < d \<Longrightarrow> rne (d * k) d = k"
  by (simp add: rne_def Let_def)

text \<open>\<open>floor (log2 (n / d))\<close> for positive \<open>n\<close> and \<open>d\<close>.\<close>

definition flog2 :: "int \<Rightarrow> int \<Rightarrow> int" where
  "flog2 n d = (let L = int (bl n) - int (bl d)
     in if (if 0 \<le> L then d * 2 ^ nat L \<le> n else d \<le> n * 2 ^ nat (- L)) then L else L - 1)"

text \<open>The double nearest to \<open>(-1)^s * (n / d) * 2^k\<close>.\<close>

definition dround :: "bool \<Rightarrow> int \<Rightarrow> int \<Rightarrow> int \<Rightarrow> double" where
  "dround s n d k =
    (if n = 0 then DFin s 0 (-1074)
     else let e = max (flog2 n d + k - 52) (-1074); sh = e - k;
              q = (if 0 \<le> sh then rne n (d * 2 ^ nat sh) else rne (n * 2 ^ nat (- sh)) d);
              q' = (if q = 2 ^ 53 then 2 ^ 52 else q); e' = (if q = 2 ^ 53 then e + 1 else e)
          in if 971 < e' then DInf s else DFin s q' e')"

text \<open>Conversions from and to integers; a cast that does not fit gives the processor's
  ``integer indefinite'' value, the smallest \<open>long long\<close>.\<close>

definition d_of_int :: "int \<Rightarrow> double" where
  "d_of_int i = dround (i < 0) \<bar>i\<bar> 1 0"

definition d_of_ll :: "llong \<Rightarrow> double" where
  "d_of_ll x = d_of_int (sint x)"

fun d_trunc :: "double \<Rightarrow> int option" where
  "d_trunc (DFin s m e) =
     (let v = (if 0 \<le> e then m * 2 ^ nat e else m div 2 ^ nat (- e))
      in Some (if s then - v else v))"
| "d_trunc _ = None"

definition ll_min :: llong where
  "ll_min = 0x8000000000000000"

definition d_to_ll :: "double \<Rightarrow> llong" where
  "d_to_ll x = (case d_trunc x of None \<Rightarrow> ll_min
     | Some v \<Rightarrow> if - (2 ^ 63) \<le> v \<and> v < 2 ^ 63 then word_of_int v else ll_min)"

subsection \<open>Arithmetic\<close>

definition d_zero :: double where "d_zero = DFin False 0 (-1074)"
definition d_one :: double where "d_one = DFin False (2 ^ 52) (-52)"

fun d_neg :: "double \<Rightarrow> double" where
  "d_neg (DNaN s) = DNaN (\<not> s)"
| "d_neg (DInf s) = DInf (\<not> s)"
| "d_neg (DFin s m e) = DFin (\<not> s) m e"

fun d_sign :: "double \<Rightarrow> bool" where
  "d_sign (DNaN s) = s" | "d_sign (DInf s) = s" | "d_sign (DFin s m e) = s"

text \<open>A finite value over a common exponent, with its sign.\<close>

definition smant :: "bool \<Rightarrow> int \<Rightarrow> int \<Rightarrow> int \<Rightarrow> int" where
  "smant s m e e0 = (if s then - 1 else 1) * m * 2 ^ nat (e - e0)"

fun d_add :: "double \<Rightarrow> double \<Rightarrow> double" where
  "d_add (DNaN s) y = DNaN s"
| "d_add x (DNaN s) = DNaN s"
| "d_add (DInf s) (DInf t) = (if s = t then DInf s else DNaN True)"
| "d_add (DInf s) y = DInf s"
| "d_add x (DInf t) = DInf t"
| "d_add (DFin s m e) (DFin t n f) =
    (let k = min e f; v = smant s m e k + smant t n f k
     in if v = 0 then DFin (s \<and> t) 0 (-1074) else dround (v < 0) \<bar>v\<bar> 1 k)"

definition d_sub :: "double \<Rightarrow> double \<Rightarrow> double" where
  "d_sub x y = (case x of DNaN s \<Rightarrow> DNaN s
     | _ \<Rightarrow> (case y of DNaN t \<Rightarrow> DNaN t | _ \<Rightarrow> d_add x (d_neg y)))"

fun d_mul :: "double \<Rightarrow> double \<Rightarrow> double" where
  "d_mul (DNaN s) y = DNaN s"
| "d_mul x (DNaN s) = DNaN s"
| "d_mul (DInf s) (DInf t) = DInf (s \<noteq> t)"
| "d_mul (DInf s) (DFin t n f) = (if n = 0 then DNaN True else DInf (s \<noteq> t))"
| "d_mul (DFin s m e) (DInf t) = (if m = 0 then DNaN True else DInf (s \<noteq> t))"
| "d_mul (DFin s m e) (DFin t n f) = dround (s \<noteq> t) (m * n) 1 (e + f)"

fun d_div :: "double \<Rightarrow> double \<Rightarrow> double" where
  "d_div (DNaN s) y = DNaN s"
| "d_div x (DNaN s) = DNaN s"
| "d_div (DInf s) (DInf t) = DNaN True"
| "d_div (DInf s) (DFin t n f) = DInf (s \<noteq> t)"
| "d_div (DFin s m e) (DInf t) = DFin (s \<noteq> t) 0 (-1074)"
| "d_div (DFin s m e) (DFin t n f) =
    (if n = 0 then (if m = 0 then DNaN True else DInf (s \<noteq> t))
     else dround (s \<noteq> t) m n (e - f))"

fun d_abs :: "double \<Rightarrow> double" where
  "d_abs (DNaN s) = DNaN False" | "d_abs (DInf s) = DInf False"
| "d_abs (DFin s m e) = DFin False m e"

text \<open>Comparisons: false when an operand is a NaN.\<close>

fun d_lt :: "double \<Rightarrow> double \<Rightarrow> bool" where
  "d_lt (DNaN s) y = False"
| "d_lt x (DNaN s) = False"
| "d_lt (DInf s) (DInf t) = (s \<and> \<not> t)"
| "d_lt (DInf s) (DFin t n f) = s"
| "d_lt (DFin s m e) (DInf t) = (\<not> t)"
| "d_lt (DFin s m e) (DFin t n f) =
    (let k = min e f in smant s m e k < smant t n f k)"

fun d_eq :: "double \<Rightarrow> double \<Rightarrow> bool" where
  "d_eq (DNaN s) y = False"
| "d_eq x (DNaN s) = False"
| "d_eq (DInf s) (DInf t) = (s = t)"
| "d_eq (DInf s) (DFin t n f) = False"
| "d_eq (DFin s m e) (DInf t) = False"
| "d_eq (DFin s m e) (DFin t n f) =
    (let k = min e f in smant s m e k = smant t n f k)"

definition d_le :: "double \<Rightarrow> double \<Rightarrow> bool" where
  "d_le x y \<longleftrightarrow> d_lt x y \<or> d_eq x y"

definition d_is_zero :: "double \<Rightarrow> bool" where
  \<comment> \<open>\<open>x == 0\<close>\<close>
  "d_is_zero x \<longleftrightarrow> d_eq x d_zero"

text \<open>\<open>floor\<close> and \<open>ceil\<close> of the C library.\<close>

fun d_floor :: "double \<Rightarrow> double" where
  "d_floor (DFin s m e) = (if 0 \<le> e then DFin s m e
     else let v = (if s then - ((m + 2 ^ nat (- e) - 1) div 2 ^ nat (- e)) else m div 2 ^ nat (- e))
          in if v = 0 then DFin s 0 (-1074) else d_of_int v)"
| "d_floor x = x"

definition d_ceil :: "double \<Rightarrow> double" where
  "d_ceil x = d_neg (d_floor (d_neg x))"

subsection \<open>The bit pattern of a double\<close>

definition double_of_bits :: "llong \<Rightarrow> double" where
  "double_of_bits w = (let v = uint w; s = (2 ^ 63 \<le> v); x = (v div 2 ^ 52) mod 2 ^ 11;
       f = v mod 2 ^ 52
     in if x = 2047 then (if f = 0 then DInf s else DNaN s)
        else if x = 0 then DFin s f (-1074) else DFin s (f + 2 ^ 52) (x - 1075))"

fun bits_of_double :: "double \<Rightarrow> llong" where
  "bits_of_double (DNaN s) = word_of_int ((if s then 2 ^ 63 else 0) + 2047 * 2 ^ 52 + 2 ^ 51)"
| "bits_of_double (DInf s) = word_of_int ((if s then 2 ^ 63 else 0) + 2047 * 2 ^ 52)"
| "bits_of_double (DFin s m e) = word_of_int ((if s then 2 ^ 63 else 0) +
     (if m < 2 ^ 52 then m else (e + 1075) * 2 ^ 52 + (m - 2 ^ 52)))"

subsection \<open>Rounding is canonical, small integers are exact\<close>

lemma powi_neg: "L < 0 \<Longrightarrow> (2::real) powi L = 1 / 2 ^ nat (- L)"
  by (simp add: power_int_def inverse_eq_divide power_one_over)

lemma flog2_ge:
  assumes "0 < n" "0 < d"
  shows "2 powi flog2 n d \<le> real_of_int n / real_of_int d"
    and "real_of_int n / real_of_int d < 2 powi (flog2 n d + 1)"
proof -
  let ?L = "int (bl n) - int (bl d)"
  have bnd: "2 ^ bl x \<le> 2 * real_of_int x \<and> real_of_int x < 2 ^ bl x" if "0 < x" for x
  proof -
    have "real_of_int (2 ^ bl x) \<le> real_of_int (2 * x)" "real_of_int x < real_of_int (2 ^ bl x)"
      using bl_lower [OF that] bl_upper [of x] by (simp_all only: of_int_le_iff of_int_less_iff)
    then show ?thesis by simp
  qed
  note n = conjunct1 [OF bnd [OF assms(1)]] conjunct2 [OF bnd [OF assms(1)]]
  note d = conjunct1 [OF bnd [OF assms(2)]] conjunct2 [OF bnd [OF assms(2)]]
  have dpos: "0 < real_of_int d" using assms by simp
  have pw: "2 powi ?L = (2::real) ^ bl n / 2 ^ bl d"
    by (simp add: power_int_diff)
  have up: "real_of_int n / real_of_int d < 2 * 2 powi ?L"
  proof -
    have "real_of_int n * 2 ^ bl d < 2 ^ bl n * (2 * real_of_int d)"
      using n(2) d(1) assms by (intro mult_less_le_imp_less) auto
    then show ?thesis unfolding pw using dpos by (simp add: field_simps)
  qed
  have lo: "2 powi ?L / 2 \<le> real_of_int n / real_of_int d"
  proof -
    have "2 ^ bl n * real_of_int d \<le> (2 * real_of_int n) * 2 ^ bl d"
      using n(1) d(2) assms by (intro mult_mono) auto
    then show ?thesis unfolding pw using dpos by (simp add: field_simps)
  qed
  have test: "(if 0 \<le> ?L then d * 2 ^ nat ?L \<le> n else d \<le> n * 2 ^ nat (- ?L))
      \<longleftrightarrow> 2 powi ?L \<le> real_of_int n / real_of_int d"
  proof (cases "0 \<le> ?L")
    case True
    then have "(2::real) powi ?L = 2 ^ nat ?L" by (simp add: power_int_def)
    moreover have "d * 2 ^ nat ?L \<le> n \<longleftrightarrow> real_of_int d * 2 ^ nat ?L \<le> real_of_int n"
      by (subst of_int_le_iff [where 'a = real, symmetric]) simp
    ultimately show ?thesis using True dpos by (simp add: field_simps)
  next
    case False
    then have pl: "(2::real) powi ?L = 1 / 2 ^ nat (- ?L)"
      using powi_neg [of ?L] by simp
    have "d \<le> n * 2 ^ nat (- ?L) \<longleftrightarrow> real_of_int d \<le> real_of_int n * 2 ^ nat (- ?L)"
      by (subst of_int_le_iff [where 'a = real, symmetric]) simp
    then show ?thesis using False dpos unfolding pl by (simp add: field_simps)
  qed
  show "2 powi flog2 n d \<le> real_of_int n / real_of_int d"
    using test lo by (auto simp: flog2_def Let_def power_int_diff)
  show "real_of_int n / real_of_int d < 2 powi (flog2 n d + 1)"
    using test up by (auto simp: flog2_def Let_def power_int_diff power_int_add mult.commute)
qed

text \<open>The quotient that \<open>dround\<close> rounds, in the reals.\<close>

definition dround_q :: "int \<Rightarrow> int \<Rightarrow> int \<Rightarrow> int" where
  "dround_q n d sh = (if 0 \<le> sh then rne n (d * 2 ^ nat sh) else rne (n * 2 ^ nat (- sh)) d)"

lemma dround_q_bounds:
  assumes "0 < n" "0 < d"
  shows "of_int k \<le> real_of_int n / real_of_int d * 2 powi (- sh) \<Longrightarrow> k \<le> dround_q n d sh"
    and "real_of_int n / real_of_int d * 2 powi (- sh) < of_int k \<Longrightarrow> dround_q n d sh \<le> k"
proof -
  define num where "num = (if 0 \<le> sh then n else n * 2 ^ nat (- sh))"
  define den where "den = (if 0 \<le> sh then d * 2 ^ nat sh else d)"
  have den: "0 < den" using assms by (simp add: den_def)
  have q: "dround_q n d sh = rne num den" by (simp add: dround_q_def num_def den_def)
  have v: "real_of_int n / real_of_int d * 2 powi (- sh) = real_of_int num / real_of_int den"
    by (auto simp: num_def den_def power_int_def field_simps)
  show "k \<le> dround_q n d sh" if "of_int k \<le> real_of_int n / real_of_int d * 2 powi (- sh)"
  proof -
    have "real_of_int den * of_int k \<le> real_of_int num"
      using that den unfolding v by (simp add: field_simps)
    then have "real_of_int (den * k) \<le> real_of_int num" by simp
    then have "den * k \<le> num" by (simp only: of_int_le_iff)
    with den show ?thesis unfolding q by (rule rne_lower)
  qed
  show "dround_q n d sh \<le> k" if "real_of_int n / real_of_int d * 2 powi (- sh) < of_int k"
  proof -
    have "real_of_int num < real_of_int den * of_int k"
      using that den unfolding v by (simp add: field_simps)
    then have "real_of_int num < real_of_int (den * k)" by simp
    then have "num < den * k" by (simp only: of_int_less_iff)
    with den show ?thesis unfolding q by (rule rne_upper)
  qed
qed

lemma wf_dround:
  assumes "0 \<le> n" "0 < d"
  shows "wf_double (dround s n d k)"
proof (cases "n = 0")
  case True
  then show ?thesis by (simp add: dround_def)
next
  case False
  with assms have n: "0 < n" by simp
  define e where "e = max (flog2 n d + k - 52) (-1074)"
  define q where "q = dround_q n d (e - k)"
  let ?v = "real_of_int n / real_of_int d"
  have eq: "dround s n d k = (let q' = (if q = 2 ^ 53 then 2 ^ 52 else q);
      e' = (if q = 2 ^ 53 then e + 1 else e) in if 971 < e' then DInf s else DFin s q' e')"
    using False unfolding dround_def q_def dround_q_def e_def [symmetric] Let_def by simp
  have up: "q \<le> 2 ^ 53"
  proof -
    have "?v * 2 powi (- (e - k)) < 2 powi (flog2 n d + 1) * 2 powi (- (e - k))"
      using flog2_ge(2) [OF n assms(2)] by (intro mult_strict_right_mono) auto
    also have "\<dots> = 2 powi (flog2 n d + 1 + - (e - k))"
      by (rule power_int_add [symmetric]) simp
    also have "\<dots> \<le> 2 powi 53"
      by (rule power_int_increasing) (auto simp: e_def)
    finally show ?thesis unfolding q_def
      by (intro dround_q_bounds(2) [OF n assms(2)]) simp
  qed
  have lo: "0 \<le> q"
    unfolding q_def by (rule dround_q_bounds(1) [OF n assms(2)]) (use n assms in simp)
  have lo2: "2 ^ 52 \<le> q" if "e \<noteq> - 1074"
  proof -
    have e: "e = flog2 n d + k - 52" using that by (auto simp: e_def max_def split: if_splits)
    have "(2::real) powi 52 = 2 powi flog2 n d * 2 powi (- (e - k))"
      by (simp add: e flip: power_int_add)
    also have "\<dots> \<le> ?v * 2 powi (- (e - k))"
      using flog2_ge(1) [OF n assms(2)] by (intro mult_right_mono) auto
    finally show ?thesis unfolding q_def
      by (intro dround_q_bounds(1) [OF n assms(2)]) simp
  qed
  have "-1074 \<le> e" by (simp add: e_def)
  with up lo lo2 show ?thesis by (auto simp: eq Let_def)
qed

lemma d_of_int_exact:
  assumes "\<bar>i\<bar> < 2 ^ 53"
  shows "d_trunc (d_of_int i) = Some i"
proof (cases "i = 0")
  case True
  then show ?thesis by (simp add: d_of_int_def dround_def)
next
  case False
  define n where "n = \<bar>i\<bar>"
  have n: "0 < n" using False by (simp add: n_def)
  define L where "L = flog2 n 1"
  have l1: "2 powi L \<le> real_of_int n" and l2: "real_of_int n < 2 powi (L + 1)"
    using flog2_ge [OF n, of 1] by (simp_all add: L_def)
  have L0: "0 \<le> L"
  proof (rule ccontr)
    assume "\<not> 0 \<le> L"
    then have "(2::real) powi (L + 1) \<le> 2 powi 0" by (intro power_int_increasing) auto
    with l2 n show False by simp
  qed
  have L52: "L \<le> 52"
  proof (rule ccontr)
    assume "\<not> L \<le> 52"
    then have "(2::real) powi 53 \<le> 2 powi L" by (intro power_int_increasing) auto
    also have "\<dots> \<le> real_of_int n" by (rule l1)
    finally have "real_of_int (2 ^ 53) \<le> real_of_int n" by simp
    then have "2 ^ 53 \<le> n" by (simp only: of_int_le_iff)
    with assms show False by (simp add: n_def)
  qed
  define p where "p = nat (52 - L)"
  have Lp: "L - 52 = - int p" using L52 by (simp add: p_def)
  have q: "n * 2 ^ p < 2 ^ 53"
  proof -
    have "real_of_int n * 2 powi int p < 2 powi (L + 1) * 2 powi int p"
      using l2 by (intro mult_strict_right_mono) auto
    also have "\<dots> = 2 powi (L + 1 + int p)"
      by (rule power_int_add [symmetric]) simp
    also have "\<dots> = 2 powi 53" using Lp by (intro arg_cong [where f = "\<lambda>x. 2 powi x"]) simp
    finally have "real_of_int (n * 2 ^ p) < real_of_int (2 ^ 53)" by (simp add: power_int_def)
    then show ?thesis unfolding of_int_less_iff .
  qed
  have dr: "dround s n 1 0 = DFin s (n * 2 ^ p) (- int p)" for s
    using n q L0 Lp unfolding dround_def L_def [symmetric]
    by (cases "p = 0") (auto simp: Let_def max_def)
  have "d_of_int i = DFin (i < 0) (n * 2 ^ p) (- int p)"
    by (simp add: d_of_int_def n_def [symmetric] dr)
  then show ?thesis using False
    by (cases "p = 0") (auto simp: n_def Let_def)
qed

lemma d_to_ll_of_ll:
  assumes "\<bar>sint x\<bar> < 2 ^ 53"
  shows "d_to_ll (d_of_ll x) = x"
proof -
  have "- (2 ^ 63) \<le> sint x \<and> sint x < 2 ^ 63" using assms by (simp add: abs_less_iff)
  then show ?thesis using assms by (simp add: d_to_ll_def d_of_ll_def d_of_int_exact)
qed


subsection \<open>The bit pattern determines a canonical double\<close>

lemma double_of_bits_of_int:
  assumes "0 \<le> f" "f < 2 ^ 52" "0 \<le> x" "x < 2048"
  shows "double_of_bits (word_of_int ((if s then 2 ^ 63 else 0) + (x * 2 ^ 52 + f))) =
    (if x = 2047 then (if f = 0 then DInf s else DNaN s)
     else if x = 0 then DFin s f (-1074) else DFin s (f + 2 ^ 52) (x - 1075))"
proof -
  define y where "y = x * 2 ^ 52 + f"
  define v where "v = (if s then 2 ^ 63 else 0) + y"
  have y: "0 \<le> y" "y < 2 ^ 63" using assms by (auto simp: y_def)
  have v: "0 \<le> v" "v < 2 ^ 64" using y by (auto simp: v_def)
  have u: "uint (word_of_int v :: llong) = v"
    using v by (simp add: uint_word_of_int take_bit_eq_mod)
  have s: "2 ^ 63 \<le> v \<longleftrightarrow> s" using y by (auto simp: v_def)
  have yd: "y div 2 ^ 52 = x" using assms by (simp add: y_def)
  have d: "v div 2 ^ 52 = (if s then 2048 else 0) + x"
  proof -
    have "v = y + (if s then 2048 else 0) * 2 ^ 52" by (simp add: v_def)
    then have "v div 2 ^ 52 = (if s then 2048 else 0) + y div 2 ^ 52" by simp
    with yd show ?thesis by simp
  qed
  have x: "(v div 2 ^ 52) mod 2 ^ 11 = x" unfolding d using assms by (cases s) auto
  have f: "v mod 2 ^ 52 = f"
  proof -
    define c where "c = (if s then 2048 else 0) + x"
    have "v = f + c * 2 ^ 52" by (simp add: v_def y_def c_def algebra_simps)
    then show ?thesis using assms by simp
  qed
  show ?thesis
    unfolding double_of_bits_def y_def [symmetric] v_def [symmetric] u Let_def s x f by simp
qed

lemma double_of_bits_of_double:
  assumes "wf_double x"
  shows "double_of_bits (bits_of_double x) = x"
proof (cases x)
  case (DNaN s)
  then show ?thesis using double_of_bits_of_int [of "2 ^ 51" 2047 s] by (cases s) simp_all
next
  case (DInf s)
  then show ?thesis using double_of_bits_of_int [of 0 2047 s] by simp
next
  case (DFin s m e)
  show ?thesis
  proof (cases "m < 2 ^ 52")
    case True
    with DFin assms have "e = -1074" "0 \<le> m" by auto
    with True DFin show ?thesis using double_of_bits_of_int [of m 0 s] by simp
  next
    case False
    with DFin assms have "0 \<le> m - 2 ^ 52" "m - 2 ^ 52 < 2 ^ 52" "1 \<le> e + 1075" "e + 1075 < 2047"
      by auto
    with False DFin show ?thesis
      using double_of_bits_of_int [of "m - 2 ^ 52" "e + 1075" s] by simp
  qed
qed

end
