(* ===== verification/CLib.thy ===== *)
theory CLib
  imports Float64
begin

text \<open>
  The part of the C standard library the program calls on text: character classes (C locale),
  \<open>strcmp\<close>, \<open>strchr\<close>, \<open>strstr\<close>, the number readers \<open>strtoll\<close>, \<open>atoi\<close>, \<open>strtod\<close>, the vector
  patterns of \<open>sscanf\<close>, and the conversions of \<open>printf\<close> the sources use. A C string is the
  HOL string of its bytes before the terminating NUL.
\<close>

definition cstr :: "string \<Rightarrow> string" where
  \<comment> \<open>the C string a byte buffer holds: what lies before its first NUL\<close>
  "cstr bs = takeWhile (\<lambda>c. c \<noteq> CHR 0x00) bs"

definition c_string :: "string \<Rightarrow> bool" where
  "c_string s \<longleftrightarrow> CHR 0x00 \<notin> set s"

lemma c_string_cstr [simp]: "c_string (cstr s)"
  by (auto simp: c_string_def cstr_def dest: set_takeWhileD)

lemma cstr_id [simp]: "c_string s \<Longrightarrow> cstr s = s"
  unfolding c_string_def cstr_def by (induction s) auto

lemma c_string_simps [simp]:
  "c_string []" "c_string (c # s) \<longleftrightarrow> c \<noteq> CHR 0x00 \<and> c_string s"
  "c_string (s @ t) \<longleftrightarrow> c_string s \<and> c_string t"
  by (auto simp: c_string_def)

subsection \<open>Characters\<close>

definition ord_char :: "char \<Rightarrow> nat" where
  "ord_char c = of_char c"

definition isspace :: "char \<Rightarrow> bool" where
  "isspace c \<longleftrightarrow> c = CHR '' '' \<or> (9 \<le> ord_char c \<and> ord_char c \<le> 13)"

definition isdigit :: "char \<Rightarrow> bool" where
  "isdigit c \<longleftrightarrow> 48 \<le> ord_char c \<and> ord_char c \<le> 57"

definition isupper :: "char \<Rightarrow> bool" where
  "isupper c \<longleftrightarrow> 65 \<le> ord_char c \<and> ord_char c \<le> 90"

definition islower :: "char \<Rightarrow> bool" where
  "islower c \<longleftrightarrow> 97 \<le> ord_char c \<and> ord_char c \<le> 122"

definition isalnum :: "char \<Rightarrow> bool" where
  "isalnum c \<longleftrightarrow> isdigit c \<or> isupper c \<or> islower c"

definition tolower :: "char \<Rightarrow> char" where
  "tolower c = (if isupper c then char_of (ord_char c + 32) else c)"

definition toupper :: "char \<Rightarrow> char" where
  "toupper c = (if islower c then char_of (ord_char c - 32) else c)"

definition is_blank :: "char \<Rightarrow> bool" where
  \<comment> \<open>the separators of the line formats: space and tab\<close>
  "is_blank c \<longleftrightarrow> c = CHR '' '' \<or> c = CHR 0x09"

subsection \<open>Comparing and searching\<close>

fun str_lt :: "string \<Rightarrow> string \<Rightarrow> bool" where
  \<comment> \<open>\<open>strcmp(a, b) < 0\<close>\<close>
  "str_lt _ [] = False"
| "str_lt [] (_ # _) = True"
| "str_lt (a # as) (b # bs) =
     (ord_char a < ord_char b \<or> (a = b \<and> str_lt as bs))"

fun is_prefix :: "string \<Rightarrow> string \<Rightarrow> bool" where
  "is_prefix [] _ = True"
| "is_prefix (_ # _) [] = False"
| "is_prefix (p # ps) (c # cs) = (p = c \<and> is_prefix ps cs)"

fun strstr :: "string \<Rightarrow> string \<Rightarrow> nat option" where
  \<comment> \<open>\<open>strstr(h, p)\<close> as an offset into \<open>h\<close>\<close>
  "strstr [] p = (if p = [] then Some 0 else None)"
| "strstr (c # h) p = (if is_prefix p (c # h) then Some 0 else map_option Suc (strstr h p))"

definition has_substr :: "string \<Rightarrow> string \<Rightarrow> bool" where
  "has_substr h p \<longleftrightarrow> strstr h p \<noteq> None"

lemma is_prefix_iff: "is_prefix p s \<longleftrightarrow> (\<exists>t. s = p @ t)"
  by (induction p s rule: is_prefix.induct) auto

lemma strstr_Some:
  "strstr h p = Some i \<Longrightarrow> i \<le> length h \<and> is_prefix p (drop i h) \<and>
     (\<forall>j < i. \<not> is_prefix p (drop j h))"
proof (induction h arbitrary: i)
  case Nil
  then show ?case by (auto split: if_splits)
next
  case (Cons c h)
  show ?case
  proof (cases "is_prefix p (c # h)")
    case True
    with Cons.prems show ?thesis by auto
  next
    case False
    with Cons.prems obtain k where k: "strstr h p = Some k" "i = Suc k" by auto
    have "\<not> is_prefix p (drop j (c # h))" if "j < i" for j
      using that False Cons.IH [OF k(1)] k(2) by (cases j) auto
    with Cons.IH [OF k(1)] k(2) show ?thesis by auto
  qed
qed

lemma strstr_None: "strstr h p = None \<longleftrightarrow> (\<nexists>u v. h = u @ p @ v)"
proof (induction h)
  case Nil
  then show ?case by auto
next
  case (Cons c h)
  have "(\<exists>u v. c # h = u @ p @ v) \<longleftrightarrow> is_prefix p (c # h) \<or> (\<exists>u v. h = u @ p @ v)"
  proof
    assume "\<exists>u v. c # h = u @ p @ v"
    then obtain u v where "c # h = u @ p @ v" by blast
    then show "is_prefix p (c # h) \<or> (\<exists>u v. h = u @ p @ v)"
      by (cases u) (auto simp: is_prefix_iff)
  next
    assume "is_prefix p (c # h) \<or> (\<exists>u v. h = u @ p @ v)"
    then show "\<exists>u v. c # h = u @ p @ v"
    proof
      assume "is_prefix p (c # h)"
      then obtain t where "c # h = p @ t" by (auto simp: is_prefix_iff)
      then have "c # h = [] @ p @ t" by simp
      then show ?thesis by blast
    next
      assume "\<exists>u v. h = u @ p @ v"
      then obtain u v where "h = u @ p @ v" by blast
      then have "c # h = (c # u) @ p @ v" by simp
      then show ?thesis by blast
    qed
  qed
  with Cons.IH show ?case by auto
qed

subsection \<open>Reading integers\<close>

definition digit_val :: "char \<Rightarrow> nat option" where
  "digit_val c = (if isdigit c then Some (ord_char c - 48)
     else if islower c then Some (ord_char c - 87)
     else if isupper c then Some (ord_char c - 55) else None)"

fun read_digits :: "nat \<Rightarrow> string \<Rightarrow> nat \<Rightarrow> nat" where
  "read_digits base [] acc = acc"
| "read_digits base (c # s) acc =
     (case digit_val c of None \<Rightarrow> acc
      | Some d \<Rightarrow> if d < base then read_digits base s (acc * base + d) else acc)"

fun read_sign :: "string \<Rightarrow> bool \<times> string" where
  "read_sign (c # s) = (if c = CHR ''-'' then (True, s) else if c = CHR ''+'' then (False, s)
     else (False, c # s))"
| "read_sign [] = (False, [])"

fun is_hex_digit :: "char \<Rightarrow> bool" where
  "is_hex_digit c = (case digit_val c of None \<Rightarrow> False | Some d \<Rightarrow> d < 16)"

fun has_hex_prefix :: "string \<Rightarrow> bool" where
  "has_hex_prefix (z # x # d # s) = (z = CHR ''0'' \<and> (x = CHR ''x'' \<or> x = CHR ''X'') \<and> is_hex_digit d)"
| "has_hex_prefix _ = False"

definition clamp_ll :: "int \<Rightarrow> llong" where
  \<comment> \<open>\<open>LLONG_MIN\<close> and \<open>LLONG_MAX\<close> on overflow\<close>
  "clamp_ll i = (if i < - (2 ^ 63) then word_of_int (- (2 ^ 63))
     else if 2 ^ 63 \<le> i then word_of_int (2 ^ 63 - 1) else word_of_int i)"

definition strtoll :: "nat \<Rightarrow> string \<Rightarrow> llong" where
  \<comment> \<open>\<open>strtoll(s, NULL, base)\<close> for base 0 and base 10\<close>
  "strtoll base s = (case read_sign (dropWhile isspace s) of (neg, t) \<Rightarrow>
     let v = (if base = 0 then
                if has_hex_prefix t then read_digits 16 (drop 2 t) 0
                else if t \<noteq> [] \<and> hd t = CHR ''0'' then read_digits 8 t 0
                else read_digits 10 t 0
              else read_digits base t 0)
     in clamp_ll (if neg then - int v else int v))"

definition atoi :: "string \<Rightarrow> int" where
  "atoi s = int_of_ll (strtoll 10 s)"

subsection \<open>Printing integers\<close>

fun show_nat :: "nat \<Rightarrow> string" where
  "show_nat n = (if n < 10 then [''0123456789'' ! n]
     else show_nat (n div 10) @ [''0123456789'' ! (n mod 10)])"

declare show_nat.simps [simp del]

definition show_int :: "int \<Rightarrow> string" where
  "show_int i = (if i < 0 then CHR ''-'' # show_nat (nat (- i)) else show_nat (nat i))"

definition show_ll :: "llong \<Rightarrow> string" where
  \<comment> \<open>\<open>%lld\<close>\<close>
  "show_ll x = show_int (sint x)"

definition pad_zero :: "nat \<Rightarrow> string \<Rightarrow> string" where
  "pad_zero k s = replicate (k - length s) (CHR ''0'') @ s"

definition pad_right :: "nat \<Rightarrow> string \<Rightarrow> string" where
  \<comment> \<open>\<open>%-7s\<close> and its kin\<close>
  "pad_right k s = s @ replicate (k - length s) (CHR '' '')"

fun show_hex :: "nat \<Rightarrow> string" where
  "show_hex n = (if n < 16 then [''0123456789abcdef'' ! n]
     else show_hex (n div 16) @ [''0123456789abcdef'' ! (n mod 16)])"

declare show_hex.simps [simp del]

text \<open>\<open>%.pf\<close>: the exact value rounded to \<open>p\<close> decimals, ties to even.\<close>

fun show_fixed :: "nat \<Rightarrow> double \<Rightarrow> string" where
  "show_fixed p (DNaN s) = (if s then ''-nan'' else ''nan'')"
| "show_fixed p (DInf s) = (if s then ''-inf'' else ''inf'')"
| "show_fixed p (DFin s m e) =
    (let n = nat (if 0 \<le> e then m * 2 ^ nat e * 10 ^ p else rne (m * 10 ^ p) (2 ^ nat (- e)))
     in (if s then ''-'' else '''') @ show_nat (n div 10 ^ p) @ ''.'' @
        pad_zero p (show_nat (n mod 10 ^ p)))"

subsection \<open>Reading floating-point numbers\<close>

text \<open>
  \<open>strtod\<close>: the value and the rest of the text, or \<open>None\<close> when no conversion can be made
  (the C function then returns 0). The scanning \<open>%lf\<close> of \<open>sscanf\<close> uses the same reader; it
  differs from the library only on inputs such as \<open>1e>\<close>, where \<open>sscanf\<close> gives up and
  \<open>strtod\<close> backs off to the mantissa.
\<close>

fun span_digits :: "nat \<Rightarrow> string \<Rightarrow> string \<times> string" where
  "span_digits base [] = ([], [])"
| "span_digits base (c # s) = (case digit_val c of None \<Rightarrow> ([], c # s)
     | Some d \<Rightarrow> if d < base then (case span_digits base s of (u, v) \<Rightarrow> (c # u, v)) else ([], c # s))"

definition read_exponent :: "char \<Rightarrow> string \<Rightarrow> int \<times> string" where
  "read_exponent mark s = (case s of
     [] \<Rightarrow> (0, s)
   | c # t \<Rightarrow> if tolower c = mark then
       (case read_sign t of (neg, u) \<Rightarrow>
         (case span_digits 10 u of (ds, v) \<Rightarrow>
           if ds = [] then (0, s)
           else ((if neg then - 1 else 1) * int (read_digits 10 ds 0), v)))
     else (0, s))"

definition read_mantissa :: "nat \<Rightarrow> string \<Rightarrow> (nat \<times> nat \<times> string) option" where
  \<comment> \<open>all digits as one number, how many of them follow the point, the rest\<close>
  "read_mantissa base s = (case span_digits base s of (u, t) \<Rightarrow>
     (case (case t of c # t' \<Rightarrow> if c = CHR ''.'' then span_digits base t' else ([], t)
            | [] \<Rightarrow> ([], t)) of (f, r) \<Rightarrow>
       if u = [] \<and> f = [] then None
       else Some (read_digits base (u @ f) 0, length f, r)))"

definition strtod_rest :: "string \<Rightarrow> (double \<times> string) option" where
  "strtod_rest s = (case read_sign (dropWhile isspace s) of (neg, t) \<Rightarrow>
     if is_prefix ''infinity'' (map tolower t) then Some (DInf neg, drop 8 t)
     else if is_prefix ''inf'' (map tolower t) then Some (DInf neg, drop 3 t)
     else if is_prefix ''nan'' (map tolower t) then Some (DNaN neg, drop 3 t)
     else if has_hex_prefix t then
       (case read_mantissa 16 (drop 2 t) of None \<Rightarrow> None
        | Some (m, k, r) \<Rightarrow> (case read_exponent (CHR ''p'') r of (x, r') \<Rightarrow>
            Some (dround neg (int m) 1 (x - 4 * int k), r')))
     else
       (case read_mantissa 10 t of None \<Rightarrow> None
        | Some (m, k, r) \<Rightarrow> (case read_exponent (CHR ''e'') r of (x, r') \<Rightarrow>
            let y = x - int k
            in Some (dround neg (int m * 10 ^ nat y) (10 ^ nat (- y)) 0, r'))))"

definition strtod :: "string \<Rightarrow> double" where
  "strtod s = (case strtod_rest s of None \<Rightarrow> d_zero | Some (x, r) \<Rightarrow> x)"

text \<open>\<open>sscanf(s, " < %lf , %lf , ... >", ...)\<close>: the numbers assigned before the first mismatch.\<close>

fun scan_numbers :: "nat \<Rightarrow> char \<Rightarrow> string \<Rightarrow> double list" where
  "scan_numbers 0 c s = []"
| "scan_numbers (Suc n) c s = (case dropWhile isspace s of
     [] \<Rightarrow> []
   | x # t \<Rightarrow> if x = c then
       (case strtod_rest t of None \<Rightarrow> [] | Some (v, r) \<Rightarrow> v # scan_numbers n (CHR '','') r)
     else [])"

definition scan_vector :: "nat \<Rightarrow> string \<Rightarrow> double list" where
  "scan_vector n s = scan_numbers n (CHR ''<'') s"

lemma wf_strtod: "wf_double (strtod s)"
proof -
  have "wf_double x" if "strtod_rest s = Some (x, r)" for x r
    using that unfolding strtod_rest_def Let_def
    by (auto simp: wf_dround simp del: is_prefix.simps has_hex_prefix.simps list.map
        split: if_split_asm option.split_asm prod.split_asm)
  then show ?thesis by (auto simp: strtod_def d_zero_def split: option.split)
qed

subsection \<open>Printing and reading back\<close>

definition is_dec :: "char \<Rightarrow> bool" where
  "is_dec c \<longleftrightarrow> (\<exists>d < 10. digit_val c = Some d)"

lemma lt_10_cases: "d < (10::nat) \<Longrightarrow> d = 0 \<or> d = 1 \<or> d = 2 \<or> d = 3 \<or> d = 4 \<or> d = 5 \<or> d = 6
    \<or> d = 7 \<or> d = 8 \<or> d = 9"
  by arith

lemma digit_val_nth: "d < 10 \<Longrightarrow> digit_val (''0123456789'' ! d) = Some d"
  by (drule lt_10_cases) (auto simp: digit_val_def isdigit_def ord_char_def)

lemma digit_char_0: "d < 10 \<Longrightarrow> ''0123456789'' ! d = CHR ''0'' \<longleftrightarrow> d = 0"
  by (drule lt_10_cases) auto

lemma read_digits_append:
  "list_all is_dec u \<Longrightarrow> read_digits 10 (u @ v) acc = read_digits 10 v (read_digits 10 u acc)"
  by (induction u arbitrary: acc) (auto simp: is_dec_def split: option.splits)

lemma is_dec_nth: "d < 10 \<Longrightarrow> is_dec (''0123456789'' ! d)"
  by (auto simp: is_dec_def digit_val_nth)

lemma show_nat_is_dec: "list_all is_dec (show_nat n)"
proof (induction n rule: show_nat.induct)
  case (1 n)
  then show ?case by (simp add: show_nat.simps [of n] is_dec_nth)
qed

lemma show_nat_nonempty [simp]: "show_nat n \<noteq> []"
  by (simp add: show_nat.simps [of n])

lemma read_digits_show_nat: "read_digits 10 (show_nat n) 0 = n"
proof (induction n rule: show_nat.induct)
  case (1 n)
  then show ?case
    by (auto simp: show_nat.simps [of n] digit_val_nth read_digits_append show_nat_is_dec)
qed

lemma hd_show_nat: "0 < n \<Longrightarrow> hd (show_nat n) \<noteq> CHR ''0''"
proof (induction n rule: show_nat.induct)
  case (1 n)
  show ?case
  proof (cases "n < 10")
    case True
    then have h: "hd (show_nat n) = ''0123456789'' ! n" by (simp add: show_nat.simps [of n])
    have "\<not> n = 0" using "1.prems" by simp
    then show ?thesis unfolding h digit_char_0 [OF True] .
  next
    case False
    with 1 show ?thesis by (simp add: show_nat.simps [of n])
  qed
qed

lemma is_dec_char: "is_dec c \<Longrightarrow> isdigit c"
  by (auto simp: is_dec_def digit_val_def islower_def isupper_def split: if_splits)

lemma isdigit_neq: "isdigit c \<Longrightarrow> c \<noteq> CHR ''-'' \<and> c \<noteq> CHR ''+'' \<and> \<not> isspace c
    \<and> c \<noteq> CHR ''x'' \<and> c \<noteq> CHR ''X'' \<and> c \<noteq> CHR 0x00 \<and> c \<noteq> CHR 0x0A \<and> c \<noteq> CHR 0x09"
  by (auto simp: isdigit_def isspace_def ord_char_def)

lemma show_nat_isdigit: "c \<in> set (show_nat n) \<Longrightarrow> isdigit c"
  using show_nat_is_dec [of n] by (auto simp: list_all_iff is_dec_char)

lemma show_nat_0: "show_nat 0 = ''0''"
  by (simp add: show_nat.simps)

lemma show_nat_no_hex: "\<not> has_hex_prefix (show_nat n)"
proof
  assume "has_hex_prefix (show_nat n)"
  then obtain a b s where s: "show_nat n = a # b # s" and "b = CHR ''x'' \<or> b = CHR ''X''"
    by (cases "show_nat n" rule: has_hex_prefix.cases) auto
  moreover have "isdigit b" by (rule show_nat_isdigit [of _ n]) (simp add: s)
  ultimately show False by (auto dest: isdigit_neq)
qed

lemma read_show_nat_0:
  "read_digits 8 (show_nat 0) 0 = 0" "read_digits 10 (show_nat 0) 0 = 0"
  by (simp_all add: show_nat_0 digit_val_def isdigit_def ord_char_def)

lemma dropWhile_space_show_nat [simp]: "dropWhile isspace (show_nat n @ s) = show_nat n @ s"
proof (cases "show_nat n")
  case (Cons c t)
  then have "isdigit c" by (intro show_nat_isdigit [of _ n]) simp
  with Cons show ?thesis by (auto dest: isdigit_neq)
qed simp

lemma read_sign_show_nat [simp]: "read_sign (show_nat n @ s) = (False, show_nat n @ s)"
proof (cases "show_nat n")
  case (Cons c t)
  then have "isdigit c" by (intro show_nat_isdigit [of _ n]) simp
  with Cons show ?thesis by (auto dest: isdigit_neq)
qed simp

lemma clamp_ll_sint [simp]: "clamp_ll (sint x) = x"
proof -
  have "- (2 ^ 63) \<le> sint x" "sint x < 2 ^ 63"
    using sint_range_size [of x] by (simp_all add: word_size)
  then show ?thesis by (simp add: clamp_ll_def)
qed

lemma strtoll_show_nat:
  assumes "base = 0 \<or> base = 10"
  shows "strtoll base (show_nat n) = clamp_ll (int n)"
    and "strtoll base (CHR ''-'' # show_nat n) = clamp_ll (- int n)"
proof -
  have v: "(if base = 0 then
              if has_hex_prefix (show_nat n) then read_digits 16 (drop 2 (show_nat n)) 0
              else if show_nat n \<noteq> [] \<and> hd (show_nat n) = CHR ''0'' then read_digits 8 (show_nat n) 0
              else read_digits 10 (show_nat n) 0
            else read_digits base (show_nat n) 0) = n"
    using assms by (cases "n = 0")
      (auto simp: read_digits_show_nat show_nat_no_hex hd_show_nat read_show_nat_0)
  show "strtoll base (show_nat n) = clamp_ll (int n)"
    using dropWhile_space_show_nat [of n "[]"] read_sign_show_nat [of n "[]"] v
    by (simp add: strtoll_def Let_def)
  have "\<not> isspace (CHR ''-'')" by (simp add: isspace_def ord_char_def)
  then show "strtoll base (CHR ''-'' # show_nat n) = clamp_ll (- int n)"
    using v by (simp add: strtoll_def Let_def)
qed

text \<open>Printing a \<open>long long\<close> and reading it back, in base 10 or with the base inferred.\<close>

lemma strtoll_show_ll: "base = 0 \<or> base = 10 \<Longrightarrow> strtoll base (show_ll x) = x"
  by (simp add: show_ll_def show_int_def strtoll_show_nat)


subsection \<open>Lines\<close>

text \<open>The pieces successive calls of \<open>fgets(buf, k + 1, f)\<close> return: up to \<open>k\<close> bytes, through the
  first newline; \<open>room\<close> is what is left of the buffer.\<close>

fun fgets_pieces :: "nat \<Rightarrow> nat \<Rightarrow> string \<Rightarrow> string \<Rightarrow> string list" where
  "fgets_pieces k room acc [] = (if acc = [] then [] else [rev acc])"
| "fgets_pieces k room acc (c # s) =
     (if c = CHR 0x0A \<or> room \<le> 1 then rev (c # acc) # fgets_pieces k k [] s
      else fgets_pieces k (room - 1) (c # acc) s)"

definition fgets_lines :: "nat \<Rightarrow> string \<Rightarrow> string list" where
  "fgets_lines k s = fgets_pieces k k [] s"

lemma concat_fgets_pieces: "concat (fgets_pieces k room acc s) = rev acc @ s"
  by (induction k room acc s rule: fgets_pieces.induct) auto

lemma concat_fgets_lines: "concat (fgets_lines k s) = s"
  by (simp add: fgets_lines_def concat_fgets_pieces)

text \<open>Quoting and line ends of the printed text.\<close>

definition dq :: "string \<Rightarrow> string" where
  "dq s = CHR 0x22 # s @ [CHR 0x22]"

definition nl :: string where
  "nl = [CHR 0x0A]"


definition str_join :: "string \<Rightarrow> string list \<Rightarrow> string" where
  "str_join sep ss = concat (case ss of [] \<Rightarrow> [] | t # ts \<Rightarrow> t # map ((@) sep) ts)"

text \<open>A string inside a JSON text, as \<open>events.c\<close> and \<open>dbg.c\<close> write it.\<close>

definition json_char :: "char \<Rightarrow> string" where
  "json_char c =
    (if c = CHR 0x22 \<or> c = CHR 0x5C then [CHR 0x5C, c]
     else if c = CHR 0x0A then [CHR 0x5C, CHR ''n'']
     else if c = CHR 0x0D then [CHR 0x5C, CHR ''r'']
     else if c = CHR 0x09 then [CHR 0x5C, CHR ''t'']
     else if ord_char c < 0x20 then CHR 0x5C # CHR ''u'' # pad_zero 4 (show_hex (ord_char c))
     else [c])"

definition json_str :: "string \<Rightarrow> string" where
  "json_str s = dq (concat (map json_char s))"


text \<open>The suffixes of a text at which its lines start, and a line.\<close>

fun line_starts :: "bool \<Rightarrow> string \<Rightarrow> string list" where
  "line_starts b [] = []"
| "line_starts b (c # s) = (if b then [c # s] else []) @ line_starts (c = CHR 0x0A) s"

definition first_line :: "string \<Rightarrow> string" where
  "first_line s = takeWhile (\<lambda>c. c \<noteq> CHR 0x0A) s"

end
