(* ===== verification/Values.thy ===== *)
theory Values
  imports CLib
begin

text \<open>
  The LSL value model of \<open>value.c\<close>: the type tags, the tagged union \<open>SValue\<close> and its
  truthiness, text form and equality. The C union owns its payload and \<open>sv_copy\<close> copies it
  deeply, so a value is a plain HOL value here and copying and freeing leave no trace; \<open>ValueMem\<close> has both on a heap.
\<close>

datatype svtype = SV_VOID | SV_INTEGER | SV_FLOAT | SV_STRING | SV_KEY | SV_VECTOR
  | SV_ROTATION | SV_LIST | SV_ANY | SV_ERROR | SV_BAD nat
  \<comment> \<open>\<open>SV_BAD n\<close>: a byte cast to \<open>SVType\<close> that names no enumerator\<close>

definition svtype_of :: "nat \<Rightarrow> svtype" where
  "svtype_of t = (if t < 10
     then [SV_VOID, SV_INTEGER, SV_FLOAT, SV_STRING, SV_KEY, SV_VECTOR, SV_ROTATION, SV_LIST,
           SV_ANY, SV_ERROR] ! t
     else SV_BAD t)"

fun sv_type_name :: "svtype \<Rightarrow> string" where
  "sv_type_name SV_VOID = ''void''"
| "sv_type_name SV_INTEGER = ''integer''"
| "sv_type_name SV_FLOAT = ''float''"
| "sv_type_name SV_STRING = ''string''"
| "sv_type_name SV_KEY = ''key''"
| "sv_type_name SV_VECTOR = ''vector''"
| "sv_type_name SV_ROTATION = ''rotation''"
| "sv_type_name SV_LIST = ''list''"
| "sv_type_name SV_ANY = ''any''"
| "sv_type_name SV_ERROR = ''error''"
| "sv_type_name (SV_BAD _) = ''?''"

datatype svalue = SVoid | SInt llong | SFloat double | SString string | SKey string
  | SVector double double double | SRot double double double double | SList "svalue list"

fun sv_type :: "svalue \<Rightarrow> svtype" where
  "sv_type SVoid = SV_VOID"
| "sv_type (SInt _) = SV_INTEGER"
| "sv_type (SFloat _) = SV_FLOAT"
| "sv_type (SString _) = SV_STRING"
| "sv_type (SKey _) = SV_KEY"
| "sv_type (SVector _ _ _) = SV_VECTOR"
| "sv_type (SRot _ _ _ _) = SV_ROTATION"
| "sv_type (SList _) = SV_LIST"

definition null_key :: string where
  "null_key = ''00000000-0000-0000-0000-000000000000''"

text \<open>The zero value a type tag stands for (\<open>default:\<close> is void), shared by the declaration
  statement, the initialisation of globals and the argument readers.\<close>

fun sv_zero :: "svtype \<Rightarrow> svalue" where
  "sv_zero SV_INTEGER = SInt 0"
| "sv_zero SV_FLOAT = SFloat d_zero"
| "sv_zero SV_STRING = SString []"
| "sv_zero SV_KEY = SKey null_key"
| "sv_zero SV_VECTOR = SVector d_zero d_zero d_zero"
| "sv_zero SV_ROTATION = SRot d_zero d_zero d_zero d_one"
| "sv_zero SV_LIST = SList []"
| "sv_zero _ = SVoid"

definition sv_of_bool :: "bool \<Rightarrow> svalue" where
  "sv_of_bool b = SInt (ll_bool b)"

fun sv_truthy :: "svalue \<Rightarrow> bool" where
  "sv_truthy (SInt i) = (i \<noteq> 0)"
| "sv_truthy (SFloat f) = (\<not> d_is_zero f)"
| "sv_truthy (SString s) = (s \<noteq> [])"
| "sv_truthy (SKey s) = (s \<noteq> null_key)"
| "sv_truthy (SVector x y z) = (\<not> (d_is_zero x \<and> d_is_zero y \<and> d_is_zero z))"
| "sv_truthy (SRot x y z s) =
     (\<not> (d_is_zero x \<and> d_is_zero y \<and> d_is_zero z \<and> d_eq s d_one))"
| "sv_truthy (SList l) = (l \<noteq> [])"
| "sv_truthy SVoid = False"

fun sv_to_string :: "svalue \<Rightarrow> string" where
  "sv_to_string (SInt i) = show_ll i"
| "sv_to_string (SFloat f) = show_fixed 6 f"
| "sv_to_string (SString s) = s"
| "sv_to_string (SKey s) = s"
| "sv_to_string (SVector x y z) =
     ''<'' @ show_fixed 5 x @ '', '' @ show_fixed 5 y @ '', '' @ show_fixed 5 z @ ''>''"
| "sv_to_string (SRot x y z s) =
     ''<'' @ show_fixed 5 x @ '', '' @ show_fixed 5 y @ '', '' @ show_fixed 5 z @ '', '' @
       show_fixed 5 s @ ''>''"
| "sv_to_string (SList l) = concat (map sv_to_string l)"
| "sv_to_string SVoid = []"

text \<open>The text of a string or key payload (\<open>None\<close> for the other tags).\<close>

fun sv_text :: "svalue \<Rightarrow> string option" where
  "sv_text (SString s) = Some s"
| "sv_text (SKey s) = Some s"
| "sv_text _ = None"

fun sv_equal :: "svalue \<Rightarrow> svalue \<Rightarrow> bool" where
  "sv_equal (SInt i) (SInt j) = (i = j)"
| "sv_equal (SFloat f) (SFloat g) = d_eq f g"
| "sv_equal (SInt i) (SFloat g) = d_eq (d_of_ll i) g"
| "sv_equal (SFloat f) (SInt j) = d_eq f (d_of_ll j)"
| "sv_equal (SString s) (SString t) = (s = t)"
| "sv_equal (SString s) (SKey t) = (s = t)"
| "sv_equal (SKey s) (SString t) = (s = t)"
| "sv_equal (SKey s) (SKey t) = (s = t)"
| "sv_equal (SVector x y z) (SVector x' y' z') = (d_eq x x' \<and> d_eq y y' \<and> d_eq z z')"
| "sv_equal (SRot x y z s) (SRot x' y' z' s') =
     (d_eq x x' \<and> d_eq y y' \<and> d_eq z z' \<and> d_eq s s')"
| "sv_equal (SList l) (SList m) = (length l = length m)"
| "sv_equal _ _ = False"

text \<open>A total order on the tags, the numbering of the enumeration.\<close>

fun svtype_tag :: "svtype \<Rightarrow> nat" where
  "svtype_tag SV_VOID = 0" | "svtype_tag SV_INTEGER = 1" | "svtype_tag SV_FLOAT = 2"
| "svtype_tag SV_STRING = 3" | "svtype_tag SV_KEY = 4" | "svtype_tag SV_VECTOR = 5"
| "svtype_tag SV_ROTATION = 6" | "svtype_tag SV_LIST = 7" | "svtype_tag SV_ANY = 8"
| "svtype_tag SV_ERROR = 9" | "svtype_tag (SV_BAD n) = 10 + n"

lemma svtype_tag_inject [simp]: "svtype_tag a = svtype_tag b \<longleftrightarrow> a = b"
  by (cases a; cases b) simp_all

instantiation svtype :: linorder
begin

definition less_eq_svtype :: "svtype \<Rightarrow> svtype \<Rightarrow> bool" where
  "less_eq_svtype a b \<longleftrightarrow> svtype_tag a \<le> svtype_tag b"

definition less_svtype :: "svtype \<Rightarrow> svtype \<Rightarrow> bool" where
  "less_svtype a b \<longleftrightarrow> svtype_tag a < svtype_tag b"

instance
  by standard (auto simp: less_eq_svtype_def less_svtype_def)

end

lemma svtype_of_tag: "t < 10 \<Longrightarrow> svtype_tag (svtype_of t) = t"
proof -
  assume "t < 10"
  then have "t \<in> {0, 1, 2, 3, 4, 5, 6, 7, 8, 9}" by auto
  then show ?thesis by (auto simp: svtype_of_def)
qed

subsection \<open>Facts about values\<close>

lemma d_eq_sym: "d_eq x y = d_eq y x"
  by (cases x; cases y) (auto simp: Let_def min.commute)

lemma sv_equal_sym: "sv_equal a b = sv_equal b a"
  by (cases a; cases b) (auto simp: d_eq_sym)

lemma sv_type_zero: "t \<notin> {SV_ANY, SV_ERROR} \<Longrightarrow> (\<forall>n. t \<noteq> SV_BAD n) \<Longrightarrow> sv_type (sv_zero t) = t"
  by (cases t) auto

lemma d_zero_is_zero [simp]: "d_is_zero d_zero"
  by (simp add: d_is_zero_def d_zero_def)

lemma sv_truthy_zero [simp]: "\<not> sv_truthy (sv_zero t)"
  by (cases t) (auto simp: null_key_def d_one_def smant_def Let_def)

lemma sv_truthy_of_bool [simp]: "sv_truthy (sv_of_bool b) = b"
  by (simp add: sv_of_bool_def)

lemma sv_to_string_append:
  "sv_to_string (SList (l @ m)) = sv_to_string (SList l) @ sv_to_string (SList m)"
  by simp

text \<open>Well-formed values: text without NUL, canonical doubles.\<close>

fun wf_sv :: "svalue \<Rightarrow> bool" where
  "wf_sv (SFloat f) = wf_double f"
| "wf_sv (SString s) = c_string s"
| "wf_sv (SKey s) = c_string s"
| "wf_sv (SVector x y z) = (wf_double x \<and> wf_double y \<and> wf_double z)"
| "wf_sv (SRot x y z s) = (wf_double x \<and> wf_double y \<and> wf_double z \<and> wf_double s)"
| "wf_sv (SList l) = list_all wf_sv l"
| "wf_sv _ = True"

lemma show_nat_c_string [simp]: "c_string (show_nat n)"
  unfolding c_string_def by (blast dest: show_nat_isdigit isdigit_neq)

lemma show_int_c_string [simp]: "c_string (show_int i)"
  by (simp add: show_int_def)

lemma pad_zero_c_string [simp]: "c_string s \<Longrightarrow> c_string (pad_zero k s)"
  by (auto simp: pad_zero_def c_string_def)

lemma show_fixed_c_string [simp]: "c_string (show_fixed p x)"
  by (cases x) (auto simp: Let_def)

lemma sv_to_string_c_string: "wf_sv v \<Longrightarrow> c_string (sv_to_string v)"
proof (induction v rule: sv_to_string.induct)
  case (7 l)
  then show ?case by (auto simp: c_string_def list_all_iff)
qed (auto simp: show_ll_def)

end
