(* ===== verification/Ast.thy ===== *)
theory Ast
  imports Values
begin

text \<open>
  The program form of \<open>slemu.h\<close> that the loader builds and the interpreter walks: expression
  and statement nodes with the tags of the bytecode, declarations, and the program record with
  its string pool. A null pointer to a node is the constructor \<open>E_NULL\<close> or \<open>S_NULL\<close>; pool
  indices and line numbers are C \<open>int\<close>s, the one-byte fields are bytes.
\<close>

type_synonym hdr = "byte \<times> byte"
  \<comment> \<open>\<open>Expr.type\<close> and \<open>Expr.is_lvalue\<close>\<close>

datatype expr =
  E_NULL
| E_INT_LIT hdr llong
| E_FLOAT_LIT hdr double
| E_STRING_LIT hdr cint
| E_IDENT hdr cint
| E_VECTOR_LIT hdr expr expr expr
| E_ROT_LIT hdr expr expr expr expr
| E_LIST_LIT hdr "expr list"
| E_CALL hdr cint "expr list"
| E_MEMBER hdr expr byte
| E_CAST hdr byte expr
| E_UNARY hdr byte expr
| E_POSTFIX hdr byte expr
| E_BINARY hdr byte expr expr
| E_ASSIGN hdr byte expr expr

datatype stmt =
  S_NULL
| S_EXPR cint expr
| S_DECL cint byte cint expr
| S_BLOCK cint "stmt list"
| S_IF cint expr stmt stmt
| S_WHILE cint expr stmt
| S_DO cint stmt expr
| S_FOR cint "expr list" expr "expr list" stmt
| S_RETURN cint byte expr
| S_JUMP cint cint
| S_LABEL cint cint
| S_STATECHG cint cint
| S_EMPTY cint

fun stmt_line :: "stmt \<Rightarrow> cint" where
  "stmt_line S_NULL = 0"
| "stmt_line (S_EXPR l _) = l"
| "stmt_line (S_DECL l _ _ _) = l"
| "stmt_line (S_BLOCK l _) = l"
| "stmt_line (S_IF l _ _ _) = l"
| "stmt_line (S_WHILE l _ _) = l"
| "stmt_line (S_DO l _ _) = l"
| "stmt_line (S_FOR l _ _ _ _) = l"
| "stmt_line (S_RETURN l _ _) = l"
| "stmt_line (S_JUMP l _) = l"
| "stmt_line (S_LABEL l _) = l"
| "stmt_line (S_STATECHG l _) = l"
| "stmt_line (S_EMPTY l) = l"

record param =
  pm_type :: byte
  pm_name :: cint

record global_var =
  gv_type :: byte
  gv_name :: cint
  gv_init :: expr

record func_decl =
  fd_name :: cint
  fd_line :: cint
  fd_ret :: byte
  fd_has_ret :: byte
  fd_params :: "param list"
  fd_body :: stmt

record event_decl =
  ed_name :: cint
  ed_line :: cint
  ed_params :: "param list"
  ed_body :: stmt

record state_decl =
  sd_name :: cint
  sd_line :: cint
  sd_is_default :: byte
  sd_events :: "event_decl list"

record program =
  p_strings :: "string list"
  p_globals :: "global_var list"
  p_funcs :: "func_decl list"
  p_states :: "state_decl list"
  p_flags :: cint
  p_path :: string

text \<open>The pool-string accessor: the empty string for an index outside the pool.\<close>

definition prog_str :: "program \<Rightarrow> cint \<Rightarrow> string" where
  "prog_str p idx =
     (if sint idx < 0 \<or> int (length (p_strings p)) \<le> sint idx then []
      else p_strings p ! nat (sint idx))"

definition wf_pool :: "program \<Rightarrow> bool" where
  "wf_pool p \<longleftrightarrow> list_all c_string (p_strings p)"

lemma prog_str_c_string: "wf_pool p \<Longrightarrow> c_string (prog_str p i)"
  by (auto simp: prog_str_def wf_pool_def list_all_length nat_less_iff)

end
