(* ===== verification/Loader.thy ===== *)
theory Loader
  imports Ast
begin

unbundle bit_operations_syntax

text \<open>
  The bytecode reader of \<open>loader.c\<close>. The cursor \<open>Rdr\<close> is kept as the bytes not yet read (the
  suffix of \<open>src\<close> at \<open>off\<close>) and the sticky error flag. A failed read leaves the caller's
  variable uninitialised: it then holds \<open>rd_junk\<close>, an arbitrary stream of words indexed by the
  number of failed reads, so what is proved of the loader holds whatever the stack contained.
  A string length of \<open>2 ^ 32 - 1\<close> makes \<open>xmalloc(l + 1)\<close> allocate one byte and the terminator
  is written outside it: the result \<open>BadMemory\<close>.

  The recursion of \<open>read_expr\<close> and \<open>read_stmt\<close> spends fuel; one unit per byte of the file, and
  one more, is always enough (\<open>read_expr_fuel\<close>, \<open>read_stmt_fuel\<close>).
\<close>

record rdr =
  rd_rest :: "byte list"
  rd_err :: bool
  rd_nfail :: nat
  rd_junk :: "nat \<Rightarrow> llong"

definition r_fail :: "rdr \<Rightarrow> rdr" where
  "r_fail r = r\<lparr>rd_err := True, rd_nfail := Suc (rd_nfail r)\<rparr>"

definition r_u8 :: "rdr \<Rightarrow> byte option \<times> rdr" where
  "r_u8 r = (case rd_rest r of
     b # bs \<Rightarrow> (Some b, r\<lparr>rd_rest := bs\<rparr>)
   | [] \<Rightarrow> (None, r_fail r))"

definition r_u32 :: "rdr \<Rightarrow> cint option \<times> rdr" where
  "r_u32 r = (case rd_rest r of
     b0 # b1 # b2 # b3 # bs \<Rightarrow>
       (Some (ucast b0 OR push_bit 8 (ucast b1) OR push_bit 16 (ucast b2) OR push_bit 24 (ucast b3)),
        r\<lparr>rd_rest := bs\<rparr>)
   | _ \<Rightarrow> (None, r_fail r))"

fun or_bytes :: "nat \<Rightarrow> byte list \<Rightarrow> llong \<Rightarrow> llong" where
  "or_bytes i [] v = v"
| "or_bytes i (b # bs) v = or_bytes (Suc i) bs (v OR push_bit (i * 8) (ucast b))"

definition r_i64 :: "rdr \<Rightarrow> llong option \<times> rdr" where
  "r_i64 r = (if length (rd_rest r) < 8 then (None, r_fail r)
     else (Some (or_bytes 0 (take 8 (rd_rest r)) 0), r\<lparr>rd_rest := drop 8 (rd_rest r)\<rparr>))"

definition r_f64 :: "rdr \<Rightarrow> double option \<times> rdr" where
  "r_f64 r = (case r_i64 r of (None, r') \<Rightarrow> (None, r') | (Some i, r') \<Rightarrow> (Some (double_of_bits i), r'))"

definition r_bytes :: "nat \<Rightarrow> rdr \<Rightarrow> byte list option \<times> rdr" where
  "r_bytes n r = (if length (rd_rest r) < n then (None, r_fail r)
     else (Some (take n (rd_rest r)), r\<lparr>rd_rest := drop n (rd_rest r)\<rparr>))"

text \<open>A read into a local variable whose failure the caller does not test.\<close>

definition v_u8 :: "rdr \<Rightarrow> (byte \<times> rdr) res" where
  "v_u8 r = (case r_u8 r of (Some b, r') \<Rightarrow> Inr (b, r')
     | (None, r') \<Rightarrow> Inr (ucast (rd_junk r (rd_nfail r)), r'))"

definition v_u32 :: "rdr \<Rightarrow> (cint \<times> rdr) res" where
  "v_u32 r = (case r_u32 r of (Some w, r') \<Rightarrow> Inr (w, r')
     | (None, r') \<Rightarrow> Inr (ucast (rd_junk r (rd_nfail r)), r'))"

definition v_i64 :: "rdr \<Rightarrow> (llong \<times> rdr) res" where
  "v_i64 r = (case r_i64 r of (Some w, r') \<Rightarrow> Inr (w, r')
     | (None, r') \<Rightarrow> Inr (rd_junk r (rd_nfail r), r'))"

definition v_f64 :: "rdr \<Rightarrow> (double \<times> rdr) res" where
  "v_f64 r = (case r_f64 r of (Some x, r') \<Rightarrow> Inr (x, r')
     | (None, r') \<Rightarrow> Inr (double_of_bits (rd_junk r (rd_nfail r)), r'))"

text \<open>The counting loops: \<open>n\<close> reads one after the other.\<close>

fun read_n :: "(rdr \<Rightarrow> ('a \<times> rdr) res) \<Rightarrow> nat \<Rightarrow> rdr \<Rightarrow> ('a list \<times> rdr) res" where
  "read_n rd 0 r = Inr ([], r)"
| "read_n rd (Suc n) r = rbind (rd r) (\<lambda>(x, r). rbind (read_n rd n r) (\<lambda>(xs, r). Inr (x # xs, r)))"

text \<open>The body of \<open>read_expr\<close> after the three header bytes; \<open>re\<close> is the recursive call.\<close>

definition read_expr_body ::
    "(rdr \<Rightarrow> (expr \<times> rdr) res) \<Rightarrow> byte \<Rightarrow> hdr \<Rightarrow> rdr \<Rightarrow> (expr \<times> rdr) res" where
  "read_expr_body re tag h r =
    (if tag = 0 then rbind (v_i64 r) (\<lambda>(v, r). Inr (E_INT_LIT h v, r))
     else if tag = 1 then rbind (v_f64 r) (\<lambda>(v, r). Inr (E_FLOAT_LIT h v, r))
     else if tag = 2 then rbind (v_u32 r) (\<lambda>(i, r). Inr (E_STRING_LIT h i, r))
     else if tag = 3 then rbind (v_u32 r) (\<lambda>(i, r). Inr (E_IDENT h i, r))
     else if tag = 4 then rbind (re r) (\<lambda>(x, r). rbind (re r) (\<lambda>(y, r). rbind (re r) (\<lambda>(z, r).
       Inr (E_VECTOR_LIT h x y z, r))))
     else if tag = 5 then rbind (re r) (\<lambda>(x, r). rbind (re r) (\<lambda>(y, r). rbind (re r) (\<lambda>(z, r).
       rbind (re r) (\<lambda>(w, r). Inr (E_ROT_LIT h x y z w, r)))))
     else if tag = 6 then rbind (v_u32 r) (\<lambda>(n, r). rbind (read_n re (unat n) r) (\<lambda>(es, r).
       Inr (E_LIST_LIT h es, r)))
     else if tag = 7 then rbind (v_u32 r) (\<lambda>(name, r). rbind (v_u32 r) (\<lambda>(na, r).
       rbind (read_n re (unat na) r) (\<lambda>(es, r). Inr (E_CALL h name es, r))))
     else if tag = 8 then rbind (re r) (\<lambda>(b, r). rbind (v_u8 r) (\<lambda>(m, r). Inr (E_MEMBER h b m, r)))
     else if tag = 9 then rbind (v_u8 r) (\<lambda>(t, r). rbind (re r) (\<lambda>(e, r). Inr (E_CAST h t e, r)))
     else if tag = 10 then rbind (v_u8 r) (\<lambda>(op, r). rbind (re r) (\<lambda>(e, r). Inr (E_UNARY h op e, r)))
     else if tag = 11 then rbind (v_u8 r) (\<lambda>(op, r). rbind (re r) (\<lambda>(e, r). Inr (E_POSTFIX h op e, r)))
     else if tag = 12 then rbind (v_u8 r) (\<lambda>(op, r). rbind (re r) (\<lambda>(a, r). rbind (re r) (\<lambda>(b, r).
       Inr (E_BINARY h op a b, r))))
     else if tag = 13 then rbind (v_u8 r) (\<lambda>(op, r). rbind (re r) (\<lambda>(a, r). rbind (re r) (\<lambda>(b, r).
       Inr (E_ASSIGN h op a b, r))))
     else Inr (E_NULL, r\<lparr>rd_err := True\<rparr>))"

text \<open>A node of an unknown kind is built by the code but the error flag it raises makes
  \<open>program_load\<close> drop the whole program; it is \<open>E_NULL\<close> here.\<close>

fun read_expr :: "nat \<Rightarrow> rdr \<Rightarrow> (expr \<times> rdr) res" where
  "read_expr 0 r = Inl OutOfFuel"
| "read_expr (Suc f) r = (case r_u8 r of
     (None, r) \<Rightarrow> Inr (E_NULL, r)
   | (Some tag, r) \<Rightarrow> if tag = 0xFF then Inr (E_NULL, r) else (case r_u8 r of
       (None, r) \<Rightarrow> Inr (E_NULL, r\<lparr>rd_err := True\<rparr>)
     | (Some ty, r) \<Rightarrow> (case r_u8 r of
         (None, r) \<Rightarrow> Inr (E_NULL, r\<lparr>rd_err := True\<rparr>)
       | (Some lv, r) \<Rightarrow> read_expr_body (\<lambda>r. read_expr f r) tag (ty, lv) r)))"

text \<open>An optional sub-expression behind a presence byte.\<close>

definition read_opt_expr :: "nat \<Rightarrow> byte \<Rightarrow> rdr \<Rightarrow> (expr \<times> rdr) res" where
  "read_opt_expr f flag r = (if flag \<noteq> 0 then read_expr f r else Inr (E_NULL, r))"

definition read_stmt_body ::
    "nat \<Rightarrow> (rdr \<Rightarrow> (stmt \<times> rdr) res) \<Rightarrow> byte \<Rightarrow> cint \<Rightarrow> rdr \<Rightarrow> (stmt \<times> rdr) res" where
  "read_stmt_body f rs tag l r =
    (if tag = 11 then Inr (S_EMPTY l, r)
     else if tag = 0 then rbind (read_expr f r) (\<lambda>(e, r). Inr (S_EXPR l e, r))
     else if tag = 1 then rbind (v_u8 r) (\<lambda>(t, r). rbind (v_u32 r) (\<lambda>(i, r). rbind (v_u8 r) (\<lambda>(hi, r).
       rbind (read_opt_expr f hi r) (\<lambda>(e, r). Inr (S_DECL l t i e, r)))))
     else if tag = 2 then rbind (v_u32 r) (\<lambda>(n, r). rbind (read_n rs (unat n) r) (\<lambda>(ss, r).
       Inr (S_BLOCK l ss, r)))
     else if tag = 3 then rbind (read_expr f r) (\<lambda>(c, r). rbind (rs r) (\<lambda>(t, r). rbind (v_u8 r) (\<lambda>(he, r).
       rbind (if he \<noteq> 0 then rs r else Inr (S_NULL, r)) (\<lambda>(e, r). Inr (S_IF l c t e, r)))))
     else if tag = 4 then rbind (read_expr f r) (\<lambda>(c, r). rbind (rs r) (\<lambda>(b, r). Inr (S_WHILE l c b, r)))
     else if tag = 5 then rbind (rs r) (\<lambda>(b, r). rbind (read_expr f r) (\<lambda>(c, r). Inr (S_DO l b c, r)))
     else if tag = 6 then rbind (v_u8 r) (\<lambda>(ni, r). rbind (read_n (read_expr f) (unat ni) r) (\<lambda>(is, r).
       rbind (v_u8 r) (\<lambda>(hc, r). rbind (read_opt_expr f hc r) (\<lambda>(c, r).
       rbind (v_u8 r) (\<lambda>(np, r). rbind (read_n (read_expr f) (unat np) r) (\<lambda>(ps, r).
       rbind (rs r) (\<lambda>(b, r). Inr (S_FOR l is c ps b, r))))))))
     else if tag = 7 then rbind (v_u8 r) (\<lambda>(hv, r). rbind (read_opt_expr f hv r) (\<lambda>(e, r).
       Inr (S_RETURN l hv e, r)))
     else if tag = 8 then rbind (v_u32 r) (\<lambda>(i, r). Inr (S_JUMP l i, r))
     else if tag = 9 then rbind (v_u32 r) (\<lambda>(i, r). Inr (S_LABEL l i, r))
     else if tag = 10 then rbind (v_u32 r) (\<lambda>(i, r). Inr (S_STATECHG l i, r))
     else Inr (S_NULL, r\<lparr>rd_err := True\<rparr>))"

text \<open>The line number, present from format version 2 on.\<close>

definition read_line :: "int \<Rightarrow> rdr \<Rightarrow> (cint \<times> rdr) res" where
  "read_line ver r = (if 2 \<le> ver then v_u32 r else Inr (0, r))"

fun read_stmt :: "int \<Rightarrow> nat \<Rightarrow> rdr \<Rightarrow> (stmt \<times> rdr) res" where
  "read_stmt ver 0 r = Inl OutOfFuel"
| "read_stmt ver (Suc f) r = (case r_u8 r of
     (None, r) \<Rightarrow> Inr (S_NULL, r)
   | (Some tag, r) \<Rightarrow> if tag = 0xFF then Inr (S_NULL, r)
       else rbind (read_line ver r) (\<lambda>(l, r). read_stmt_body f (\<lambda>r. read_stmt ver f r) tag l r))"

subsection \<open>Declarations and the whole file\<close>

definition read_string :: "rdr \<Rightarrow> (string \<times> rdr) res" where
  "read_string r = rbind (v_u32 r) (\<lambda>(l, r).
     if l = - 1 then Inl BadMemory
     else if l = 0 then Inr ([], r)
     else (case r_bytes (unat l) r of
         (Some bs, r) \<Rightarrow> Inr (cstr (map (\<lambda>b. char_of (unat b)) bs), r)
       | (None, r) \<Rightarrow> Inr ([], r)))"

definition read_global :: "nat \<Rightarrow> rdr \<Rightarrow> (global_var \<times> rdr) res" where
  "read_global f r = rbind (v_u8 r) (\<lambda>(t, r). rbind (v_u32 r) (\<lambda>(idx, r). rbind (v_u8 r) (\<lambda>(hi, r).
     rbind (read_opt_expr f hi r) (\<lambda>(e, r).
       Inr (\<lparr>gv_type = t, gv_name = idx, gv_init = e\<rparr>, r)))))"

definition read_param :: "rdr \<Rightarrow> (param \<times> rdr) res" where
  "read_param r = rbind (v_u8 r) (\<lambda>(t, r). rbind (v_u32 r) (\<lambda>(n, r).
     Inr (\<lparr>pm_type = t, pm_name = n\<rparr>, r)))"

definition read_func :: "int \<Rightarrow> nat \<Rightarrow> rdr \<Rightarrow> (func_decl \<times> rdr) res" where
  "read_func ver f r = rbind (v_u32 r) (\<lambda>(name, r). rbind (read_line ver r) (\<lambda>(ln, r).
     rbind (v_u8 r) (\<lambda>(ret, r). rbind (v_u8 r) (\<lambda>(hr, r). rbind (v_u8 r) (\<lambda>(np, r).
     rbind (read_n read_param (unat np) r) (\<lambda>(ps, r). rbind (read_stmt ver f r) (\<lambda>(b, r).
       Inr (\<lparr>fd_name = name, fd_line = ln, fd_ret = ret, fd_has_ret = hr, fd_params = ps,
             fd_body = b\<rparr>, r))))))))"

definition read_event :: "int \<Rightarrow> nat \<Rightarrow> rdr \<Rightarrow> (event_decl \<times> rdr) res" where
  "read_event ver f r = rbind (v_u32 r) (\<lambda>(name, r). rbind (read_line ver r) (\<lambda>(ln, r).
     rbind (v_u8 r) (\<lambda>(np, r). rbind (read_n read_param (unat np) r) (\<lambda>(ps, r).
     rbind (read_stmt ver f r) (\<lambda>(b, r).
       Inr (\<lparr>ed_name = name, ed_line = ln, ed_params = ps, ed_body = b\<rparr>, r))))))"

definition read_state :: "int \<Rightarrow> nat \<Rightarrow> rdr \<Rightarrow> (state_decl \<times> rdr) res" where
  "read_state ver f r = rbind (v_u32 r) (\<lambda>(name, r). rbind (read_line ver r) (\<lambda>(ln, r).
     rbind (v_u8 r) (\<lambda>(isd, r). rbind (v_u32 r) (\<lambda>(ne, r).
     rbind (read_n (read_event ver f) (unat ne) r) (\<lambda>(evs, r).
       Inr (\<lparr>sd_name = name, sd_line = ln, sd_is_default = isd, sd_events = evs\<rparr>, r))))))"

definition read_counted :: "(rdr \<Rightarrow> ('a \<times> rdr) res) \<Rightarrow> rdr \<Rightarrow> ('a list \<times> rdr) res" where
  "read_counted rd r = rbind (v_u32 r) (\<lambda>(n, r). read_n rd (unat n) r)"

text \<open>Everything after the header.\<close>

definition read_body :: "int \<Rightarrow> nat \<Rightarrow> cint \<Rightarrow> string \<Rightarrow> rdr \<Rightarrow> (program \<times> rdr) res" where
  "read_body ver f flags path r =
     rbind (read_counted read_string r) (\<lambda>(ss, r). rbind (read_counted (read_global f) r) (\<lambda>(gs, r).
     rbind (read_counted (read_func ver f) r) (\<lambda>(fs, r).
     rbind (read_counted (read_state ver f) r) (\<lambda>(sts, r).
       Inr (\<lparr>p_strings = ss, p_globals = gs, p_funcs = fs, p_states = sts, p_flags = flags,
             p_path = path\<rparr>, r)))))"

definition magic :: "byte list" where
  "magic = [0x53, 0x4C, 0x42, 0x43, 0]"

text \<open>\<open>program_load\<close> on the bytes of the file: \<open>None\<close> where the C function returns 0.\<close>

definition program_load :: "(nat \<Rightarrow> llong) \<Rightarrow> string \<Rightarrow> byte list \<Rightarrow> program option res" where
  "program_load junk path buf =
    (let r = \<lparr>rd_rest = buf, rd_err = False, rd_nfail = 0, rd_junk = junk\<rparr> in
     case r_bytes 5 r of (None, r) \<Rightarrow> Inr None
     | (Some m, r) \<Rightarrow> if m \<noteq> magic then Inr None else
       (case r_u32 r of (None, r) \<Rightarrow> Inr None
        | (Some ver, r) \<Rightarrow> (case r_u32 r of (None, r) \<Rightarrow> Inr None
          | (Some flags, r) \<Rightarrow>
              if sint ver < 1 \<or> 2 < sint ver then Inr None
              else rbind (read_body (sint ver) (Suc (length buf)) flags path r)
                (\<lambda>(p, r). Inr (if rd_err r then None else Some p)))))"

end
