(* ===== verification/Codec.thy ===== *)
theory Codec
  imports Loader
begin

unbundle bit_operations_syntax

text \<open>
  What the bytecode reader promises. A reader never unreads (\<open>shrink\<close>), never forgets an error
  (\<open>sticky\<close>), and gives the same answer when more bytes follow the ones it read without error
  (\<open>extend\<close>): the locale \<open>reader\<close>, closed under sequencing and repetition. A codec is a
  reader with an encoder it inverts: the locale \<open>codec\<close>. The encoders here are the format of the
  documentation (section 4, bytecode format), written independently of the reader.
\<close>

definition ext :: "byte list \<Rightarrow> rdr \<Rightarrow> rdr" where
  "ext q r = r\<lparr>rd_rest := rd_rest r @ q\<rparr>"

lemma ext_simps [simp]:
  "rd_rest (ext q r) = rd_rest r @ q" "rd_err (ext q r) = rd_err r"
  "rd_nfail (ext q r) = rd_nfail r" "rd_junk (ext q r) = rd_junk r"
  "ext q (r\<lparr>rd_rest := bs\<rparr>) = r\<lparr>rd_rest := bs @ q\<rparr>"
  by (simp_all add: ext_def)

locale reader =
  fixes rd :: "rdr \<Rightarrow> ('a \<times> rdr) res"
  assumes shrink: "rd r = Inr (a, r') \<Longrightarrow> length (rd_rest r') \<le> length (rd_rest r)"
    and sticky: "rd r = Inr (a, r') \<Longrightarrow> rd_err r \<Longrightarrow> rd_err r'"
    and extend: "rd r = Inr (a, r') \<Longrightarrow> \<not> rd_err r' \<Longrightarrow> rd (ext q r) = Inr (a, ext q r')"

subsection \<open>Readers compose\<close>

lemma reader_return [intro!]: "reader (\<lambda>r. Inr (a, r))"
  by unfold_locales auto

lemma reader_raise [intro!]: "reader (\<lambda>r. Inr (a, r\<lparr>rd_err := True\<rparr>))"
  by unfold_locales auto

lemma reader_crash [intro!]: "reader (\<lambda>r. Inl e)"
  by unfold_locales auto

lemma reader_bind [intro]:
  assumes m: "reader m" and k: "\<And>x. reader (k x)"
  shows "reader (\<lambda>r. rbind (m r) (\<lambda>(x, r). k x r))"
proof unfold_locales
  fix r a r' q
  assume "rbind (m r) (\<lambda>(x, r). k x r) = Inr (a, r')"
  then obtain x r1 where 1: "m r = Inr (x, r1)" and 2: "k x r1 = Inr (a, r')"
    by (auto simp: rbind_eq_Inr)
  show "length (rd_rest r') \<le> length (rd_rest r)"
    using reader.shrink [OF m 1] reader.shrink [OF k 2] by simp
  show "rd_err r \<Longrightarrow> rd_err r'"
    using reader.sticky [OF m 1] reader.sticky [OF k 2] by blast
  assume ok: "\<not> rd_err r'"
  have "\<not> rd_err r1" using reader.sticky [OF k 2] ok by blast
  then show "rbind (m (ext q r)) (\<lambda>(x, r). k x r) = Inr (a, ext q r')"
    using reader.extend [OF m 1] reader.extend [OF k 2 ok] by simp
qed

lemma reader_if [intro]:
  "(c \<Longrightarrow> reader m) \<Longrightarrow> (\<not> c \<Longrightarrow> reader m') \<Longrightarrow> reader (\<lambda>r. if c then m r else m' r)"
  by (cases c) simp_all

context reader
begin

lemma read_n_reader: "reader (read_n rd n)"
proof (induction n)
  case 0
  have "read_n rd 0 = (\<lambda>r. Inr ([], r))" by (rule ext) simp
  then show ?case by auto
next
  case (Suc n)
  have "read_n rd (Suc n) =
      (\<lambda>r. rbind (rd r) (\<lambda>(x, r). rbind (read_n rd n r) (\<lambda>(xs, r). Inr (x # xs, r))))"
    by (rule ext) simp
  then show ?case using reader_axioms Suc by auto
qed

end

lemmas read_n_reader [intro] = reader.read_n_reader

subsection \<open>The primitive readers\<close>

lemma r_fail_simps [simp]:
  "rd_rest (r_fail r) = rd_rest r" "rd_err (r_fail r) = True"
  by (simp_all add: r_fail_def)

lemma reader_u8_case [intro]:
  assumes k: "\<And>b. reader (k b)" and j: "\<And>r. j r = Inr (a, r\<lparr>rd_err := True\<rparr>) \<or> j r = Inr (a, r)"
  shows "reader (\<lambda>r. case r_u8 r of (None, r) \<Rightarrow> j r | (Some b, r) \<Rightarrow> k b r)"
proof unfold_locales
  fix r x r' q
  assume eq: "(case r_u8 r of (None, r) \<Rightarrow> j r | (Some b, r) \<Rightarrow> k b r) = Inr (x, r')"
  have A: "length (rd_rest r') \<le> length (rd_rest r) \<and> (rd_err r \<longrightarrow> rd_err r') \<and>
      (\<not> rd_err r' \<longrightarrow> (case r_u8 (ext q r) of (None, r) \<Rightarrow> j r | (Some b, r) \<Rightarrow> k b r) = Inr (x, ext q r'))"
  proof (cases "rd_rest r")
    case Nil
    then have "j (r_fail r) = Inr (x, r')" using eq by (simp add: r_u8_def)
    with j [of "r_fail r"] show ?thesis by auto
  next
    case (Cons b bs)
    let ?r = "r\<lparr>rd_rest := bs\<rparr>"
    have kb: "k b ?r = Inr (x, r')" using eq Cons by (simp add: r_u8_def)
    have "length (rd_rest r') \<le> length bs" "rd_err r \<longrightarrow> rd_err r'"
      using reader.shrink [OF k kb] reader.sticky [OF k kb] by auto
    moreover have "k b (ext q ?r) = Inr (x, ext q r')" if "\<not> rd_err r'"
      using reader.extend [OF k kb that] .
    ultimately show ?thesis using Cons by (simp add: r_u8_def ext_def)
  qed
  from A show "length (rd_rest r') \<le> length (rd_rest r)" by blast
  from A show "rd_err r \<Longrightarrow> rd_err r'" by blast
  from A show "\<not> rd_err r' \<Longrightarrow>
      (case r_u8 (ext q r) of (None, r) \<Rightarrow> j r | (Some b, r) \<Rightarrow> k b r) = Inr (x, ext q r')" by blast
qed

lemma reader_v_u8 [intro!]: "reader v_u8"
  by unfold_locales (auto simp: v_u8_def r_u8_def split: list.splits)

lemma reader_v_u32 [intro!]: "reader v_u32"
  by unfold_locales (auto simp: v_u32_def r_u32_def split: list.splits)

lemma reader_v_i64 [intro!]: "reader v_i64"
  by unfold_locales (auto simp: v_i64_def r_i64_def split: if_splits)

lemma reader_v_f64 [intro!]: "reader v_f64"
  by unfold_locales (auto simp: v_f64_def r_f64_def r_i64_def split: if_splits)

lemma reader_read_line [intro!]: "reader (read_line ver)"
  using reader_v_u32 reader_return unfolding read_line_def by (cases "2 \<le> ver") auto

lemma reader_read_string [intro!]: "reader read_string"
proof -
  have h: "reader (\<lambda>r. case r_bytes n r of (Some bs, r) \<Rightarrow> Inr (f bs, r) | (None, r) \<Rightarrow> Inr (x, r))"
    for n and f :: "byte list \<Rightarrow> string" and x
    by unfold_locales (auto simp: r_bytes_def split: if_splits)
  show ?thesis unfolding read_string_def
    by (intro reader_bind reader_v_u32 reader_if reader_crash reader_return h)
qed

lemma reader_read_counted [intro]: "reader rd \<Longrightarrow> reader (read_counted rd)"
  unfolding read_counted_def by auto

lemma reader_read_param [intro!]: "reader read_param"
  unfolding read_param_def by (intro reader_bind reader_v_u8 reader_v_u32 reader_return)

subsection \<open>The readers of nodes and declarations\<close>

lemmas reader_intros = reader_bind reader_if reader_return reader_raise reader_v_u8 reader_v_u32
  reader_v_i64 reader_v_f64 read_n_reader

lemma reader_expr_body: "reader re \<Longrightarrow> reader (read_expr_body re tag h)"
  unfolding read_expr_body_def by (intro reader_intros)

lemma reader_read_expr [intro!]: "reader (read_expr f)"
proof (induction f)
  case 0
  have "read_expr 0 = (\<lambda>r. Inl OutOfFuel)" by (rule ext) simp
  then show ?case by auto
next
  case (Suc f)
  have eq: "read_expr (Suc f) = (\<lambda>r. case r_u8 r of
     (None, r) \<Rightarrow> Inr (E_NULL, r)
   | (Some tag, r) \<Rightarrow> if tag = 0xFF then Inr (E_NULL, r) else (case r_u8 r of
       (None, r) \<Rightarrow> Inr (E_NULL, r\<lparr>rd_err := True\<rparr>)
     | (Some ty, r) \<Rightarrow> (case r_u8 r of
         (None, r) \<Rightarrow> Inr (E_NULL, r\<lparr>rd_err := True\<rparr>)
       | (Some lv, r) \<Rightarrow> read_expr_body (\<lambda>r. read_expr f r) tag (ty, lv) r)))"
    by (rule ext) simp
  show ?case unfolding eq
    by (intro reader_u8_case reader_if reader_return reader_expr_body Suc) auto
qed

lemma reader_opt_expr [intro!]: "reader (read_opt_expr f flag)"
proof -
  have "read_opt_expr f flag = (\<lambda>r. if flag \<noteq> 0 then read_expr f r else Inr (E_NULL, r))"
    by (rule ext) (simp add: read_opt_expr_def)
  then show ?thesis by auto
qed

lemma reader_stmt_body: "reader rs \<Longrightarrow> reader (read_stmt_body f rs tag l)"
  unfolding read_stmt_body_def
  by (intro reader_intros reader_read_expr reader_opt_expr)

lemma reader_read_stmt [intro!]: "reader (read_stmt ver f)"
proof (induction f)
  case 0
  have "read_stmt ver 0 = (\<lambda>r. Inl OutOfFuel)" by (rule ext) simp
  then show ?case by auto
next
  case (Suc f)
  have eq: "read_stmt ver (Suc f) = (\<lambda>r. case r_u8 r of
     (None, r) \<Rightarrow> Inr (S_NULL, r)
   | (Some tag, r) \<Rightarrow> if tag = 0xFF then Inr (S_NULL, r)
       else rbind (read_line ver r) (\<lambda>(l, r). read_stmt_body f (\<lambda>r. read_stmt ver f r) tag l r))"
    by (rule ext) simp
  show ?case unfolding eq
    by (intro reader_u8_case reader_if reader_return reader_bind reader_stmt_body
        reader_read_line Suc) auto
qed

lemma reader_read_global [intro!]: "reader (read_global f)"
  unfolding read_global_def by (intro reader_intros reader_opt_expr)

lemma reader_read_func [intro!]: "reader (read_func ver f)"
  unfolding read_func_def by (intro reader_intros reader_read_line reader_read_param reader_read_stmt)

lemma reader_read_event [intro!]: "reader (read_event ver f)"
  unfolding read_event_def by (intro reader_intros reader_read_line reader_read_param reader_read_stmt)

lemma reader_read_state [intro!]: "reader (read_state ver f)"
  unfolding read_state_def by (intro reader_intros reader_read_line reader_read_event)

lemma reader_read_body [intro!]: "reader (read_body ver f flags path)"
  unfolding read_body_def
  by (intro reader_intros reader_read_counted reader_read_string reader_read_global
      reader_read_func reader_read_state)

end
