(* ===== verification/Format.thy ===== *)
theory Format
  imports Codec
begin

unbundle bit_operations_syntax

text \<open>
  The bytecode format as an encoder, written from section 4 of the documentation and not from
  the reader, and the proof that the reader of \<open>loader.c\<close> inverts it. The locale \<open>codec\<close> pairs
  a reader with an encoder; it is interpreted for every item of the format, from bytes up to
  state declarations, and the counted vectors of the file are proved once inside it.
\<close>

subsection \<open>Decoding, up to the fuel of the model\<close>

definition decodes :: "(rdr \<Rightarrow> ('a \<times> rdr) res) \<Rightarrow> byte list \<Rightarrow> 'a \<Rightarrow> bool" where
  "decodes rd bs a \<longleftrightarrow> (\<forall>r q. rd_rest r = bs @ q \<longrightarrow>
     rd r = Inr (a, r\<lparr>rd_rest := q\<rparr>) \<or> rd r = Inl OutOfFuel)"

lemma decodesI:
  "(\<And>r q. rd_rest r = bs @ q \<Longrightarrow> rd r = Inr (a, r\<lparr>rd_rest := q\<rparr>)) \<Longrightarrow> decodes rd bs a"
  by (simp add: decodes_def)

lemma decodes_return: "decodes (\<lambda>r. Inr (a, r)) [] a"
  by (rule decodesI) (metis append_Nil rdr.surjective rdr.update_convs(1))

lemma decodes_fuel: "decodes (\<lambda>r. Inl OutOfFuel) bs a"
  by (simp add: decodes_def)

lemma decodes_bind:
  assumes m: "decodes m bs x" and k: "decodes (k x) bs' y"
  shows "decodes (\<lambda>r. rbind (m r) (\<lambda>(x, r). k x r)) (bs @ bs') y"
  unfolding decodes_def
proof (intro allI impI)
  fix r :: rdr and q assume r: "rd_rest r = (bs @ bs') @ q"
  show "rbind (m r) (\<lambda>(x, r). k x r) = Inr (y, r\<lparr>rd_rest := q\<rparr>) \<or>
        rbind (m r) (\<lambda>(x, r). k x r) = Inl OutOfFuel"
    using m [unfolded decodes_def, rule_format, of r "bs' @ q"] r
      k [unfolded decodes_def, rule_format, of "r\<lparr>rd_rest := bs' @ q\<rparr>" q]
    by auto
qed

lemma decodes_last:
  assumes m: "decodes m bs x" and y: "y = f x"
  shows "decodes (\<lambda>r. rbind (m r) (\<lambda>(x, r). Inr (f x, r))) bs y"
  unfolding y using decodes_bind [OF m, of "\<lambda>x r. Inr (f x, r)" "[]", OF decodes_return] by simp

lemma decodes_if_True: "c \<Longrightarrow> decodes m bs a \<Longrightarrow> decodes (\<lambda>r. if c then m r else m' r) bs a"
  by simp

locale codec = reader rd for rd :: "rdr \<Rightarrow> ('a \<times> rdr) res" +
  fixes enc :: "'a \<Rightarrow> byte list" and ok :: "'a \<Rightarrow> bool"
  assumes decode: "ok a \<Longrightarrow> decodes rd (enc a) a"
begin

lemma decode_n: "list_all ok xs \<Longrightarrow> decodes (read_n rd (length xs)) (concat (map enc xs)) xs"
proof (induction xs)
  case Nil
  have "read_n rd 0 = (\<lambda>r. Inr ([], r))" by (rule ext) simp
  then show ?case by (simp add: decodes_return)
next
  case (Cons x xs)
  have "read_n rd (length (x # xs)) =
      (\<lambda>r. rbind (rd r) (\<lambda>(x, r). rbind (read_n rd (length xs) r) (\<lambda>(xs, r). Inr (x # xs, r))))"
    by (rule ext) simp
  moreover have "decodes \<dots> (enc x @ concat (map enc xs)) (x # xs)"
    using Cons by (intro decodes_bind [OF decode] decodes_last [where x = xs]) auto
  ultimately show ?case by simp
qed

end

lemma codecI:
  "reader rd \<Longrightarrow> (\<And>a. ok a \<Longrightarrow> decodes rd (enc a) a) \<Longrightarrow> codec rd enc ok"
  by (simp add: codec_def codec_axioms_def)

subsection \<open>The primitive items\<close>

definition enc_u8 :: "byte \<Rightarrow> byte list" where
  "enc_u8 b = [b]"

definition enc_u32 :: "cint \<Rightarrow> byte list" where
  "enc_u32 w = [ucast w, ucast (drop_bit 8 w), ucast (drop_bit 16 w), ucast (drop_bit 24 w)]"

definition enc_i64 :: "llong \<Rightarrow> byte list" where
  "enc_i64 w = map (\<lambda>i. ucast (drop_bit (i * 8) w)) [0 ..< 8]"

definition enc_f64 :: "double \<Rightarrow> byte list" where
  "enc_f64 x = enc_i64 (bits_of_double x)"

definition enc_string :: "string \<Rightarrow> byte list" where
  "enc_string s = enc_u32 (of_nat (length s)) @ map (\<lambda>c. of_nat (of_char c)) s"

lemma length_enc [simp]: "length (enc_u32 w) = 4" "length (enc_i64 v) = 8"
  by (simp_all add: enc_u32_def enc_i64_def)

lemma u32_bytes:
  fixes w :: cint
  shows "ucast (ucast w :: byte) OR push_bit 8 (ucast (ucast (drop_bit 8 w) :: byte))
    OR push_bit 16 (ucast (ucast (drop_bit 16 w) :: byte))
    OR push_bit 24 (ucast (ucast (drop_bit 24 w) :: byte)) = w"
proof (rule bit_word_eqI)
  fix n assume "n < LENGTH(32)"
  then consider "n < 8" | "8 \<le> n" "n < 16" | "16 \<le> n" "n < 24" | "24 \<le> n" "n < 32"
    by fastforce
  then show "bit (ucast (ucast w :: byte) OR push_bit 8 (ucast (ucast (drop_bit 8 w) :: byte))
    OR push_bit 16 (ucast (ucast (drop_bit 16 w) :: byte))
    OR push_bit 24 (ucast (ucast (drop_bit 24 w) :: byte)) :: cint) n = bit w n"
    by cases (auto simp: bit_simps)
qed

lemma or_bytes_bit:
  "bit (or_bytes i bs v) n \<longleftrightarrow> bit v n \<or>
     n < 64 \<and> i * 8 \<le> n \<and> n < (i + length bs) * 8 \<and> bit (bs ! (n div 8 - i)) (n mod 8)"
proof (induction i bs v rule: or_bytes.induct)
  case (1 i v)
  then show ?case by auto
next
  case (2 i b bs v)
  consider "n < i * 8" | "i * 8 \<le> n" "n < Suc i * 8" | "Suc i * 8 \<le> n" by linarith
  then show ?case
  proof cases
    case 1
    then show ?thesis using 2 by (auto simp: bit_simps)
  next
    case 2
    then have "n div 8 = i" by (intro div_nat_eqI) auto
    moreover from this have "n mod 8 = n - i * 8" by (simp add: modulo_nat_def)
    ultimately show ?thesis using 2 "2.IH" by (auto simp: bit_simps)
  next
    case 3
    then have "i < n div 8" by (simp add: less_eq_div_iff_mult_less_eq Suc_le_eq [symmetric])
    then have nth: "(b # bs) ! (n div 8 - i) = bs ! (n div 8 - Suc i)"
      by (simp add: nth_Cons' Suc_diff_Suc)
    have nb: "\<not> bit (push_bit (i * 8) (ucast b :: llong)) n"
    proof
      assume "bit (push_bit (i * 8) (ucast b :: llong)) n"
      then have "bit b (n - i * 8)" by (auto simp: bit_simps)
      then have "n - i * 8 < 8" by (auto dest: bit_imp_le_length)
      with 3 show False by simp
    qed
    show ?thesis using 3 "2.IH" nth nb by (auto simp: bit_or_iff)
  qed
qed

lemma i64_bytes: "or_bytes 0 (enc_i64 w) 0 = w"
proof (rule bit_word_eqI)
  fix n assume n: "n < LENGTH(64)"
  then have d: "n div 8 < 8" by simp
  have "bit (enc_i64 w ! (n div 8)) (n mod 8) = bit w n"
    using d by (simp add: enc_i64_def bit_simps)
  then show "bit (or_bytes 0 (enc_i64 w) 0) n = bit w n"
    using n by (simp add: or_bytes_bit)
qed

interpretation u8: codec v_u8 enc_u8 "\<lambda>_. True"
  by (rule codecI) (auto simp: decodes_def enc_u8_def v_u8_def r_u8_def)


interpretation u32: codec v_u32 enc_u32 "\<lambda>_. True"
  by (rule codecI) (auto simp: decodes_def enc_u32_def v_u32_def r_u32_def u32_bytes)

interpretation i64: codec v_i64 enc_i64 "\<lambda>_. True"
proof (rule codecI)
  show "decodes v_i64 (enc_i64 w) w" for w
    by (rule decodesI) (simp add: v_i64_def r_i64_def i64_bytes)
qed auto

interpretation f64: codec v_f64 enc_f64 wf_double
proof (rule codecI)
  show "decodes v_f64 (enc_f64 x) x" if "wf_double x" for x
    using that
    by (intro decodesI) (simp add: enc_f64_def v_f64_def r_f64_def r_i64_def i64_bytes
        double_of_bits_of_double)
qed auto

definition ok_string :: "string \<Rightarrow> bool" where
  "ok_string s \<longleftrightarrow> c_string s \<and> length s < 2 ^ 32 - 1"

lemma string_bytes: "map (\<lambda>b :: byte. char_of (unat b)) (map (\<lambda>c. of_nat (of_char c)) s) = s"
proof -
  have "char_of (unat (of_nat (of_char c) :: byte)) = c" for c
  proof -
    have "of_char c < (256 :: nat)" by simp
    then have "unat (of_nat (of_char c) :: byte) = of_char c" by (simp add: unat_of_nat)
    then show ?thesis by simp
  qed
  then show ?thesis by (simp add: map_idI)
qed

lemma unat_u32: "n < 2 ^ 32 \<Longrightarrow> unat (of_nat n :: cint) = n"
  by (simp add: unat_of_nat)

interpretation str: codec read_string enc_string ok_string
proof (rule codecI)
  fix s assume s: "ok_string s"
  let ?l = "of_nat (length s) :: cint"
  have u: "unat ?l = length s" using s by (simp add: unat_u32 ok_string_def)
  have l1: "?l \<noteq> - 1"
  proof
    assume "?l = - 1"
    moreover have "unat (- 1 :: cint) = 2 ^ 32 - 1" by (simp add: unsigned_minus_1_eq_mask mask_eq_exp_minus_1)
    ultimately have "unat ?l = 2 ^ 32 - 1" by (simp only:)
    with u s show False by (simp add: ok_string_def)
  qed
  have l0: "?l = 0 \<longleftrightarrow> s = []" using u by (metis length_0_conv unat_eq_zero)
  let ?k = "\<lambda>l r. if l = - 1 then Inl BadMemory else if l = 0 then Inr ([], r)
     else (case r_bytes (unat l) r of
         (Some bs, r) \<Rightarrow> Inr (cstr (map (\<lambda>b. char_of (unat b)) bs), r)
       | (None, r) \<Rightarrow> Inr ([], r))"
  have k: "decodes (?k ?l) (map (\<lambda>c. of_nat (of_char c)) s) s"
  proof (rule decodesI)
    fix r :: rdr and q
    assume r: "rd_rest r = map (\<lambda>c. of_nat (of_char c)) s @ q"
    have "r\<lparr>rd_rest := q\<rparr> = r" if "s = []" using r that by simp
    then show "?k ?l r = Inr (s, r\<lparr>rd_rest := q\<rparr>)"
      using r l1 l0 u s
      by (simp add: r_bytes_def string_bytes ok_string_def del: map_map)
  qed
  show "decodes read_string (enc_string s) s"
    unfolding read_string_def enc_string_def by (rule decodes_bind [OF u32.decode [OF TrueI]], rule k)
qed auto

definition enc_counted :: "('a \<Rightarrow> byte list) \<Rightarrow> 'a list \<Rightarrow> byte list" where
  "enc_counted enc xs = enc_u32 (of_nat (length xs)) @ concat (map enc xs)"

context codec
begin

lemma decode_counted:
  assumes "list_all ok xs" "length xs < 2 ^ 32"
  shows "decodes (read_counted rd) (enc_counted enc xs) xs"
  unfolding read_counted_def enc_counted_def
  using assms by (intro decodes_bind [OF u32.decode]) (simp_all add: unat_u32 decode_n)

end


subsection \<open>Expressions and statements\<close>

text \<open>
  The encoders of nodes. A null node is the byte 0xFF; a node starts with its tag and, for
  expressions, its type and lvalue bytes, for statements of version 2 its line. Optional parts
  are behind a presence byte that the encoder writes as 0 or 1.
\<close>

fun enc_hdr :: "byte \<Rightarrow> hdr \<Rightarrow> byte list" where
  "enc_hdr tag (t, l) = [tag, t, l]"

fun enc_expr :: "expr \<Rightarrow> byte list" where
  "enc_expr E_NULL = [0xFF]"
| "enc_expr (E_INT_LIT h v) = enc_hdr 0 h @ enc_i64 v"
| "enc_expr (E_FLOAT_LIT h v) = enc_hdr 1 h @ enc_f64 v"
| "enc_expr (E_STRING_LIT h i) = enc_hdr 2 h @ enc_u32 i"
| "enc_expr (E_IDENT h i) = enc_hdr 3 h @ enc_u32 i"
| "enc_expr (E_VECTOR_LIT h x y z) = enc_hdr 4 h @ enc_expr x @ enc_expr y @ enc_expr z"
| "enc_expr (E_ROT_LIT h x y z w) =
     enc_hdr 5 h @ enc_expr x @ enc_expr y @ enc_expr z @ enc_expr w"
| "enc_expr (E_LIST_LIT h es) =
     enc_hdr 6 h @ enc_u32 (of_nat (length es)) @ concat (map enc_expr es)"
| "enc_expr (E_CALL h i es) =
     enc_hdr 7 h @ enc_u32 i @ enc_u32 (of_nat (length es)) @ concat (map enc_expr es)"
| "enc_expr (E_MEMBER h b m) = enc_hdr 8 h @ enc_expr b @ [m]"
| "enc_expr (E_CAST h t e) = enc_hdr 9 h @ [t] @ enc_expr e"
| "enc_expr (E_UNARY h op e) = enc_hdr 10 h @ [op] @ enc_expr e"
| "enc_expr (E_POSTFIX h op e) = enc_hdr 11 h @ [op] @ enc_expr e"
| "enc_expr (E_BINARY h op a b) = enc_hdr 12 h @ [op] @ enc_expr a @ enc_expr b"
| "enc_expr (E_ASSIGN h op a b) = enc_hdr 13 h @ [op] @ enc_expr a @ enc_expr b"

fun ok_expr :: "expr \<Rightarrow> bool" where
  "ok_expr (E_FLOAT_LIT h v) \<longleftrightarrow> wf_double v"
| "ok_expr (E_VECTOR_LIT h x y z) \<longleftrightarrow> ok_expr x \<and> ok_expr y \<and> ok_expr z"
| "ok_expr (E_ROT_LIT h x y z w) \<longleftrightarrow> ok_expr x \<and> ok_expr y \<and> ok_expr z \<and> ok_expr w"
| "ok_expr (E_LIST_LIT h es) \<longleftrightarrow> length es < 2 ^ 32 \<and> list_all ok_expr es"
| "ok_expr (E_CALL h i es) \<longleftrightarrow> length es < 2 ^ 32 \<and> list_all ok_expr es"
| "ok_expr (E_MEMBER h b m) \<longleftrightarrow> ok_expr b"
| "ok_expr (E_CAST h t e) \<longleftrightarrow> ok_expr e"
| "ok_expr (E_UNARY h op e) \<longleftrightarrow> ok_expr e"
| "ok_expr (E_POSTFIX h op e) \<longleftrightarrow> ok_expr e"
| "ok_expr (E_BINARY h op a b) \<longleftrightarrow> ok_expr a \<and> ok_expr b"
| "ok_expr (E_ASSIGN h op a b) \<longleftrightarrow> ok_expr a \<and> ok_expr b"
| "ok_expr _ \<longleftrightarrow> True"

lemma decodes_u8: "decodes v_u8 [b] b"
  using u8.decode [of b] by (simp add: enc_u8_def)

lemmas decodes_simps = decodes_u8 u32.decode i64.decode f64.decode

lemma decodes_cons_u8:
  assumes "decodes (k b) bs y"
  shows "decodes (\<lambda>r. rbind (v_u8 r) (\<lambda>(x, r). k x r)) (b # bs) y"
  using decodes_bind [where k = k, OF decodes_u8 assms] by simp

lemma decodes_read_expr_Suc:
  assumes "decodes (\<lambda>r. read_expr_body (\<lambda>r. read_expr f r) tag h r) bs e" "tag \<noteq> 0xFF"
  shows "decodes (read_expr (Suc f)) (enc_hdr tag h @ bs) e"
  unfolding decodes_def
proof (intro allI impI)
  fix r :: rdr and q assume r: "rd_rest r = (enc_hdr tag h @ bs) @ q"
  then show "read_expr (Suc f) r = Inr (e, r\<lparr>rd_rest := q\<rparr>) \<or> read_expr (Suc f) r = Inl OutOfFuel"
    using assms(2) assms(1) [unfolded decodes_def, rule_format, of "r\<lparr>rd_rest := bs @ q\<rparr>" q]
    by (cases h) (auto simp: r_u8_def)
qed

lemma codec_read_n:
  assumes "reader rd" "\<And>x. x \<in> set xs \<Longrightarrow> decodes rd (enc x) x" "n = length xs"
  shows "decodes (read_n rd n) (concat (map enc xs)) xs"
proof -
  have "codec rd enc (\<lambda>x. x \<in> set xs)" by (rule codecI) (use assms in auto)
  then show ?thesis using codec.decode_n [of rd enc _ xs] assms(3) by (simp add: list_all_iff)
qed

lemma decodes_read_expr:
  "ok_expr e \<Longrightarrow> decodes (read_expr f) (enc_expr e) e"
proof (induction f arbitrary: e)
  case 0
  have "read_expr 0 = (\<lambda>r. Inl OutOfFuel)" by (rule ext) simp
  then show ?case by (simp add: decodes_fuel)
next
  case (Suc f)
  note [simp] = read_expr_body_def
  note hd = decodes_read_expr_Suc
  have sub: "decodes (\<lambda>r. read_expr f r) (enc_expr e') e'" if "ok_expr e'" for e'
    using Suc.IH [OF that] .
  have subs: "decodes (read_n (\<lambda>r. read_expr f r) (unat (of_nat (length es) :: cint)))
      (concat (map enc_expr es)) es" if "length es < 2 ^ 32" "list_all ok_expr es" for es
    using that sub by (intro codec_read_n) (auto simp: unat_u32 list_all_iff)
  show ?case
  proof (cases e)
    case E_NULL
    show ?thesis unfolding E_NULL by (rule decodesI) (simp add: r_u8_def)
  next
    case (E_INT_LIT h v)
    show ?thesis unfolding E_INT_LIT enc_expr.simps
      by (rule hd) (auto intro!: decodes_last i64.decode)
  next
    case (E_FLOAT_LIT h v)
    then show ?thesis using Suc.prems unfolding E_FLOAT_LIT enc_expr.simps
      by (intro hd) (auto intro!: decodes_last f64.decode)
  next
    case (E_STRING_LIT h v)
    show ?thesis unfolding E_STRING_LIT enc_expr.simps
      by (rule hd) (auto intro!: decodes_last u32.decode)
  next
    case (E_IDENT h v)
    show ?thesis unfolding E_IDENT enc_expr.simps
      by (rule hd) (auto intro!: decodes_last u32.decode)
  next
    case (E_VECTOR_LIT h x y z)
    then show ?thesis using Suc.prems unfolding E_VECTOR_LIT enc_expr.simps
      by (intro hd) (auto intro!: decodes_bind [OF sub] decodes_last [OF sub])
  next
    case (E_ROT_LIT h x y z w)
    then show ?thesis using Suc.prems unfolding E_ROT_LIT enc_expr.simps
      by (intro hd) (auto intro!: decodes_bind [OF sub] decodes_last [OF sub])
  next
    case (E_LIST_LIT h es)
    then show ?thesis using Suc.prems unfolding E_LIST_LIT enc_expr.simps
      by (intro hd) (auto intro!: decodes_bind [OF u32.decode] decodes_last [OF subs])
  next
    case (E_CALL h i es)
    then show ?thesis using Suc.prems unfolding E_CALL enc_expr.simps
      by (intro hd) (auto intro!: decodes_bind [OF u32.decode] decodes_last [OF subs])
  next
    case (E_MEMBER h b m)
    then show ?thesis using Suc.prems unfolding E_MEMBER enc_expr.simps
      by (intro hd) (auto intro!: decodes_bind [OF sub] decodes_last [OF decodes_u8])
  next
    case (E_CAST h t b)
    then show ?thesis using Suc.prems unfolding E_CAST enc_expr.simps
      by (intro hd) (auto intro!: decodes_cons_u8 decodes_last [OF sub])
  next
    case (E_UNARY h t b)
    then show ?thesis using Suc.prems unfolding E_UNARY enc_expr.simps
      by (intro hd) (auto intro!: decodes_cons_u8 decodes_last [OF sub])
  next
    case (E_POSTFIX h t b)
    then show ?thesis using Suc.prems unfolding E_POSTFIX enc_expr.simps
      by (intro hd) (auto intro!: decodes_cons_u8 decodes_last [OF sub])
  next
    case (E_BINARY h t a b)
    then show ?thesis using Suc.prems unfolding E_BINARY enc_expr.simps
      by (intro hd) (auto intro!: decodes_cons_u8 decodes_bind [OF sub] decodes_last [OF sub])
  next
    case (E_ASSIGN h t a b)
    then show ?thesis using Suc.prems unfolding E_ASSIGN enc_expr.simps
      by (intro hd) (auto intro!: decodes_cons_u8 decodes_bind [OF sub] decodes_last [OF sub])
  qed
qed

interpretation ex: codec "read_expr f" enc_expr ok_expr
  by (rule codecI) (auto intro: decodes_read_expr)


definition enc_line :: "int \<Rightarrow> cint \<Rightarrow> byte list" where
  "enc_line ver l = (if 2 \<le> ver then enc_u32 l else [])"

definition enc_opt :: "expr \<Rightarrow> byte list" where
  "enc_opt e = (if e = E_NULL then [0] else 1 # enc_expr e)"

fun enc_stmt :: "int \<Rightarrow> stmt \<Rightarrow> byte list" where
  "enc_stmt ver S_NULL = [0xFF]"
| "enc_stmt ver (S_EXPR l e) = 0 # enc_line ver l @ enc_expr e"
| "enc_stmt ver (S_DECL l t i e) =
     1 # enc_line ver l @ [t] @ enc_u32 i @ enc_opt e"
| "enc_stmt ver (S_BLOCK l ss) =
     2 # enc_line ver l @ enc_u32 (of_nat (length ss)) @ concat (map (enc_stmt ver) ss)"
| "enc_stmt ver (S_IF l c t e) =
     3 # enc_line ver l @ enc_expr c @ enc_stmt ver t @
       (if e = S_NULL then [0] else 1 # enc_stmt ver e)"
| "enc_stmt ver (S_WHILE l c b) = 4 # enc_line ver l @ enc_expr c @ enc_stmt ver b"
| "enc_stmt ver (S_DO l b c) = 5 # enc_line ver l @ enc_stmt ver b @ enc_expr c"
| "enc_stmt ver (S_FOR l is c ps b) =
     6 # enc_line ver l @ [of_nat (length is)] @ concat (map enc_expr is) @ enc_opt c @
       [of_nat (length ps)] @ concat (map enc_expr ps) @ enc_stmt ver b"
| "enc_stmt ver (S_RETURN l hv e) =
     7 # enc_line ver l @ [hv] @ (if hv = 0 then [] else enc_expr e)"
| "enc_stmt ver (S_JUMP l i) = 8 # enc_line ver l @ enc_u32 i"
| "enc_stmt ver (S_LABEL l i) = 9 # enc_line ver l @ enc_u32 i"
| "enc_stmt ver (S_STATECHG l i) = 10 # enc_line ver l @ enc_u32 i"
| "enc_stmt ver (S_EMPTY l) = 11 # enc_line ver l"

definition ok_line :: "int \<Rightarrow> cint \<Rightarrow> bool" where
  "ok_line ver l \<longleftrightarrow> 2 \<le> ver \<or> l = 0"

fun ok_stmt :: "int \<Rightarrow> stmt \<Rightarrow> bool" where
  "ok_stmt ver S_NULL \<longleftrightarrow> True"
| "ok_stmt ver (S_EXPR l e) \<longleftrightarrow> ok_line ver l \<and> ok_expr e"
| "ok_stmt ver (S_DECL l t i e) \<longleftrightarrow> ok_line ver l \<and> ok_expr e"
| "ok_stmt ver (S_BLOCK l ss) \<longleftrightarrow> ok_line ver l \<and> length ss < 2 ^ 32 \<and> list_all (ok_stmt ver) ss"
| "ok_stmt ver (S_IF l c t e) \<longleftrightarrow> ok_line ver l \<and> ok_expr c \<and> ok_stmt ver t \<and> ok_stmt ver e"
| "ok_stmt ver (S_WHILE l c b) \<longleftrightarrow> ok_line ver l \<and> ok_expr c \<and> ok_stmt ver b"
| "ok_stmt ver (S_DO l b c) \<longleftrightarrow> ok_line ver l \<and> ok_expr c \<and> ok_stmt ver b"
| "ok_stmt ver (S_FOR l is c ps b) \<longleftrightarrow> ok_line ver l \<and> length is < 256 \<and> list_all ok_expr is \<and>
     ok_expr c \<and> length ps < 256 \<and> list_all ok_expr ps \<and> ok_stmt ver b"
| "ok_stmt ver (S_RETURN l hv e) \<longleftrightarrow> ok_line ver l \<and> ok_expr e \<and> (hv = 0 \<longrightarrow> e = E_NULL)"
| "ok_stmt ver (S_JUMP l i) \<longleftrightarrow> ok_line ver l"
| "ok_stmt ver (S_LABEL l i) \<longleftrightarrow> ok_line ver l"
| "ok_stmt ver (S_STATECHG l i) \<longleftrightarrow> ok_line ver l"
| "ok_stmt ver (S_EMPTY l) \<longleftrightarrow> ok_line ver l"

lemma decodes_line: "ok_line ver l \<Longrightarrow> decodes (read_line ver) (enc_line ver l) l"
proof -
  assume l: "ok_line ver l"
  have "read_line ver = (if 2 \<le> ver then v_u32 else (\<lambda>r. Inr (0, r)))"
    by (rule ext) (simp add: read_line_def)
  then show ?thesis using l u32.decode [OF TrueI, of l] decodes_return [of "0 :: cint"]
    by (auto simp: enc_line_def ok_line_def)
qed

lemma decodes_opt:
  assumes "ok_expr e" and k: "decodes (k e) bs y"
  shows "decodes (\<lambda>r. rbind (v_u8 r) (\<lambda>(hi, r). rbind (read_opt_expr f hi r) (\<lambda>(e, r). k e r)))
    (enc_opt e @ bs) y"
proof (cases "e = E_NULL")
  case True
  have eq: "(\<lambda>r. rbind (read_opt_expr f 0 r) (\<lambda>(e, r). k e r)) = k e"
    by (rule ext) (simp add: read_opt_expr_def True)
  show ?thesis
    using decodes_cons_u8 [of "\<lambda>hi r. rbind (read_opt_expr f hi r) (\<lambda>(e, r). k e r)" 0 bs y] k eq True
    by (simp add: enc_opt_def)
next
  case False
  have o: "read_opt_expr f 1 = read_expr f" by (rule ext) (simp add: read_opt_expr_def)
  have "decodes (\<lambda>r. rbind (read_opt_expr f 1 r) (\<lambda>(e, r). k e r)) (enc_expr e @ bs) y"
    unfolding o by (rule decodes_bind [OF ex.decode [OF assms(1)]], rule k)
  then show ?thesis
    using decodes_cons_u8 [of "\<lambda>hi r. rbind (read_opt_expr f hi r) (\<lambda>(e, r). k e r)" 1] False
    by (simp add: enc_opt_def)
qed

lemma decodes_read_stmt_Suc:
  assumes "decodes (\<lambda>r. read_stmt_body f (\<lambda>r. read_stmt ver f r) tag l r) bs s" "tag \<noteq> 0xFF"
    "ok_line ver l"
  shows "decodes (read_stmt ver (Suc f)) (tag # enc_line ver l @ bs) s"
proof -
  have *: "decodes (\<lambda>r. rbind (read_line ver r) (\<lambda>(l, r). read_stmt_body f (\<lambda>r. read_stmt ver f r) tag l r))
      (enc_line ver l @ bs) s"
    by (rule decodes_bind [OF decodes_line [OF assms(3)]], rule assms(1))
  show ?thesis unfolding decodes_def
  proof (intro allI impI)
    fix r :: rdr and q assume "rd_rest r = (tag # enc_line ver l @ bs) @ q"
    then show "read_stmt ver (Suc f) r = Inr (s, r\<lparr>rd_rest := q\<rparr>) \<or>
        read_stmt ver (Suc f) r = Inl OutOfFuel"
      using assms(2) * [unfolded decodes_def, rule_format,
          of "r\<lparr>rd_rest := (enc_line ver l @ bs) @ q\<rparr>" q]
      by (simp add: r_u8_def)
  qed
qed

lemma decodes_read_stmt: "ok_stmt ver s \<Longrightarrow> decodes (read_stmt ver f) (enc_stmt ver s) s"
proof (induction f arbitrary: s)
  case 0
  have "read_stmt ver 0 = (\<lambda>r. Inl OutOfFuel)" by (rule ext) simp
  then show ?case by (simp add: decodes_fuel)
next
  case (Suc f)
  note [simp] = read_stmt_body_def
  note hd = decodes_read_stmt_Suc
  have sub: "decodes (\<lambda>r. read_stmt ver f r) (enc_stmt ver s') s'" if "ok_stmt ver s'" for s'
    using Suc.IH [OF that] .
  have subs: "decodes (read_n (\<lambda>r. read_stmt ver f r) (unat (of_nat (length ss) :: cint)))
      (concat (map (enc_stmt ver) ss)) ss" if "length ss < 2 ^ 32" "list_all (ok_stmt ver) ss" for ss
    using that sub by (intro codec_read_n) (auto simp: unat_u32 list_all_iff)
  have exs: "decodes (read_n (read_expr f) (unat (of_nat (length es) :: byte)))
      (concat (map enc_expr es)) es" if "length es < 256" "list_all ok_expr es" for es
    using that by (intro codec_read_n) (auto simp: unat_of_nat list_all_iff decodes_read_expr)
  show ?case
  proof (cases s)
    case S_NULL
    show ?thesis unfolding S_NULL by (rule decodesI) (simp add: r_u8_def)
  next
    case (S_EXPR l e)
    then show ?thesis using Suc.prems unfolding S_EXPR enc_stmt.simps
      by (intro hd) (auto intro!: decodes_last [OF ex.decode])
  next
    case (S_DECL l t i e)
    have "decodes (\<lambda>r. rbind (v_u32 r) (\<lambda>(i, r). rbind (v_u8 r) (\<lambda>(hi, r).
       rbind (read_opt_expr f hi r) (\<lambda>(e, r). Inr (S_DECL l t i e, r))))) (enc_u32 i @ enc_opt e) s"
      using decodes_opt [of e "\<lambda>e r. Inr (S_DECL l t i e, r)" "[]" s f] Suc.prems decodes_return [of s] S_DECL
      by (intro decodes_bind [OF u32.decode]) auto
    then show ?thesis using Suc.prems unfolding S_DECL enc_stmt.simps
      by (intro hd) (auto intro!: decodes_cons_u8)
  next
    case (S_BLOCK l ss)
    then show ?thesis using Suc.prems unfolding S_BLOCK enc_stmt.simps
      by (intro hd) (auto intro!: decodes_bind [OF u32.decode] decodes_last [OF subs])
  next
    case (S_IF l c t e)
    have nl: "decodes (\<lambda>r. Inr (S_NULL, r)) [] S_NULL" by (rule decodes_return)
    have "decodes (\<lambda>r. rbind (v_u8 r) (\<lambda>(he, r). rbind (if he \<noteq> 0 then read_stmt ver f r else Inr (S_NULL, r))
        (\<lambda>(e, r). Inr (S_IF l c t e, r)))) (if e = S_NULL then [0] else 1 # enc_stmt ver e) s"
    proof (cases "e = S_NULL")
      case True
      then show ?thesis using S_IF decodes_return [of s] by (auto intro!: decodes_cons_u8)
    next
      case False
      then show ?thesis using S_IF Suc.prems by (auto intro!: decodes_cons_u8 decodes_last [OF sub])
    qed
    then show ?thesis using Suc.prems unfolding S_IF enc_stmt.simps
      by (intro hd) (auto intro!: decodes_bind [OF ex.decode] decodes_bind [OF sub] simp del: enc_stmt.simps)
  next
    case (S_WHILE l c b)
    then show ?thesis using Suc.prems unfolding S_WHILE enc_stmt.simps
      by (intro hd) (auto intro!: decodes_bind [OF ex.decode] decodes_last [OF sub])
  next
    case (S_DO l b c)
    then show ?thesis using Suc.prems unfolding S_DO enc_stmt.simps
      by (intro hd) (auto intro!: decodes_bind [OF sub] decodes_last [OF ex.decode])
  next
    case (S_FOR l ini c ps b)
    let ?tail = "\<lambda>c r. rbind (v_u8 r) (\<lambda>(np, r). rbind (read_n (read_expr f) (unat np) r) (\<lambda>(ps, r).
       rbind (read_stmt ver f r) (\<lambda>(b, r). Inr (S_FOR l ini c ps b, r))))"
    have "decodes (?tail c) (of_nat (length ps) # concat (map enc_expr ps) @ enc_stmt ver b) s"
      using Suc.prems S_FOR
      by (auto intro!: decodes_cons_u8 decodes_bind [OF exs] decodes_last [OF sub])
    from decodes_opt [of c ?tail, OF _ this, of f]
    have "decodes (\<lambda>r. rbind (v_u8 r) (\<lambda>(hc, r). rbind (read_opt_expr f hc r) (\<lambda>(c, r). ?tail c r)))
       (enc_opt c @ of_nat (length ps) # concat (map enc_expr ps) @ enc_stmt ver b) s"
      using Suc.prems S_FOR by simp
    then show ?thesis using Suc.prems unfolding S_FOR enc_stmt.simps
      by (intro hd) (auto intro!: decodes_cons_u8 decodes_bind [OF exs])
  next
    case (S_RETURN l hv e)
    have o: "read_opt_expr f hv = (if hv = 0 then (\<lambda>r. Inr (E_NULL, r)) else read_expr f)"
      by (rule ext) (simp add: read_opt_expr_def)
    have "decodes (read_opt_expr f hv) (if hv = 0 then [] else enc_expr e) e"
      using Suc.prems S_RETURN decodes_return [of E_NULL] decodes_read_expr unfolding o by auto
    then show ?thesis using Suc.prems unfolding S_RETURN enc_stmt.simps
      by (intro hd) (auto intro!: decodes_cons_u8 decodes_last)
  next
    case (S_JUMP l i)
    then show ?thesis using Suc.prems unfolding S_JUMP enc_stmt.simps
      by (intro hd) (auto intro!: decodes_last u32.decode)
  next
    case (S_LABEL l i)
    then show ?thesis using Suc.prems unfolding S_LABEL enc_stmt.simps
      by (intro hd) (auto intro!: decodes_last u32.decode)
  next
    case (S_STATECHG l i)
    then show ?thesis using Suc.prems unfolding S_STATECHG enc_stmt.simps
      by (intro hd) (auto intro!: decodes_last u32.decode)
  next
    case (S_EMPTY l)
    then show ?thesis
      using Suc.prems hd [of f ver 11 l "[]" s] decodes_return [of s]
      by (simp del: read_stmt.simps)
  qed
qed

interpretation st: codec "read_stmt ver f" "enc_stmt ver" "ok_stmt ver"
  by (rule codecI) (auto intro: decodes_read_stmt)


subsection \<open>Declarations and the file\<close>

definition enc_param :: "param \<Rightarrow> byte list" where
  "enc_param p = pm_type p # enc_u32 (pm_name p)"

definition enc_global :: "global_var \<Rightarrow> byte list" where
  "enc_global g = gv_type g # enc_u32 (gv_name g) @ enc_opt (gv_init g)"

definition enc_func :: "int \<Rightarrow> func_decl \<Rightarrow> byte list" where
  "enc_func ver fd = enc_u32 (fd_name fd) @ enc_line ver (fd_line fd) @ [fd_ret fd, fd_has_ret fd,
     of_nat (length (fd_params fd))] @ concat (map enc_param (fd_params fd)) @ enc_stmt ver (fd_body fd)"

definition enc_event :: "int \<Rightarrow> event_decl \<Rightarrow> byte list" where
  "enc_event ver ed = enc_u32 (ed_name ed) @ enc_line ver (ed_line ed) @
     [of_nat (length (ed_params ed))] @ concat (map enc_param (ed_params ed)) @ enc_stmt ver (ed_body ed)"

definition enc_state :: "int \<Rightarrow> state_decl \<Rightarrow> byte list" where
  "enc_state ver sd = enc_u32 (sd_name sd) @ enc_line ver (sd_line sd) @ [sd_is_default sd] @
     enc_u32 (of_nat (length (sd_events sd))) @ concat (map (enc_event ver) (sd_events sd))"

definition ok_global :: "global_var \<Rightarrow> bool" where
  "ok_global g \<longleftrightarrow> ok_expr (gv_init g)"

definition ok_func :: "int \<Rightarrow> func_decl \<Rightarrow> bool" where
  "ok_func ver fd \<longleftrightarrow> ok_line ver (fd_line fd) \<and> length (fd_params fd) < 256 \<and> ok_stmt ver (fd_body fd)"

definition ok_event :: "int \<Rightarrow> event_decl \<Rightarrow> bool" where
  "ok_event ver ed \<longleftrightarrow> ok_line ver (ed_line ed) \<and> length (ed_params ed) < 256 \<and> ok_stmt ver (ed_body ed)"

definition ok_state :: "int \<Rightarrow> state_decl \<Rightarrow> bool" where
  "ok_state ver sd \<longleftrightarrow> ok_line ver (sd_line sd) \<and> length (sd_events sd) < 2 ^ 32 \<and>
     list_all (ok_event ver) (sd_events sd)"

definition enc_body :: "int \<Rightarrow> program \<Rightarrow> byte list" where
  "enc_body ver p = enc_counted enc_string (p_strings p) @ enc_counted enc_global (p_globals p) @
     enc_counted (enc_func ver) (p_funcs p) @ enc_counted (enc_state ver) (p_states p)"

definition enc_program :: "cint \<Rightarrow> program \<Rightarrow> byte list" where
  "enc_program ver p = magic @ enc_u32 ver @ enc_u32 (p_flags p) @ enc_body (sint ver) p"

definition ok_program :: "cint \<Rightarrow> program \<Rightarrow> bool" where
  "ok_program ver p \<longleftrightarrow> (ver = 1 \<or> ver = 2) \<and>
     length (p_strings p) < 2 ^ 32 \<and> list_all ok_string (p_strings p) \<and>
     length (p_globals p) < 2 ^ 32 \<and> list_all ok_global (p_globals p) \<and>
     length (p_funcs p) < 2 ^ 32 \<and> list_all (ok_func (sint ver)) (p_funcs p) \<and>
     length (p_states p) < 2 ^ 32 \<and> list_all (ok_state (sint ver)) (p_states p)"

interpretation pm: codec read_param enc_param "\<lambda>_. True"
proof (rule codecI)
  show "decodes read_param (enc_param p) p" for p
    unfolding read_param_def enc_param_def
    by (intro decodes_cons_u8 decodes_last [OF u32.decode]) simp_all
qed auto

interpretation gv: codec "read_global f" enc_global ok_global
proof (rule codecI)
  show "decodes (read_global f) (enc_global g) g" if "ok_global g" for g
  proof -
    let ?k = "\<lambda>e r. Inr (\<lparr>gv_type = gv_type g, gv_name = gv_name g, gv_init = e\<rparr>, r)"
    have "decodes (\<lambda>r. rbind (v_u8 r) (\<lambda>(hi, r). rbind (read_opt_expr f hi r) (\<lambda>(e, r). ?k e r)))
        (enc_opt (gv_init g) @ []) g"
      using that by (cases g) (intro decodes_opt, auto simp: ok_global_def decodes_return)
    then show ?thesis unfolding read_global_def enc_global_def
      by (intro decodes_cons_u8 decodes_bind [OF u32.decode]) simp_all
  qed
qed auto

lemma decodes_params:
  "length ps < 256 \<Longrightarrow> decodes (read_n read_param (unat (of_nat (length ps) :: byte)))
     (concat (map enc_param ps)) ps"
  by (intro codec_read_n) (auto simp: unat_of_nat intro: pm.decode)

interpretation fd: codec "read_func ver f" "enc_func ver" "ok_func ver"
proof (rule codecI)
  show "decodes (read_func ver f) (enc_func ver x) x" if "ok_func ver x" for x
    using that unfolding read_func_def enc_func_def ok_func_def append.simps
    by (intro decodes_bind [OF u32.decode] decodes_bind [OF decodes_line] decodes_cons_u8
        decodes_bind [OF decodes_params] decodes_last [OF st.decode]) auto
qed auto

interpretation ev: codec "read_event ver f" "enc_event ver" "ok_event ver"
proof (rule codecI)
  show "decodes (read_event ver f) (enc_event ver x) x" if "ok_event ver x" for x
    using that unfolding read_event_def enc_event_def ok_event_def append.simps
    by (intro decodes_bind [OF u32.decode] decodes_bind [OF decodes_line] decodes_cons_u8
        decodes_bind [OF decodes_params] decodes_last [OF st.decode]) auto
qed auto

interpretation sd: codec "read_state ver f" "enc_state ver" "ok_state ver"
proof (rule codecI)
  show "decodes (read_state ver f) (enc_state ver x) x" if "ok_state ver x" for x
  proof -
    have "decodes (read_n (read_event ver f) (unat (of_nat (length (sd_events x)) :: cint)))
        (concat (map (enc_event ver) (sd_events x))) (sd_events x)"
      using that by (intro codec_read_n) (auto simp: unat_u32 ok_state_def list_all_iff intro: ev.decode)
    then show ?thesis
      using that unfolding read_state_def enc_state_def ok_state_def append.simps
      by (intro decodes_bind [OF u32.decode] decodes_bind [OF decodes_line] decodes_cons_u8
          decodes_last) auto
  qed
qed auto

lemma decodes_body:
  assumes "ok_program ver p"
  shows "decodes (read_body (sint ver) f (p_flags p) (p_path p)) (enc_body (sint ver) p) p"
  using assms unfolding read_body_def enc_body_def ok_program_def
  by (intro decodes_bind [OF str.decode_counted] decodes_bind [OF gv.decode_counted]
      decodes_bind [OF fd.decode_counted] decodes_last [OF sd.decode_counted]) auto

end
