(* ===== verification/LoaderProps.thy ===== *)
theory LoaderProps
  imports Format
begin

unbundle bit_operations_syntax

text \<open>
  The theorems of the loader: the fuel of the model is always enough, a well-formed file is read
  back exactly, and a damaged one is refused.
\<close>

subsection \<open>One unit of fuel per byte is enough\<close>

definition fueled :: "nat \<Rightarrow> (rdr \<Rightarrow> ('a \<times> rdr) res) \<Rightarrow> bool" where
  "fueled n rd \<longleftrightarrow> (\<forall>r. length (rd_rest r) \<le> n \<longrightarrow> rd r \<noteq> Inl OutOfFuel)"

lemma fueled_bind:
  assumes "fueled n m" "reader m" "\<And>x. fueled n (k x)"
  shows "fueled n (\<lambda>r. rbind (m r) (\<lambda>(x, r). k x r))"
  unfolding fueled_def
proof (intro allI impI notI)
  fix r :: rdr assume r: "length (rd_rest r) \<le> n"
  assume "rbind (m r) (\<lambda>(x, r). k x r) = Inl OutOfFuel"
  then consider "m r = Inl OutOfFuel" | x r1 where "m r = Inr (x, r1)" "k x r1 = Inl OutOfFuel"
    by (auto simp: rbind_eq_Inl)
  then show False
  proof cases
    case 1
    with assms(1) r show False by (simp add: fueled_def)
  next
    case 2
    from reader.shrink [OF assms(2) 2(1)] r have "length (rd_rest r1) \<le> n" by simp
    with assms(3) [of x] 2(2) show False by (simp add: fueled_def)
  qed
qed

lemma fueled_return: "fueled n (\<lambda>r. Inr (f r))"
  by (simp add: fueled_def)

lemma fueled_if: "(c \<Longrightarrow> fueled n m) \<Longrightarrow> (\<not> c \<Longrightarrow> fueled n m') \<Longrightarrow> fueled n (\<lambda>r. if c then m r else m' r)"
  by (cases c) simp_all

lemma fueled_crash: "e \<noteq> OutOfFuel \<Longrightarrow> fueled n (\<lambda>r. Inl e)"
  by (simp add: fueled_def)

lemma fueled_read_n: "fueled n rd \<Longrightarrow> reader rd \<Longrightarrow> fueled n (read_n rd k)"
proof (induction k)
  case 0
  then show ?case by (simp add: fueled_def)
next
  case (Suc k)
  have "read_n rd (Suc k) =
      (\<lambda>r. rbind (rd r) (\<lambda>(x, r). rbind (read_n rd k r) (\<lambda>(xs, r). Inr (x # xs, r))))"
    by (rule ext) simp
  with Suc show ?case by (auto intro!: fueled_bind fueled_return reader.read_n_reader)
qed

lemma fueled_prims [intro!]:
  "fueled n v_u8" "fueled n v_u32" "fueled n v_i64" "fueled n v_f64" "fueled n read_param"
  "fueled n (read_line ver)"
proof -
  show 1: "fueled n v_u8" and 2: "fueled n v_u32"
    by (auto simp: fueled_def v_u8_def v_u32_def split: prod.splits option.splits)
  show "fueled n v_i64" "fueled n v_f64"
    by (auto simp: fueled_def v_i64_def v_f64_def split: prod.splits option.splits)
  show "fueled n read_param" unfolding read_param_def
    by (intro fueled_bind 1 2 fueled_return reader_v_u8 reader_v_u32)
  show "fueled n (read_line ver)" unfolding read_line_def
    by (intro fueled_if 2 fueled_return)
qed

lemmas fueled_intros = fueled_bind fueled_if fueled_return fueled_read_n fueled_prims
  reader_intros reader_read_line reader_read_param reader_read_expr reader_opt_expr
  reader_read_stmt

lemma fueled_expr_body: "fueled n re \<Longrightarrow> reader re \<Longrightarrow> fueled n (read_expr_body re tag h)"
  unfolding read_expr_body_def by (intro fueled_intros)

lemma fueled_expr: "n < f \<Longrightarrow> fueled n (read_expr f)"
proof (induction f arbitrary: n)
  case 0
  then show ?case by simp
next
  case (Suc f)
  have body: "read_expr_body (\<lambda>r. read_expr f r) tag h r \<noteq> Inl OutOfFuel"
    if "length (rd_rest r) < n" for tag h r
  proof -
    from that Suc have "fueled (n - 1) (\<lambda>r. read_expr f r)" by (intro Suc.IH) linarith
    from fueled_expr_body [OF this reader_read_expr] that show ?thesis by (auto simp: fueled_def)
  qed
  show ?case
    by (auto simp: fueled_def r_u8_def split: list.splits intro!: body)
qed

lemma fueled_opt_expr: "n < f \<Longrightarrow> fueled n (read_opt_expr f flag)"
  unfolding read_opt_expr_def by (intro fueled_if fueled_expr fueled_return)

lemma fueled_stmt_body:
  "n < f \<Longrightarrow> fueled n rs \<Longrightarrow> reader rs \<Longrightarrow> fueled n (read_stmt_body f rs tag l)"
  unfolding read_stmt_body_def
  by (intro fueled_intros fueled_expr fueled_opt_expr)

lemma fueled_stmt: "n < f \<Longrightarrow> fueled n (read_stmt ver f)"
proof (induction f arbitrary: n)
  case 0
  then show ?case by simp
next
  case (Suc f)
  have body: "rbind (read_line ver r) (\<lambda>(l, r). read_stmt_body f (\<lambda>r. read_stmt ver f r) tag l r)
      \<noteq> Inl OutOfFuel"
    if "length (rd_rest r) < n" for tag r
  proof -
    from that Suc have f: "n - 1 < f" by linarith
    have "fueled (n - 1) (\<lambda>r. rbind (read_line ver r)
        (\<lambda>(l, r). read_stmt_body f (\<lambda>r. read_stmt ver f r) tag l r))"
      by (intro fueled_bind fueled_prims fueled_stmt_body f Suc.IH reader_read_line reader_read_stmt)
    with that show ?thesis by (auto simp: fueled_def)
  qed
  show ?case
    by (auto simp: fueled_def r_u8_def split: list.splits intro!: body)
qed

lemma fueled_counted: "fueled n rd \<Longrightarrow> reader rd \<Longrightarrow> fueled n (read_counted rd)"
  unfolding read_counted_def by (intro fueled_intros)

lemma fueled_body: "n < f \<Longrightarrow> fueled n (read_body ver f flags path)"
proof -
  assume f: "n < f"
  have s: "fueled n read_string"
    unfolding read_string_def
    by (intro fueled_bind fueled_prims fueled_if fueled_crash fueled_return reader_v_u32)
      (auto simp: fueled_def split: prod.splits option.splits)
  have g: "fueled n (read_global f)" unfolding read_global_def
    by (intro fueled_intros fueled_opt_expr f)
  have fn: "fueled n (read_func ver f)" unfolding read_func_def
    by (intro fueled_intros fueled_stmt f)
  have e: "fueled n (read_event ver f)" unfolding read_event_def
    by (intro fueled_intros fueled_stmt f)
  have st: "fueled n (read_state ver f)" unfolding read_state_def
    by (intro fueled_intros e reader_read_event)
  show ?thesis unfolding read_body_def
    by (intro fueled_bind fueled_return fueled_counted s g fn st reader_read_counted
        reader_read_string reader_read_global reader_read_func reader_read_state)
qed

subsection \<open>The header\<close>

definition start_rdr :: "(nat \<Rightarrow> llong) \<Rightarrow> byte list \<Rightarrow> rdr" where
  "start_rdr junk bs = \<lparr>rd_rest = bs, rd_err = False, rd_nfail = 0, rd_junk = junk\<rparr>"

definition hdr_version :: "byte list \<Rightarrow> cint" where
  "hdr_version buf = ucast (buf ! 5) OR push_bit 8 (ucast (buf ! 6))
     OR push_bit 16 (ucast (buf ! 7)) OR push_bit 24 (ucast (buf ! 8))"

definition hdr_flags :: "byte list \<Rightarrow> cint" where
  "hdr_flags buf = ucast (buf ! 9) OR push_bit 8 (ucast (buf ! 10))
     OR push_bit 16 (ucast (buf ! 11)) OR push_bit 24 (ucast (buf ! 12))"

lemma r_u32_alt:
  "r_u32 r = (if length (rd_rest r) < 4 then (None, r_fail r)
     else (Some (ucast (rd_rest r ! 0) OR push_bit 8 (ucast (rd_rest r ! 1))
       OR push_bit 16 (ucast (rd_rest r ! 2)) OR push_bit 24 (ucast (rd_rest r ! 3))),
       r\<lparr>rd_rest := drop 4 (rd_rest r)\<rparr>))"
  by (auto simp: r_u32_def eval_nat_numeral split: list.splits)

lemma version_range:
  fixes w :: cint
  shows "sint w < 1 \<or> 2 < sint w \<longleftrightarrow> w \<notin> {1, 2}"
proof -
  have "w = word_of_int (sint w)" by simp
  then have "sint w = 1 \<Longrightarrow> w = 1" "sint w = 2 \<Longrightarrow> w = 2" by simp_all
  moreover have "\<not> (sint w < 1 \<or> 2 < sint w) \<longleftrightarrow> sint w = 1 \<or> sint w = 2" by linarith
  ultimately show ?thesis by auto
qed

lemma program_load_unfold:
  "program_load junk path buf =
    (if length buf < 13 \<or> take 5 buf \<noteq> magic \<or> hdr_version buf \<notin> {1, 2} then Inr None
     else rbind (read_body (sint (hdr_version buf)) (Suc (length buf)) (hdr_flags buf) path
                  (start_rdr junk (drop 13 buf)))
            (\<lambda>(p, r). Inr (if rd_err r then None else Some p)))"
proof (cases "length buf < 13")
  case True
  then show ?thesis
    by (auto simp: program_load_def Let_def r_bytes_def r_u32_alt)
next
  case False
  then have l: "\<not> length buf < 5" "\<not> length buf - 5 < 4" "\<not> length buf - 9 < 4"
    "5 \<le> length buf" "9 \<le> length buf" "\<not> length buf < 13" "buf \<noteq> magic"
    by (auto simp: magic_def)
  then show ?thesis
    unfolding program_load_def
    by (simp add: Let_def r_bytes_def r_u32_alt start_rdr_def hdr_version_def [symmetric]
        hdr_flags_def [symmetric] version_range)
qed


lemma ext_start_rdr: "ext q (start_rdr junk bs) = start_rdr junk (bs @ q)"
  by (simp add: ext_def start_rdr_def)

lemma start_rdr_simps [simp]: "rd_rest (start_rdr junk bs) = bs" "rd_err (start_rdr junk bs) = False"
  by (simp_all add: start_rdr_def)

subsection \<open>The theorems\<close>

text \<open>\<open>program_load\<close> always returns or crashes: the model never runs out of fuel,
  whatever the bytes of the file.\<close>

theorem program_load_total: "program_load junk path buf \<noteq> Inl OutOfFuel"
proof -
  have "fueled (length buf) (read_body ver (Suc (length buf)) flags path)" for ver flags
    by (rule fueled_body) simp
  then have "read_body ver (Suc (length buf)) flags path (start_rdr junk (drop 13 buf)) \<noteq> Inl OutOfFuel"
    for ver flags by (simp add: fueled_def)
  then show ?thesis by (auto simp: program_load_unfold rbind_eq_Inl)
qed

lemma enc_program_header:
  assumes "ok_program ver p"
  shows "length (enc_program ver p) = 13 + length (enc_body (sint ver) p)"
    "take 5 (enc_program ver p @ q) = magic" "hdr_version (enc_program ver p @ q) = ver"
    "hdr_flags (enc_program ver p @ q) = p_flags p"
    "drop 13 (enc_program ver p @ q) = enc_body (sint ver) p @ q"
  by (simp_all add: enc_program_def magic_def enc_u32_def hdr_version_def hdr_flags_def u32_bytes)

lemma read_enc_body:
  assumes "ok_program ver p" "length (enc_body (sint ver) p @ q) < f"
  shows "read_body (sint ver) f (p_flags p) (p_path p) (start_rdr junk (enc_body (sint ver) p @ q))
    = Inr (p, start_rdr junk q)"
proof -
  have "fueled (length (enc_body (sint ver) p @ q)) (read_body (sint ver) f (p_flags p) (p_path p))"
    using assms(2) by (rule fueled_body)
  moreover have "(start_rdr junk (enc_body (sint ver) p @ q))\<lparr>rd_rest := q\<rparr> = start_rdr junk q"
    by (simp add: start_rdr_def)
  ultimately show ?thesis
    using decodes_body [OF assms(1), of f, unfolded decodes_def, rule_format,
        of "start_rdr junk (enc_body (sint ver) p @ q)" q]
    by (auto simp: fueled_def)
qed

text \<open>C1 A file of format version 1, as \<open>DOCUMENTATION.md\<close> lays it out, or of version 2, which the
  document rules out but the loader accepts and which adds line numbers to functions, events, states and statements, is read back to
  exactly the program it encodes, whatever bytes follow it.\<close>

theorem program_load_roundtrip:
  assumes "ok_program ver p"
  shows "program_load junk (p_path p) (enc_program ver p @ extra) = Inr (Some p)"
proof -
  have "ver \<in> {1, 2}" using assms by (auto simp: ok_program_def)
  then show ?thesis
    using enc_program_header [OF assms]
      read_enc_body [OF assms, of extra "Suc (length (enc_program ver p @ extra))"]
    by (simp add: program_load_unfold)
qed

text \<open>C2 A file cut short anywhere is never accepted, whatever the uninitialised
  variables of the reader hold.\<close>

theorem program_load_truncated:
  assumes ok: "ok_program ver p" and cut: "enc_program ver p = buf @ q" "q \<noteq> []"
  shows "program_load junk path buf \<noteq> Inr (Some p')"
proof
  assume load: "program_load junk path buf = Inr (Some p')"
  let ?f = "Suc (length buf)"
  let ?p = "p\<lparr>p_path := path\<rparr>"
  have okp: "ok_program ver ?p" using ok by (simp add: ok_program_def)
  have enc: "enc_program ver ?p = buf @ q" using cut by (simp add: enc_program_def enc_body_def)
  from load have l: "13 \<le> length buf" by (auto simp: program_load_unfold split: if_splits)
  then have hd: "hdr_version buf = ver" "hdr_flags buf = p_flags p"
    "enc_body (sint ver) ?p = drop 13 buf @ q"
    using enc_program_header(3-5) [OF okp, of "[]"] enc
    by (simp_all add: hdr_version_def hdr_flags_def nth_append)
  from load obtain r where r:
    "read_body (sint ver) ?f (p_flags ?p) (p_path ?p) (start_rdr junk (drop 13 buf)) = Inr (p', r)"
    "\<not> rd_err r"
    using hd by (auto simp: program_load_unfold rbind_eq_Inr split: if_splits)
  have "read_body (sint ver) ?f (p_flags ?p) (p_path ?p) (start_rdr junk (drop 13 buf @ q))
      = Inr (p', ext q r)"
    using reader.extend [OF reader_read_body r] by (simp only: ext_start_rdr)
  moreover have "decodes (read_body (sint ver) ?f (p_flags ?p) (p_path ?p)) (drop 13 buf @ q) ?p"
    using decodes_body [OF okp, of ?f] hd(3) by simp
  from this [unfolded decodes_def, rule_format, of "start_rdr junk (drop 13 buf @ q)" "[]"]
  have "read_body (sint ver) ?f (p_flags ?p) (p_path ?p) (start_rdr junk (drop 13 buf @ q))
      \<in> {Inr (?p, start_rdr junk []), Inl OutOfFuel}"
    by (simp add: start_rdr_def)
  ultimately have "rd_rest (ext q r) = []" by auto
  with cut(2) show False by simp
qed

text \<open>A file that does not start with the magic bytes and a version of 1 or 2, or is
  shorter than the 13-byte header, is refused without a crash.\<close>

theorem program_load_bad_header:
  assumes "length buf < 13 \<or> take 5 buf \<noteq> magic \<or> hdr_version buf \<notin> {1, 2}"
  shows "program_load junk path buf = Inr None"
  using assms by (auto simp: program_load_unfold)

end
