(* ===== verification/State.thy ===== *)
theory State
  imports Ast
begin

unbundle bit_operations_syntax

text \<open>
  The state of the emulator: the structures \<open>Script\<close>, \<open>Region\<close>, \<open>Avatar\<close>, \<open>ListenEntry\<close> and the
  others of \<open>slemu.h\<close>, the frame stack of \<open>vm.c\<close>, and the static variables of \<open>builtins.c\<close>,
  \<open>commands.c\<close> and \<open>util.c\<close>, in one record.

  A pointer to a script is its index in \<open>scripts\<close> (scripts are never freed during a run), a linked
  list is a HOL list in list order, the event queue is the list from head to tail. The thread-local
  \<open>g_frame\<close> is the list \<open>frames\<close>, top first; it lives here and not in the scripts because it is one
  stack for all of them. The two output streams are the text written so far. \<open>n_steps\<close> and
  \<open>max_steps\<close> are kept as mathematical integers.

  What the sources take from outside is the record \<open>host\<close>: the results of successive \<open>rand\<close> and
  \<open>time\<close> calls, the mathematical functions of libm, the wall clock, the volume's file system and
  the \<open>curl\<close> program.
\<close>

subsection \<open>The host\<close>

record host =
  h_rand :: "nat \<Rightarrow> nat"
    \<comment> \<open>the value of the n-th call of \<open>rand()\<close>\<close>
  h_time :: "nat \<Rightarrow> llong"
  h_timestamp :: "nat \<Rightarrow> string"
    \<comment> \<open>\<open>strftime\<close> of the n-th \<open>time(NULL)\<close>\<close>
  h_date :: "nat \<Rightarrow> string"
  h_wallclock :: "nat \<Rightarrow> double"
  h_libm :: "string \<Rightarrow> double list \<Rightarrow> double"
    \<comment> \<open>\<open>sin\<close>, \<open>cos\<close>, \<open>pow\<close> and the others, by name\<close>
  h_expired :: "nat \<Rightarrow> bool"
    \<comment> \<open>whether the wall-clock limit is passed at the n-th turn of the main loop\<close>
  h_can_open :: "string \<Rightarrow> bool"
    \<comment> \<open>whether a file of the volume can be opened for writing\<close>
  h_curl :: "nat \<Rightarrow> string list \<Rightarrow> int \<times> string"
    \<comment> \<open>status and body the n-th run of \<open>curl\<close> gives, for the method, the MIME type, the URL and the
      body the command line is built from\<close>

subsection \<open>Scripts\<close>

record local_binding =
  lb_name :: cint
  lb_val :: svalue
  lb_depth :: int

record frame =
  locs :: "local_binding list"
  scope_depth :: int
  returning :: bool
  ret_val :: svalue
  jumping :: bool
  jump_name_idx :: cint

record event =
  ev_name :: string
  ev_args :: "svalue list"

record listen_entry =
  le_handle :: cint
  le_channel :: int
  name_filter :: string
  id_filter :: string
  msg_filter :: string
  le_active :: bool

record detected =
  dt_key :: string
  dt_name :: string
  dt_owner :: string
  dt_pos :: svalue
  dt_link :: int
  dt_type :: int
  dt_face :: int

record hud_state =
  hud_text :: "string option"
  hud_r :: double
  hud_g :: double
  hud_b :: double
  hud_alpha :: double

record script =
  prog :: program
  link_num :: int
  name :: string
  desc :: string
  uuid :: string
  cur_state :: int
  pending_state :: int
  globals :: "svalue list"
  evq :: "event list"
  timer_interval :: double
  timer_due :: double
  listens :: "listen_entry list"
  perms :: cint
  perms_key :: "string option"
  s_trace :: bool
  detected :: "detected list"
  hud :: hud_state

subsection \<open>The region\<close>

record avatar =
  av_uuid :: string
  av_name :: string
  balance :: llong
  attached_object :: "string option"

record group =
  g_uuid :: string
  g_name :: string
  members :: "string list"

record open_dialog =
  d_script :: string
  d_to :: string
  d_message :: string
  d_buttons :: "string list"
  d_channel :: int
  d_textbox :: bool

record inbound_url =
  iu_url :: string
  iu_target :: nat
  iu_req_key :: string

record fixture =
  match_url :: "string option"
  fx_status :: int
  fx_body :: "string option"

text \<open>The volume: the contents of the two places under its path it writes, \<open>economy.txt\<close> (absent or
  present) and the files of the directory \<open>lsd\<close> in the order \<open>readdir\<close> lists them, by name.\<close>

record volume =
  v_economy :: "string option"
  v_lsd :: "(string \<times> string) list"

record breakpoint =
  bp_id :: cint
  bp_file :: "string option"
  bp_line :: int
  bp_enabled :: bool
  bp_hits :: int

record catchpoint =
  cp_id :: cint
  cp_kind :: string
  cp_enabled :: bool

datatype dbg_mode = DBG_RUN | DBG_STEP_STMT | DBG_PAUSED | DBG_DEAD

text \<open>\<open>cur_frame\<close> is a pointer into the C stack. It is null, the frame at a given depth of the frame
  stack (counted from the bottom, so that it stays valid while that frame is live), or it dangles.
  \<open>dbg_ub\<close> is set for good when the debugger follows a dangling pointer.\<close>

datatype frame_ref = FrNull | FrDepth nat | FrDangling

record dbg_state =
  dbg_enabled :: bool
  dbg_mode :: dbg_mode
  next_bp_id :: cint
  next_cp_id :: cint
  bps :: "breakpoint list"
  cps :: "catchpoint list"
  cmd_in :: "string list"
    \<comment> \<open>the lines of standard input not yet read\<close>
  cur_frame :: frame_ref
  cur_script :: "nat option"
  dbg_ub :: bool

record chat_rec =
  ch_kind :: string
  ch_ch :: int
  ch_msg :: string

record region =
  scripts :: "script list"
  virtual_now :: double
  virtual_offset :: double
  trace :: bool
  vol :: "volume option"
  avatars :: "avatar list"
  groups :: "group list"
  http_real :: bool
  http_fix :: "fixture list option"
  inbound :: "inbound_url list"
  dialogs :: "open_dialog list"
  json_events :: bool
  out :: string
  err_out :: string
  max_steps :: int
  n_steps :: int
  wall_timeout :: double
  command_lines :: "string list"
  next_command :: nat
  dbg :: dbg_state
  frames :: "frame list"
  next_handle :: cint
  chat_log :: "chat_rec list"
  uuid_counter :: llong
  n_rand :: nat
  n_time :: nat
  n_curl :: nat
  env_owner :: "string option"
  host :: host

subsection \<open>Access\<close>

definition emit :: "string \<Rightarrow> region \<Rightarrow> region" where
  "emit t r = r\<lparr>out := out r @ t\<rparr>"

definition emit_err :: "string \<Rightarrow> region \<Rightarrow> region" where
  "emit_err t r = r\<lparr>err_out := err_out r @ t\<rparr>"

definition script_at :: "region \<Rightarrow> nat \<Rightarrow> script" where
  "script_at r i = scripts r ! i"

definition upd_script :: "nat \<Rightarrow> (script \<Rightarrow> script) \<Rightarrow> region \<Rightarrow> region" where
  "upd_script i f r = r\<lparr>scripts := update_nth i f (scripts r)\<rparr>"

definition n_scripts :: "region \<Rightarrow> nat" where
  "n_scripts r = length (scripts r)"

lemma n_scripts_upd_script [simp]: "n_scripts (upd_script i f r) = n_scripts r"
  by (simp add: upd_script_def n_scripts_def)

lemma script_at_upd_script:
  "j < n_scripts r \<Longrightarrow> script_at (upd_script i f r) j = (if i = j then f (script_at r j) else script_at r j)"
  by (simp add: upd_script_def script_at_def n_scripts_def nth_update_nth)

lemma script_at_upd_neq [simp]: "i \<noteq> j \<Longrightarrow> script_at (upd_script i f r) j = script_at r j"
  by (simp add: upd_script_def script_at_def)

lemma script_at_upd_eq [simp]: "i < n_scripts r \<Longrightarrow> script_at (upd_script i f r) i = f (script_at r i)"
  by (simp add: upd_script_def script_at_def n_scripts_def)

lemma upd_script_simps [simp]:
  "frames (upd_script i f r) = frames r" "avatars (upd_script i f r) = avatars r"
  "out (upd_script i f r) = out r" "vol (upd_script i f r) = vol r"
  "next_handle (upd_script i f r) = next_handle r" "n_steps (upd_script i f r) = n_steps r"
  "max_steps (upd_script i f r) = max_steps r" "dbg (upd_script i f r) = dbg r"
  "inbound (upd_script i f r) = inbound r" "dialogs (upd_script i f r) = dialogs r"
  "json_events (upd_script i f r) = json_events r" "virtual_now (upd_script i f r) = virtual_now r"
  "virtual_offset (upd_script i f r) = virtual_offset r" "groups (upd_script i f r) = groups r"
  "command_lines (upd_script i f r) = command_lines r"
  "next_command (upd_script i f r) = next_command r" "chat_log (upd_script i f r) = chat_log r"
  "host (upd_script i f r) = host r"
  by (simp_all add: upd_script_def)

lemma emit_simps [simp]:
  "scripts (emit t r) = scripts r" "frames (emit t r) = frames r" "avatars (emit t r) = avatars r"
  "out (emit t r) = out r @ t" "vol (emit t r) = vol r" "next_handle (emit t r) = next_handle r"
  "n_steps (emit t r) = n_steps r" "max_steps (emit t r) = max_steps r" "dbg (emit t r) = dbg r"
  "inbound (emit t r) = inbound r" "dialogs (emit t r) = dialogs r" "groups (emit t r) = groups r"
  "json_events (emit t r) = json_events r" "virtual_now (emit t r) = virtual_now r"
  "virtual_offset (emit t r) = virtual_offset r" "command_lines (emit t r) = command_lines r"
  "next_command (emit t r) = next_command r" "chat_log (emit t r) = chat_log r"
  "host (emit t r) = host r" "trace (emit t r) = trace r"
  by (simp_all add: emit_def)

lemma emit_err_simps [simp]:
  "scripts (emit_err t r) = scripts r" "frames (emit_err t r) = frames r"
  "avatars (emit_err t r) = avatars r" "out (emit_err t r) = out r" "vol (emit_err t r) = vol r"
  "next_handle (emit_err t r) = next_handle r" "n_steps (emit_err t r) = n_steps r"
  "max_steps (emit_err t r) = max_steps r" "dbg (emit_err t r) = dbg r"
  "inbound (emit_err t r) = inbound r" "dialogs (emit_err t r) = dialogs r"
  "command_lines (emit_err t r) = command_lines r" "next_command (emit_err t r) = next_command r"
  "host (emit_err t r) = host r"
  by (simp_all add: emit_err_def)

subsection \<open>Key generation\<close>

text \<open>\<open>gen_uuid\<close> of \<open>util.c\<close>: three \<open>rand()\<close> calls and the counter.\<close>

definition gen_uuid :: "region \<Rightarrow> string \<times> region" where
  "gen_uuid r =
    (let c = uuid_counter r; k = n_rand r; rnd = (\<lambda>i. of_nat (h_rand (host r) (k + i)) :: llong);
         a = cint_of_ll (rnd 0 XOR push_bit 1 c);
         b = cint_of_ll (rnd 1 XOR (c * 7));
         hex = (\<lambda>w x. pad_zero w (show_hex x))
     in (hex 8 (unat a) @ ''-'' @ hex 4 (unat (drop_bit 16 b AND 0xFFFF)) @ ''-'' @
         hex 4 (unat (b AND 0xFFFF)) @ ''-'' @ hex 4 (unat (cint_of_ll (drop_bit 16 c) AND 0xFFFF)) @
         ''-'' @ hex 8 (unat (c AND 0xFFFFFFFF)) @
         hex 4 (unat (cint_of_ll (rnd 2) AND 0xFFFF)),
         r\<lparr>uuid_counter := c + 1, n_rand := k + 3\<rparr>))"

end
