(* ===== verification/RegionOps.thy ===== *)
theory RegionOps
  imports State Loader
begin

text \<open>
  The operations of \<open>region.c\<close> other than the event loop: the avatar and group tables, the owner,
  the event queues, and loading a script. The event queue is the interface \<open>fifo\<close> that the event
  loop relies on; the avatar table keeps its keys distinct.
\<close>

subsection \<open>Initialisation\<close>

definition dbg_off :: dbg_state where
  "dbg_off = \<lparr>dbg_enabled = False, dbg_mode = DBG_RUN, next_bp_id = 0, next_cp_id = 0, bps = [],
     cps = [], cmd_in = [], cur_frame = FrNull, cur_script = None, dbg_ub = False\<rparr>"

text \<open>\<open>region_init\<close>, with the static variables of the other files at their start values.\<close>

definition region_init :: "host \<Rightarrow> string option \<Rightarrow> region" where
  "region_init h env =
    \<lparr>scripts = [], virtual_now = d_zero, virtual_offset = d_zero, trace = False, vol = None,
     avatars = [], groups = [], http_real = False, http_fix = None, inbound = [], dialogs = [],
     json_events = False, out = [], err_out = [], max_steps = 100000, n_steps = 0,
     wall_timeout = d_of_int 60, command_lines = [], next_command = 0, dbg = dbg_off,
     frames = [], next_handle = 1, chat_log = [], uuid_counter = 1, n_rand = 0, n_time = 0,
     n_curl = 0, env_owner = env, host = h\<rparr>"

subsection \<open>Avatars and groups\<close>

definition find_avatar_idx :: "region \<Rightarrow> string \<Rightarrow> nat option" where
  "find_avatar_idx r u = find_index (\<lambda>a. av_uuid a = u) (avatars r)"

definition region_find_avatar :: "region \<Rightarrow> string option \<Rightarrow> avatar option" where
  "region_find_avatar r u = (case u of None \<Rightarrow> None
     | Some u \<Rightarrow> map_option ((!) (avatars r)) (find_avatar_idx r u))"

definition upd_avatar :: "nat \<Rightarrow> (avatar \<Rightarrow> avatar) \<Rightarrow> region \<Rightarrow> region" where
  "upd_avatar i f r = r\<lparr>avatars := update_nth i f (avatars r)\<rparr>"

text \<open>Adds an avatar or updates the balance of a known one; the index it has.\<close>

definition region_add_avatar :: "string \<Rightarrow> llong \<Rightarrow> string option \<Rightarrow> region \<Rightarrow> nat \<times> region" where
  "region_add_avatar u bal nm r = (case find_avatar_idx r u of
     Some i \<Rightarrow> (i, upd_avatar i (\<lambda>a. a\<lparr>balance := bal,
                   av_name := (case nm of Some x \<Rightarrow> x | None \<Rightarrow> av_name a)\<rparr>) r)
   | None \<Rightarrow> (length (avatars r),
       r\<lparr>avatars := avatars r @ [\<lparr>av_uuid = u, av_name = (case nm of Some x \<Rightarrow> x | None \<Rightarrow> []),
          balance = bal, attached_object = None\<rparr>]\<rparr>))"

text \<open>The owner is added with a balance of 0 unless it is known; its key goes to the environment.\<close>

definition region_set_owner :: "string \<Rightarrow> string option \<Rightarrow> region \<Rightarrow> region" where
  "region_set_owner u nm r =
    (let r1 = (case find_avatar_idx r u of
         Some i \<Rightarrow> upd_avatar i (\<lambda>a. if nm \<noteq> None \<and> av_name a = [] then a\<lparr>av_name := the nm\<rparr> else a) r
       | None \<Rightarrow> snd (region_add_avatar u 0 nm r))
     in r1\<lparr>env_owner := Some u\<rparr>)"

definition find_group_idx :: "region \<Rightarrow> string \<Rightarrow> nat option" where
  "find_group_idx r u = find_index (\<lambda>g. g_uuid g = u) (groups r)"

definition region_add_group :: "string \<Rightarrow> string option \<Rightarrow> region \<Rightarrow> nat \<times> region" where
  "region_add_group u nm r = (case find_group_idx r u of
     Some i \<Rightarrow> (i, r)
   | None \<Rightarrow> (length (groups r),
       r\<lparr>groups := groups r @ [\<lparr>g_uuid = u, g_name = (case nm of Some x \<Rightarrow> x | None \<Rightarrow> []),
          members = []\<rparr>]\<rparr>))"

definition region_group_add_member :: "string \<Rightarrow> string \<Rightarrow> region \<Rightarrow> bool \<times> region" where
  "region_group_add_member gu au r = (case find_group_idx r gu of
     None \<Rightarrow> (False, r)
   | Some i \<Rightarrow> (True, r\<lparr>groups := update_nth i (\<lambda>g. g\<lparr>members := members g @ [au]\<rparr>) (groups r)\<rparr>))"

definition region_set_volume :: "volume option \<Rightarrow> region \<Rightarrow> region" where
  "region_set_volume v r = r\<lparr>vol := v\<rparr>"

subsection \<open>Events\<close>

definition enqueue :: "event \<Rightarrow> script \<Rightarrow> script" where
  "enqueue e s = s\<lparr>evq := evq s @ [e]\<rparr>"

definition script_push_event :: "nat \<Rightarrow> string \<Rightarrow> svalue list \<Rightarrow> region \<Rightarrow> region" where
  "script_push_event i nm args r = upd_script i (enqueue \<lparr>ev_name = nm, ev_args = args\<rparr>) r"

text \<open>Taking the head of the queue, as the event loop does.\<close>

definition dequeue :: "script \<Rightarrow> (event \<times> script) option" where
  "dequeue s = (case evq s of [] \<Rightarrow> None | e # es \<Rightarrow> Some (e, s\<lparr>evq := es\<rparr>))"

definition flush_events :: "script \<Rightarrow> script" where
  "flush_events s = s\<lparr>evq := []\<rparr>"

definition region_broadcast_event :: "string \<Rightarrow> svalue list \<Rightarrow> region \<Rightarrow> region" where
  "region_broadcast_event nm args r =
     fold (\<lambda>i. script_push_event i nm args) [0 ..< n_scripts r] r"

subsection \<open>Loading a script\<close>

definition no_hud :: hud_state where
  "no_hud = \<lparr>hud_text = None, hud_r = d_zero, hud_g = d_zero, hud_b = d_zero, hud_alpha = d_zero\<rparr>"

definition new_script :: "program \<Rightarrow> string \<Rightarrow> region \<Rightarrow> script" where
  "new_script p u r =
    \<lparr>prog = p, link_num = int (n_scripts r) + 1, name = ''Object'', desc = [], uuid = u,
     cur_state = - 1, pending_state = - 1, globals = replicate (length (p_globals p)) SVoid,
     evq = [], timer_interval = d_zero, timer_due = d_zero, listens = [], perms = 0,
     perms_key = None, s_trace = trace r, detected = [], hud = no_hud\<rparr>"

text \<open>\<open>buf\<close> is the content of the file, \<open>None\<close> when it cannot be read.\<close>

definition region_load_script ::
    "(nat \<Rightarrow> llong) \<Rightarrow> string \<Rightarrow> byte list option \<Rightarrow> region \<Rightarrow> (bool \<times> region) res" where
  "region_load_script junk path buf r =
    rbind (case buf of None \<Rightarrow> Inr None | Some bs \<Rightarrow> program_load junk path bs) (\<lambda>p. case p of
       None \<Rightarrow> Inr (False, emit_err (''slemu: cannot load '' @ [CHR 0x27] @ path @ [CHR 0x27, CHR 0x0A]) r)
     | Some p \<Rightarrow> (case gen_uuid r of (u, r1) \<Rightarrow>
         Inr (True, r1\<lparr>scripts := scripts r1 @ [new_script p u r1]\<rparr>)))"

subsection \<open>The queue interface\<close>

text \<open>What the event loop and every sender of events rely on: a queue hands its elements out in the
  order they were put in.\<close>

locale fifo =
  fixes enq :: "'e \<Rightarrow> 'q \<Rightarrow> 'q" and deq :: "'q \<Rightarrow> ('e \<times> 'q) option" and contents :: "'q \<Rightarrow> 'e list"
  assumes enq_contents: "contents (enq e q) = contents q @ [e]"
    and deq_None: "deq q = None \<longleftrightarrow> contents q = []"
    and deq_Some: "deq q = Some (e, q') \<Longrightarrow> contents q = e # contents q'"
begin

fun drain :: "nat \<Rightarrow> 'q \<Rightarrow> 'e list \<times> 'q" where
  "drain 0 q = ([], q)"
| "drain (Suc n) q = (case deq q of None \<Rightarrow> ([], q)
     | Some (e, q') \<Rightarrow> (case drain n q' of (es, q'') \<Rightarrow> (e # es, q'')))"

lemma contents_fold_enq: "contents (fold enq es q) = contents q @ es"
  by (induction es arbitrary: q) (simp_all add: enq_contents)

lemma drain_contents: "fst (drain n q) = take n (contents q) \<and> contents (snd (drain n q)) = drop n (contents q)"
proof (induction n arbitrary: q)
  case 0
  then show ?case by simp
next
  case (Suc n)
  show ?case
  proof (cases "deq q")
    case None
    then show ?thesis using deq_None [of q] by simp
  next
    case (Some p)
    then obtain e q' where p: "deq q = Some (e, q')" by (cases p) auto
    show ?thesis using deq_Some [OF p] Suc [of q'] p by (auto split: prod.splits)
  qed
qed

lemma drain_enq:
  "contents q = [] \<Longrightarrow> fst (drain (length es) (fold enq es q)) = es"
  using drain_contents [of "length es" "fold enq es q"] by (simp add: contents_fold_enq)

end

interpretation evq: fifo enqueue dequeue evq
  by unfold_locales (auto simp: enqueue_def dequeue_def split: list.splits)

subsection \<open>The avatar table\<close>

definition av_keys :: "region \<Rightarrow> string list" where
  "av_keys r = map av_uuid (avatars r)"

lemma av_keys_simps [simp]:
  "av_keys (upd_script i f r) = av_keys r" "av_keys (emit t r) = av_keys r"
  "av_keys (emit_err t r) = av_keys r"
  by (simp_all add: av_keys_def)

lemma av_keys_upd_avatar:
  "(\<And>a. av_uuid (f a) = av_uuid a) \<Longrightarrow> av_keys (upd_avatar i f r) = av_keys r"
  by (simp add: av_keys_def upd_avatar_def map_update_nth_same)

lemma find_avatar_idx_None: "find_avatar_idx r u = None \<longleftrightarrow> u \<notin> set (av_keys r)"
  by (auto simp: find_avatar_idx_def find_index_None av_keys_def)

lemma find_avatar_idx_Some:
  "find_avatar_idx r u = Some i \<Longrightarrow> i < length (avatars r) \<and> av_uuid (avatars r ! i) = u"
  by (auto simp: find_avatar_idx_def dest: find_index_Some)

lemma av_keys_add_avatar:
  "av_keys (snd (region_add_avatar u b nm r)) =
     (if u \<in> set (av_keys r) then av_keys r else av_keys r @ [u])"
proof (cases "find_avatar_idx r u")
  case None
  then have "u \<notin> set (av_keys r)" by (simp add: find_avatar_idx_None)
  with None show ?thesis by (simp add: region_add_avatar_def av_keys_def)
next
  case (Some i)
  then have "u \<in> set (av_keys r)" using find_avatar_idx_None [of r u] by auto
  with Some show ?thesis by (simp add: region_add_avatar_def av_keys_upd_avatar)
qed

lemma distinct_add_avatar:
  "distinct (av_keys r) \<Longrightarrow> distinct (av_keys (snd (region_add_avatar u b nm r)))"
  by (simp add: av_keys_add_avatar)

lemma av_keys_set_owner:
  "av_keys (region_set_owner u nm r) =
     (if u \<in> set (av_keys r) then av_keys r else av_keys r @ [u])"
proof -
  have e: "av_keys (r'\<lparr>env_owner := x\<rparr>) = av_keys r'" for r' :: region and x
    by (simp add: av_keys_def)
  show ?thesis
    using av_keys_add_avatar [of u 0 nm r] find_avatar_idx_None [of r u]
    by (cases "find_avatar_idx r u") (auto simp: region_set_owner_def Let_def e intro!: av_keys_upd_avatar)
qed

lemma add_avatar_index:
  assumes "region_add_avatar u b nm r = (i, r')"
  shows "i < length (avatars r')" "av_uuid (avatars r' ! i) = u" "balance (avatars r' ! i) = b"
  using assms find_avatar_idx_Some [of r u]
  by (auto simp: region_add_avatar_def upd_avatar_def split: option.splits)

lemma add_avatar_other:
  assumes "region_add_avatar u b nm r = (i, r')" "j < length (avatars r)" "av_uuid (avatars r ! j) \<noteq> u"
  shows "avatars r' ! j = avatars r ! j"
  using assms find_avatar_idx_Some [of r u]
  by (auto simp: region_add_avatar_def upd_avatar_def nth_append nth_update_nth split: option.splits)

end
