(* ===== verification/Dialogs.thy ===== *)
theory Dialogs
  imports RegionOps
begin

text \<open>
  \<open>dialog.c\<close>: the open menus and text boxes of the region, the inbound URLs, and the snapshot. The
  snapshot is written to the output stream, the only stream its callers pass.
\<close>

subsection \<open>Dialogs\<close>

definition dialog_open ::
    "nat \<Rightarrow> string \<Rightarrow> string \<Rightarrow> string list \<Rightarrow> int \<Rightarrow> bool \<Rightarrow> region \<Rightarrow> region" where
  "dialog_open i to msg buttons ch tb r =
     r\<lparr>dialogs := \<lparr>d_script = uuid (script_at r i), d_to = to, d_message = msg,
        d_buttons = (if tb then [] else buttons), d_channel = ch, d_textbox = tb\<rparr> # dialogs r\<rparr>"

definition dialog_find :: "region \<Rightarrow> string \<Rightarrow> open_dialog option" where
  "dialog_find r u = find (\<lambda>d. d_to d = u) (dialogs r)"

text \<open>Closing removes every dialog of the avatar.\<close>

definition dialog_close :: "string \<Rightarrow> region \<Rightarrow> region" where
  "dialog_close u r = r\<lparr>dialogs := filter (\<lambda>d. d_to d \<noteq> u) (dialogs r)\<rparr>"

subsection \<open>Inbound URLs\<close>

definition inbound_register :: "nat \<Rightarrow> string \<Rightarrow> region \<Rightarrow> string \<times> region" where
  "inbound_register i req r =
    (let u = ''http://slemu.local/'' @ uuid (script_at r i) @ ''/'' @ req
     in (u, r\<lparr>inbound := \<lparr>iu_url = u, iu_target = i, iu_req_key = req\<rparr> # inbound r\<rparr>))"

definition inbound_resolve :: "region \<Rightarrow> string \<Rightarrow> nat option" where
  "inbound_resolve r url = (case find (\<lambda>u. iu_url u = url) (inbound r) of
     Some u \<Rightarrow> Some (iu_target u)
   | None \<Rightarrow> map_option iu_target (find (\<lambda>u. has_substr url (iu_url u)) (inbound r)))"

subsection \<open>Snapshots\<close>

definition opt_str :: "string option \<Rightarrow> string" where
  "opt_str s = (case s of Some x \<Rightarrow> x | None \<Rightarrow> [])"

definition snap_kv :: "string \<Rightarrow> string \<Rightarrow> string" where
  \<comment> \<open>a member written with \<open>%s\<close> between quotes, without escaping\<close>
  "snap_kv k v = dq k @ '':'' @ dq v"

definition snapshot_json :: "region \<Rightarrow> string" where
  "snapshot_json r =
     ''{'' @ dq ''t'' @ '':'' @ show_fixed 3 (virtual_now r) @ '','' @ snap_kv ''type'' ''snapshot'' @
     '','' @ dq ''avatars'' @ '':['' @
     str_join '','' (map (\<lambda>a. ''{'' @ snap_kv ''uuid'' (av_uuid a) @ '','' @ snap_kv ''name'' (av_name a) @
        '','' @ dq ''balance'' @ '':'' @ show_ll (balance a) @ '','' @
        snap_kv ''attached'' (opt_str (attached_object a)) @ ''}'') (avatars r)) @
     ''],'' @ dq ''groups'' @ '':['' @
     str_join '','' (map (\<lambda>g. ''{'' @ snap_kv ''uuid'' (g_uuid g) @ '','' @ snap_kv ''name'' (g_name g) @
        '','' @ dq ''n_members'' @ '':'' @ show_nat (length (members g)) @ ''}'') (groups r)) @
     ''],'' @ dq ''scripts'' @ '':['' @
     str_join '','' (map (\<lambda>s. ''{'' @ snap_kv ''name'' (name s) @ '','' @ snap_kv ''uuid'' (uuid s) @
        '','' @ dq ''link'' @ '':'' @ show_int (link_num s) @ '','' @
        snap_kv ''hud_text'' (opt_str (hud_text (hud s))) @ ''}'') (scripts r)) @
     ''],'' @ dq ''dialogs'' @ '':['' @
     str_join '','' (map (\<lambda>d. ''{'' @ snap_kv ''src'' (d_script d) @ '','' @ snap_kv ''to'' (d_to d) @
        '','' @ dq ''ch'' @ '':'' @ show_int (d_channel d) @ '','' @ dq ''is_textbox'' @ '':'' @
        (if d_textbox d then ''1'' else ''0'') @ '','' @ snap_kv ''msg'' (d_message d) @ '','' @
        dq ''buttons'' @ '':['' @ str_join '','' (map dq (d_buttons d)) @ '']}'') (dialogs r)) @
     '']}'' @ nl"

definition snapshot_text :: "region \<Rightarrow> string" where
  "snapshot_text r =
     ''==== slemu snapshot @ t='' @ show_fixed 3 (virtual_now r) @ '' ===='' @ nl @
     ''  avatars ('' @ show_nat (length (avatars r)) @ ''):'' @ nl @
     concat (map (\<lambda>a. ''    '' @ av_uuid a @ ''  L$'' @ show_ll (balance a) @ ''  '' @ av_name a @
        (if attached_object a \<noteq> None then '' [attached]'' else []) @ nl) (avatars r)) @
     ''  groups ('' @ show_nat (length (groups r)) @ ''):'' @ nl @
     concat (map (\<lambda>g. ''    '' @ g_uuid g @ ''  '' @ g_name g @ ''  ('' @
        show_nat (length (members g)) @ '' members)'' @ nl) (groups r)) @
     ''  scripts ('' @ show_nat (n_scripts r) @ ''):'' @ nl @
     concat (map (\<lambda>s. ''    link '' @ show_int (link_num s) @ '' '' @ pad_right 20 (name s) @ '' '' @
        uuid s @ ''  hud='' @ opt_str (hud_text (hud s)) @ nl) (scripts r)) @
     ''  open dialogs:'' @ nl @
     concat (map (\<lambda>d. ''    src='' @ d_script d @ '' -> '' @ d_to d @ '' ch='' @ show_int (d_channel d) @
        '' '' @ (if d_textbox d then ''[textbox]'' else ''[dialog]'') @ '' msg='' @ dq (d_message d) @ nl @
        (if d_textbox d then []
         else ''      buttons:'' @ concat (map (\<lambda>b. '' ['' @ b @ '']'') (d_buttons d)) @ nl)) (dialogs r)) @
     ''============================'' @ nl"

definition snapshot_dump :: "region \<Rightarrow> region" where
  "snapshot_dump r = emit (if json_events r then snapshot_json r else snapshot_text r) r"

subsection \<open>Facts\<close>

lemma dialog_find_close [simp]: "dialog_find (dialog_close u r) u = None"
  by (auto simp: dialog_find_def dialog_close_def find_None_iff)

lemma dialog_find_close_other: "u \<noteq> w \<Longrightarrow> dialog_find (dialog_close u r) w = dialog_find r w"
proof -
  assume "u \<noteq> w"
  then have "find (\<lambda>d. d_to d = w) (filter (\<lambda>d. d_to d \<noteq> u) ds) = find (\<lambda>d. d_to d = w) ds" for ds
    by (induction ds) auto
  then show ?thesis by (simp add: dialog_find_def dialog_close_def)
qed

lemma dialog_find_open:
  "dialog_find (dialog_open i to msg bs ch tb r) u =
     (if u = to then Some \<lparr>d_script = uuid (script_at r i), d_to = to, d_message = msg,
        d_buttons = (if tb then [] else bs), d_channel = ch, d_textbox = tb\<rparr>
      else dialog_find r u)"
  by (simp add: dialog_find_def dialog_open_def)

lemma inbound_resolve_register:
  "inbound_register i req r = (u, r') \<Longrightarrow> inbound_resolve r' u = Some i"
  by (auto simp: inbound_register_def inbound_resolve_def Let_def)

end
