(* ===== verification/Consts.thy ===== *)
theory Consts
  imports Values
begin

text \<open>
  The built-in constants of \<open>builtins.c\<close>. Floating-point constants are the bit patterns of the
  doubles nearest to the decimal literals of the source (\<open>PI\<close> = 3.14159265358979323846 and so on).
\<close>

definition const_table :: "(string \<times> svalue) list" where
  "const_table = [
    (''TRUE'', SInt 1),
    (''FALSE'', SInt 0),
    (''NULL_KEY'', SKey null_key),
    (''EOF'', SString [CHR 0x0A, CHR 0x0A, CHR 0x0A]),
    (''PI'', SFloat (double_of_bits 0x400921FB54442D18)),
    (''TWO_PI'', SFloat (double_of_bits 0x401921FB54442D18)),
    (''PI_BY_TWO'', SFloat (double_of_bits 0x3FF921FB54442D18)),
    (''DEG_TO_RAD'', SFloat (double_of_bits 0x3F91DF46A2529D39)),
    (''RAD_TO_DEG'', SFloat (double_of_bits 0x404CA5DC1A63C1F8)),
    (''SQRT2'', SFloat (double_of_bits 0x3FF6A09E667F3BCD)),
    (''PUBLIC_CHANNEL'', SInt 0),
    (''DEBUG_CHANNEL'', SInt 2147483647),
    (''HTTP_METHOD'', SInt 0),
    (''HTTP_MIMETYPE'', SInt 1),
    (''HTTP_BODY_MAXLENGTH'', SInt 2),
    (''HTTP_VERIFY_CERT'', SInt 3),
    (''HTTP_VERBOSE_THROTTLE'', SInt 4),
    (''HTTP_CUSTOM_HEADER'', SInt 5),
    (''HTTP_PRAGMA_NO_CACHE'', SInt 6),
    (''PERMISSION_DEBIT'', SInt 0x002),
    (''PERMISSION_TAKE_CONTROLS'', SInt 0x004),
    (''PERMISSION_TRIGGER_ANIMATION'', SInt 0x010),
    (''PERMISSION_ATTACH'', SInt 0x020),
    (''CHANGED_INVENTORY'', SInt 0x001),
    (''CHANGED_OWNER'', SInt 0x080),
    (''CHANGED_REGION'', SInt 0x100),
    (''CHANGED_REGION_START'', SInt 0x400),
    (''STRING_TRIM'', SInt 3),
    (''STRING_TRIM_HEAD'', SInt 1),
    (''STRING_TRIM_TAIL'', SInt 2),
    (''JSON_OBJECT'', SString [CHR 0xEF, CHR 0xBF, CHR 0xBD]),
    (''JSON_ARRAY'', SString [CHR 0xEF, CHR 0xBF, CHR 0xBC]),
    (''JSON_STRING'', SString [CHR 0xEF, CHR 0xBF, CHR 0xBB]),
    (''JSON_NUMBER'', SString [CHR 0xEF, CHR 0xBF, CHR 0xBA]),
    (''JSON_TRUE'', SString [CHR 0xEF, CHR 0xBF, CHR 0xB9]),
    (''JSON_FALSE'', SString [CHR 0xEF, CHR 0xBF, CHR 0xB8]),
    (''JSON_NULL'', SString [CHR 0xEF, CHR 0xBF, CHR 0xB7]),
    (''JSON_INVALID'', SString [CHR 0xEF, CHR 0xBF, CHR 0xB6]),
    (''LINK_SET'', SInt (- 1)),
    (''LINK_ROOT'', SInt 1),
    (''LINK_ALL_OTHERS'', SInt (- 2)),
    (''LINK_ALL_CHILDREN'', SInt (- 3)),
    (''LINK_THIS'', SInt (- 4)),
    (''ALL_SIDES'', SInt (- 1)),
    (''INVENTORY_NONE'', SInt (- 1)),
    (''INVENTORY_TEXTURE'', SInt 0),
    (''INVENTORY_SOUND'', SInt 1),
    (''INVENTORY_OBJECT'', SInt 6),
    (''INVENTORY_NOTECARD'', SInt 7),
    (''INVENTORY_SCRIPT'', SInt 10),
    (''PAY_HIDE'', SInt (- 1)),
    (''PAY_DEFAULT'', SInt (- 2)),
    (''STATUS_OK'', SInt 0),
    (''STATUS_INTERNAL_ERROR'', SInt (- 1)),
    (''LINKSETDATA_RESET'', SInt 0),
    (''LINKSETDATA_UPDATE'', SInt 1),
    (''LINKSETDATA_DELETE'', SInt 2)]"

definition builtins_const :: "string \<Rightarrow> svalue" where
  "builtins_const nm = (case map_of const_table nm of Some v \<Rightarrow> v | None \<Rightarrow> SVoid)"

end
