(* ===== verification/Debugger.thy ===== *)
theory Debugger
  imports Dialogs Consts
begin

text \<open>
  \<open>dbg.c\<close>: the line debugger. It reads one JSON command per line from standard input while it holds
  the script, and answers on the output stream. A hook of the interpreter or of an event emitter
  stops at breakpoints, single steps and catchpoints.

  The debugger keeps a pointer to the frame it last stopped in; after that frame returned the
  pointer dangles, and following it sets \<open>dbg_ub\<close>, from when on the model says nothing of the run.
\<close>

subsection \<open>Fields of a command line\<close>

fun unescape_to_quote :: "nat \<Rightarrow> string \<Rightarrow> string" where
  "unescape_to_quote 0 s = []"
| "unescape_to_quote (Suc n) [] = []"
| "unescape_to_quote (Suc n) (c # s) =
     (if c = CHR 0x22 then []
      else if c = CHR 0x5C \<and> s \<noteq> [] then hd s # unescape_to_quote n (tl s)
      else c # unescape_to_quote n s)"

definition after_pat :: "string \<Rightarrow> string \<Rightarrow> string option" where
  "after_pat line pat = map_option (\<lambda>i. drop (i + length pat) line) (strstr line pat)"

definition j_get_str :: "string \<Rightarrow> string \<Rightarrow> nat \<Rightarrow> string option" where
  \<comment> \<open>\<open>outlen\<close> is the size of the buffer; the text keeps one byte less\<close>
  "j_get_str line k outlen =
     map_option (unescape_to_quote (outlen - 1)) (after_pat line (dq k @ '':'' @ [CHR 0x22]))"

definition j_get_int :: "string \<Rightarrow> string \<Rightarrow> llong option" where
  "j_get_int line k =
     map_option (\<lambda>p. strtoll 10 (dropWhile (\<lambda>c. c = CHR '' '') p)) (after_pat line (dq k @ '':''))"

definition get_str :: "string \<Rightarrow> string \<Rightarrow> nat \<Rightarrow> string" where
  \<comment> \<open>the buffer, empty at first, after \<open>j_get_str\<close>\<close>
  "get_str line k outlen = (case j_get_str line k outlen of Some s \<Rightarrow> s | None \<Rightarrow> [])"

definition get_int :: "string \<Rightarrow> string \<Rightarrow> int" where
  "get_int line k = (case j_get_int line k of Some i \<Rightarrow> int_of_ll i | None \<Rightarrow> 0)"

subsection \<open>State\<close>

definition upd_dbg :: "(dbg_state \<Rightarrow> dbg_state) \<Rightarrow> region \<Rightarrow> region" where
  "upd_dbg f r = r\<lparr>dbg := f (dbg r)\<rparr>"

definition dbg_init :: "string \<Rightarrow> region \<Rightarrow> region" where
  \<comment> \<open>\<open>stdin_bytes\<close>: what standard input will deliver\<close>
  "dbg_init stdin_bytes r = r\<lparr>dbg := \<lparr>dbg_enabled = True, dbg_mode = DBG_PAUSED, next_bp_id = 1,
     next_cp_id = 1, bps = [], cps = [], cmd_in = fgets_lines 8191 stdin_bytes, cur_frame = FrNull,
     cur_script = None, dbg_ub = False\<rparr>\<rparr>"

text \<open>The frames the debugger's pointer leads to, innermost first.\<close>

definition cur_frames :: "region \<Rightarrow> frame list" where
  "cur_frames r = (case cur_frame (dbg r) of FrNull \<Rightarrow> [] | FrDangling \<Rightarrow> []
     | FrDepth d \<Rightarrow> drop (length (frames r) - d) (frames r))"

definition follow_frame :: "region \<Rightarrow> region" where
  "follow_frame r = (if cur_frame (dbg r) = FrDangling then upd_dbg (\<lambda>d. d\<lparr>dbg_ub := True\<rparr>) r else r)"

subsection \<open>Outbound events\<close>

definition dbg_obj :: "string \<Rightarrow> string" where
  \<comment> \<open>the opening of every message\<close>
  "dbg_obj kind = ''{'' @ dq ''dbg'' @ '':'' @ dq kind"

definition j_member :: "string \<Rightarrow> string \<Rightarrow> string" where
  "j_member k v = '','' @ dq k @ '':'' @ v"

definition emit_running :: "region \<Rightarrow> region" where
  "emit_running r = emit (dbg_obj ''running'' @ ''}'' @ nl) r"

definition emit_breakpoint_set :: "breakpoint \<Rightarrow> region \<Rightarrow> region" where
  "emit_breakpoint_set bp r = emit (dbg_obj ''breakpoint'' @ j_member ''id'' (show_int (sint (bp_id bp))) @
     j_member ''file'' (json_str (opt_str (bp_file bp))) @ j_member ''line'' (show_int (bp_line bp)) @
     ''}'' @ nl) r"

definition emit_stopped :: "string \<Rightarrow> nat option \<Rightarrow> int \<Rightarrow> region \<Rightarrow> region" where
  "emit_stopped reason i line r = emit (dbg_obj ''stopped'' @ j_member ''reason'' (dq reason) @
     (case i of None \<Rightarrow> [] | Some i \<Rightarrow> j_member ''script'' (json_str (name (script_at r i)))) @
     (if 0 < line then j_member ''line'' (show_int line) else []) @ ''}'' @ nl) r"

definition emit_bps_list :: "region \<Rightarrow> region" where
  "emit_bps_list r = emit (dbg_obj ''breakpoints'' @ j_member ''items'' (''['' @
     str_join '','' (map (\<lambda>bp. ''{'' @ dq ''id'' @ '':'' @ show_int (sint (bp_id bp)) @
       j_member ''file'' (json_str (opt_str (bp_file bp))) @ j_member ''line'' (show_int (bp_line bp)) @
       j_member ''hits'' (show_int (bp_hits bp)) @
       j_member ''enabled'' (if bp_enabled bp then ''1'' else ''0'') @ ''}'') (bps (dbg r))) @ '']'') @
     ''}'' @ nl) r"

definition emit_catches_list :: "region \<Rightarrow> region" where
  "emit_catches_list r = emit (dbg_obj ''catchpoints'' @ j_member ''items'' (''['' @
     str_join '','' (map (\<lambda>cp. ''{'' @ dq ''id'' @ '':'' @ show_int (sint (cp_id cp)) @
       j_member ''kind'' (json_str (cp_kind cp)) @ ''}'') (cps (dbg r))) @ '']'') @ ''}'' @ nl) r"

definition find_local :: "program \<Rightarrow> string \<Rightarrow> frame list \<Rightarrow> svalue option" where
  "find_local p nm frs = map_option lb_val
     (find (\<lambda>b. prog_str p (lb_name b) = nm) (concat (map (\<lambda>fr. rev (locs fr)) frs)))"

definition find_global :: "script \<Rightarrow> string \<Rightarrow> svalue option" where
  "find_global s nm = map_option ((!) (globals s))
     (find_index (\<lambda>g. prog_str (prog s) (gv_name g) = nm) (p_globals (prog s)))"

text \<open>Locals of the frames from the innermost out, then globals, then built-in constants.\<close>

definition resolve_name :: "region \<Rightarrow> string \<Rightarrow> svalue option" where
  "resolve_name r nm =
    (let from_script = (case cur_script (dbg r) of None \<Rightarrow> None
       | Some i \<Rightarrow> (case find_local (prog (script_at r i)) nm (cur_frames r) of
            Some v \<Rightarrow> Some v
          | None \<Rightarrow> find_global (script_at r i) nm))
     in case from_script of Some v \<Rightarrow> Some v
        | None \<Rightarrow> (let c = builtins_const nm in if c = SVoid then None else Some c))"

definition typed_value :: "string \<Rightarrow> svalue \<Rightarrow> string" where
  "typed_value nm v = dq ''name'' @ '':'' @ json_str nm @ j_member ''type'' (dq (sv_type_name (sv_type v))) @
     j_member ''value'' (json_str (sv_to_string v))"

definition emit_value :: "string \<Rightarrow> svalue \<Rightarrow> region \<Rightarrow> region" where
  "emit_value nm v r = emit (dbg_obj ''value'' @ '','' @ typed_value nm v @ ''}'' @ nl) r"

definition emit_locals :: "region \<Rightarrow> region" where
  "emit_locals r =
    (let p = (case cur_script (dbg r) of Some i \<Rightarrow> prog_str (prog (script_at r i)) | None \<Rightarrow> (\<lambda>_. []))
     in emit (dbg_obj ''locals'' @ j_member ''items'' (''['' @
          str_join '','' (map (\<lambda>b. ''{'' @ typed_value (p (lb_name b)) (lb_val b) @ ''}'')
            (concat (map locs (cur_frames r)))) @ '']'') @ ''}'' @ nl) (follow_frame r))"

definition emit_globals :: "region \<Rightarrow> region" where
  "emit_globals r =
    (let items = (case cur_script (dbg r) of None \<Rightarrow> []
       | Some i \<Rightarrow> (let s = script_at r i in
           map (\<lambda>(g, v). ''{'' @ typed_value (prog_str (prog s) (gv_name g)) v @ ''}'')
             (zip (p_globals (prog s)) (globals s))))
     in emit (dbg_obj ''globals'' @ j_member ''items'' (''['' @ str_join '','' items @ '']'') @ ''}'' @ nl) r)"

definition emit_dbg_error :: "string \<Rightarrow> region \<Rightarrow> region" where
  "emit_dbg_error msg r = emit (dbg_obj ''error'' @ j_member ''msg'' (json_str msg) @ ''}'' @ nl) r"

definition emit_frames :: "region \<Rightarrow> region" where
  "emit_frames r = emit (dbg_obj ''frames'' @ j_member ''frames'' (''['' @
     str_join '','' (map (\<lambda>fr. ''{'' @ dq ''depth'' @ '':'' @ show_int (scope_depth fr) @ ''}'')
       (cur_frames r)) @ '']'') @ ''}'' @ nl) (follow_frame r)"

subsection \<open>Commands\<close>

definition set_mode :: "dbg_mode \<Rightarrow> region \<Rightarrow> region" where
  "set_mode m = upd_dbg (\<lambda>d. d\<lparr>dbg_mode := m\<rparr>)"

definition cmd_break :: "string \<Rightarrow> region \<Rightarrow> region" where
  "cmd_break line r =
    (let fl = get_str line ''file'' 256;
         bp = \<lparr>bp_id = next_bp_id (dbg r), bp_file = (if fl = [] then None else Some fl),
               bp_line = get_int line ''line'', bp_enabled = True, bp_hits = 0\<rparr>
     in emit_breakpoint_set bp
          (upd_dbg (\<lambda>d. d\<lparr>next_bp_id := next_bp_id d + 1, bps := bp # bps d\<rparr>) r))"

text \<open>The first entry with the id goes.\<close>

fun remove_first :: "('a \<Rightarrow> bool) \<Rightarrow> 'a list \<Rightarrow> 'a list" where
  "remove_first P [] = []"
| "remove_first P (x # xs) = (if P x then xs else x # remove_first P xs)"

definition cmd_clear :: "string \<Rightarrow> region \<Rightarrow> region" where
  "cmd_clear line r = emit_bps_list
     (upd_dbg (\<lambda>d. d\<lparr>bps := remove_first (\<lambda>b. sint (bp_id b) = get_int line ''id'') (bps d)\<rparr>) r)"

definition cmd_catch :: "string \<Rightarrow> region \<Rightarrow> region" where
  "cmd_catch line r =
    (let k = get_str line ''kind'' 64;
         cp = \<lparr>cp_id = next_cp_id (dbg r), cp_kind = k, cp_enabled = True\<rparr>
     in if k = [] then r
        else emit (dbg_obj ''catchpoint'' @ j_member ''id'' (show_int (sint (cp_id cp))) @
               j_member ''kind'' (json_str k) @ ''}'' @ nl)
             (upd_dbg (\<lambda>d. d\<lparr>next_cp_id := next_cp_id d + 1, cps := cp # cps d\<rparr>) r))"

definition cmd_uncatch :: "string \<Rightarrow> region \<Rightarrow> region" where
  "cmd_uncatch line r = emit_catches_list
     (upd_dbg (\<lambda>d. d\<lparr>cps := remove_first (\<lambda>c. sint (cp_id c) = get_int line ''id'') (cps d)\<rparr>) r)"

definition cmd_print :: "string \<Rightarrow> region \<Rightarrow> region" where
  "cmd_print line r =
    (let nm = get_str line ''name'' 128; r1 = (if cur_script (dbg r) = None then r else follow_frame r)
     in case resolve_name r nm of Some v \<Rightarrow> emit_value nm v r1
        | None \<Rightarrow> emit_dbg_error ''no such variable'' r1)"

text \<open>One command line; \<open>True\<close> keeps the script paused, \<open>False\<close> resumes it.\<close>

definition handle_command :: "string \<Rightarrow> region \<Rightarrow> bool \<times> region" where
  "handle_command line r =
    (let cmd = get_str line ''cmd'' 64 in
     if cmd = [] then (True, r)
     else if cmd \<in> {''continue'', ''c'', ''run''} then (False, emit_running (set_mode DBG_RUN r))
     else if cmd \<in> {''step'', ''s''} then (False, emit_running (set_mode DBG_STEP_STMT r))
     else if cmd \<in> {''quit'', ''q''} then
       (False, (set_mode DBG_DEAD r)\<lparr>n_steps := max_steps r + 1\<rparr>)
     else if cmd \<in> {''break'', ''b''} then (True, cmd_break line r)
     else if cmd \<in> {''clear'', ''delete''} then (True, cmd_clear line r)
     else if cmd \<in> {''breakpoints'', ''info''} then (True, emit_catches_list (emit_bps_list r))
     else if cmd = ''catch'' then (True, cmd_catch line r)
     else if cmd = ''uncatch'' then (True, cmd_uncatch line r)
     else if cmd \<in> {''print'', ''p''} then (True, cmd_print line r)
     else if cmd = ''locals'' then (True, emit_locals r)
     else if cmd = ''globals'' then (True, emit_globals r)
     else if cmd \<in> {''backtrace'', ''bt''} then (True, emit_frames r)
     else if cmd = ''snapshot'' then (True, snapshot_dump r)
     else (True, emit_dbg_error ''unknown command'' r))"

text \<open>The pause loop; at the end of standard input the script runs freely.\<close>

fun pause_lines :: "string list \<Rightarrow> region \<Rightarrow> region" where
  "pause_lines [] r = set_mode DBG_RUN (upd_dbg (\<lambda>d. d\<lparr>cmd_in := []\<rparr>) r)"
| "pause_lines (l # ls) r =
     (case handle_command (cstr l) (upd_dbg (\<lambda>d. d\<lparr>cmd_in := ls\<rparr>) r) of
        (keep, r') \<Rightarrow> if \<not> keep \<or> dbg_mode (dbg r') = DBG_DEAD then r' else pause_lines ls r')"

definition pause_loop :: "region \<Rightarrow> region" where
  "pause_loop r = pause_lines (cmd_in (dbg r)) r"

subsection \<open>The hooks\<close>

definition frame_ptr :: "region \<Rightarrow> frame_ref" where
  "frame_ptr r = (if frames r = [] then FrNull else FrDepth (length (frames r)))"

definition bp_hit :: "int \<Rightarrow> breakpoint \<Rightarrow> bool" where
  "bp_hit line bp \<longleftrightarrow> bp_enabled bp \<and> bp_line bp = line"

definition dbg_check_stmt :: "nat \<Rightarrow> int \<Rightarrow> region \<Rightarrow> region" where
  "dbg_check_stmt i line r =
    (if \<not> dbg_enabled (dbg r) \<or> dbg_mode (dbg r) = DBG_DEAD then r
     else
      let r1 = upd_dbg (\<lambda>d. d\<lparr>cur_script := Some i, cur_frame := frame_ptr r\<rparr>) r in
      if dbg_mode (dbg r) = DBG_STEP_STMT \<and> 0 < line then
        pause_loop (emit_stopped ''step'' (Some i) line (set_mode DBG_PAUSED r1))
      else if 0 < line then
        (case find_index (bp_hit line) (bps (dbg r)) of
           None \<Rightarrow> r1
         | Some k \<Rightarrow> pause_loop (emit_stopped ''breakpoint'' (Some i) line (set_mode DBG_PAUSED
             (upd_dbg (\<lambda>d. d\<lparr>bps := update_nth k (\<lambda>b. b\<lparr>bp_hits := bp_hits b + 1\<rparr>) (bps d)\<rparr>) r1))))
      else r1)"

definition dbg_check_event :: "nat \<Rightarrow> region \<Rightarrow> region" where
  "dbg_check_event i r =
    (if \<not> dbg_enabled (dbg r) \<or> dbg_mode (dbg r) = DBG_DEAD then r
     else upd_dbg (\<lambda>d. d\<lparr>cur_script := Some i\<rparr>) r)"

definition dbg_check_catch :: "string \<Rightarrow> string \<Rightarrow> region \<Rightarrow> region" where
  "dbg_check_catch kind detail r =
    (if \<not> dbg_enabled (dbg r) \<or> dbg_mode (dbg r) = DBG_DEAD then r
     else if \<not> list_ex (\<lambda>c. cp_enabled c \<and> cp_kind c = kind) (cps (dbg r)) then r
     else let r1 = emit (dbg_obj ''caught'' @ j_member ''kind'' (json_str kind) @
                     j_member ''detail'' (json_str detail) @ ''}'' @ nl) r;
              r2 = set_mode DBG_PAUSED r1
          in pause_loop (emit_stopped ''catch'' (cur_script (dbg r2)) 0 r2))"

definition dbg_handshake_pause :: "nat \<Rightarrow> region \<Rightarrow> region" where
  "dbg_handshake_pause i r =
    (if \<not> dbg_enabled (dbg r) then r
     else pause_loop (emit_stopped ''entry'' (Some i) 0
       (upd_dbg (\<lambda>d. d\<lparr>cur_script := Some i, cur_frame := FrNull, dbg_mode := DBG_PAUSED\<rparr>) r)))"

definition dbg_notify_exit :: "region \<Rightarrow> region" where
  "dbg_notify_exit r = (if dbg_enabled (dbg r) then emit (dbg_obj ''exit'' @ ''}'' @ nl) r else r)"

subsection \<open>What the debugger leaves alone\<close>

text \<open>The debugger changes its own state, the output, and, to end the run, the step counter. The rest
  of the region, \<open>quiet\<close> compares, is the script's business.\<close>

definition quiet :: "region \<Rightarrow> region \<Rightarrow> bool" where
  "quiet r r' \<longleftrightarrow> (\<exists>o' d' n'. r' = r\<lparr>out := out r @ o', dbg := d', n_steps := n'\<rparr> \<and>
     (n' = n_steps r \<or> n' = max_steps r + 1) \<and> dbg_enabled d' = dbg_enabled (dbg r))"

lemma quiet_refl [intro!, simp]: "quiet r r"
  unfolding quiet_def by (rule exI [of _ "[]"], rule exI [of _ "dbg r"], rule exI [of _ "n_steps r"]) simp

lemma quiet_trans [trans]: "quiet r r' \<Longrightarrow> quiet r' r'' \<Longrightarrow> quiet r r''"
proof -
  assume "quiet r r'" "quiet r' r''"
  then obtain o1 d1 n1 o2 d2 n2 where
    "r' = r\<lparr>out := out r @ o1, dbg := d1, n_steps := n1\<rparr>"
    "n1 = n_steps r \<or> n1 = max_steps r + 1" "dbg_enabled d1 = dbg_enabled (dbg r)"
    "r'' = r'\<lparr>out := out r' @ o2, dbg := d2, n_steps := n2\<rparr>"
    "n2 = n_steps r' \<or> n2 = max_steps r' + 1" "dbg_enabled d2 = dbg_enabled (dbg r')"
    unfolding quiet_def by blast
  then show "quiet r r''" unfolding quiet_def
    by (intro exI [of _ "o1 @ o2"] exI [of _ d2] exI [of _ n2]) auto
qed

lemma quiet_emit [intro!, simp]: "quiet r (emit t r)"
  unfolding quiet_def emit_def
  by (rule exI [of _ t], rule exI [of _ "dbg r"], rule exI [of _ "n_steps r"]) simp

lemma quiet_upd_dbg [intro]: "(\<And>d. dbg_enabled (f d) = dbg_enabled d) \<Longrightarrow> quiet r (upd_dbg f r)"
  unfolding quiet_def upd_dbg_def
  by (rule exI [of _ "[]"], rule exI [of _ "f (dbg r)"], rule exI [of _ "n_steps r"]) simp

lemma quiet_emit_right: "quiet r r' \<Longrightarrow> quiet r (emit t r')"
  by (rule quiet_trans [OF _ quiet_emit])

lemma quiet_upd_dbg_right:
  "quiet r r' \<Longrightarrow> (\<And>d. dbg_enabled (f d) = dbg_enabled d) \<Longrightarrow> quiet r (upd_dbg f r')"
  by (rule quiet_trans [OF _ quiet_upd_dbg])

lemma quiet_follow [intro!]: "quiet r r' \<Longrightarrow> quiet r (follow_frame r')"
  by (auto simp: follow_frame_def intro: quiet_upd_dbg_right)

lemmas quiet_intros = quiet_refl quiet_emit_right quiet_upd_dbg_right quiet_follow

lemma quiet_handle_command: "quiet r (snd (handle_command line r))"
proof -
  have d: "quiet r ((set_mode DBG_DEAD r)\<lparr>n_steps := max_steps r + 1\<rparr>)"
    unfolding quiet_def set_mode_def upd_dbg_def
    by (rule exI [of _ "[]"], rule exI [of _ "(dbg r)\<lparr>dbg_mode := DBG_DEAD\<rparr>"],
        rule exI [of _ "max_steps r + 1"]) simp
  have "quiet r (cmd_break line r)" "quiet r (cmd_clear line r)" "quiet r (cmd_catch line r)"
    "quiet r (cmd_uncatch line r)" "quiet r (emit_catches_list (emit_bps_list r))"
    "quiet r (emit_running (set_mode m r))" "quiet r (emit_locals r)" "quiet r (emit_globals r)"
    "quiet r (emit_frames r)" "quiet r (snapshot_dump r)" "quiet r (emit_dbg_error e r)" for m e
    unfolding cmd_break_def cmd_clear_def cmd_catch_def cmd_uncatch_def emit_catches_list_def
      emit_bps_list_def emit_running_def set_mode_def emit_locals_def emit_globals_def emit_frames_def
      snapshot_dump_def emit_dbg_error_def emit_breakpoint_set_def Let_def
    by (auto intro!: quiet_intros)
  moreover have "quiet r (cmd_print line r)"
    unfolding cmd_print_def Let_def emit_value_def emit_dbg_error_def
    by (auto split: option.split intro!: quiet_intros)
  ultimately show ?thesis using d unfolding handle_command_def Let_def by simp
qed

lemma quiet_pause_lines: "quiet r (pause_lines ls r)"
proof (induction ls arbitrary: r)
  case Nil
  show ?case by (auto simp: set_mode_def intro!: quiet_intros)
next
  case (Cons l ls)
  let ?r = "upd_dbg (\<lambda>d. d\<lparr>cmd_in := ls\<rparr>) r"
  obtain keep r' where h: "handle_command (cstr l) ?r = (keep, r')" by fastforce
  have "quiet r ?r" by auto
  also have "quiet ?r r'" using quiet_handle_command [of ?r "cstr l"] h by simp
  finally have "quiet r r'" .
  with Cons.IH [of r'] h show ?case by (auto intro: quiet_trans)
qed

lemma quiet_pause_loop [intro!]: "quiet r r' \<Longrightarrow> quiet r (pause_loop r')"
  unfolding pause_loop_def by (rule quiet_trans [OF _ quiet_pause_lines])

lemma quiet_check_catch [intro!, simp]: "quiet r (dbg_check_catch k d r)"
  unfolding dbg_check_catch_def Let_def emit_stopped_def set_mode_def
  by (auto intro!: quiet_intros)

lemma quiet_check_stmt [intro!, simp]: "quiet r (dbg_check_stmt i l r)"
  unfolding dbg_check_stmt_def Let_def emit_stopped_def set_mode_def
  by (auto split: option.split intro!: quiet_intros)

lemma quiet_handshake [intro!, simp]: "quiet r (dbg_handshake_pause i r)"
  unfolding dbg_handshake_pause_def emit_stopped_def by (auto intro!: quiet_intros)

lemma quiet_off: "\<not> dbg_enabled (dbg r) \<Longrightarrow> dbg_check_stmt i l r = r \<and> dbg_check_catch k d r = r"
  by (simp add: dbg_check_stmt_def dbg_check_catch_def)

lemma quiet_fields:
  assumes "quiet r r'"
  shows "scripts r' = scripts r" "frames r' = frames r" "avatars r' = avatars r" "vol r' = vol r"
    "next_handle r' = next_handle r" "max_steps r' = max_steps r" "inbound r' = inbound r"
    "dialogs r' = dialogs r" "groups r' = groups r" "virtual_offset r' = virtual_offset r"
    "command_lines r' = command_lines r" "next_command r' = next_command r"
    "chat_log r' = chat_log r" "host r' = host r" "json_events r' = json_events r"
    "n_steps r' = n_steps r \<or> n_steps r' = max_steps r + 1" "virtual_now r' = virtual_now r"
  using assms by (auto simp: quiet_def)

end
