(* ===== verification/Events.thy ===== *)
theory Events
  imports Debugger
begin

unbundle bit_operations_syntax

text \<open>
  \<open>events.c\<close>: the emitter of every script-observable effect, in its two formats. In JSON mode each
  event is one line holding one object; text values are escaped by \<open>json_str\<close>. Strings passed to
  the emitters are never null at their call sites, so the fallbacks for null pointers do not arise.

  An emitter changes nothing but the output and, through a catchpoint, the debugger: it is \<open>quiet\<close>.
\<close>

subsection \<open>Helpers\<close>

definition j_kv_str :: "string \<Rightarrow> string \<Rightarrow> string" where
  "j_kv_str k v = '','' @ dq k @ '':'' @ json_str v"

definition j_kv_int :: "string \<Rightarrow> int \<Rightarrow> string" where
  "j_kv_int k v = '','' @ dq k @ '':'' @ show_int v"

definition j_kv_dbl :: "string \<Rightarrow> double \<Rightarrow> string" where
  "j_kv_dbl k v = '','' @ dq k @ '':'' @ show_fixed 6 v"

definition j_open :: "region \<Rightarrow> string \<Rightarrow> string" where
  "j_open r ty = ''{'' @ dq ''t'' @ '':'' @ show_fixed 3 (virtual_now r) @ '','' @ dq ''type'' @ '':'' @ dq ty"

definition j_close :: string where
  "j_close = ''}'' @ nl"

definition j_event :: "region \<Rightarrow> string \<Rightarrow> string list \<Rightarrow> string" where
  "j_event r ty kvs = j_open r ty @ concat kvs @ j_close"

definition src_name :: "region \<Rightarrow> nat \<Rightarrow> string" where
  "src_name r i = name (script_at r i)"

definition src_uuid :: "region \<Rightarrow> nat \<Rightarrow> string" where
  "src_uuid r i = uuid (script_at r i)"

definition catch_hook :: "string \<Rightarrow> string \<Rightarrow> region \<Rightarrow> region" where
  "catch_hook kind detail r = (if dbg_enabled (dbg r) then dbg_check_catch kind detail r else r)"

text \<open>Writes the JSON text or the human one; both are taken from the state at the time of writing.\<close>

definition emit2 :: "(region \<Rightarrow> string) \<Rightarrow> (region \<Rightarrow> string) \<Rightarrow> region \<Rightarrow> region" where
  "emit2 j h r = emit (if json_events r then j r else h r) r"

subsection \<open>The emitters\<close>

definition evt_chat :: "nat \<Rightarrow> string \<Rightarrow> int \<Rightarrow> string \<Rightarrow> region \<Rightarrow> region" where
  "evt_chat i kind ch msg r = emit2
     (\<lambda>r. j_event r ''chat'' [j_kv_str ''kind'' kind, j_kv_int ''ch'' ch, j_kv_str ''src'' (src_name r i),
        j_kv_str ''src_uuid'' (src_uuid r i), j_kv_str ''msg'' msg])
     (\<lambda>r. ''['' @ pad_right 7 kind @ '' ch='' @ show_int ch @ '' '' @ src_name r i @ ''] '' @ msg @ nl)
     (catch_hook ''chat'' msg r)"

definition evt_chat_to :: "nat \<Rightarrow> string \<Rightarrow> int \<Rightarrow> string \<Rightarrow> region \<Rightarrow> region" where
  "evt_chat_to i to ch msg = emit2
     (\<lambda>r. j_event r ''chat'' [j_kv_str ''kind'' ''region-to'', j_kv_int ''ch'' ch,
        j_kv_str ''src'' (src_name r i), j_kv_str ''src_uuid'' (src_uuid r i), j_kv_str ''to'' to,
        j_kv_str ''msg'' msg])
     (\<lambda>r. ''[region-to ch='' @ show_int ch @ '' '' @ src_name r i @ ''->'' @ to @ ''] '' @ msg @ nl)"

definition evt_dialog ::
    "nat \<Rightarrow> string \<Rightarrow> string \<Rightarrow> string list \<Rightarrow> int \<Rightarrow> bool \<Rightarrow> region \<Rightarrow> region" where
  "evt_dialog i to msg buttons ch tb r = emit2
     (\<lambda>r. j_event r (if tb then ''textbox'' else ''dialog'') ([j_kv_str ''src'' (src_name r i),
        j_kv_str ''to'' to, j_kv_int ''ch'' ch, j_kv_str ''msg'' msg] @
        (if tb then []
         else ['','' @ dq ''buttons'' @ '':['' @ str_join '','' (map json_str buttons) @ '']''])))
     (\<lambda>r. ''['' @ (if tb then ''textbox'' else ''dialog'') @ '' from='' @ src_name r i @ '' to='' @ to @
        '' ch='' @ show_int ch @ ''] msg='' @ dq msg @
        (if tb then [] else '' buttons=['' @ str_join ''|'' buttons @ '']'') @ nl)
     (catch_hook ''dialog'' msg r)"

definition evt_loadurl :: "nat \<Rightarrow> string \<Rightarrow> string \<Rightarrow> string \<Rightarrow> region \<Rightarrow> region" where
  "evt_loadurl i to label url = emit2
     (\<lambda>r. j_event r ''loadurl'' [j_kv_str ''src'' (src_name r i), j_kv_str ''to'' to,
        j_kv_str ''label'' label, j_kv_str ''url'' url])
     (\<lambda>r. ''[loadurl from='' @ src_name r i @ '' to='' @ to @ ''] '' @ label @ '' -> '' @ url @ nl)"

definition evt_hud_text ::
    "nat \<Rightarrow> string \<Rightarrow> double \<Rightarrow> double \<Rightarrow> double \<Rightarrow> double \<Rightarrow> region \<Rightarrow> region" where
  "evt_hud_text i txt rr gg bb al = emit2
     (\<lambda>r. j_event r ''hud'' [j_kv_str ''src'' (src_name r i), j_kv_str ''text'' txt,
        j_kv_dbl ''r'' rr, j_kv_dbl ''g'' gg, j_kv_dbl ''b'' bb, j_kv_dbl ''a'' al])
     (\<lambda>r. ''[hud   '' @ src_name r i @ ''] text='' @ txt @ '' rgb=('' @ show_fixed 2 rr @ '','' @
        show_fixed 2 gg @ '','' @ show_fixed 2 bb @ '') a='' @ show_fixed 2 al @ nl)"

definition evt_money :: "string \<Rightarrow> string \<Rightarrow> llong \<Rightarrow> bool \<Rightarrow> region \<Rightarrow> region" where
  "evt_money src dst amt ok r = emit2
     (\<lambda>r. j_event r ''money'' [j_kv_str ''from'' src, j_kv_str ''to'' dst, j_kv_int ''amount'' (sint amt),
        j_kv_int ''ok'' (if ok then 1 else 0)])
     (\<lambda>r. ''[money '' @ src @ '' -> '' @ dst @ '' L$'' @ show_ll amt @ '' ok='' @
        (if ok then ''1'' else ''0'') @ '']'' @ nl)
     (catch_hook ''money'' (take 255 (src @ '' -> '' @ dst @ '' L$'' @ show_ll amt)) r)"

definition perm_table :: "(cint \<times> string) list" where
  "perm_table = [(0x001, ''PERMISSION_DEBIT_LEGACY''), (0x002, ''PERMISSION_DEBIT''),
     (0x004, ''PERMISSION_TAKE_CONTROLS''), (0x008, ''PERMISSION_REMAP_CONTROLS''),
     (0x010, ''PERMISSION_TRIGGER_ANIMATION''), (0x020, ''PERMISSION_ATTACH''),
     (0x040, ''PERMISSION_RELEASE_OWNERSHIP''), (0x080, ''PERMISSION_CHANGE_LINKS''),
     (0x100, ''PERMISSION_CHANGE_JOINTS''), (0x200, ''PERMISSION_CHANGE_PERMISSIONS''),
     (0x400, ''PERMISSION_TRACK_CAMERA''), (0x800, ''PERMISSION_CONTROL_CAMERA'')]"

text \<open>The names of the bits that are set, as far as they fit the buffer of \<open>cap\<close> bytes.\<close>

fun perm_names :: "nat \<Rightarrow> cint \<Rightarrow> (cint \<times> string) list \<Rightarrow> string \<Rightarrow> bool \<Rightarrow> string \<times> bool" where
  "perm_names cap bits [] buf start = (buf, start)"
| "perm_names cap bits ((b, nm) # ps) buf start =
     (if bits AND b \<noteq> 0 then
        if cap \<le> length buf + length nm + 2 then (buf, start)
        else perm_names cap bits ps (buf @ (if start then [] else ''|'') @ nm) False
      else perm_names cap bits ps buf start)"

definition perm_mask_str :: "cint \<Rightarrow> nat \<Rightarrow> string" where
  "perm_mask_str bits cap = (case perm_names cap bits perm_table [] True of
     (buf, start) \<Rightarrow> if start then show_int (sint bits) else buf)"

definition evt_permission_request :: "nat \<Rightarrow> string \<Rightarrow> cint \<Rightarrow> region \<Rightarrow> region" where
  "evt_permission_request i who bits = emit2
     (\<lambda>r. j_event r ''permission-request'' [j_kv_str ''src'' (src_name r i), j_kv_str ''who'' who,
        j_kv_str ''mask'' (perm_mask_str bits 256), j_kv_int ''mask_bits'' (sint bits)])
     (\<lambda>r. ''[perm  '' @ src_name r i @ '' requests '' @ perm_mask_str bits 256 @ '' from '' @ who @ '']'' @ nl)"

definition evt_link_msg :: "nat \<Rightarrow> int \<Rightarrow> llong \<Rightarrow> string \<Rightarrow> string \<Rightarrow> region \<Rightarrow> region" where
  "evt_link_msg i target num str sid = emit2
     (\<lambda>r. j_event r ''link_message'' [j_kv_str ''src'' (src_name r i),
        j_kv_int ''src_link'' (link_num (script_at r i)), j_kv_int ''target_link'' target,
        j_kv_int ''num'' (sint num), j_kv_str ''str'' str, j_kv_str ''id'' sid])
     (\<lambda>r. ''[link  src='' @ show_int (link_num (script_at r i)) @ ''->t='' @ show_int target @
        '' num='' @ show_ll num @ ''] str='' @ str @ '' sid='' @ sid @ nl)"

definition evt_http_out :: "nat \<Rightarrow> string \<Rightarrow> string \<Rightarrow> int \<Rightarrow> nat \<Rightarrow> region \<Rightarrow> region" where
  "evt_http_out i url method status len = emit2
     (\<lambda>r. j_event r ''http_out'' [j_kv_str ''src'' (src_name r i), j_kv_str ''url'' url,
        j_kv_str ''method'' method, j_kv_int ''status'' status, j_kv_int ''body_len'' (int len)])
     (\<lambda>r. ''[http  '' @ method @ '' '' @ url @ '' -> '' @ show_int status @ '' ('' @ show_nat len @
        '' bytes)]'' @ nl)"

definition evt_state_change :: "nat \<Rightarrow> string \<Rightarrow> string \<Rightarrow> region \<Rightarrow> region" where
  "evt_state_change i src dst = emit2
     (\<lambda>r. j_event r ''state_change'' [j_kv_str ''src'' (src_name r i), j_kv_str ''from'' src,
        j_kv_str ''to'' dst])
     (\<lambda>r. ''[state '' @ src_name r i @ '': '' @ src @ '' -> '' @ dst @ '']'' @ nl)"

definition evt_event_dispatch :: "nat \<Rightarrow> string \<Rightarrow> nat \<Rightarrow> region \<Rightarrow> region" where
  "evt_event_dispatch i ev n r = (if \<not> trace r then r else emit2
     (\<lambda>r. j_event r ''dispatch'' [j_kv_str ''src'' (src_name r i), j_kv_str ''event'' ev,
        j_kv_int ''n_args'' (int n)])
     (\<lambda>r. ''[disp  '' @ src_name r i @ ''.'' @ ev @ ''/'' @ show_nat n @ '']'' @ nl) r)"

definition evt_die :: "nat \<Rightarrow> region \<Rightarrow> region" where
  "evt_die i = emit2 (\<lambda>r. j_event r ''die'' [j_kv_str ''src'' (src_name r i)])
     (\<lambda>r. ''[die   '' @ src_name r i @ '']'' @ nl)"

definition evt_reset :: "nat \<Rightarrow> region \<Rightarrow> region" where
  "evt_reset i = emit2 (\<lambda>r. j_event r ''reset'' [j_kv_str ''src'' (src_name r i)])
     (\<lambda>r. ''[reset '' @ src_name r i @ '']'' @ nl)"

text \<open>\<open>msg\<close> is the formatted text; in JSON mode it passes through a buffer of 1024 bytes.\<close>

definition evt_info :: "string \<Rightarrow> region \<Rightarrow> region" where
  "evt_info msg = emit2 (\<lambda>r. j_event r ''info'' [j_kv_str ''msg'' (take 1023 msg)])
     (\<lambda>r. ''[info ] '' @ msg @ nl)"

definition evt_lsd_set :: "nat \<Rightarrow> string \<Rightarrow> string \<Rightarrow> region \<Rightarrow> region" where
  "evt_lsd_set i k v = emit2
     (\<lambda>r. j_event r ''lsd_set'' [j_kv_str ''src'' (src_name r i), j_kv_str ''key'' k, j_kv_str ''value'' v])
     (\<lambda>r. ''[lsd   '' @ src_name r i @ ''] '' @ k @ ''='' @ v @ nl)"

definition evt_prim_set :: "nat \<Rightarrow> string \<Rightarrow> region \<Rightarrow> region" where
  "evt_prim_set i fn = emit2
     (\<lambda>r. j_event r ''prim-set'' [j_kv_str ''src'' (src_name r i), j_kv_str ''fn'' fn])
     (\<lambda>r. ''[prim  '' @ src_name r i @ ''] '' @ fn @ nl)"

definition evt_agent_data_request :: "nat \<Rightarrow> string \<Rightarrow> string \<Rightarrow> region \<Rightarrow> region" where
  "evt_agent_data_request i who kind = emit2
     (\<lambda>r. j_event r ''agent-data-request'' [j_kv_str ''src'' (src_name r i), j_kv_str ''who'' who,
        j_kv_str ''kind'' kind])
     (\<lambda>r. ''[agent '' @ src_name r i @ ''] '' @ kind @ '' for '' @ who @ nl)"

definition evt_rez :: "nat \<Rightarrow> string \<Rightarrow> region \<Rightarrow> region" where
  "evt_rez i item = emit2
     (\<lambda>r. j_event r ''rez'' [j_kv_str ''src'' (src_name r i), j_kv_str ''inventory'' item])
     (\<lambda>r. ''[rez   '' @ src_name r i @ ''] '' @ item @ nl)"

definition evt_assertion :: "string \<Rightarrow> bool \<Rightarrow> string \<Rightarrow> region \<Rightarrow> region" where
  "evt_assertion what passed detail = emit2
     (\<lambda>r. j_event r ''assertion'' [j_kv_str ''what'' what, j_kv_int ''passed'' (if passed then 1 else 0),
        j_kv_str ''detail'' detail])
     (\<lambda>r. ''['' @ (if passed then ''PASS  '' else ''FAIL  '') @ '' '' @ what @ ''] '' @ detail @ nl)"

subsection \<open>Emitters are quiet\<close>

lemma quiet_emit2 [intro!]: "quiet r r' \<Longrightarrow> quiet r (emit2 j h r')"
  unfolding emit2_def by (rule quiet_emit_right)

lemma quiet_catch_hook [intro!, simp]: "quiet r (catch_hook k d r)"
  by (simp add: catch_hook_def)

lemma quiet_evt [simp, intro!]:
  "quiet r (evt_chat i kind ch msg r)" "quiet r (evt_chat_to i to ch msg r)"
  "quiet r (evt_dialog i to msg bs ch tb r)" "quiet r (evt_loadurl i to label url r)"
  "quiet r (evt_hud_text i txt rr gg bb al r)" "quiet r (evt_money src dst amt ok r)"
  "quiet r (evt_permission_request i who bits r)" "quiet r (evt_link_msg i target num str sid r)"
  "quiet r (evt_http_out i url method status len r)" "quiet r (evt_state_change i src dst r)"
  "quiet r (evt_event_dispatch i ev n r)" "quiet r (evt_die i r)" "quiet r (evt_reset i r)"
  "quiet r (evt_info what r)" "quiet r (evt_lsd_set i k v r)" "quiet r (evt_prim_set i fn r)"
  "quiet r (evt_agent_data_request i who kind r)" "quiet r (evt_rez i item r)"
  "quiet r (evt_assertion what ok detail r)"
  by (auto simp: evt_chat_def evt_chat_to_def evt_dialog_def evt_loadurl_def evt_hud_text_def
      evt_money_def evt_permission_request_def evt_link_msg_def evt_http_out_def evt_state_change_def
      evt_event_dispatch_def evt_die_def evt_reset_def evt_info_def evt_lsd_set_def evt_prim_set_def
      evt_agent_data_request_def evt_rez_def evt_assertion_def)

lemmas quiet_evt_trans [intro!] = quiet_evt [THEN quiet_trans [rotated]]

text \<open>What an emitter leaves alone, as rewrite rules (the step counter excepted).\<close>

lemmas evt_fields [simp, evt_simps] =
  quiet_fields(1-15,17) [OF quiet_evt(1)] quiet_fields(1-15,17) [OF quiet_evt(2)]
  quiet_fields(1-15,17) [OF quiet_evt(3)] quiet_fields(1-15,17) [OF quiet_evt(4)]
  quiet_fields(1-15,17) [OF quiet_evt(5)] quiet_fields(1-15,17) [OF quiet_evt(6)]
  quiet_fields(1-15,17) [OF quiet_evt(7)] quiet_fields(1-15,17) [OF quiet_evt(8)]
  quiet_fields(1-15,17) [OF quiet_evt(9)] quiet_fields(1-15,17) [OF quiet_evt(10)]
  quiet_fields(1-15,17) [OF quiet_evt(11)] quiet_fields(1-15,17) [OF quiet_evt(12)]
  quiet_fields(1-15,17) [OF quiet_evt(13)] quiet_fields(1-15,17) [OF quiet_evt(14)]
  quiet_fields(1-15,17) [OF quiet_evt(15)] quiet_fields(1-15,17) [OF quiet_evt(16)]
  quiet_fields(1-15,17) [OF quiet_evt(17)] quiet_fields(1-15,17) [OF quiet_evt(18)]
  quiet_fields(1-15,17) [OF quiet_evt(19)]

subsection \<open>One line per event\<close>

text \<open>Escaping leaves no control character, no bare quote: an escaped string is one line of text.\<close>

lemma hex_digit_no_ctrl: "k < 16 \<Longrightarrow> 0x20 \<le> ord_char (''0123456789abcdef'' ! k)"
proof -
  have "list_all (\<lambda>c. 0x20 \<le> ord_char c) ''0123456789abcdef''" by (simp add: ord_char_def)
  moreover assume "k < 16"
  moreover have "length ''0123456789abcdef'' = 16" by simp
  ultimately show ?thesis unfolding list_all_length by metis
qed

lemma show_hex_no_ctrl: "c \<in> set (show_hex n) \<Longrightarrow> 0x20 \<le> ord_char c"
proof (induction n rule: show_hex.induct)
  case (1 n)
  show ?case
  proof (cases "n < 16")
    case True
    then have "c = ''0123456789abcdef'' ! n"
      using "1.prems" by (simp only: show_hex.simps [of n] if_True list.set singleton_iff)
    with hex_digit_no_ctrl [OF True] show ?thesis by (simp only:)
  next
    case False
    then have "c \<in> set (show_hex (n div 16)) \<or> c = ''0123456789abcdef'' ! (n mod 16)"
      using "1.prems"
      by (simp only: show_hex.simps [of n] if_False set_append Un_iff list.set singleton_iff)
    moreover have "n mod 16 < 16" by simp
    ultimately show ?thesis using "1.IH" [OF False] hex_digit_no_ctrl [of "n mod 16"] by blast
  qed
qed

lemma json_char_no_ctrl: "c \<in> set (json_char x) \<Longrightarrow> 0x20 \<le> ord_char c"
proof -
  have hx: "c \<in> set (pad_zero k (show_hex n)) \<Longrightarrow> 0x20 \<le> ord_char c" for k n
    by (auto simp: pad_zero_def dest: show_hex_no_ctrl) (simp add: ord_char_def)
  assume "c \<in> set (json_char x)"
  then show ?thesis
    by (auto simp: json_char_def split: if_splits dest: hx) (simp_all add: ord_char_def)
qed

lemma json_str_no_ctrl: "c \<in> set (json_str s) \<Longrightarrow> 0x20 \<le> ord_char c"
  by (auto simp: json_str_def dq_def ord_char_def [symmetric] dest: json_char_no_ctrl)
    (simp_all add: ord_char_def)

lemma newline_not_in_json_str: "CHR 0x0A \<notin> set (json_str s)"
  using json_str_no_ctrl [of "CHR 0x0A" s] by (auto simp: ord_char_def)

lemma newline_not_in_show_nat: "CHR 0x0A \<notin> set (show_nat n)"
  using show_nat_isdigit [of "CHR 0x0A" n] by (auto simp: isdigit_def ord_char_def)

lemma newline_not_in_show_fixed: "CHR 0x0A \<notin> set (show_fixed p x)"
  by (cases x) (auto simp: Let_def pad_zero_def newline_not_in_show_nat)

lemma newline_not_in_show_int: "CHR 0x0A \<notin> set (show_int i)"
  by (auto simp: show_int_def newline_not_in_show_nat)

lemmas no_newline = newline_not_in_json_str newline_not_in_show_nat newline_not_in_show_fixed
  newline_not_in_show_int

text \<open>Under \<open>--json-events\<close> every chat event is exactly one line of output, whatever
  the message and the names hold: the text it appends ends in a newline and has no other.\<close>

theorem evt_chat_one_line:
  assumes "json_events r" "\<not> dbg_enabled (dbg r)"
  shows "\<exists>t. out (evt_chat i kind ch msg r) = out r @ t @ [CHR 0x0A] \<and> CHR 0x0A \<notin> set t"
proof -
  let ?t = "j_open r ''chat'' @ concat [j_kv_str ''kind'' kind, j_kv_int ''ch'' ch,
    j_kv_str ''src'' (src_name r i), j_kv_str ''src_uuid'' (src_uuid r i), j_kv_str ''msg'' msg] @ ''}''"
  have "out (evt_chat i kind ch msg r) = out r @ ?t @ [CHR 0x0A]"
    using assms by (simp add: evt_chat_def emit2_def catch_hook_def j_event_def j_close_def nl_def)
  moreover have "CHR 0x0A \<notin> set ?t"
    by (simp add: j_open_def j_kv_str_def j_kv_int_def dq_def no_newline)
  ultimately show ?thesis by blast
qed

end
