(* ===== verification/Operators.thy ===== *)
theory Operators
  imports Ast "HOL-Library.Signed_Division"
begin

unbundle bit_operations_syntax

text \<open>
  The operators of \<open>vm.c\<close>: implicit coercion, binary operators and casts. Integer arithmetic is
  the 64-bit arithmetic of the target. Dividing the least integer by -1 traps on the processor:
  the result \<open>DivTrap\<close>.
\<close>

subsection \<open>Operator codes\<close>

datatype opcode = OP_ASSIGN | OP_PLUS_ASSIGN | OP_MINUS_ASSIGN | OP_STAR_ASSIGN | OP_SLASH_ASSIGN
  | OP_PERCENT_ASSIGN | OP_PLUS | OP_MINUS | OP_STAR | OP_SLASH | OP_PERCENT | OP_AND | OP_OR
  | OP_XOR | OP_TILDE | OP_LAND | OP_LOR | OP_NOT | OP_EQ | OP_NEQ | OP_LE | OP_GE | OP_LT | OP_GT
  | OP_SHL | OP_SHR | OP_INC | OP_DEC | OP_OTHER byte

definition opcodes :: "opcode list" where
  \<comment> \<open>in the order of the enumeration, from \<open>OP_ASSIGN\<close> = 36 on\<close>
  "opcodes = [OP_ASSIGN, OP_PLUS_ASSIGN, OP_MINUS_ASSIGN, OP_STAR_ASSIGN, OP_SLASH_ASSIGN,
     OP_PERCENT_ASSIGN, OP_PLUS, OP_MINUS, OP_STAR, OP_SLASH, OP_PERCENT, OP_AND, OP_OR, OP_XOR,
     OP_TILDE, OP_LAND, OP_LOR, OP_NOT, OP_EQ, OP_NEQ, OP_LE, OP_GE, OP_LT, OP_GT, OP_SHL, OP_SHR,
     OP_INC, OP_DEC]"

definition opcode_of :: "byte \<Rightarrow> opcode" where
  "opcode_of b = (if 36 \<le> unat b \<and> unat b < 36 + length opcodes then opcodes ! (unat b - 36)
     else OP_OTHER b)"

subsection \<open>Coercion\<close>

text \<open>The implicit conversions: integer to float, and between string and key.\<close>

fun coerce :: "svalue \<Rightarrow> svtype \<Rightarrow> svalue" where
  "coerce (SInt i) SV_FLOAT = SFloat (d_of_ll i)"
| "coerce (SString s) SV_KEY = SKey s"
| "coerce (SKey s) SV_STRING = SString s"
| "coerce v _ = v"

definition type_byte :: "byte \<Rightarrow> svtype" where
  "type_byte b = svtype_of (unat b)"

subsection \<open>Binary operators\<close>

fun num_f :: "svalue \<Rightarrow> double" where
  "num_f (SInt i) = d_of_ll i"
| "num_f (SFloat f) = f"
| "num_f _ = d_zero"

fun num_i :: "svalue \<Rightarrow> llong" where
  "num_i (SInt i) = i"
| "num_i (SFloat f) = d_to_ll f"
| "num_i _ = 0"

definition is_num :: "svalue \<Rightarrow> bool" where
  "is_num v \<longleftrightarrow> sv_type v \<in> {SV_INTEGER, SV_FLOAT}"

definition as_list :: "svalue \<Rightarrow> svalue list" where
  "as_list v = (case v of SList l \<Rightarrow> l | _ \<Rightarrow> [v])"

definition is_list :: "svalue \<Rightarrow> bool" where
  "is_list v \<longleftrightarrow> sv_type v = SV_LIST"

definition arith :: "(double \<Rightarrow> double \<Rightarrow> double) \<Rightarrow> (llong \<Rightarrow> llong \<Rightarrow> llong) \<Rightarrow> svalue \<Rightarrow> svalue \<Rightarrow> svalue" where
  \<comment> \<open>the numeric case of an operator: in floats when either side is one; void when a side is no number\<close>
  "arith ff fi l r =
    (if is_num l \<and> is_num r then
       if sv_type l = SV_FLOAT \<or> sv_type r = SV_FLOAT then SFloat (ff (num_f l) (num_f r))
       else SInt (fi (num_i l) (num_i r))
     else SVoid)"

definition op_plus :: "svalue \<Rightarrow> svalue \<Rightarrow> svalue" where
  "op_plus l r =
    (case (sv_text l, sv_text r) of
       (Some s, Some t) \<Rightarrow> SString (s @ t)
     | _ \<Rightarrow> (case (l, r) of
         (SVector a b c, SVector x y z) \<Rightarrow> SVector (d_add a x) (d_add b y) (d_add c z)
       | (SRot a b c d, SRot x y z s) \<Rightarrow> SRot (d_add a x) (d_add b y) (d_add c z) (d_add d s)
       | _ \<Rightarrow> if is_list l \<or> is_list r then SList (as_list l @ as_list r)
              else arith d_add (+) l r))"

definition op_minus :: "svalue \<Rightarrow> svalue \<Rightarrow> svalue" where
  "op_minus l r = (case (l, r) of
     (SVector a b c, SVector x y z) \<Rightarrow> SVector (d_sub a x) (d_sub b y) (d_sub c z)
   | (SRot a b c d, SRot x y z s) \<Rightarrow> SRot (d_sub a x) (d_sub b y) (d_sub c z) (d_sub d s)
   | _ \<Rightarrow> arith d_sub (-) l r)"

definition vec_scale :: "double \<Rightarrow> double \<Rightarrow> double \<Rightarrow> double \<Rightarrow> svalue" where
  "vec_scale x y z k = SVector (d_mul x k) (d_mul y k) (d_mul z k)"

definition quat_mul ::
    "double \<Rightarrow> double \<Rightarrow> double \<Rightarrow> double \<Rightarrow> double \<Rightarrow> double \<Rightarrow> double \<Rightarrow> double \<Rightarrow> svalue" where
  "quat_mul ax ay az aw bx bY bz bw = SRot
     (d_sub (d_add (d_add (d_mul aw bx) (d_mul ax bw)) (d_mul ay bz)) (d_mul az bY))
     (d_add (d_add (d_sub (d_mul aw bY) (d_mul ax bz)) (d_mul ay bw)) (d_mul az bx))
     (d_add (d_sub (d_add (d_mul aw bz) (d_mul ax bY)) (d_mul ay bx)) (d_mul az bw))
     (d_sub (d_sub (d_sub (d_mul aw bw) (d_mul ax bx)) (d_mul ay bY)) (d_mul az bz))"

definition op_star :: "svalue \<Rightarrow> svalue \<Rightarrow> svalue" where
  "op_star l r = (case (l, r) of
     (SVector a b c, SVector x y z) \<Rightarrow> SFloat (d_add (d_add (d_mul a x) (d_mul b y)) (d_mul c z))
   | (SVector a b c, SInt _) \<Rightarrow> vec_scale a b c (num_f r)
   | (SVector a b c, SFloat _) \<Rightarrow> vec_scale a b c (num_f r)
   | (SInt _, SVector x y z) \<Rightarrow> vec_scale x y z (num_f l)
   | (SFloat _, SVector x y z) \<Rightarrow> vec_scale x y z (num_f l)
   | (SVector a b c, SRot x y z s) \<Rightarrow> vec_scale a b c s
   | (SRot a b c d, SRot x y z s) \<Rightarrow> quat_mul a b c d x y z s
   | _ \<Rightarrow> arith d_mul (*) l r)"

text \<open>C's signed division and remainder, which truncate towards zero.\<close>

definition ll_div :: "llong \<Rightarrow> llong \<Rightarrow> llong" where
  "ll_div a b = word_of_int (sint a sdiv sint b)"

definition ll_mod :: "llong \<Rightarrow> llong \<Rightarrow> llong" where
  "ll_mod a b = word_of_int (sint a smod sint b)"

definition div_traps :: "llong \<Rightarrow> llong \<Rightarrow> bool" where
  "div_traps a b \<longleftrightarrow> a = ll_min \<and> b = - 1"

definition op_slash :: "svalue \<Rightarrow> svalue \<Rightarrow> svalue res" where
  "op_slash l r = (case (l, is_num r) of
     (SVector a b c, True) \<Rightarrow>
       Inr (if \<not> d_is_zero (num_f r)
            then SVector (d_div a (num_f r)) (d_div b (num_f r)) (d_div c (num_f r))
            else SVector d_zero d_zero d_zero)
   | _ \<Rightarrow> if \<not> (is_num l \<and> is_num r) then Inr SVoid
          else if sv_type l \<noteq> SV_FLOAT \<and> sv_type r \<noteq> SV_FLOAT \<and> num_i r \<noteq> 0 then
            if div_traps (num_i l) (num_i r) then Inl DivTrap
            else Inr (SInt (ll_div (num_i l) (num_i r)))
          else if \<not> d_is_zero (num_f r) then Inr (SFloat (d_div (num_f l) (num_f r)))
          else Inr (SFloat d_zero))"

definition op_percent :: "svalue \<Rightarrow> svalue \<Rightarrow> svalue res" where
  "op_percent l r = (case (l, r) of
     (SVector a b c, SVector x y z) \<Rightarrow> Inr (SVector
        (d_sub (d_mul b z) (d_mul c y)) (d_sub (d_mul c x) (d_mul a z)) (d_sub (d_mul a y) (d_mul b x)))
   | (SInt i, SInt j) \<Rightarrow>
       if j = 0 then Inr (SInt 0) else if div_traps i j then Inl DivTrap else Inr (SInt (ll_mod i j))
   | _ \<Rightarrow> Inr (SInt 0))"

definition both_i :: "svalue \<Rightarrow> svalue \<Rightarrow> llong \<times> llong" where
  "both_i l r = (if is_num l \<and> is_num r then (num_i l, num_i r) else (0, 0))"

definition int_op :: "(llong \<Rightarrow> llong \<Rightarrow> llong) \<Rightarrow> svalue \<Rightarrow> svalue \<Rightarrow> svalue" where
  "int_op f l r = (case both_i l r of (i, j) \<Rightarrow> SInt (f i j))"

definition shift_amount :: "llong \<Rightarrow> nat" where
  "shift_amount j = unat (j AND 31)"

text \<open>Comparison: numbers by value, lists by length, and text by \<open>strcmp\<close> where \<open>text\<close> allows it.\<close>

definition op_compare ::
    "(double \<Rightarrow> double \<Rightarrow> bool) \<Rightarrow> (nat \<Rightarrow> nat \<Rightarrow> bool) \<Rightarrow> (string \<Rightarrow> string \<Rightarrow> bool) \<Rightarrow> svalue \<Rightarrow> svalue \<Rightarrow> svalue"
  where
  "op_compare fd fl fs l r =
    (if is_num l \<and> is_num r then sv_of_bool (fd (num_f l) (num_f r))
     else if is_list l \<and> is_list r then sv_of_bool (fl (length (as_list l)) (length (as_list r)))
     else (case (sv_text l, sv_text r) of (Some s, Some t) \<Rightarrow> sv_of_bool (fs s t) | _ \<Rightarrow> SInt 0))"

definition no_text :: "string \<Rightarrow> string \<Rightarrow> bool" where
  "no_text s t = False"

definition eval_binary :: "opcode \<Rightarrow> svalue \<Rightarrow> svalue \<Rightarrow> svalue res" where
  "eval_binary op l r = (case op of
     OP_PLUS \<Rightarrow> Inr (op_plus l r)
   | OP_MINUS \<Rightarrow> Inr (op_minus l r)
   | OP_STAR \<Rightarrow> Inr (op_star l r)
   | OP_SLASH \<Rightarrow> op_slash l r
   | OP_PERCENT \<Rightarrow> op_percent l r
   | OP_AND \<Rightarrow> Inr (int_op (AND) l r)
   | OP_OR \<Rightarrow> Inr (int_op (OR) l r)
   | OP_XOR \<Rightarrow> Inr (int_op (XOR) l r)
   | OP_SHL \<Rightarrow> Inr (int_op (\<lambda>i j. push_bit (shift_amount j) i) l r)
   | OP_SHR \<Rightarrow> Inr (int_op (\<lambda>i j. signed_drop_bit (shift_amount j) i) l r)
   | OP_LAND \<Rightarrow> Inr (sv_of_bool (sv_truthy l \<and> sv_truthy r))
   | OP_LOR \<Rightarrow> Inr (sv_of_bool (sv_truthy l \<or> sv_truthy r))
   | OP_EQ \<Rightarrow> Inr (sv_of_bool (sv_equal l r))
   | OP_NEQ \<Rightarrow> Inr (sv_of_bool (\<not> sv_equal l r))
   | OP_LT \<Rightarrow> Inr (op_compare d_lt (<) str_lt l r)
   | OP_GT \<Rightarrow> Inr (op_compare (\<lambda>x y. d_lt y x) (>) (\<lambda>s t. str_lt t s) l r)
   | OP_LE \<Rightarrow> Inr (op_compare d_le (\<le>) no_text l r)
   | OP_GE \<Rightarrow> Inr (op_compare (\<lambda>x y. d_le y x) (\<ge>) no_text l r)
   | _ \<Rightarrow> Inr SVoid)"

subsection \<open>Casts\<close>

definition nth_or :: "double list \<Rightarrow> nat \<Rightarrow> double \<Rightarrow> double" where
  "nth_or xs i d = (if i < length xs then xs ! i else d)"

definition do_cast :: "svalue \<Rightarrow> svtype \<Rightarrow> svalue" where
  "do_cast v t =
    (if sv_type v = t then v
     else case t of
       SV_INTEGER \<Rightarrow> SInt (case v of SFloat f \<Rightarrow> d_to_ll f | SString s \<Rightarrow> strtoll 0 s
          | SKey s \<Rightarrow> strtoll 0 s | _ \<Rightarrow> 0)
     | SV_FLOAT \<Rightarrow> SFloat (case v of SInt i \<Rightarrow> d_of_ll i | SString s \<Rightarrow> strtod s
          | SKey s \<Rightarrow> strtod s | _ \<Rightarrow> d_zero)
     | SV_STRING \<Rightarrow> SString (sv_to_string v)
     | SV_KEY \<Rightarrow> SKey (case v of SString s \<Rightarrow> s | _ \<Rightarrow> null_key)
     | SV_VECTOR \<Rightarrow> (case v of SString s \<Rightarrow> (let xs = scan_vector 3 s in
            SVector (nth_or xs 0 d_zero) (nth_or xs 1 d_zero) (nth_or xs 2 d_zero))
          | _ \<Rightarrow> SVector d_zero d_zero d_zero)
     | SV_ROTATION \<Rightarrow> (case v of SString s \<Rightarrow> (let xs = scan_vector 4 s in
            SRot (nth_or xs 0 d_zero) (nth_or xs 1 d_zero) (nth_or xs 2 d_zero) (nth_or xs 3 d_one))
          | _ \<Rightarrow> SRot d_zero d_zero d_zero d_one)
     | SV_LIST \<Rightarrow> SList [v]
     | _ \<Rightarrow> v)"

subsection \<open>Facts\<close>

lemma coerce_type: "sv_type (coerce v t) = t \<or> coerce v t = v"
  by (cases "(v, t)" rule: coerce.cases) simp_all

lemma coerce_idem: "coerce (coerce v t) t = coerce v t"
  by (cases "(v, t)" rule: coerce.cases) simp_all

lemma eval_binary_total:
  "eval_binary op l r = Inl e \<Longrightarrow>
     e = DivTrap \<and> (op = OP_SLASH \<or> op = OP_PERCENT) \<and> l = SInt ll_min \<and> r = SInt (- 1)"
  by (cases op; cases r)
    (auto simp: eval_binary_def op_slash_def op_percent_def div_traps_def is_num_def
      split: svalue.splits if_splits prod.splits bool.splits)

lemma do_cast_type:
  "t \<notin> {SV_VOID, SV_ANY, SV_ERROR} \<Longrightarrow> (\<forall>n. t \<noteq> SV_BAD n) \<Longrightarrow> sv_type (do_cast v t) = t"
  by (cases t; cases v) (auto simp: do_cast_def Let_def)


lemma sint_ll_range: "- (2 ^ 63) \<le> sint (i :: llong)" "sint (i :: llong) < 2 ^ 63"
  using sint_ge [of i] sint_lt [of i] by simp_all

lemma sint_ll_of_int:
  assumes "- (2 ^ 63) \<le> k" "k < 2 ^ 63"
  shows "sint (word_of_int k :: llong) = k"
  using assms by (simp add: signed_of_int signed_take_bit_int_eq_self)

lemma sint_ll_min: "sint ll_min = - (2 ^ 63)"
  by (simp add: ll_min_def)

lemma ll_min_iff: "i = ll_min \<longleftrightarrow> sint i = - (2 ^ 63)"
  by (metis sint_ll_min signed_word_eqI)

lemma sint_ll_div:
  assumes "\<not> div_traps i j"
  shows "sint (ll_div i j) = sint i sdiv sint j"
proof -
  let ?q = "sint i sdiv sint j"
  have r: "- \<bar>sint i\<bar> \<le> ?q" "?q \<le> \<bar>sint i\<bar>" using sdiv_int_range [of "sint i" "sint j"] by auto
  have "?q \<noteq> 2 ^ 63"
  proof
    assume q: "?q = 2 ^ 63"
    then have a: "sint i = - (2 ^ 63)" using r sint_ll_range [of i] by linarith
    have "sint i \<noteq> 0" using a by simp
    moreover have "sint i sdiv sint j = - sint i" using q a by linarith
    ultimately have "sint j = - 1" using int_sdiv_negated_is_minus1 by blast
    then have "sint j = sint (- 1 :: llong)" by simp
    then have "j = - 1" by (rule signed_word_eqI)
    with a assms show False by (simp add: div_traps_def ll_min_iff)
  qed
  with r sint_ll_range [of i] have "- (2 ^ 63) \<le> ?q" "?q < 2 ^ 63" by linarith+
  then show ?thesis unfolding ll_div_def by (rule sint_ll_of_int)
qed

lemma sint_ll_mod:
  assumes "j \<noteq> 0"
  shows "sint (ll_mod i j) = sint i smod sint j"
proof -
  have "sint j \<noteq> 0" using assms signed_word_eqI [of j 0] by auto
  from smod_int_range [OF this, of "sint i"] sint_ll_range [of j]
  show ?thesis unfolding ll_mod_def by (intro sint_ll_of_int) auto
qed

text \<open>C33 On integers, \<open>/\<close> and \<open>%\<close> by a non-zero divisor are truncating division: quotient and
  remainder are exact (no wrap-around), recombine to the dividend, and the remainder is smaller
  than the divisor and has the dividend's sign. The only exception is the least integer divided by
  -1, where the processor traps.\<close>

theorem eval_binary_div_mod:
  assumes "j \<noteq> 0"
  shows "if i = ll_min \<and> j = - 1
     then eval_binary OP_SLASH (SInt i) (SInt j) = Inl DivTrap \<and>
          eval_binary OP_PERCENT (SInt i) (SInt j) = Inl DivTrap
     else \<exists>q m. eval_binary OP_SLASH (SInt i) (SInt j) = Inr (SInt q) \<and>
       eval_binary OP_PERCENT (SInt i) (SInt j) = Inr (SInt m) \<and>
       sint i = sint q * sint j + sint m \<and> \<bar>sint m\<bar> < \<bar>sint j\<bar> \<and> 0 \<le> sint m * sint i"
proof (cases "div_traps i j")
  case True
  with assms show ?thesis
    by (auto simp: div_traps_def eval_binary_def op_slash_def op_percent_def is_num_def)
next
  case False
  have j0: "sint j \<noteq> 0" using assms signed_word_eqI [of j 0] by auto
  note rng = smod_int_range [OF this, of "sint i"]
  have "sint i = sint (ll_div i j) * sint j + sint (ll_mod i j)"
    using sint_ll_div [OF False] sint_ll_mod [OF assms] by (simp add: sdiv_mult_smod_eq)
  moreover have "\<bar>sint (ll_mod i j)\<bar> < \<bar>sint j\<bar>"
    using rng sint_ll_mod [OF assms] by auto
  moreover have "0 \<le> sint (ll_mod i j) * sint i"
  proof -
    define M where "M = \<bar>sint i\<bar> mod \<bar>sint j\<bar>"
    have "0 \<le> M" unfolding M_def using j0 by simp
    moreover have "sint (ll_mod i j) = sgn (sint i) * M"
      using sint_ll_mod [OF assms] by (simp add: signed_modulo_int_def M_def)
    moreover have "sgn (sint i) * M * sint i = M * \<bar>sint i\<bar>" by (simp add: sgn_if)
    ultimately show ?thesis by (simp only: mult_nonneg_nonneg abs_ge_zero)
  qed
  ultimately show ?thesis using False assms
    by (auto simp: div_traps_def eval_binary_def op_slash_def op_percent_def is_num_def)
qed

text \<open>Casting any integer to a string and the string back to an integer is the identity.\<close>

theorem cast_int_string_int:
  "do_cast (do_cast (SInt i) SV_STRING) SV_INTEGER = SInt i"
  by (simp add: do_cast_def strtoll_show_ll)

text \<open>Casting an integer to a float and back is the identity when its magnitude is
  below \<open>2 ^ 53\<close>: the conversion to double is exact there.\<close>

theorem cast_int_float_int:
  assumes "\<bar>sint i\<bar> < 2 ^ 53"
  shows "do_cast (do_cast (SInt i) SV_FLOAT) SV_INTEGER = SInt i"
  using assms by (simp add: do_cast_def d_to_ll_of_ll)

end
