(* ===== verification/Vm.thy ===== *)
theory Vm
  imports Events Operators
begin

text \<open>
  The interpreter of \<open>vm.c\<close>. The bodies of the C functions are open definitions that take the
  recursive calls as arguments (\<open>ev\<close> for \<open>vm_eval\<close>, \<open>ex\<close> for \<open>vm_exec\<close>); \<open>vm_eval\<close> and \<open>vm_exec\<close>
  tie the knot on fuel, one unit per nesting of the C calls. A loop statement runs at most a
  million turns, as in the source; a block that keeps jumping back spends fuel for each jump.

  A pointer to a storage cell is the index of a local in the frame that is on top when the lvalue is
  resolved, or of a global. Evaluating an expression leaves the stack and the locals of the top
  frame in place (\<open>vm_eval_shape\<close>), so the index stays good until it is used.

  Built-in functions come as a table \<open>lib\<close>, the interface to the library; \<open>builtins_lookup\<close> is the table
  the emulator links.
\<close>

subsection \<open>The frame stack\<close>

definition new_frame :: frame where
  "new_frame = \<lparr>locs = [], scope_depth = 0, returning = False, ret_val = SVoid, jumping = False,
     jump_name_idx = 0\<rparr>"

definition frame_push :: "frame \<Rightarrow> region \<Rightarrow> region" where
  "frame_push f r = r\<lparr>frames := f # frames r\<rparr>"

text \<open>A debugger pointer to the frame that goes away dangles from here on.\<close>

definition frame_pop :: "region \<Rightarrow> region" where
  "frame_pop r = (case frames r of [] \<Rightarrow> r
     | f # fs \<Rightarrow>
         let r1 = (if cur_frame (dbg r) = FrDepth (length (frames r))
                   then upd_dbg (\<lambda>d. d\<lparr>cur_frame := FrDangling\<rparr>) r else r)
         in r1\<lparr>frames := fs\<rparr>)"

definition upd_top :: "(frame \<Rightarrow> frame) \<Rightarrow> region \<Rightarrow> region" where
  "upd_top f r = (case frames r of [] \<Rightarrow> r | t # ts \<Rightarrow> r\<lparr>frames := f t # ts\<rparr>)"

definition frame_define :: "cint \<Rightarrow> svalue \<Rightarrow> frame \<Rightarrow> frame" where
  "frame_define nm v f = f\<lparr>locs := locs f @ [\<lparr>lb_name = nm, lb_val = v, lb_depth = scope_depth f\<rparr>]\<rparr>"

text \<open>The innermost binding of a name: the last in the array.\<close>

definition frame_find :: "frame \<Rightarrow> cint \<Rightarrow> nat option" where
  "frame_find f nm = map_option (\<lambda>k. length (locs f) - Suc k)
     (find_index (\<lambda>b. lb_name b = nm) (rev (locs f)))"

definition frame_enter :: "frame \<Rightarrow> frame" where
  "frame_enter f = f\<lparr>scope_depth := scope_depth f + 1\<rparr>"

definition frame_leave :: "frame \<Rightarrow> frame" where
  "frame_leave f = (let d = scope_depth f - 1 in
     f\<lparr>scope_depth := d, locs := rev (dropWhile (\<lambda>b. lb_depth b > d) (rev (locs f)))\<rparr>)"

definition top_returning :: "region \<Rightarrow> bool" where
  "top_returning r = (case frames r of [] \<Rightarrow> False | f # fs \<Rightarrow> returning f)"

definition top_jumping :: "region \<Rightarrow> bool" where
  "top_jumping r = (case frames r of [] \<Rightarrow> False | f # fs \<Rightarrow> jumping f)"

subsection \<open>Storage cells\<close>

datatype cell = Loc nat | Glob nat

definition get_cell :: "nat \<Rightarrow> cell \<Rightarrow> region \<Rightarrow> svalue" where
  "get_cell i c r = (case c of Loc k \<Rightarrow> lb_val (locs (hd (frames r)) ! k)
     | Glob k \<Rightarrow> globals (script_at r i) ! k)"

definition set_cell :: "nat \<Rightarrow> cell \<Rightarrow> svalue \<Rightarrow> region \<Rightarrow> region" where
  "set_cell i c v r = (case c of
     Loc k \<Rightarrow> upd_top (\<lambda>f. f\<lparr>locs := update_nth k (\<lambda>b. b\<lparr>lb_val := v\<rparr>) (locs f)\<rparr>) r
   | Glob k \<Rightarrow> upd_script i (\<lambda>s. s\<lparr>globals := (globals s)[k := v]\<rparr>) r)"

definition find_global_idx :: "script \<Rightarrow> cint \<Rightarrow> nat option" where
  "find_global_idx s nm = find_index (\<lambda>g. gv_name g = nm) (p_globals (prog s))"

definition find_cell :: "nat \<Rightarrow> cint \<Rightarrow> region \<Rightarrow> cell option" where
  "find_cell i nm r =
    (case (case frames r of [] \<Rightarrow> None | f # fs \<Rightarrow> frame_find f nm) of
       Some k \<Rightarrow> Some (Loc k)
     | None \<Rightarrow> map_option Glob (find_global_idx (script_at r i) nm))"

text \<open>An lvalue: a cell, a component of the vector or rotation in a cell, or nothing.\<close>

datatype lval = L_none | L_cell cell | L_member cell byte

fun resolve_lvalue :: "nat \<Rightarrow> expr \<Rightarrow> region \<Rightarrow> lval" where
  "resolve_lvalue i (E_IDENT h nm) r = (case find_cell i nm r of Some c \<Rightarrow> L_cell c | None \<Rightarrow> L_none)"
| "resolve_lvalue i (E_MEMBER h b m) r =
     (case resolve_lvalue i b r of L_cell c \<Rightarrow> L_member c m | _ \<Rightarrow> L_none)"
| "resolve_lvalue i _ r = L_none"

definition ax :: "char \<Rightarrow> byte" where
  "ax c = of_nat (ord_char c)"

text \<open>The component of a vector that \<open>++\<close> and the compound assignments use: \<open>z\<close> unless x or y.\<close>

definition vec_axis :: "byte \<Rightarrow> double \<Rightarrow> double \<Rightarrow> double \<Rightarrow> double" where
  "vec_axis m x y z = (if m = ax (CHR ''x'') then x else if m = ax (CHR ''y'') then y else z)"

definition set_vec_axis :: "byte \<Rightarrow> double \<Rightarrow> double \<Rightarrow> double \<Rightarrow> double \<Rightarrow> svalue" where
  "set_vec_axis m v x y z = (if m = ax (CHR ''x'') then SVector v y z
     else if m = ax (CHR ''y'') then SVector x v z else SVector x y v)"

text \<open>What an assignment to a component stores; a name that is no component stores nothing.\<close>

definition assign_axis :: "byte \<Rightarrow> double \<Rightarrow> svalue \<Rightarrow> svalue" where
  "assign_axis m v c = (case c of
     SVector x y z \<Rightarrow> if m = ax (CHR ''x'') then SVector v y z else if m = ax (CHR ''y'') then SVector x v z
        else if m = ax (CHR ''z'') then SVector x y v else c
   | SRot x y z s \<Rightarrow> if m = ax (CHR ''x'') then SRot v y z s else if m = ax (CHR ''y'') then SRot x v z s
        else if m = ax (CHR ''z'') then SRot x y v s else if m = ax (CHR ''s'') then SRot x y z v else c
   | _ \<Rightarrow> c)"

text \<open>Reading a component; anything else is 0.\<close>

definition member_value :: "svalue \<Rightarrow> byte \<Rightarrow> double" where
  "member_value b m = (case b of
     SVector x y z \<Rightarrow> if m = ax (CHR ''x'') then x else if m = ax (CHR ''y'') then y
        else if m = ax (CHR ''z'') then z else d_zero
   | SRot x y z s \<Rightarrow> if m = ax (CHR ''x'') then x else if m = ax (CHR ''y'') then y
        else if m = ax (CHR ''z'') then z else if m = ax (CHR ''s'') then s else d_zero
   | _ \<Rightarrow> d_zero)"

subsection \<open>Types of the interpreter\<close>

type_synonym 'a act = "region \<Rightarrow> ('a \<times> region) res"
type_synonym evaluator = "expr \<Rightarrow> svalue act"
type_synonym executor = "stmt \<Rightarrow> int act"
type_synonym builtin = "evaluator \<Rightarrow> nat \<Rightarrow> svalue list \<Rightarrow> svalue act"
  \<comment> \<open>\<open>BuiltinFn\<close>: the script and the arguments; the evaluator is for \<open>llResetScript\<close>\<close>

fun eval_list :: "evaluator \<Rightarrow> expr list \<Rightarrow> svalue list act" where
  "eval_list ev [] r = Inr ([], r)"
| "eval_list ev (e # es) r = rbind (ev e r) (\<lambda>(v, r). rbind (eval_list ev es r) (\<lambda>(vs, r). Inr (v # vs, r)))"

subsection \<open>Expressions\<close>

text \<open>A string literal keeps the type of its node; under another type its pointer would be read as
  something else.\<close>

definition string_lit :: "byte \<Rightarrow> string \<Rightarrow> svalue res" where
  "string_lit ty s = (case type_byte ty of SV_STRING \<Rightarrow> Inr (SString s) | SV_KEY \<Rightarrow> Inr (SKey s)
     | _ \<Rightarrow> Inl BadMemory)"

text \<open>\<open>x.u.f\<close> after coercion to float: for a vector or a rotation the union shows its first component,
  for a void value zero; for text and lists a pointer.\<close>

definition component :: "svalue \<Rightarrow> double res" where
  "component v = (case coerce v SV_FLOAT of SFloat f \<Rightarrow> Inr f | SVector x y z \<Rightarrow> Inr x
     | SRot x y z s \<Rightarrow> Inr x | SVoid \<Rightarrow> Inr d_zero
     | _ \<Rightarrow> Inl BadMemory)"

definition eval_component :: "evaluator \<Rightarrow> expr \<Rightarrow> double act" where
  "eval_component ev e r = rbind (ev e r) (\<lambda>(v, r). rbind (component v) (\<lambda>f. Inr (f, r)))"

definition eval_ident :: "nat \<Rightarrow> cint \<Rightarrow> region \<Rightarrow> svalue" where
  "eval_ident i nm r = (case find_cell i nm r of Some c \<Rightarrow> get_cell i c r
     | None \<Rightarrow> builtins_const (prog_str (prog (script_at r i)) nm))"

definition step_int :: "opcode \<Rightarrow> llong" where
  "step_int op = (if op = OP_INC then 1 else - 1)"

definition step_float :: "opcode \<Rightarrow> double" where
  "step_float op = (if op = OP_INC then d_one else d_neg d_one)"

definition bump :: "opcode \<Rightarrow> svalue \<Rightarrow> svalue" where
  "bump op v = (case v of SInt i \<Rightarrow> SInt (i + step_int op) | SFloat f \<Rightarrow> SFloat (d_add f (step_float op))
     | _ \<Rightarrow> v)"

text \<open>Prefix \<open>++\<close> and \<open>--\<close>. On a component of a cell that holds no vector the code writes through a
  null pointer.\<close>

definition eval_incdec :: "nat \<Rightarrow> opcode \<Rightarrow> expr \<Rightarrow> svalue act" where
  "eval_incdec i op e r = (case resolve_lvalue i e r of
     L_none \<Rightarrow> Inr (SInt 0, r)
   | L_cell c \<Rightarrow> (let v = bump op (get_cell i c r) in Inr (v, set_cell i c v r))
   | L_member c m \<Rightarrow> (case get_cell i c r of
       SVector x y z \<Rightarrow> (let f = d_add (vec_axis m x y z) (step_float op)
          in Inr (SFloat f, set_cell i c (set_vec_axis m f x y z) r))
     | _ \<Rightarrow> Inl NullDeref))"

definition unary_value :: "opcode \<Rightarrow> svalue \<Rightarrow> svalue" where
  "unary_value op v = (case op of
     OP_MINUS \<Rightarrow> (case v of SInt n \<Rightarrow> SInt (- n) | SFloat f \<Rightarrow> SFloat (d_neg f)
       | SVector x y z \<Rightarrow> SVector (d_neg x) (d_neg y) (d_neg z)
       | SRot x y z s \<Rightarrow> SRot (d_neg x) (d_neg y) (d_neg z) (d_neg s) | _ \<Rightarrow> v)
   | OP_NOT \<Rightarrow> sv_of_bool (\<not> sv_truthy v)
   | OP_TILDE \<Rightarrow> SInt (NOT (case v of SInt n \<Rightarrow> n | _ \<Rightarrow> 0))
   | _ \<Rightarrow> v)"

definition eval_unary :: "evaluator \<Rightarrow> nat \<Rightarrow> opcode \<Rightarrow> expr \<Rightarrow> svalue act" where
  "eval_unary ev i op e r =
    (if op = OP_INC \<or> op = OP_DEC then eval_incdec i op e r
     else rbind (ev e r) (\<lambda>(v, r). Inr (unary_value op v, r)))"

text \<open>Postfix \<open>++\<close> and \<open>--\<close> work on whole cells only; on a component they do nothing and give 0.\<close>

definition eval_postfix :: "nat \<Rightarrow> opcode \<Rightarrow> expr \<Rightarrow> svalue act" where
  "eval_postfix i op e r = (case resolve_lvalue i e r of
     L_cell c \<Rightarrow> (let old = get_cell i c r in Inr (old, set_cell i c (bump op old) r))
   | _ \<Rightarrow> Inr (SInt 0, r))"

definition eval_binop :: "evaluator \<Rightarrow> opcode \<Rightarrow> expr \<Rightarrow> expr \<Rightarrow> svalue act" where
  "eval_binop ev op a b r = rbind (ev a r) (\<lambda>(v, r).
     if op = OP_LAND \<and> \<not> sv_truthy v then Inr (SInt 0, r)
     else if op = OP_LOR \<and> sv_truthy v then Inr (SInt 1, r)
     else rbind (ev b r) (\<lambda>(w, r).
       if op = OP_LAND \<or> op = OP_LOR then Inr (sv_of_bool (sv_truthy w), r)
       else rbind (eval_binary op v w) (\<lambda>x. Inr (x, r))))"

definition compound_op :: "opcode \<Rightarrow> opcode" where
  "compound_op op = (case op of OP_MINUS_ASSIGN \<Rightarrow> OP_MINUS | OP_STAR_ASSIGN \<Rightarrow> OP_STAR
     | OP_SLASH_ASSIGN \<Rightarrow> OP_SLASH | OP_PERCENT_ASSIGN \<Rightarrow> OP_PERCENT | _ \<Rightarrow> OP_PLUS)"

definition lval_value :: "nat \<Rightarrow> lval \<Rightarrow> region \<Rightarrow> svalue" where
  "lval_value i lv r = (case lv of L_none \<Rightarrow> SVoid | L_cell c \<Rightarrow> get_cell i c r
     | L_member c m \<Rightarrow> (case get_cell i c r of SVector x y z \<Rightarrow> SFloat (vec_axis m x y z) | _ \<Rightarrow> SVoid))"

definition assign_target_type :: "svalue \<Rightarrow> svalue \<Rightarrow> svtype" where
  "assign_target_type old rhs =
     (if sv_type old = SV_VOID \<and> sv_type rhs \<noteq> SV_VOID then sv_type rhs else sv_type old)"

definition assign_lval :: "nat \<Rightarrow> lval \<Rightarrow> svalue \<Rightarrow> region \<Rightarrow> svalue \<times> region" where
  "assign_lval i lv rhs r = (case lv of
     L_none \<Rightarrow> (rhs, r)
   | L_cell c \<Rightarrow> (let v = coerce rhs (assign_target_type (get_cell i c r) rhs) in (v, set_cell i c v r))
   | L_member c m \<Rightarrow> (let old = get_cell i c r in
       if sv_type old \<in> {SV_VECTOR, SV_ROTATION} then
         (let v = coerce rhs SV_FLOAT in (v, set_cell i c (assign_axis m (num_f v) old) r))
       else (rhs, r)))"

definition eval_assign :: "evaluator \<Rightarrow> nat \<Rightarrow> opcode \<Rightarrow> expr \<Rightarrow> expr \<Rightarrow> svalue act" where
  "eval_assign ev i op a b r =
    (let lv = resolve_lvalue i a r in
     rbind (ev b r) (\<lambda>(rhs, r).
       rbind (if op = OP_ASSIGN then Inr rhs
              else eval_binary (compound_op op) (lval_value i lv r) rhs) (\<lambda>rhs.
         Inr (assign_lval i lv rhs r))))"

subsection \<open>Calls\<close>

text \<open>The arguments are evaluated in the caller's frame, as many as there are parameters.\<close>

fun bind_args :: "evaluator \<Rightarrow> param list \<Rightarrow> expr list \<Rightarrow> frame \<Rightarrow> frame act" where
  "bind_args ev (p # ps) (e # es) f r = rbind (ev e r) (\<lambda>(v, r).
     bind_args ev ps es (frame_define (pm_name p) (coerce v (type_byte (pm_type p))) f) r)"
| "bind_args ev _ _ f r = Inr (f, r)"

definition run_user_func :: "evaluator \<Rightarrow> executor \<Rightarrow> func_decl \<Rightarrow> expr list \<Rightarrow> svalue act" where
  "run_user_func ev ex fd args r =
     rbind (bind_args ev (fd_params fd) args new_frame r) (\<lambda>(f, r).
     rbind (ex (fd_body fd) (frame_push f r)) (\<lambda>(rc, r).
       Inr (ret_val (hd (frames r)), frame_pop r)))"

definition find_func :: "program \<Rightarrow> cint \<Rightarrow> func_decl option" where
  "find_func p nm = find (\<lambda>fd. fd_name fd = nm) (p_funcs p)"

definition eval_call ::
    "(string \<Rightarrow> builtin option) \<Rightarrow> evaluator \<Rightarrow> executor \<Rightarrow> nat \<Rightarrow> cint \<Rightarrow> expr list \<Rightarrow> svalue act" where
  "eval_call lib ev ex i nm args r = (case find_func (prog (script_at r i)) nm of
     Some fd \<Rightarrow> run_user_func ev ex fd args r
   | None \<Rightarrow> rbind (eval_list ev args r) (\<lambda>(vs, r).
       (case lib (prog_str (prog (script_at r i)) nm) of
          Some b \<Rightarrow> b ev i vs r
        | None \<Rightarrow> Inr (SVoid, if s_trace (script_at r i)
            then emit_err (''[slemu] (stub) '' @ prog_str (prog (script_at r i)) nm @ ''(...)'' @ nl) r
            else r))))"

definition eval_body ::
    "(string \<Rightarrow> builtin option) \<Rightarrow> evaluator \<Rightarrow> executor \<Rightarrow> nat \<Rightarrow> expr \<Rightarrow> svalue act" where
  "eval_body lib ev ex i e r = (case e of
     E_NULL \<Rightarrow> Inr (SVoid, r)
   | E_INT_LIT h v \<Rightarrow> Inr (SInt v, r)
   | E_FLOAT_LIT h v \<Rightarrow> Inr (SFloat v, r)
   | E_STRING_LIT (ty, l) k \<Rightarrow> rbind (string_lit ty (prog_str (prog (script_at r i)) k)) (\<lambda>v. Inr (v, r))
   | E_IDENT h nm \<Rightarrow> Inr (eval_ident i nm r, r)
   | E_VECTOR_LIT h x y z \<Rightarrow> rbind (eval_component ev x r) (\<lambda>(x, r). rbind (eval_component ev y r) (\<lambda>(y, r).
       rbind (eval_component ev z r) (\<lambda>(z, r). Inr (SVector x y z, r))))
   | E_ROT_LIT h x y z w \<Rightarrow> rbind (eval_component ev x r) (\<lambda>(x, r). rbind (eval_component ev y r) (\<lambda>(y, r).
       rbind (eval_component ev z r) (\<lambda>(z, r). rbind (eval_component ev w r) (\<lambda>(w, r).
         Inr (SRot x y z w, r)))))
   | E_LIST_LIT h es \<Rightarrow> rbind (eval_list ev es r) (\<lambda>(vs, r). Inr (SList vs, r))
   | E_CALL h nm args \<Rightarrow> eval_call lib ev ex i nm args r
   | E_MEMBER h b m \<Rightarrow> rbind (ev b r) (\<lambda>(v, r). Inr (SFloat (member_value v m), r))
   | E_CAST h t a \<Rightarrow> rbind (ev a r) (\<lambda>(v, r). Inr (do_cast v (type_byte t), r))
   | E_UNARY h op a \<Rightarrow> eval_unary ev i (opcode_of op) a r
   | E_POSTFIX h op a \<Rightarrow> eval_postfix i (opcode_of op) a r
   | E_BINARY h op a b \<Rightarrow> eval_binop ev (opcode_of op) a b r
   | E_ASSIGN h op a b \<Rightarrow> eval_assign ev i (opcode_of op) a b r)"

subsection \<open>Statements\<close>

definition must_stop :: "nat \<Rightarrow> region \<Rightarrow> bool" where
  \<comment> \<open>the test after the body of a loop\<close>
  "must_stop i r \<longleftrightarrow> top_returning r \<or> top_jumping r \<or> 0 \<le> pending_state (script_at r i)"

definition loop_limit :: nat where
  "loop_limit = 1000000"

fun while_loop :: "evaluator \<Rightarrow> executor \<Rightarrow> nat \<Rightarrow> expr \<Rightarrow> stmt \<Rightarrow> nat \<Rightarrow> int act" where
  "while_loop ev ex i c b 0 r = Inr (0, r)"
| "while_loop ev ex i c b (Suc k) r = rbind (ev c r) (\<lambda>(v, r).
     if \<not> sv_truthy v then Inr (0, r)
     else rbind (ex b r) (\<lambda>(rc, r). if must_stop i r then Inr (0, r) else while_loop ev ex i c b k r))"

fun do_loop :: "evaluator \<Rightarrow> executor \<Rightarrow> nat \<Rightarrow> expr \<Rightarrow> stmt \<Rightarrow> nat \<Rightarrow> int act" where
  "do_loop ev ex i c b 0 r = Inr (0, r)"
| "do_loop ev ex i c b (Suc k) r = rbind (ex b r) (\<lambda>(rc, r).
     if must_stop i r then Inr (0, r)
     else rbind (ev c r) (\<lambda>(v, r). if \<not> sv_truthy v then Inr (0, r) else do_loop ev ex i c b k r))"

fun for_loop :: "evaluator \<Rightarrow> executor \<Rightarrow> nat \<Rightarrow> expr \<Rightarrow> expr list \<Rightarrow> stmt \<Rightarrow> nat \<Rightarrow> int act" where
  "for_loop ev ex i c ps b 0 r = Inr (0, r)"
| "for_loop ev ex i c ps b (Suc k) r =
     rbind (if c = E_NULL then Inr (SInt 1, r) else ev c r) (\<lambda>(v, r).
       if \<not> sv_truthy v then Inr (0, r)
       else rbind (ex b r) (\<lambda>(rc, r). if must_stop i r then Inr (0, r)
         else rbind (eval_list ev ps r) (\<lambda>(vs, r). for_loop ev ex i c ps b k r)))"

definition is_label :: "cint \<Rightarrow> stmt \<Rightarrow> bool" where
  "is_label nm st = (case st of S_LABEL l n \<Rightarrow> n = nm | _ \<Rightarrow> False)"

definition find_label_in :: "stmt list \<Rightarrow> cint \<Rightarrow> nat option" where
  "find_label_in ss nm = find_index (is_label nm) ss"

definition jump_target :: "region \<Rightarrow> cint" where
  "jump_target r = jump_name_idx (hd (frames r))"

text \<open>The statements of a block from a position on; \<open>all\<close> is the whole block. A jump to one of its
  labels goes on behind the label and spends one unit of \<open>k\<close>.\<close>

function block_loop :: "executor \<Rightarrow> nat \<Rightarrow> stmt list \<Rightarrow> nat \<Rightarrow> stmt list \<Rightarrow> int act" where
  "block_loop ex i all k [] r = Inr (0, r)"
| "block_loop ex i all k (s # ss) r = rbind (ex s r) (\<lambda>(rc, r).
     if top_returning r then Inr (0, r)
     else if 0 \<le> pending_state (script_at r i) then Inr (0, r)
     else if top_jumping r then
       (case find_label_in all (jump_target r) of
          None \<Rightarrow> Inr (0, r)
        | Some j \<Rightarrow> (case k of 0 \<Rightarrow> Inl OutOfFuel
            | Suc k' \<Rightarrow> block_loop ex i all k' (drop (Suc j) all) (upd_top (\<lambda>f. f\<lparr>jumping := False\<rparr>) r)))
     else block_loop ex i all k ss r)"
  by pat_completeness auto
termination
  by (relation "measures [\<lambda>(ex, i, all, k, ss, r). k, \<lambda>(ex, i, all, k, ss, r). length ss]") auto

definition find_state :: "program \<Rightarrow> string \<Rightarrow> nat option" where
  "find_state p want = find_index (\<lambda>st. prog_str p (sd_name st) = want) (p_states p)"

definition exec_decl :: "evaluator \<Rightarrow> byte \<Rightarrow> cint \<Rightarrow> expr \<Rightarrow> int act" where
  "exec_decl ev t nm e r = rbind (if e = E_NULL then Inr (SVoid, r) else ev e r) (\<lambda>(v, r).
     (let w = (if sv_type v = SV_VOID then sv_zero (type_byte t) else coerce v (type_byte t))
      in Inr (0, upd_top (frame_define nm w) r)))"

definition exec_return :: "evaluator \<Rightarrow> byte \<Rightarrow> expr \<Rightarrow> int act" where
  "exec_return ev hv e r =
    (if frames r = [] then Inr (1, r)
     else if hv \<noteq> 0 then rbind (ev e (upd_top (\<lambda>f. f\<lparr>ret_val := SVoid\<rparr>) r)) (\<lambda>(v, r).
       Inr (1, upd_top (\<lambda>f. f\<lparr>ret_val := v, returning := True\<rparr>) r))
     else Inr (1, upd_top (\<lambda>f. f\<lparr>returning := True\<rparr>) r))"

definition exec_statechg :: "nat \<Rightarrow> cint \<Rightarrow> region \<Rightarrow> region" where
  "exec_statechg i nm r =
    (let p = prog (script_at r i) in
     case find_state p (prog_str p nm) of None \<Rightarrow> r
     | Some k \<Rightarrow> upd_script i (\<lambda>s. s\<lparr>pending_state := int k\<rparr>) r)"

definition stmt_hook :: "nat \<Rightarrow> cint \<Rightarrow> region \<Rightarrow> region" where
  "stmt_hook i line r =
     (if dbg_enabled (dbg r) \<and> 0 < sint line then dbg_check_stmt i (sint line) r else r)"

text \<open>The \<open>switch\<close> of \<open>vm_exec\<close>; \<open>k\<close> bounds the jumps inside one block.\<close>

definition exec_switch :: "evaluator \<Rightarrow> executor \<Rightarrow> nat \<Rightarrow> nat \<Rightarrow> stmt \<Rightarrow> int act" where
  "exec_switch ev ex k i st r = (case st of
       S_NULL \<Rightarrow> Inr (0, r)
     | S_EMPTY l \<Rightarrow> Inr (0, r)
     | S_EXPR l e \<Rightarrow> rbind (ev e r) (\<lambda>(v, r). Inr (0, r))
     | S_DECL l t nm e \<Rightarrow> exec_decl ev t nm e r
     | S_BLOCK l ss \<Rightarrow> rbind (block_loop ex i ss k ss (upd_top frame_enter r)) (\<lambda>(rc, r).
         Inr (0, upd_top frame_leave r))
     | S_IF l c t e \<Rightarrow> rbind (ev c r) (\<lambda>(v, r).
         if sv_truthy v then rbind (ex t r) (\<lambda>(rc, r). Inr (0, r))
         else if e \<noteq> S_NULL then rbind (ex e r) (\<lambda>(rc, r). Inr (0, r)) else Inr (0, r))
     | S_WHILE l c b \<Rightarrow> while_loop ev ex i c b loop_limit r
     | S_DO l b c \<Rightarrow> do_loop ev ex i c b loop_limit r
     | S_FOR l ini c ps b \<Rightarrow> rbind (eval_list ev ini (upd_top frame_enter r)) (\<lambda>(vs, r).
         rbind (for_loop ev ex i c ps b loop_limit r) (\<lambda>(rc, r). Inr (0, upd_top frame_leave r)))
     | S_RETURN l hv e \<Rightarrow> exec_return ev hv e r
     | S_JUMP l nm \<Rightarrow> Inr (3, upd_top (\<lambda>f. f\<lparr>jumping := True, jump_name_idx := nm\<rparr>) r)
     | S_LABEL l nm \<Rightarrow> Inr (0, r)
     | S_STATECHG l nm \<Rightarrow> Inr (2, exec_statechg i nm r))"

definition exec_body :: "evaluator \<Rightarrow> executor \<Rightarrow> nat \<Rightarrow> nat \<Rightarrow> stmt \<Rightarrow> int act" where
  "exec_body ev ex k i st r =
    (if st = S_NULL then Inr (0, r)
     else if top_returning r \<or> top_jumping r then Inr (0, r)
     else exec_switch ev ex k i st (stmt_hook i (stmt_line st) r))"

subsection \<open>Tying the knot\<close>

fun vm_eval :: "(string \<Rightarrow> builtin option) \<Rightarrow> nat \<Rightarrow> nat \<Rightarrow> expr \<Rightarrow> svalue act"
  and vm_exec :: "(string \<Rightarrow> builtin option) \<Rightarrow> nat \<Rightarrow> nat \<Rightarrow> stmt \<Rightarrow> int act" where
  "vm_eval lib 0 i e r = Inl OutOfFuel"
| "vm_eval lib (Suc n) i e r = eval_body lib (\<lambda>e r. vm_eval lib n i e r) (\<lambda>s r. vm_exec lib n i s r) i e r"
| "vm_exec lib 0 i st r = Inl OutOfFuel"
| "vm_exec lib (Suc n) i st r = exec_body (\<lambda>e r. vm_eval lib n i e r) (\<lambda>s r. vm_exec lib n i s r) n i st r"

text \<open>An event in a fresh frame: the values are bound to the handler's parameters.\<close>

fun bind_values :: "param list \<Rightarrow> svalue list \<Rightarrow> frame \<Rightarrow> frame" where
  "bind_values (p # ps) (v # vs) f =
     bind_values ps vs (frame_define (pm_name p) (coerce v (type_byte (pm_type p))) f)"
| "bind_values _ _ f = f"

definition vm_dispatch ::
    "(string \<Rightarrow> builtin option) \<Rightarrow> nat \<Rightarrow> nat \<Rightarrow> event_decl \<Rightarrow> svalue list \<Rightarrow> region \<Rightarrow> region res" where
  "vm_dispatch lib n i ed args r =
     rbind (vm_exec lib n i (ed_body ed) (frame_push (bind_values (ed_params ed) args new_frame) r))
       (\<lambda>(rc, r). Inr (frame_pop r))"

end
