(* ===== verification/VmShape.thy ===== *)
theory VmShape
  imports Vm
begin

text \<open>
  The stack discipline of the interpreter. Evaluating an expression keeps the frame stack as it is:
  the frames of the callers are untouched and the top frame keeps its names, scopes and control
  flags; only values change. Executing a statement may also add names to the current scope of the
  top frame. No script is added or removed, none changes its program or key, and a pending state is
  always one the program has.

  The locale \<open>step_rel\<close> holds what a reflexive and transitive relation between states gives for the
  combinators of the interpreter; \<open>library\<close> is the contract of the built-in functions.
\<close>

subsection \<open>Relations that every step respects\<close>

definition keeps :: "(region \<Rightarrow> region \<Rightarrow> bool) \<Rightarrow> 'a act \<Rightarrow> bool" where
  "keeps R m \<longleftrightarrow> (\<forall>r a r'. m r = Inr (a, r') \<longrightarrow> R r r')"

lemma keepsD: "keeps R m \<Longrightarrow> m r = Inr (a, r') \<Longrightarrow> R r r'"
  by (simp add: keeps_def)

lemma keeps_crash: "keeps R (\<lambda>r. Inl e)"
  by (simp add: keeps_def)

lemma keeps_if: "keeps R m \<Longrightarrow> keeps R m' \<Longrightarrow> keeps R (\<lambda>r. if c r then m r else m' r)"
  by (simp add: keeps_def)

lemma keeps_const: "(\<And>x. keeps R (k x)) \<Longrightarrow> keeps R (\<lambda>r. rbind c (\<lambda>x. k x r))"
  by (auto simp: keeps_def rbind_eq_Inr)

locale step_rel =
  fixes R :: "region \<Rightarrow> region \<Rightarrow> bool"
  assumes step_refl [simp, intro!]: "R r r"
    and step_trans [trans]: "R r r' \<Longrightarrow> R r' r'' \<Longrightarrow> R r r''"
begin

lemma return_keeps: "keeps R (\<lambda>r. Inr (f r, r))"
  by (auto simp: keeps_def)

lemma update_keeps: "(\<And>r. R r (g r)) \<Longrightarrow> keeps R (\<lambda>r. Inr (f r, g r))"
  by (auto simp: keeps_def)

lemma bind_keeps:
  assumes m: "keeps R m" and k: "\<And>x. keeps R (k x)"
  shows "keeps R (\<lambda>r. rbind (m r) (\<lambda>(x, r). k x r))"
  unfolding keeps_def
proof (intro allI impI)
  fix r a r' assume "rbind (m r) (\<lambda>(x, r). k x r) = Inr (a, r')"
  then obtain x r1 where 1: "m r = Inr (x, r1)" and 2: "k x r1 = Inr (a, r')"
    by (auto simp: rbind_eq_Inr)
  show "R r r'" using step_trans [OF keepsD [OF m 1] keepsD [OF k 2]] .
qed

lemma bind_update_keeps:
  assumes m: "keeps R m" and k: "\<And>x r. R r (g x r)"
  shows "keeps R (\<lambda>r. rbind (m r) (\<lambda>(x, r). Inr (f x r, g x r)))"
  using m by (rule bind_keeps) (rule update_keeps [OF k])

lemmas intros = keeps_crash keeps_if keeps_const return_keeps bind_keeps

lemma eval_list_keeps:
  assumes "\<And>e. keeps R (ev e)"
  shows "keeps R (eval_list ev es)"
proof (induction es)
  case Nil
  have "eval_list ev [] = (\<lambda>r. Inr ([], r))" by (rule ext) simp
  then show ?case using return_keeps by simp
next
  case (Cons e es)
  have "eval_list ev (e # es) =
      (\<lambda>r. rbind (ev e r) (\<lambda>(v, r). rbind (eval_list ev es r) (\<lambda>(vs, r). Inr (v # vs, r))))"
    by (rule ext) simp
  then show ?case using assms Cons by (auto intro!: bind_keeps return_keeps)
qed

lemma while_keeps:
  assumes "keeps R (ev c)" "keeps R (ex b)"
  shows "keeps R (while_loop ev ex i c b k)"
proof (induction k)
  case 0
  have "while_loop ev ex i c b 0 = (\<lambda>r. Inr (0, r))" by (rule ext) simp
  then show ?case using return_keeps by simp
next
  case (Suc k)
  have "while_loop ev ex i c b (Suc k) = (\<lambda>r. rbind (ev c r) (\<lambda>(v, r).
     if \<not> sv_truthy v then Inr (0, r)
     else rbind (ex b r) (\<lambda>(rc, r). if must_stop i r then Inr (0, r) else while_loop ev ex i c b k r)))"
    by (rule ext) simp
  then show ?case using assms Suc by (auto intro!: bind_keeps keeps_if return_keeps)
qed

lemma do_keeps:
  assumes "keeps R (ev c)" "keeps R (ex b)"
  shows "keeps R (do_loop ev ex i c b k)"
proof (induction k)
  case 0
  have "do_loop ev ex i c b 0 = (\<lambda>r. Inr (0, r))" by (rule ext) simp
  then show ?case using return_keeps by simp
next
  case (Suc k)
  have "do_loop ev ex i c b (Suc k) = (\<lambda>r. rbind (ex b r) (\<lambda>(rc, r).
     if must_stop i r then Inr (0, r)
     else rbind (ev c r) (\<lambda>(v, r). if \<not> sv_truthy v then Inr (0, r) else do_loop ev ex i c b k r)))"
    by (rule ext) simp
  then show ?case using assms Suc by (auto intro!: bind_keeps keeps_if return_keeps)
qed

lemma for_keeps:
  assumes "\<And>e. keeps R (ev e)" "keeps R (ex b)"
  shows "keeps R (for_loop ev ex i c ps b k)"
proof (induction k)
  case 0
  have "for_loop ev ex i c ps b 0 = (\<lambda>r. Inr (0, r))" by (rule ext) simp
  then show ?case using return_keeps by simp
next
  case (Suc k)
  have "for_loop ev ex i c ps b (Suc k) = (\<lambda>r.
     rbind (if c = E_NULL then Inr (SInt 1, r) else ev c r) (\<lambda>(v, r).
       if \<not> sv_truthy v then Inr (0, r)
       else rbind (ex b r) (\<lambda>(rc, r). if must_stop i r then Inr (0, r)
         else rbind (eval_list ev ps r) (\<lambda>(vs, r). for_loop ev ex i c ps b k r))))"
    by (rule ext) simp
  then show ?case
    using assms Suc by (auto intro!: bind_keeps keeps_if return_keeps eval_list_keeps)
qed

lemma block_keeps:
  assumes "\<And>s. keeps R (ex s)" "\<And>r. R r (upd_top (\<lambda>f. f\<lparr>jumping := False\<rparr>) r)"
  shows "keeps R (block_loop ex i all k ss)"
proof -
  have "block_loop ex i all k ss r = Inr (rc, r') \<Longrightarrow> R r r'" for r rc r'
    using assms
  proof (induction ex i all k ss r arbitrary: rc r' rule: block_loop.induct)
    case (1 ex i all k r)
    then show ?case by simp
  next
    case (2 ex i all k s ss r)
    then obtain rc1 r1 where e: "ex s r = Inr (rc1, r1)" by (auto simp: rbind_eq_Inr)
    have R1: "R r r1" using keepsD [OF "2.prems"(2) e] .
    let ?j = "find_label_in all (jump_target r1)"
    consider (stop) "r' = r1"
      | (jump) j k' where "\<not> top_returning r1" "\<not> 0 \<le> pending_state (script_at r1 i)" "top_jumping r1"
          "?j = Some j" "k = Suc k'"
          "block_loop ex i all k' (drop (Suc j) all) (upd_top (\<lambda>f. f\<lparr>jumping := False\<rparr>) r1) = Inr (rc, r')"
      | (next_) "\<not> top_returning r1" "\<not> 0 \<le> pending_state (script_at r1 i)" "\<not> top_jumping r1"
          "block_loop ex i all k ss r1 = Inr (rc, r')"
      using "2.prems"(1) e by (auto split: if_splits option.splits nat.splits)
    then show ?case
    proof cases
      case stop
      with R1 show ?thesis by simp
    next
      case jump
      have "R (upd_top (\<lambda>f. f\<lparr>jumping := False\<rparr>) r1) r'"
        using "2.IH"(1) [OF e refl jump(1-3) jump(4) jump(5) jump(6) "2.prems"(2,3)] .
      with R1 "2.prems"(3) [of r1] show ?thesis using step_trans by blast
    next
      case next_
      have "R r1 r'" using "2.IH"(2) [OF e refl next_(1-3) next_(4) "2.prems"(2,3)] .
      with R1 show ?thesis using step_trans by blast
    qed
  qed
  then show ?thesis by (simp add: keeps_def)
qed

end


subsection \<open>The shape of a state\<close>

definition frame_names :: "frame \<Rightarrow> (cint \<times> int) list" where
  "frame_names f = map (\<lambda>b. (lb_name b, lb_depth b)) (locs f)"

text \<open>Two states of a script between which only its data changed.\<close>

definition keeps_script :: "script \<Rightarrow> script \<Rightarrow> bool" where
  "keeps_script s s' \<longleftrightarrow> prog s' = prog s \<and> uuid s' = uuid s \<and> link_num s' = link_num s \<and>
     length (globals s') = length (globals s) \<and>
     (pending_state s' = pending_state s \<or>
      0 \<le> pending_state s' \<and> pending_state s' < int (length (p_states (prog s))))"

definition keeps_scripts :: "region \<Rightarrow> region \<Rightarrow> bool" where
  "keeps_scripts r r' \<longleftrightarrow> list_all2 keeps_script (scripts r) (scripts r')"

lemma keeps_script_refl [simp, intro!]: "keeps_script s s"
  by (simp add: keeps_script_def)

lemma keeps_script_trans: "keeps_script s s' \<Longrightarrow> keeps_script s' s'' \<Longrightarrow> keeps_script s s''"
  by (auto simp: keeps_script_def)

lemma keeps_scripts_refl [simp, intro!]: "keeps_scripts r r"
  by (simp add: keeps_scripts_def list_all2_refl)

lemma keeps_scripts_trans [trans]:
  "keeps_scripts r r' \<Longrightarrow> keeps_scripts r' r'' \<Longrightarrow> keeps_scripts r r''"
  unfolding keeps_scripts_def by (rule list_all2_trans [OF keeps_script_trans])

lemma keeps_scripts_same: "scripts r' = scripts r \<Longrightarrow> keeps_scripts r r'"
  by (simp add: keeps_scripts_def list_all2_refl)

lemma keeps_scripts_upd: "(\<And>s. keeps_script s (f s)) \<Longrightarrow> keeps_scripts r (upd_script i f r)"
  by (simp add: keeps_scripts_def upd_script_def list_all2_conv_all_nth nth_update_nth)

lemma keeps_scripts_n: "keeps_scripts r r' \<Longrightarrow> n_scripts r' = n_scripts r"
  by (simp add: keeps_scripts_def n_scripts_def list_all2_lengthD)

lemma keeps_scripts_at: "keeps_scripts r r' \<Longrightarrow> i < n_scripts r \<Longrightarrow> keeps_script (script_at r i) (script_at r' i)"
  by (simp add: keeps_scripts_def n_scripts_def script_at_def list_all2_nthD)

text \<open>A frame in which only values changed.\<close>

definition same_frame :: "frame \<Rightarrow> frame \<Rightarrow> bool" where
  "same_frame f f' \<longleftrightarrow> frame_names f' = frame_names f \<and> scope_depth f' = scope_depth f \<and>
     returning f' = returning f \<and> jumping f' = jumping f \<and> jump_name_idx f' = jump_name_idx f \<and>
     ret_val f' = ret_val f"

text \<open>What evaluating an expression may do to the state.\<close>

definition eval_shape :: "region \<Rightarrow> region \<Rightarrow> bool" where
  "eval_shape r r' \<longleftrightarrow> keeps_scripts r r' \<and>
     (case frames r of [] \<Rightarrow> frames r' = []
      | f # fs \<Rightarrow> \<exists>f'. frames r' = f' # fs \<and> same_frame f f')"

text \<open>What executing a statement may do, provided no binding of the top frame is deeper than its scope:
  it adds bindings of the current scope, and may set the control flags.\<close>

definition scoped :: "frame \<Rightarrow> bool" where
  "scoped f \<longleftrightarrow> (\<forall>(n, d) \<in> set (frame_names f). d \<le> scope_depth f)"

definition grows :: "frame \<Rightarrow> frame \<Rightarrow> bool" where
  "grows f f' \<longleftrightarrow> scope_depth f' = scope_depth f \<and>
     (\<exists>added. frame_names f' = frame_names f @ added \<and> (\<forall>(n, d) \<in> set added. d = scope_depth f))"

definition exec_shape :: "region \<Rightarrow> region \<Rightarrow> bool" where
  "exec_shape r r' \<longleftrightarrow> keeps_scripts r r' \<and>
     (case frames r of [] \<Rightarrow> frames r' = []
      | f # fs \<Rightarrow> scoped f \<longrightarrow> (\<exists>f'. frames r' = f' # fs \<and> grows f f'))"

lemma same_frame_refl [simp, intro!]: "same_frame f f"
  by (simp add: same_frame_def)

lemma same_frame_trans: "same_frame f g \<Longrightarrow> same_frame g h \<Longrightarrow> same_frame f h"
  by (simp add: same_frame_def)

lemma grows_refl [simp, intro!]: "grows f f"
  by (simp add: grows_def)

lemma grows_scoped: "grows f g \<Longrightarrow> scoped f \<Longrightarrow> scoped g"
  by (fastforce simp: grows_def scoped_def)

lemma grows_trans: "grows f g \<Longrightarrow> grows g h \<Longrightarrow> grows f h"
  by (fastforce simp: grows_def)

lemma same_frame_grows: "same_frame f g \<Longrightarrow> grows f g"
  by (simp add: same_frame_def grows_def)

interpretation es: step_rel eval_shape
proof
  show "eval_shape r r" for r by (auto simp: eval_shape_def split: list.split)
next
  fix r r' r'' assume "eval_shape r r'" "eval_shape r' r''"
  then show "eval_shape r r''"
    unfolding eval_shape_def
    by (auto split: list.splits intro: keeps_scripts_trans same_frame_trans)
qed

interpretation xs: step_rel exec_shape
proof
  show "exec_shape r r" for r by (auto simp: exec_shape_def split: list.split)
next
  fix r r' r'' assume "exec_shape r r'" "exec_shape r' r''"
  then show "exec_shape r r''"
    unfolding exec_shape_def
    by (auto split: list.splits intro: keeps_scripts_trans dest: grows_scoped)
      (meson grows_scoped grows_trans)+
qed

lemma eval_exec_shape: "eval_shape r r' \<Longrightarrow> exec_shape r r'"
  unfolding eval_shape_def exec_shape_def
  by (auto split: list.splits dest: same_frame_grows)

lemma keeps_exec_of_eval: "keeps eval_shape m \<Longrightarrow> keeps exec_shape m"
  by (auto simp: keeps_def intro: eval_exec_shape)

lemma eval_shape_same: "scripts r' = scripts r \<Longrightarrow> frames r' = frames r \<Longrightarrow> eval_shape r r'"
  by (auto simp: eval_shape_def keeps_scripts_same split: list.split)

lemma eval_shape_quiet: "quiet r r' \<Longrightarrow> eval_shape r r'"
  by (rule eval_shape_same) (simp_all add: quiet_fields)

lemma eval_shape_upd_script: "(\<And>s. keeps_script s (f s)) \<Longrightarrow> eval_shape r (upd_script i f r)"
  by (auto simp: eval_shape_def keeps_scripts_upd split: list.split)


subsection \<open>Cells, frames and calls\<close>

lemma eval_shape_upd_top:
  "(\<And>f. same_frame f (g f)) \<Longrightarrow> eval_shape r (upd_top g r)"
  by (auto simp: eval_shape_def upd_top_def keeps_scripts_same split: list.split)

lemma exec_shape_upd_top:
  "(\<And>f. grows f (g f)) \<Longrightarrow> exec_shape r (upd_top g r)"
  by (auto simp: exec_shape_def upd_top_def keeps_scripts_same split: list.split)

lemma eval_shape_set_cell [intro!]: "eval_shape r (set_cell i c v r)"
proof (cases c)
  case (Loc k)
  then show ?thesis
    by (auto simp: set_cell_def same_frame_def frame_names_def map_update_nth_same
        intro!: eval_shape_upd_top)
next
  case (Glob k)
  then show ?thesis
    by (auto simp: set_cell_def keeps_script_def intro!: eval_shape_upd_script)
qed

lemma eval_shape_assign: "assign_lval i lv v r = (w, r') \<Longrightarrow> eval_shape r r'"
  by (auto simp: assign_lval_def Let_def split: lval.splits if_splits)

lemma frames_frame_push [simp]: "frames (frame_push f r) = f # frames r"
  and scripts_frame_push [simp]: "scripts (frame_push f r) = scripts r"
  by (simp_all add: frame_push_def)

lemma frames_frame_pop [simp]: "frames (frame_pop r) = tl (frames r)"
  and scripts_frame_pop [simp]: "scripts (frame_pop r) = scripts r"
  by (simp_all add: frame_pop_def upd_dbg_def Let_def split: list.split)

lemma grows_define: "grows f (frame_define nm v f)"
  by (simp add: grows_def frame_define_def frame_names_def)

lemma scoped_new_frame: "scoped new_frame"
  by (simp add: scoped_def new_frame_def frame_names_def)

lemma bind_args_shape:
  assumes "\<And>e. keeps eval_shape (ev e)"
  shows "bind_args ev ps es f r = Inr (f', r') \<Longrightarrow> eval_shape r r' \<and> grows f f'"
  using assms
proof (induction ev ps es f r arbitrary: f' r' rule: bind_args.induct)
  case (1 ev p ps e es f r)
  then obtain v r1 where e: "ev e r = Inr (v, r1)"
    and b: "bind_args ev ps es (frame_define (pm_name p) (coerce v (type_byte (pm_type p))) f) r1 = Inr (f', r')"
    by (auto simp: rbind_eq_Inr)
  have "eval_shape r r1" using keepsD [OF "1.prems"(2) e] .
  moreover from "1.IH" [OF e HOL.refl b "1.prems"(2)]
  have "eval_shape r1 r'" "grows (frame_define (pm_name p) (coerce v (type_byte (pm_type p))) f) f'"
    by auto
  ultimately show ?case using es.step_trans grows_trans [OF grows_define] by blast
qed simp_all

lemma run_user_func_shape:
  assumes ev: "\<And>e. keeps eval_shape (ev e)" and ex: "\<And>s. keeps exec_shape (ex s)"
  shows "keeps eval_shape (run_user_func ev ex fd args)"
  unfolding keeps_def
proof (intro allI impI)
  fix r v r' assume "run_user_func ev ex fd args r = Inr (v, r')"
  then obtain f r1 rc r2 where
    b: "bind_args ev (fd_params fd) args new_frame r = Inr (f, r1)" and
    x: "ex (fd_body fd) (frame_push f r1) = Inr (rc, r2)" and r': "r' = frame_pop r2"
    by (auto simp: run_user_func_def rbind_eq_Inr)
  from bind_args_shape [OF ev b] have 1: "eval_shape r r1" "scoped f"
    using grows_scoped [OF _ scoped_new_frame] by auto
  from keepsD [OF ex x] 1(2) have "keeps_scripts r1 r2" "tl (frames r2) = frames r1"
    by (auto simp: exec_shape_def keeps_scripts_def)
  then have "eval_shape r1 r'"
    unfolding r' eval_shape_def by (auto simp: keeps_scripts_def split: list.split)
  with 1(1) show "eval_shape r r'" using es.step_trans by blast
qed

subsection \<open>The library contract and expressions\<close>

locale library =
  fixes lib :: "string \<Rightarrow> builtin option"
  assumes lib_shape: "lib nm = Some b \<Longrightarrow> (\<And>e. keeps eval_shape (ev e)) \<Longrightarrow> keeps eval_shape (b ev i args)"
begin

lemma eval_call_shape:
  assumes ev: "\<And>e. keeps eval_shape (ev e)" and ex: "\<And>s. keeps exec_shape (ex s)"
  shows "keeps eval_shape (eval_call lib ev ex i nm args)"
  unfolding keeps_def
proof (intro allI impI)
  fix r v r' assume c: "eval_call lib ev ex i nm args r = Inr (v, r')"
  show "eval_shape r r'"
  proof (cases "find_func (prog (script_at r i)) nm")
    case (Some fd)
    with c keepsD [OF run_user_func_shape [OF ev ex]] show ?thesis by (simp add: eval_call_def)
  next
    case None
    with c obtain vs r1 where a: "eval_list ev args r = Inr (vs, r1)"
      by (auto simp: eval_call_def rbind_eq_Inr)
    have 1: "eval_shape r r1" using keepsD [OF es.eval_list_keeps [OF ev] a] .
    have "eval_shape r1 r'"
    proof (cases "lib (prog_str (prog (script_at r1 i)) nm)")
      case (Some b)
      with c None a have "b ev i vs r1 = Inr (v, r')" by (simp add: eval_call_def)
      then show ?thesis using keepsD [OF lib_shape [where ev = ev, OF Some ev]] by blast
    next
      case None
      with c \<open>find_func _ nm = None\<close> a show ?thesis
        by (auto simp: eval_call_def intro!: eval_shape_same)
    qed
    with 1 show ?thesis using es.step_trans by blast
  qed
qed

lemma eval_body_shape:
  assumes ev: "\<And>e. keeps eval_shape (ev e)" and ex: "\<And>s. keeps exec_shape (ex s)"
  shows "keeps eval_shape (eval_body lib ev ex i e)"
proof -
  have comp: "keeps eval_shape (eval_component ev e)" for e
    unfolding eval_component_def by (intro es.intros ev)
  note lst = es.eval_list_keeps [OF ev] and cl = eval_call_shape [OF ev ex]
  have un: "keeps eval_shape (eval_unary ev i op a)" for op a
  proof -
    have "keeps eval_shape (eval_incdec i op a)"
      by (auto simp: keeps_def eval_incdec_def Let_def split: lval.splits svalue.splits)
    moreover have "keeps eval_shape (\<lambda>r. rbind (ev a r) (\<lambda>(v, r). Inr (unary_value op v, r)))"
      by (intro es.intros ev)
    ultimately show ?thesis unfolding eval_unary_def by (intro keeps_if)
  qed
  have po: "keeps eval_shape (eval_postfix i op a)" for op a
    by (auto simp: keeps_def eval_postfix_def Let_def split: lval.splits)
  have bi: "keeps eval_shape (eval_binop ev op a b)" for op a b
    unfolding eval_binop_def by (intro es.intros ev)
  have as: "keeps eval_shape (eval_assign ev i op a b)" for op a b
    unfolding keeps_def eval_assign_def Let_def
    using keepsD [OF ev] es.step_trans eval_shape_assign by (auto simp: rbind_eq_Inr) blast+
  show ?thesis
  proof (cases e)
    case (E_STRING_LIT h k)
    then show ?thesis by (cases h) (auto simp: keeps_def eval_body_def rbind_eq_Inr)
  qed (auto simp: eval_body_def [abs_def] intro!: es.intros ev comp lst cl un po bi as)
qed

end


subsection \<open>Statements\<close>

lemma frame_names_leave:
  "frame_names (frame_leave g) =
     rev (dropWhile (\<lambda>(n, d). d > scope_depth g - 1) (rev (frame_names g)))"
  by (simp add: frame_leave_def frame_names_def Let_def rev_map dropWhile_map comp_def)

lemma dropWhile_all: "(\<forall>x \<in> set xs. P x) \<Longrightarrow> dropWhile P (xs @ ys) = dropWhile P ys"
  by (induction xs) auto

lemma dropWhile_none: "(\<forall>x \<in> set ys. \<not> P x) \<Longrightarrow> dropWhile P ys = ys"
  by (cases ys) auto

text \<open>Leaving a scope removes exactly the bindings made since it was entered.\<close>

lemma leave_enter:
  assumes f: "scoped f" and g: "grows (frame_enter f) g"
  shows "frame_names (frame_leave g) = frame_names f" "scope_depth (frame_leave g) = scope_depth f"
proof -
  from g obtain added where
    d: "scope_depth g = scope_depth f + 1" and
    n: "frame_names g = frame_names f @ added" and
    a: "\<forall>(n, d) \<in> set added. d = scope_depth f + 1"
    by (auto simp: grows_def frame_enter_def frame_names_def)
  show "frame_names (frame_leave g) = frame_names f"
  proof -
    let ?P = "\<lambda>(n, e). e > scope_depth f + 1 - 1"
    have "dropWhile ?P (rev added @ rev (frame_names f)) = dropWhile ?P (rev (frame_names f))"
      using a by (intro dropWhile_all) auto
    also have "\<dots> = rev (frame_names f)" using f by (intro dropWhile_none) (auto simp: scoped_def)
    finally show ?thesis by (simp add: frame_names_leave n d)
  qed
  show "scope_depth (frame_leave g) = scope_depth f"
    by (simp add: frame_leave_def Let_def d)
qed

text \<open>Whatever grows the scope it runs in gives, between entering and leaving, a frame with the same
  names.\<close>

lemma scope_shape:
  assumes m: "keeps exec_shape m" and r: "m (upd_top frame_enter r) = Inr (a, r1)"
  shows "keeps_scripts r (upd_top frame_leave r1)"
    "frames r = f # fs \<Longrightarrow> scoped f \<Longrightarrow>
       \<exists>f'. frames (upd_top frame_leave r1) = f' # fs \<and> frame_names f' = frame_names f \<and>
            scope_depth f' = scope_depth f"
    "frames r = [] \<Longrightarrow> frames (upd_top frame_leave r1) = []"
proof -
  have x: "exec_shape (upd_top frame_enter r) r1" using keepsD [OF m r] .
  have s: "scripts (upd_top g q) = scripts q" for g q by (simp add: upd_top_def split: list.split)
  show "keeps_scripts r (upd_top frame_leave r1)"
    using x by (simp add: exec_shape_def keeps_scripts_def s)
  show "frames (upd_top frame_leave r1) = []" if "frames r = []"
    using x that by (simp add: exec_shape_def upd_top_def)
  assume f: "frames r = f # fs" "scoped f"
  then have "scoped (frame_enter f)"
    by (auto simp: scoped_def frame_enter_def frame_names_def split: prod.splits)
  with x f obtain g where "frames r1 = g # fs" "grows (frame_enter f) g"
    by (auto simp: exec_shape_def upd_top_def)
  then show "\<exists>f'. frames (upd_top frame_leave r1) = f' # fs \<and> frame_names f' = frame_names f \<and>
            scope_depth f' = scope_depth f"
    using leave_enter [OF f(2)] by (auto simp: upd_top_def)
qed

lemma scope_exec_shape:
  assumes "keeps exec_shape m"
  shows "keeps exec_shape (\<lambda>r. rbind (m (upd_top frame_enter r)) (\<lambda>(a, r). Inr (c, upd_top frame_leave r)))"
  unfolding keeps_def
proof (intro allI impI)
  fix r x r' assume "rbind (m (upd_top frame_enter r)) (\<lambda>(a, r). Inr (c, upd_top frame_leave r)) = Inr (x, r')"
  then obtain a r1 where m: "m (upd_top frame_enter r) = Inr (a, r1)" and r': "r' = upd_top frame_leave r1"
    by (auto simp: rbind_eq_Inr)
  show "exec_shape r r'"
    unfolding exec_shape_def r'
    using scope_shape [OF assms m] by (fastforce simp: grows_def split: list.split)
qed

lemma keeps_statechg: "eval_shape r (exec_statechg i nm r)"
proof (cases "find_state (prog (script_at r i)) (prog_str (prog (script_at r i)) nm)")
  case None
  then show ?thesis by (simp add: exec_statechg_def Let_def)
next
  case (Some k)
  then have k: "k < length (p_states (prog (script_at r i)))" by (auto simp: find_state_def)
  have "keeps_scripts r (upd_script i (\<lambda>s. s\<lparr>pending_state := int k\<rparr>) r)"
    unfolding keeps_scripts_def upd_script_def list_all2_conv_all_nth
    using k by (auto simp: nth_update_nth keeps_script_def script_at_def)
  then show ?thesis
    using Some by (auto simp: exec_statechg_def eval_shape_def Let_def split: list.split)
qed

context library
begin

lemma exec_body_shape:
  assumes ev: "\<And>e. keeps eval_shape (ev e)" and ex: "\<And>s. keeps exec_shape (ex s)"
  shows "keeps exec_shape (exec_body ev ex k i st)"
proof -
  note ev' = keeps_exec_of_eval [OF ev]
  have top: "keeps exec_shape (\<lambda>r. Inr (rc, upd_top g r))" if "\<And>f. grows f (g f)" for rc :: int and g
    using that by (auto simp: keeps_def intro: exec_shape_upd_top)
  have flag: "grows f (f\<lparr>ret_val := v\<rparr>)" "grows f (f\<lparr>returning := x\<rparr>)" "grows f (f\<lparr>jumping := x\<rparr>)"
    "grows f (f\<lparr>ret_val := v, returning := x\<rparr>)" "grows f (f\<lparr>jumping := x, jump_name_idx := y\<rparr>)" for f v x y
    by (simp_all add: grows_def frame_names_def)
  have blk: "keeps exec_shape (block_loop ex i all k ss)" for all ss
    using ex flag(3) by (intro xs.block_keeps exec_shape_upd_top)
  have decl: "keeps exec_shape (exec_decl ev t nm e)" for t nm e
    unfolding exec_decl_def Let_def
    by (intro xs.bind_keeps keeps_if xs.return_keeps ev' top) (auto simp: grows_define)
  have ret: "keeps exec_shape (exec_return ev hv e)" for hv e
  proof -
    have "exec_shape r r'"
      if "rbind (ev e (upd_top (\<lambda>f. f\<lparr>ret_val := SVoid\<rparr>) r))
        (\<lambda>(v, r). Inr (1, upd_top (\<lambda>f. f\<lparr>ret_val := v, returning := True\<rparr>) r)) = Inr (a, r')"
      for r a r'
    proof -
      from that obtain v r1 where 1: "ev e (upd_top (\<lambda>f. f\<lparr>ret_val := SVoid\<rparr>) r) = Inr (v, r1)"
        and r': "r' = upd_top (\<lambda>f. f\<lparr>ret_val := v, returning := True\<rparr>) r1"
        by (auto simp: rbind_eq_Inr)
      have "exec_shape r (upd_top (\<lambda>f. f\<lparr>ret_val := SVoid\<rparr>) r)"
        by (intro exec_shape_upd_top flag)
      also note keepsD [OF ev' 1]
      also have "exec_shape r1 r'" unfolding r' by (intro exec_shape_upd_top flag)
      finally show ?thesis .
    qed
    then show ?thesis
      by (auto simp: keeps_def exec_return_def intro: exec_shape_upd_top flag)
  qed
  have chg: "keeps exec_shape (\<lambda>r. Inr (2, exec_statechg i nm r))" for nm
    by (auto simp: keeps_def intro: eval_exec_shape keeps_statechg)
  have blk_st: "keeps exec_shape (\<lambda>r. rbind (block_loop ex i ss k ss (upd_top frame_enter r))
      (\<lambda>(rc, r). Inr (0, upd_top frame_leave r)))" for ss
    by (rule scope_exec_shape [OF blk])
  have for_st: "keeps exec_shape (\<lambda>r. rbind (eval_list ev ini (upd_top frame_enter r)) (\<lambda>(vs, r).
      rbind (for_loop ev ex i c ps b loop_limit r) (\<lambda>(rc, r). Inr (0, upd_top frame_leave r))))"
    for ini c ps b
  proof -
    have "keeps exec_shape (\<lambda>r. rbind (eval_list ev ini r) (\<lambda>(vs, r). for_loop ev ex i c ps b loop_limit r))"
      by (intro xs.bind_keeps xs.eval_list_keeps xs.for_keeps ev' ex)
    from scope_exec_shape [OF this, of 0] show ?thesis
      by (simp add: keeps_def rbind_eq_Inr) blast
  qed
  have core: "keeps exec_shape (exec_switch ev ex k i st)"
    unfolding exec_switch_def [abs_def]
    by (cases st) (auto intro!: xs.intros ev' ex decl ret chg blk_st for_st xs.while_keeps xs.do_keeps
        top flag)
  have hook: "exec_shape r (stmt_hook i l r)" for r l
    by (auto simp: stmt_hook_def intro: eval_exec_shape eval_shape_quiet)
  show ?thesis
    unfolding keeps_def exec_body_def
    by (auto split: if_splits intro: xs.step_trans [OF hook keepsD [OF core]])
qed

lemma shapes: "keeps eval_shape (vm_eval lib n i e) \<and> keeps exec_shape (vm_exec lib n i st)"
proof (induction n arbitrary: e st)
  case 0
  show ?case by (simp add: keeps_def)
next
  case (Suc n)
  have "keeps eval_shape (eval_body lib (\<lambda>e r. vm_eval lib n i e r) (\<lambda>s r. vm_exec lib n i s r) i e)"
    "keeps exec_shape (exec_body (\<lambda>e r. vm_eval lib n i e r) (\<lambda>s r. vm_exec lib n i s r) n i st)"
    using Suc by (auto intro!: eval_body_shape exec_body_shape)
  then show ?case by (simp add: keeps_def)
qed

lemmas vm_eval_shape = shapes [THEN conjunct1, THEN keepsD]
  and vm_exec_shape = shapes [THEN conjunct2, THEN keepsD]

lemma vm_dispatch_shape:
  "vm_dispatch lib n i ed args r = Inr r' \<Longrightarrow> keeps_scripts r r' \<and> frames r' = frames r"
proof -
  have g: "grows f (bind_values ps vs f)" for ps vs f
    by (induction ps vs f rule: bind_values.induct) (auto intro: grows_trans grows_define)
  assume "vm_dispatch lib n i ed args r = Inr r'"
  then obtain rc r1 where
    x: "vm_exec lib n i (ed_body ed) (frame_push (bind_values (ed_params ed) args new_frame) r) = Inr (rc, r1)"
    and r': "r' = frame_pop r1"
    by (auto simp: vm_dispatch_def rbind_eq_Inr)
  have "scoped (bind_values (ed_params ed) args new_frame)"
    using grows_scoped [OF g scoped_new_frame] .
  with vm_exec_shape [OF x] r' show ?thesis
    by (auto simp: exec_shape_def keeps_scripts_def)
qed

end

end
