(* ===== verification/VmFuel.thy ===== *)
theory VmFuel
  imports VmShape
begin

text \<open>
  What the fuel of the interpreter means. More fuel never changes a result (\<open>vm_eval_mono\<close>), so a
  result is the result; and code without jumps and without calls of user functions always
  comes to an end, within a fuel of its own size: its loops stop by themselves or at the limit of a
  million turns.
\<close>

subsection \<open>More fuel, same result\<close>

definition act_le :: "'a act \<Rightarrow> 'a act \<Rightarrow> bool" where
  "act_le m m' \<longleftrightarrow> (\<forall>r. m r \<noteq> Inl OutOfFuel \<longrightarrow> m' r = m r)"

lemma act_le_refl [simp, intro!]: "act_le m m"
  by (simp add: act_le_def)

lemma act_leD: "act_le m m' \<Longrightarrow> m r \<noteq> Inl OutOfFuel \<Longrightarrow> m' r = m r"
  by (simp add: act_le_def)

lemma act_le_fuel: "act_le (\<lambda>r. Inl OutOfFuel) m"
  by (simp add: act_le_def)

lemma act_le_bind:
  assumes "act_le m m'" "\<And>x. act_le (k x) (k' x)"
  shows "act_le (\<lambda>r. rbind (m r) (\<lambda>(x, r). k x r)) (\<lambda>r. rbind (m' r) (\<lambda>(x, r). k' x r))"
  unfolding act_le_def
proof (intro allI impI)
  fix r assume n: "rbind (m r) (\<lambda>(x, r). k x r) \<noteq> Inl OutOfFuel"
  then have m: "m' r = m r" using act_leD [OF assms(1)] by (cases "m r") auto
  show "rbind (m' r) (\<lambda>(x, r). k' x r) = rbind (m r) (\<lambda>(x, r). k x r)"
  proof (cases "m r")
    case (Inl e)
    then show ?thesis by (simp add: m)
  next
    case (Inr p)
    obtain x r1 where p: "p = (x, r1)" by (cases p)
    show ?thesis using n act_leD [OF assms(2), of x r1] by (simp add: m Inr p)
  qed
qed

lemma act_le_const: "(\<And>x. act_le (k x) (k' x)) \<Longrightarrow>
    act_le (\<lambda>r. rbind c (\<lambda>x. k x r)) (\<lambda>r. rbind c (\<lambda>x. k' x r))"
  by (cases c) (auto simp: act_le_def)

lemma act_le_if: "act_le m n \<Longrightarrow> act_le m' n' \<Longrightarrow>
    act_le (\<lambda>r. if c r then m r else m' r) (\<lambda>r. if c r then n r else n' r)"
  by (simp add: act_le_def)

lemma act_le_pre: "act_le m m' \<Longrightarrow> act_le (\<lambda>r. m (g r)) (\<lambda>r. m' (g r))"
  by (simp add: act_le_def)

lemmas act_le_intros = act_le_bind act_le_const act_le_if act_le_refl

lemma act_le_eval_list:
  assumes "\<And>e. act_le (ev e) (ev' e)"
  shows "act_le (eval_list ev es) (eval_list ev' es)"
proof (induction es)
  case Nil
  show ?case by (simp add: act_le_def)
next
  case (Cons e es)
  have "eval_list ev (e # es) =
      (\<lambda>r. rbind (ev e r) (\<lambda>(v, r). rbind (eval_list ev es r) (\<lambda>(vs, r). Inr (v # vs, r))))" for ev
    by (rule ext) simp
  then show ?case using assms Cons by (auto intro!: act_le_intros)
qed

lemma act_le_while:
  assumes "\<And>e. act_le (ev e) (ev' e)" "\<And>s. act_le (ex s) (ex' s)"
  shows "act_le (while_loop ev ex i c b k) (while_loop ev' ex' i c b k)"
proof (induction k)
  case 0
  show ?case by (simp add: act_le_def)
next
  case (Suc k)
  have "while_loop ev ex i c b (Suc k) = (\<lambda>r. rbind (ev c r) (\<lambda>(v, r).
     if \<not> sv_truthy v then Inr (0, r)
     else rbind (ex b r) (\<lambda>(rc, r). if must_stop i r then Inr (0, r) else while_loop ev ex i c b k r)))"
    for ev ex by (rule ext) simp
  then show ?case using assms Suc by (auto intro!: act_le_intros)
qed

lemma act_le_do:
  assumes "\<And>e. act_le (ev e) (ev' e)" "\<And>s. act_le (ex s) (ex' s)"
  shows "act_le (do_loop ev ex i c b k) (do_loop ev' ex' i c b k)"
proof (induction k)
  case 0
  show ?case by (simp add: act_le_def)
next
  case (Suc k)
  have "do_loop ev ex i c b (Suc k) = (\<lambda>r. rbind (ex b r) (\<lambda>(rc, r).
     if must_stop i r then Inr (0, r)
     else rbind (ev c r) (\<lambda>(v, r). if \<not> sv_truthy v then Inr (0, r) else do_loop ev ex i c b k r)))"
    for ev ex by (rule ext) simp
  then show ?case using assms Suc by (auto intro!: act_le_intros)
qed

lemma act_le_for:
  assumes "\<And>e. act_le (ev e) (ev' e)" "\<And>s. act_le (ex s) (ex' s)"
  shows "act_le (for_loop ev ex i c ps b k) (for_loop ev' ex' i c ps b k)"
proof (induction k)
  case 0
  show ?case by (simp add: act_le_def)
next
  case (Suc k)
  have "for_loop ev ex i c ps b (Suc k) = (\<lambda>r.
     rbind (if c = E_NULL then Inr (SInt 1, r) else ev c r) (\<lambda>(v, r).
       if \<not> sv_truthy v then Inr (0, r)
       else rbind (ex b r) (\<lambda>(rc, r). if must_stop i r then Inr (0, r)
         else rbind (eval_list ev ps r) (\<lambda>(vs, r). for_loop ev ex i c ps b k r))))"
    for ev ex by (rule ext) simp
  then show ?case using assms Suc by (auto intro!: act_le_intros act_le_eval_list)
qed

lemma act_le_block:
  assumes "\<And>s. act_le (ex s) (ex' s)" "k \<le> k'"
  shows "act_le (block_loop ex i all k ss) (block_loop ex' i all k' ss)"
proof -
  have "block_loop ex i all k ss r \<noteq> Inl OutOfFuel \<Longrightarrow>
      block_loop ex' i all k' ss r = block_loop ex i all k ss r" for r
    using assms
  proof (induction ex i all k ss r arbitrary: k' rule: block_loop.induct)
    case (1 ex i all k r)
    then show ?case by simp
  next
    case (2 ex i all k s ss r)
    have e: "ex' s r = ex s r"
      using "2.prems"(1) by (intro act_leD [OF "2.prems"(2)]) auto
    show ?case
    proof (cases "ex s r")
      case (Inl x)
      then show ?thesis by (simp add: e)
    next
      case (Inr p)
      obtain rc r1 where p: "p = (rc, r1)" by (cases p)
      note x = Inr [unfolded p]
      show ?thesis
      proof (cases "top_returning r1 \<or> 0 \<le> pending_state (script_at r1 i)")
        case True
        then show ?thesis by (auto simp: e x)
      next
        case False
        then have f: "\<not> top_returning r1" "\<not> 0 \<le> pending_state (script_at r1 i)" by auto
        show ?thesis
        proof (cases "top_jumping r1")
          case False
          then show ?thesis
            using "2.IH"(2) [OF x HOL.refl f, of k'] "2.prems" f by (simp add: e x)
        next
          case True
          show ?thesis
          proof (cases "find_label_in all (jump_target r1)")
            case None
            then show ?thesis using f True by (simp add: e x)
          next
            case (Some j)
            then obtain h where k: "k = Suc h"
              using "2.prems"(1) f True x by (cases k) auto
            then obtain h' where k': "k' = Suc h'" "h \<le> h'"
              using "2.prems"(3) by (cases k') auto
            show ?thesis
              using "2.IH"(1) [OF x HOL.refl f True Some k, of h'] "2.prems" f True Some k k'
              by (simp add: e x)
          qed
        qed
      qed
    qed
  qed
  then show ?thesis by (simp add: act_le_def)
qed

lemma act_le_bind_args:
  assumes "\<And>e. act_le (ev e) (ev' e)"
  shows "act_le (bind_args ev ps es f) (bind_args ev' ps es f)"
proof (induction ps arbitrary: es f)
  case Nil
  show ?case by (simp add: act_le_def)
next
  case (Cons p ps)
  show ?case
  proof (cases es)
    case Nil
    then show ?thesis by (simp add: act_le_def)
  next
    case (Cons e es')
    have "bind_args ev (p # ps) (e # es') f = (\<lambda>r. rbind (ev e r) (\<lambda>(v, r).
       bind_args ev ps es' (frame_define (pm_name p) (coerce v (type_byte (pm_type p))) f) r))" for ev
      by (rule ext) simp
    then show ?thesis using assms Cons.IH Cons by (auto intro!: act_le_bind)
  qed
qed

locale library_mono = library +
  assumes lib_mono: "lib nm = Some b \<Longrightarrow> (\<And>e. act_le (ev e) (ev' e)) \<Longrightarrow>
    act_le (b ev i args) (b ev' i args)"
begin

lemma act_le_call:
  assumes ev: "\<And>e. act_le (ev e) (ev' e)" and ex: "\<And>s. act_le (ex s) (ex' s)"
  shows "act_le (eval_call lib ev ex i nm args) (eval_call lib ev' ex' i nm args)"
  unfolding act_le_def
proof (intro allI impI)
  fix r assume n: "eval_call lib ev ex i nm args r \<noteq> Inl OutOfFuel"
  show "eval_call lib ev' ex' i nm args r = eval_call lib ev ex i nm args r"
  proof (cases "find_func (prog (script_at r i)) nm")
    case (Some fd)
    have "act_le (run_user_func ev ex fd args) (run_user_func ev' ex' fd args)"
      unfolding run_user_func_def [abs_def]
      by (intro act_le_bind act_le_refl act_le_bind_args ev act_le_pre [OF ex])
    from act_leD [OF this] n show ?thesis by (simp add: eval_call_def Some)
  next
    case None
    let ?k = "\<lambda>ev vs r. (case lib (prog_str (prog (script_at r i)) nm) of
          Some b \<Rightarrow> b ev i vs r
        | None \<Rightarrow> Inr (SVoid, if s_trace (script_at r i)
            then emit_err (''[slemu] (stub) '' @ prog_str (prog (script_at r i)) nm @ ''(...)'' @ nl) r
            else r))"
    have "act_le (?k ev vs) (?k ev' vs)" for vs
      using act_leD [OF lib_mono [where ev = ev and ev' = ev', OF _ ev]]
      by (auto simp: act_le_def split: option.split)
    then have "act_le (\<lambda>r. rbind (eval_list ev args r) (\<lambda>(vs, r). ?k ev vs r))
        (\<lambda>r. rbind (eval_list ev' args r) (\<lambda>(vs, r). ?k ev' vs r))"
      by (intro act_le_bind act_le_eval_list ev)
    from act_leD [OF this] n show ?thesis by (simp add: eval_call_def None)
  qed
qed

lemma act_le_eval_body:
  assumes ev: "\<And>e. act_le (ev e) (ev' e)" and ex: "\<And>s. act_le (ex s) (ex' s)"
  shows "act_le (eval_body lib ev ex i e) (eval_body lib ev' ex' i e)"
proof -
  have comp: "act_le (eval_component ev e) (eval_component ev' e)" for e
    unfolding eval_component_def [abs_def] by (intro act_le_intros ev)
  have un: "act_le (eval_unary ev i op a) (eval_unary ev' i op a)" for op a
    unfolding eval_unary_def [abs_def] by (intro act_le_intros ev)
  have bi: "act_le (eval_binop ev op a b) (eval_binop ev' op a b)" for op a b
    unfolding eval_binop_def [abs_def] by (intro act_le_intros ev)
  have as: "act_le (eval_assign ev i op a b) (eval_assign ev' i op a b)" for op a b
    unfolding act_le_def
  proof (intro allI impI)
    fix r assume n: "eval_assign ev i op a b r \<noteq> Inl OutOfFuel"
    then have "ev b r \<noteq> Inl OutOfFuel" by (auto simp: eval_assign_def)
    then show "eval_assign ev' i op a b r = eval_assign ev i op a b r"
      using act_leD [OF ev] by (simp add: eval_assign_def Let_def)
  qed
  show ?thesis
  proof (cases e)
    case (E_STRING_LIT h k)
    then show ?thesis by (cases h) (simp add: eval_body_def [abs_def])
  qed (auto simp: eval_body_def [abs_def]
      intro!: act_le_intros ev comp un bi as act_le_eval_list act_le_call [OF ev ex])
qed

lemma act_le_exec_body:
  assumes ev: "\<And>e. act_le (ev e) (ev' e)" and ex: "\<And>s. act_le (ex s) (ex' s)" and k: "k \<le> k'"
  shows "act_le (exec_body ev ex k i st) (exec_body ev' ex' k' i st)"
proof -
  have decl: "act_le (exec_decl ev t nm e) (exec_decl ev' t nm e)" for t nm e
    unfolding exec_decl_def [abs_def] Let_def by (intro act_le_intros ev)
  have ret: "act_le (exec_return ev hv e) (exec_return ev' hv e)" for hv e
    unfolding exec_return_def [abs_def]
    by (intro act_le_if act_le_refl act_le_bind act_le_pre [OF ev])
  have blk: "act_le (\<lambda>r. rbind (block_loop ex i ss k ss (upd_top frame_enter r)) (\<lambda>(rc, r). f rc r))
      (\<lambda>r. rbind (block_loop ex' i ss k' ss (upd_top frame_enter r)) (\<lambda>(rc, r). f rc r))" for ss f
    by (intro act_le_bind act_le_pre [OF act_le_block [OF ex k]] act_le_refl)
  have fr: "act_le
      (\<lambda>r. rbind (eval_list ev ini (upd_top frame_enter r)) (\<lambda>(vs, r).
         rbind (for_loop ev ex i c ps b loop_limit r) (\<lambda>(rc, r). f rc r)))
      (\<lambda>r. rbind (eval_list ev' ini (upd_top frame_enter r)) (\<lambda>(vs, r).
         rbind (for_loop ev' ex' i c ps b loop_limit r) (\<lambda>(rc, r). f rc r)))" for ini c ps b f
    by (intro act_le_bind act_le_pre [OF act_le_eval_list [OF ev]] act_le_for ev ex act_le_refl)
  have "act_le (exec_switch ev ex k i st) (exec_switch ev' ex' k' i st)"
    by (cases st) (auto simp: exec_switch_def [abs_def]
        intro!: act_le_intros ev ex decl ret act_le_while act_le_do blk fr)
  then show ?thesis by (simp add: act_le_def exec_body_def)
qed

lemma vm_eval_Suc: "vm_eval lib (Suc n) i e = eval_body lib (vm_eval lib n i) (vm_exec lib n i) i e"
  and vm_exec_Suc: "vm_exec lib (Suc n) i st = exec_body (vm_eval lib n i) (vm_exec lib n i) n i st"
  by (rule ext, simp)+

lemma vm_Suc_le:
  "act_le (vm_eval lib n i e) (vm_eval lib (Suc n) i e) \<and> act_le (vm_exec lib n i st) (vm_exec lib (Suc n) i st)"
proof (induction n arbitrary: e st)
  case 0
  show ?case by (simp add: act_le_def)
next
  case (Suc n)
  show ?case
    unfolding vm_eval_Suc [of "Suc n"] vm_exec_Suc [of "Suc n"] vm_eval_Suc [of n i e] vm_exec_Suc [of n i st]
    using Suc by (intro conjI act_le_eval_body act_le_exec_body) (simp_all del: vm_eval.simps vm_exec.simps)
qed

lemma vm_le:
  assumes "n \<le> m"
  shows "vm_eval lib n i e r \<noteq> Inl OutOfFuel \<Longrightarrow> vm_eval lib m i e r = vm_eval lib n i e r"
    and "vm_exec lib n i st r \<noteq> Inl OutOfFuel \<Longrightarrow> vm_exec lib m i st r = vm_exec lib n i st r"
  using assms
proof (induction m rule: dec_induct)
  case base
  { case 1 then show ?case by simp }
  { case 2 then show ?case by simp }
next
  case (step m)
  { case 1 then show ?case using step.IH(1) act_leD [OF vm_Suc_le [THEN conjunct1]] by metis }
  { case 2 then show ?case using step.IH(2) act_leD [OF vm_Suc_le [THEN conjunct2]] by metis }
qed

end


subsection \<open>Jump-free code ends\<close>

text \<open>Code that calls no user function and does not jump; \<open>total\<close> tells the library functions that
  always return. The strings of the pool are those of the program \<open>p\<close>.\<close>

fun plain_expr :: "(string \<Rightarrow> bool) \<Rightarrow> program \<Rightarrow> expr \<Rightarrow> bool" where
  "plain_expr t p (E_VECTOR_LIT h x y z) \<longleftrightarrow> plain_expr t p x \<and> plain_expr t p y \<and> plain_expr t p z"
| "plain_expr t p (E_ROT_LIT h x y z w) \<longleftrightarrow>
     plain_expr t p x \<and> plain_expr t p y \<and> plain_expr t p z \<and> plain_expr t p w"
| "plain_expr t p (E_LIST_LIT h es) \<longleftrightarrow> list_all (plain_expr t p) es"
| "plain_expr t p (E_CALL h nm es) \<longleftrightarrow>
     find_func p nm = None \<and> t (prog_str p nm) \<and> list_all (plain_expr t p) es"
| "plain_expr t p (E_MEMBER h b m) \<longleftrightarrow> plain_expr t p b"
| "plain_expr t p (E_CAST h ty e) \<longleftrightarrow> plain_expr t p e"
| "plain_expr t p (E_UNARY h op e) \<longleftrightarrow> plain_expr t p e"
| "plain_expr t p (E_POSTFIX h op e) \<longleftrightarrow> plain_expr t p e"
| "plain_expr t p (E_BINARY h op a b) \<longleftrightarrow> plain_expr t p a \<and> plain_expr t p b"
| "plain_expr t p (E_ASSIGN h op a b) \<longleftrightarrow> plain_expr t p a \<and> plain_expr t p b"
| "plain_expr t p _ \<longleftrightarrow> True"

fun plain_stmt :: "(string \<Rightarrow> bool) \<Rightarrow> program \<Rightarrow> stmt \<Rightarrow> bool" where
  "plain_stmt t p (S_EXPR l e) \<longleftrightarrow> plain_expr t p e"
| "plain_stmt t p (S_DECL l ty n e) \<longleftrightarrow> plain_expr t p e"
| "plain_stmt t p (S_BLOCK l ss) \<longleftrightarrow> list_all (plain_stmt t p) ss"
| "plain_stmt t p (S_IF l c a b) \<longleftrightarrow> plain_expr t p c \<and> plain_stmt t p a \<and> plain_stmt t p b"
| "plain_stmt t p (S_WHILE l c b) \<longleftrightarrow> plain_expr t p c \<and> plain_stmt t p b"
| "plain_stmt t p (S_DO l b c) \<longleftrightarrow> plain_expr t p c \<and> plain_stmt t p b"
| "plain_stmt t p (S_FOR l ini c ps b) \<longleftrightarrow> list_all (plain_expr t p) ini \<and> plain_expr t p c \<and>
     list_all (plain_expr t p) ps \<and> plain_stmt t p b"
| "plain_stmt t p (S_RETURN l hv e) \<longleftrightarrow> plain_expr t p e"
| "plain_stmt t p (S_JUMP l nm) \<longleftrightarrow> False"
| "plain_stmt t p _ \<longleftrightarrow> True"

text \<open>The number of nodes of a statement, its expressions included.\<close>

fun stmt_size :: "stmt \<Rightarrow> nat" where
  "stmt_size (S_EXPR l e) = Suc (size e)"
| "stmt_size (S_DECL l ty n e) = Suc (size e)"
| "stmt_size (S_BLOCK l ss) = Suc (sum_list (map stmt_size ss))"
| "stmt_size (S_IF l c a b) = Suc (size c + stmt_size a + stmt_size b)"
| "stmt_size (S_WHILE l c b) = Suc (size c + stmt_size b)"
| "stmt_size (S_DO l b c) = Suc (size c + stmt_size b)"
| "stmt_size (S_FOR l ini c ps b) =
     Suc (size_list size ini + size c + size_list size ps + stmt_size b)"
| "stmt_size (S_RETURN l hv e) = Suc (size e)"
| "stmt_size _ = 1"

text \<open>\<open>ends I m\<close>: from a state of \<open>I\<close> the action does not run out of fuel and ends in \<open>I\<close>.\<close>

definition ends :: "(region \<Rightarrow> bool) \<Rightarrow> 'a act \<Rightarrow> bool" where
  "ends I m \<longleftrightarrow> (\<forall>r. I r \<longrightarrow> m r \<noteq> Inl OutOfFuel \<and> (\<forall>a r'. m r = Inr (a, r') \<longrightarrow> I r'))"

lemma endsI:
  "(\<And>r. I r \<Longrightarrow> m r \<noteq> Inl OutOfFuel) \<Longrightarrow> (\<And>r a r'. I r \<Longrightarrow> m r = Inr (a, r') \<Longrightarrow> I r') \<Longrightarrow> ends I m"
  by (simp add: ends_def)

lemma ends_fuel: "ends I m \<Longrightarrow> I r \<Longrightarrow> m r \<noteq> Inl OutOfFuel"
  by (simp add: ends_def)

lemma ends_state: "ends I m \<Longrightarrow> I r \<Longrightarrow> m r = Inr (a, r') \<Longrightarrow> I r'"
  by (simp add: ends_def)

lemma ends_bind:
  assumes m: "ends I m" and k: "\<And>x. ends I (k x)"
  shows "ends I (\<lambda>r. rbind (m r) (\<lambda>(x, r). k x r))"
proof (rule endsI)
  fix r assume r: "I r"
  show "rbind (m r) (\<lambda>(x, r). k x r) \<noteq> Inl OutOfFuel"
  proof (cases "m r")
    case (Inl e)
    then show ?thesis using ends_fuel [OF m r] by simp
  next
    case (Inr p)
    obtain x r1 where p: "p = (x, r1)" by (cases p)
    show ?thesis using ends_fuel [OF k ends_state [OF m r Inr [unfolded p]]] by (simp add: Inr p)
  qed
  fix a r' assume "rbind (m r) (\<lambda>(x, r). k x r) = Inr (a, r')"
  then obtain x r1 where "m r = Inr (x, r1)" "k x r1 = Inr (a, r')" by (auto simp: rbind_eq_Inr)
  then show "I r'" using ends_state [OF k ends_state [OF m r]] by blast
qed

lemma ends_return: "(\<And>r. I r \<Longrightarrow> I (g r)) \<Longrightarrow> ends I (\<lambda>r. Inr (f r, g r))"
  by (simp add: ends_def)

lemma ends_if:
  assumes "ends I m" "ends I m'"
  shows "ends I (\<lambda>r. if c r then m r else m' r)"
proof (rule endsI)
  show "(if c r then m r else m' r) \<noteq> Inl OutOfFuel" if "I r" for r
    using ends_fuel [OF assms(1) that] ends_fuel [OF assms(2) that] by simp
  show "I r'" if "I r" "(if c r then m r else m' r) = Inr (a, r')" for r a r'
    using ends_state [OF assms(1) that(1)] ends_state [OF assms(2) that(1)] that(2)
    by (cases "c r") auto
qed

lemma ends_const: "c \<noteq> Inl OutOfFuel \<Longrightarrow> (\<And>x. ends I (k x)) \<Longrightarrow> ends I (\<lambda>r. rbind c (\<lambda>x. k x r))"
  by (cases c) (simp_all add: ends_def)

lemma ends_pre:
  assumes m: "ends I m" and g: "\<And>r. I r \<Longrightarrow> I (g r)"
  shows "ends I (\<lambda>r. m (g r))"
proof (rule endsI)
  show "m (g r) \<noteq> Inl OutOfFuel" if "I r" for r using ends_fuel [OF m g [OF that]] .
  show "I r'" if "I r" "m (g r) = Inr (a, r')" for r a r' using ends_state [OF m g [OF that(1)] that(2)] .
qed

lemma ends_eval_list: "(\<And>e. e \<in> set es \<Longrightarrow> ends I (ev e)) \<Longrightarrow> ends I (eval_list ev es)"
proof (induction es)
  case Nil
  show ?case by (simp add: ends_def)
next
  case (Cons e es)
  have "eval_list ev (e # es) =
      (\<lambda>r. rbind (ev e r) (\<lambda>(v, r). rbind (eval_list ev es r) (\<lambda>(vs, r). Inr (v # vs, r))))"
    by (rule ext) simp
  with Cons show ?case by (auto intro!: ends_bind ends_return)
qed

lemma ends_while: "ends I (ev c) \<Longrightarrow> ends I (ex b) \<Longrightarrow> ends I (while_loop ev ex i c b k)"
proof (induction k)
  case 0
  show ?case by (simp add: ends_def)
next
  case (Suc k)
  have "while_loop ev ex i c b (Suc k) = (\<lambda>r. rbind (ev c r) (\<lambda>(v, r).
     if \<not> sv_truthy v then Inr (0, r)
     else rbind (ex b r) (\<lambda>(rc, r). if must_stop i r then Inr (0, r) else while_loop ev ex i c b k r)))"
    by (rule ext) simp
  with Suc show ?case by (auto intro!: ends_bind ends_if ends_return)
qed

lemma ends_do: "ends I (ev c) \<Longrightarrow> ends I (ex b) \<Longrightarrow> ends I (do_loop ev ex i c b k)"
proof (induction k)
  case 0
  show ?case by (simp add: ends_def)
next
  case (Suc k)
  have "do_loop ev ex i c b (Suc k) = (\<lambda>r. rbind (ex b r) (\<lambda>(rc, r).
     if must_stop i r then Inr (0, r)
     else rbind (ev c r) (\<lambda>(v, r). if \<not> sv_truthy v then Inr (0, r) else do_loop ev ex i c b k r)))"
    by (rule ext) simp
  with Suc show ?case by (auto intro!: ends_bind ends_if ends_return)
qed

lemma ends_for:
  assumes "ends I (ev c)" "ends I (ex b)" "\<And>e. e \<in> set ps \<Longrightarrow> ends I (ev e)"
  shows "ends I (for_loop ev ex i c ps b k)"
proof (induction k)
  case 0
  show ?case by (simp add: ends_def)
next
  case (Suc k)
  have "for_loop ev ex i c ps b (Suc k) = (\<lambda>r.
     rbind (if c = E_NULL then Inr (SInt 1, r) else ev c r) (\<lambda>(v, r).
       if \<not> sv_truthy v then Inr (0, r)
       else rbind (ex b r) (\<lambda>(rc, r). if must_stop i r then Inr (0, r)
         else rbind (eval_list ev ps r) (\<lambda>(vs, r). for_loop ev ex i c ps b k r))))"
    by (rule ext) simp
  with Suc assms show ?case
    by (auto intro!: ends_bind ends_if ends_return ends_eval_list)
qed

lemma ends_block:
  assumes "\<And>s. s \<in> set ss \<Longrightarrow> ends I (ex s)" "\<And>r. I r \<Longrightarrow> \<not> top_jumping r"
  shows "ends I (block_loop ex i all k ss)"
  using assms(1)
proof (induction ss)
  case Nil
  show ?case by (simp add: ends_def)
next
  case (Cons s ss)
  have e: "ends I (ex s)" and l: "ends I (block_loop ex i all k ss)" using Cons by auto
  show ?case
  proof (rule endsI)
    fix r assume r: "I r"
    have step: "block_loop ex i all k (s # ss) r = (if top_returning r1 then Inr (0, r1)
        else if 0 \<le> pending_state (script_at r1 i) then Inr (0, r1) else block_loop ex i all k ss r1)"
      "I r1" if "ex s r = Inr (rc, r1)" for rc r1
      using that assms(2) ends_state [OF e r that] by simp_all
    show "block_loop ex i all k (s # ss) r \<noteq> Inl OutOfFuel"
    proof (cases "ex s r")
      case (Inl x)
      then show ?thesis using ends_fuel [OF e r] by simp
    next
      case (Inr p)
      obtain rc r1 where p: "p = (rc, r1)" by (cases p)
      show ?thesis using step [OF Inr [unfolded p]] ends_fuel [OF l] by simp
    qed
    fix a r' assume b: "block_loop ex i all k (s # ss) r = Inr (a, r')"
    then obtain rc r1 where x: "ex s r = Inr (rc, r1)" by (auto simp: rbind_eq_Inr)
    show "I r'" using step [OF x] ends_state [OF l] b by (simp split: if_splits)
  qed
qed

text \<open>The states the runs start from: script \<open>i\<close> runs program \<open>p\<close> and no jump is under way.\<close>

definition running :: "nat \<Rightarrow> program \<Rightarrow> region \<Rightarrow> bool" where
  "running i p r \<longleftrightarrow> i < n_scripts r \<and> prog (script_at r i) = p \<and> \<not> top_jumping r"

lemma running_eval_shape: "eval_shape r r' \<Longrightarrow> running i p r \<Longrightarrow> running i p r'"
  using keeps_scripts_n [of r r'] keeps_scripts_at [of r r' i]
  by (auto simp: running_def eval_shape_def keeps_script_def top_jumping_def same_frame_def
      split: list.splits)

lemma running_upd_top:
  "(\<And>f. jumping (g f) = jumping f) \<Longrightarrow> running i p r \<Longrightarrow> running i p (upd_top g r)"
  by (auto simp: running_def upd_top_def n_scripts_def script_at_def top_jumping_def split: list.splits)

lemma running_hook: "running i p r \<Longrightarrow> running i p (stmt_hook i l r)"
  by (auto simp: stmt_hook_def intro: running_eval_shape [OF eval_shape_quiet])

definition total_lib :: "(string \<Rightarrow> builtin option) \<Rightarrow> string \<Rightarrow> bool" where
  "total_lib lib nm \<longleftrightarrow> (\<forall>b. lib nm = Some b \<longrightarrow> (\<forall>ev i args r. b ev i args r \<noteq> Inl OutOfFuel))"

context library_mono
begin

lemma vm_eval_keeps: "keeps eval_shape (vm_eval lib n i e)"
  using shapes by blast

lemma ends_shape:
  "keeps eval_shape m \<Longrightarrow> (\<And>r. running i p r \<Longrightarrow> m r \<noteq> Inl OutOfFuel) \<Longrightarrow> ends (running i p) m"
  by (rule endsI) (blast intro: running_eval_shape dest: keepsD)+

lemma expr_ends:
  "plain_expr (total_lib lib) p e \<Longrightarrow> size e < n \<Longrightarrow> ends (running i p) (vm_eval lib n i e)"
proof (induction n arbitrary: e)
  case 0
  then show ?case by simp
next
  case (Suc n)
  let ?ev = "vm_eval lib n i" and ?ex = "vm_exec lib n i" and ?I = "running i p"
  have sub: "ends ?I (?ev e')" if "plain_expr (total_lib lib) p e'" "size e' < size e" for e'
    using that Suc by (intro Suc.IH) auto
  have subs: "ends ?I (eval_list ?ev es)"
    if "list_all (plain_expr (total_lib lib) p) es" "\<And>x. x \<in> set es \<Longrightarrow> size x < size e" for es
    using that by (intro ends_eval_list sub) (auto simp: list_all_iff)
  have comp: "ends ?I (eval_component ?ev e')" if "plain_expr (total_lib lib) p e'" "size e' < size e" for e'
    unfolding eval_component_def [abs_def]
    by (intro ends_bind sub that ends_const ends_return)
      (auto simp: component_def split: svalue.splits)
  have fin: "ends ?I (\<lambda>r. Inr (f r, r))" for f :: "region \<Rightarrow> svalue"
    by (simp add: ends_return)
  have lt: "x \<in> set es \<Longrightarrow> size x < Suc (size_list size es)" for x :: expr and es
    using size_list_estimation' [of x es "size x" size] by simp
  have "ends ?I (eval_body lib ?ev ?ex i e)"
  proof (cases e)
    case (E_STRING_LIT h k)
    then show ?thesis
      by (cases h) (auto simp: ends_def eval_body_def string_lit_def rbind_eq_Inr rbind_eq_Inl
          split: svtype.splits)
  next
    case (E_CALL h nm args)
    have a: "ends ?I (eval_list ?ev args)"
      using Suc.prems(1) E_CALL lt by (intro subs) auto
    have "eval_body lib ?ev ?ex i e r \<noteq> Inl OutOfFuel" if r: "?I r" for r
    proof
      assume "eval_body lib ?ev ?ex i e r = Inl OutOfFuel"
      then have "eval_call lib ?ev ?ex i nm args r = Inl OutOfFuel" by (simp add: eval_body_def E_CALL)
      moreover have p: "prog (script_at r i) = p" using r by (simp add: running_def)
      ultimately obtain vs r1 where 1: "eval_list ?ev args r = Inr (vs, r1)" and
        2: "(case lib (prog_str (prog (script_at r1 i)) nm) of Some b \<Rightarrow> b ?ev i vs r1
             | None \<Rightarrow> Inr (SVoid, if s_trace (script_at r1 i)
                 then emit_err (''[slemu] (stub) '' @ prog_str (prog (script_at r1 i)) nm @ ''(...)'' @ nl) r1
                 else r1)) = Inl OutOfFuel"
        using ends_fuel [OF a r] Suc.prems(1) E_CALL by (auto simp: eval_call_def rbind_eq_Inl)
      have "running i p r1" using ends_state [OF a r 1] .
      then have "prog (script_at r1 i) = p" by (simp add: running_def)
      with 2 Suc.prems(1) E_CALL show False
        by (auto simp: total_lib_def split: option.splits)
    qed
    then show ?thesis using shapes by (intro ends_shape eval_body_shape) auto
  next
    case (E_UNARY h op a)
    have "ends ?I (\<lambda>r. eval_incdec i op' a r)" for op'
      by (auto simp: ends_def eval_incdec_def Let_def split: lval.splits svalue.splits
          intro: running_eval_shape [OF eval_shape_set_cell])
    then show ?thesis using Suc.prems(1) E_UNARY
      by (auto simp: eval_body_def [abs_def] eval_unary_def [abs_def]
          intro!: ends_bind ends_if ends_return sub)
  next
    case (E_POSTFIX h op a)
    then show ?thesis
      by (auto simp: eval_body_def [abs_def] ends_def eval_postfix_def Let_def split: lval.splits
          intro: running_eval_shape [OF eval_shape_set_cell])
  next
    case (E_BINARY h op a b)
    have "eval_binary op' v w \<noteq> Inl OutOfFuel" for op' v w
      using eval_binary_total [of op' v w OutOfFuel] by auto
    then show ?thesis using Suc.prems(1) E_BINARY
      by (auto simp: eval_body_def [abs_def] eval_binop_def [abs_def]
          intro!: ends_bind ends_if ends_return ends_const sub)
  next
    case (E_ASSIGN h op a b)
    have nf: "eval_binary op' v w \<noteq> Inl OutOfFuel" for op' v w
      using eval_binary_total [of op' v w OutOfFuel] by auto
    have b: "ends ?I (?ev b)" using Suc.prems(1) E_ASSIGN by (intro sub) auto
    have as: "ends ?I (eval_assign ?ev i op' a b)" for op'
    proof (rule endsI)
      fix r assume r: "?I r"
      show "eval_assign ?ev i op' a b r \<noteq> Inl OutOfFuel"
        using ends_fuel [OF b r] nf unfolding eval_assign_def Let_def
        by (auto simp: rbind_eq_Inl split: if_splits)
      fix v r' assume "eval_assign ?ev i op' a b r = Inr (v, r')"
      then obtain w r1 u where "?ev b r = Inr (w, r1)"
        "assign_lval i (resolve_lvalue i a r) u r1 = (v, r')"
        unfolding eval_assign_def Let_def by (auto simp: rbind_eq_Inr)
      then show "?I r'"
        using ends_state [OF b r] running_eval_shape [OF eval_shape_assign] by blast
    qed
    then show ?thesis by (simp add: E_ASSIGN eval_body_def [abs_def])
  qed (use Suc.prems(1) in \<open>auto simp: eval_body_def [abs_def] lt
        intro!: ends_bind ends_return fin comp sub subs\<close>)
  then show ?case by (simp only: vm_eval_Suc)
qed

lemma stmt_ends:
  "plain_stmt (total_lib lib) p st \<Longrightarrow> stmt_size st < n \<Longrightarrow> ends (running i p) (vm_exec lib n i st)"
proof (induction n arbitrary: st)
  case 0
  then show ?case by simp
next
  case (Suc n)
  let ?ev = "vm_eval lib n i" and ?ex = "vm_exec lib n i" and ?I = "running i p"
  have sub: "ends ?I (?ex s')" if "plain_stmt (total_lib lib) p s'" "stmt_size s' < stmt_size st" for s'
    using that Suc by (intro Suc.IH) auto
  have sube: "ends ?I (?ev e)" if "plain_expr (total_lib lib) p e" "size e < stmt_size st" for e
    using that Suc by (intro expr_ends) auto
  have lt: "x \<in> set ss \<Longrightarrow> stmt_size x < Suc (sum_list (map stmt_size ss))" for x and ss
    using member_le_sum_list [of "stmt_size x" "map stmt_size ss"] by simp
  have lte: "x \<in> set es \<Longrightarrow> size x \<le> size_list size es" for x :: expr and es
    using size_list_estimation' [of x es "size x" size] by simp
  have top: "ends ?I (\<lambda>r. Inr (c, upd_top g r))" if "\<And>f. jumping (g f) = jumping f" for c :: int and g
    using that by (intro ends_return running_upd_top)
  have enter: "?I (upd_top frame_enter r)" if "?I r" for r
    using that by (intro running_upd_top) (simp_all add: frame_enter_def)
  have leave: "ends ?I (\<lambda>r. Inr (0 :: int, upd_top frame_leave r))"
    by (rule top) (simp add: frame_leave_def Let_def)
  have nj: "?I r \<Longrightarrow> \<not> top_jumping r" for r by (simp add: running_def)
  have blk: "ends ?I (block_loop ?ex i all n ss)"
    if "\<And>s. s \<in> set ss \<Longrightarrow> plain_stmt (total_lib lib) p s \<and> stmt_size s < stmt_size st" for all ss
    using that by (intro ends_block sub nj) auto
  have lst: "ends ?I (eval_list ?ev es)"
    if "list_all (plain_expr (total_lib lib) p) es" "\<And>e. e \<in> set es \<Longrightarrow> size e < stmt_size st" for es
    using that by (intro ends_eval_list sube) (auto simp: list_all_iff)
  have "ends ?I (exec_switch ?ev ?ex n i st)"
  proof (cases st)
    case (S_DECL l t nm e)
    have "ends ?I (?ev e)" using Suc.prems(1) S_DECL by (intro sube) simp_all
    then have 1: "ends ?I (\<lambda>r. if e = E_NULL then Inr (SVoid, r) else ?ev e r)"
      by (intro ends_if ends_return)
    have "ends ?I (exec_decl ?ev t nm e)"
      unfolding exec_decl_def [abs_def] Let_def
      by (rule ends_bind [OF 1], rule top) (simp add: frame_define_def)
    then show ?thesis by (simp add: S_DECL exec_switch_def [abs_def])
  next
    case (S_BLOCK l ss)
    have "ends ?I (\<lambda>r. block_loop ?ex i ss n ss (upd_top frame_enter r))"
      using Suc.prems(1) S_BLOCK lt by (intro ends_pre [OF blk] enter) (auto simp: list_all_iff)
    then show ?thesis
      by (auto simp: S_BLOCK exec_switch_def [abs_def] intro!: ends_bind leave)
  next
    case (S_FOR l ini c ps b)
    have "ends ?I (\<lambda>r. eval_list ?ev ini (upd_top frame_enter r))"
      using Suc.prems(1) S_FOR by (intro ends_pre [OF lst] enter) (auto dest: lte)
    moreover have "ends ?I (for_loop ?ev ?ex i c ps b loop_limit)"
      using Suc.prems(1) S_FOR by (intro ends_for sube sub) (auto simp: list_all_iff dest: lte)
    ultimately show ?thesis
      by (auto simp: S_FOR exec_switch_def [abs_def] intro!: ends_bind leave)
  next
    case (S_RETURN l hv e)
    have "ends ?I (\<lambda>r. ?ev e (upd_top (\<lambda>f. f\<lparr>ret_val := SVoid\<rparr>) r))"
      using Suc.prems(1) S_RETURN by (intro ends_pre [OF sube] running_upd_top) auto
    then show ?thesis
      by (auto simp: S_RETURN exec_switch_def [abs_def] exec_return_def [abs_def]
          intro!: ends_bind ends_if ends_return top running_upd_top)
  next
    case (S_STATECHG l nm)
    then show ?thesis
      by (auto simp: exec_switch_def [abs_def]
          intro!: ends_return running_eval_shape [OF keeps_statechg])
  qed (use Suc.prems(1) in \<open>auto simp: exec_switch_def [abs_def]
      intro!: ends_bind ends_if ends_return sub sube ends_while ends_do\<close>)
  then have "ends ?I (exec_body ?ev ?ex n i st)"
    unfolding exec_body_def [abs_def]
    by (intro ends_if ends_return ends_pre [where g = "stmt_hook i (stmt_line st)"] running_hook)
  then show ?case by (simp only: vm_exec_Suc)
qed

end

end
