(* ===== verification/Volume.thy ===== *)
theory Volume
  imports Events
begin

text \<open>
  \<open>volume.c\<close>: the persistent part of a run. The economy file keeps one line per avatar; the linkset
  data store keeps a file per key, under the key with every character that may not stand in a file
  name replaced by an underscore, so that keys which differ only in such characters share a file.
  Whether a file can be opened for writing is the host's business.
\<close>

definition volume_open :: volume where
  \<comment> \<open>a volume in a fresh directory\<close>
  "volume_open = \<lparr>v_economy = None, v_lsd = []\<rparr>"

subsection \<open>The economy\<close>

definition tab :: char where
  "tab = CHR 0x09"

definition economy_line :: "avatar \<Rightarrow> string" where
  "economy_line a = av_uuid a @ [tab] @ show_ll (balance a) @ [tab] @ av_name a @ nl"

definition volume_save_economy :: "region \<Rightarrow> region" where
  "volume_save_economy r = (case vol r of None \<Rightarrow> r
     | Some v \<Rightarrow> if h_can_open (host r) ''economy.txt''
         then r\<lparr>vol := Some (v\<lparr>v_economy := Some (concat (map economy_line (avatars r)))\<rparr>)\<rparr>
         else r)"

text \<open>One line: key, balance and name between tabs. A line without a tab is skipped. The name of a
  known avatar stays, as it is never null.\<close>

definition load_line :: "string \<Rightarrow> region \<Rightarrow> region" where
  "load_line l r =
    (if tab \<notin> set l then r
     else
       let u = takeWhile (\<lambda>c. c \<noteq> tab) l;
           rest = tl (dropWhile (\<lambda>c. c \<noteq> tab) l);
           bal = strtoll 10 (takeWhile (\<lambda>c. c \<noteq> tab) rest);
           nm = (if tab \<in> set rest then first_line (tl (dropWhile (\<lambda>c. c \<noteq> tab) rest)) else [])
       in case find_avatar_idx r u of
            Some i \<Rightarrow> upd_avatar i (\<lambda>a. a\<lparr>balance := bal\<rparr>) r
          | None \<Rightarrow> snd (region_add_avatar u bal (if nm = [] then None else Some nm) r))"

definition volume_load_economy :: "region \<Rightarrow> region" where
  "volume_load_economy r = (case vol r of None \<Rightarrow> r
     | Some v \<Rightarrow> (case v_economy v of None \<Rightarrow> r
         | Some txt \<Rightarrow> fold (\<lambda>l. load_line (cstr l)) (fgets_lines 511 txt) r))"

subsection \<open>Linkset data\<close>

definition safe_char :: "char \<Rightarrow> char" where
  "safe_char c = (if isalnum c \<or> c = CHR ''_'' \<or> c = CHR ''-'' \<or> c = CHR ''.'' then c else CHR ''_'')"

definition sanitise_key :: "string \<Rightarrow> string" where
  "sanitise_key k = map safe_char k"

text \<open>The files of the directory, keyed by name without the extension.\<close>

fun file_write :: "string \<Rightarrow> string \<Rightarrow> (string \<times> string) list \<Rightarrow> (string \<times> string) list" where
  "file_write k v [] = [(k, v)]"
| "file_write k v ((k', v') # fs) = (if k = k' then (k, v) # fs else (k', v') # file_write k v fs)"

definition file_remove :: "string \<Rightarrow> (string \<times> string) list \<Rightarrow> (string \<times> string) list" where
  "file_remove k fs = filter (\<lambda>(k', v). k' \<noteq> k) fs"

definition volume_lsd_write :: "(string \<Rightarrow> bool) \<Rightarrow> string \<Rightarrow> string \<Rightarrow> volume \<Rightarrow> bool \<times> volume" where
  "volume_lsd_write can_open k val v =
    (let f = sanitise_key k in
     if can_open f then (True, v\<lparr>v_lsd := file_write f val (v_lsd v)\<rparr>) else (False, v))"

definition volume_lsd_read :: "string \<Rightarrow> volume \<Rightarrow> string option" where
  "volume_lsd_read k v = map_of (v_lsd v) (sanitise_key k)"

definition volume_lsd_delete :: "string \<Rightarrow> volume \<Rightarrow> bool \<times> volume" where
  "volume_lsd_delete k v =
    (map_of (v_lsd v) (sanitise_key k) \<noteq> None,
     v\<lparr>v_lsd := file_remove (sanitise_key k) (v_lsd v)\<rparr>)"

text \<open>The names in the directory. The file of the empty key, \<open>.txt\<close>, is too short to be listed.\<close>

definition volume_lsd_list_keys :: "volume \<Rightarrow> string list" where
  "volume_lsd_list_keys v = filter (\<lambda>k. k \<noteq> []) (map fst (v_lsd v))"

subsection \<open>The store as a map\<close>

lemma file_write_map: "map_of (file_write k v fs) = (map_of fs)(k \<mapsto> v)"
  by (induction k v fs rule: file_write.induct) (auto simp: fun_eq_iff)

lemma file_remove_map: "map_of (file_remove k fs) = (map_of fs)(k := None)"
  unfolding file_remove_def by (induction fs) (auto simp: fun_eq_iff)

lemma file_write_keys:
  "map fst (file_write k v fs) = (if k \<in> fst ` set fs then map fst fs else map fst fs @ [k])"
  by (induction k v fs rule: file_write.induct) auto

lemma distinct_file_write: "distinct (map fst fs) \<Longrightarrow> distinct (map fst (file_write k v fs))"
  by (auto simp: file_write_keys)

text \<open>What the scripts rely on: a store of values by key, where keys of the same class \<open>cls\<close> are one.\<close>

locale kv_store =
  fixes cls :: "'k \<Rightarrow> 'c" and get :: "'k \<Rightarrow> 's \<Rightarrow> 'v option" and put :: "'k \<Rightarrow> 'v \<Rightarrow> 's \<Rightarrow> 's"
    and del :: "'k \<Rightarrow> 's \<Rightarrow> 's"
  assumes get_put: "get k' (put k v s) = (if cls k' = cls k then Some v else get k' s)"
    and get_del: "get k' (del k s) = (if cls k' = cls k then None else get k' s)"
begin

lemma get_puts:
  "get k (fold (\<lambda>(k, v). put k v) kvs s) =
     (case find (\<lambda>(k', v). cls k' = cls k) (rev kvs) of Some (k', v) \<Rightarrow> Some v | None \<Rightarrow> get k s)"
proof (induction kvs arbitrary: s)
  case Nil
  then show ?case by simp
next
  case (Cons kv kvs)
  have f: "find P (xs @ [x]) = (case find P xs of Some y \<Rightarrow> Some y | None \<Rightarrow> if P x then Some x else None)"
    for P :: "'k \<times> 'v \<Rightarrow> bool" and xs x
    by (induction xs) auto
  obtain a b where kv: "kv = (a, b)" by (cases kv)
  show ?case
    using Cons.IH [of "put a b s"] by (auto simp: kv f get_put split: option.splits)
qed

lemma put_put: "get k' (put k v (put k w s)) = get k' (put k v s)"
  by (simp add: get_put)

lemma del_put: "get k (del k (put k v s)) = None"
  by (simp add: get_del)

end

interpretation lsd: kv_store sanitise_key volume_lsd_read
  "\<lambda>k v s. snd (volume_lsd_write (\<lambda>_. True) k v s)" "\<lambda>k s. snd (volume_lsd_delete k s)"
  by unfold_locales
    (simp_all add: volume_lsd_read_def volume_lsd_write_def volume_lsd_delete_def file_write_map
      file_remove_map Let_def)

subsection \<open>Saving and loading the economy\<close>

definition plain_avatar :: "avatar \<Rightarrow> bool" where
  "plain_avatar a \<longleftrightarrow> c_string (economy_line a) \<and> tab \<notin> set (av_uuid a) \<and>
     CHR 0x0A \<notin> set (av_uuid a) \<and> CHR 0x0A \<notin> set (av_name a) \<and> length (economy_line a) \<le> 511"

lemma fgets_pieces_line:
  assumes "CHR 0x0A \<notin> set l" "length l < room" "room \<le> k"
  shows "fgets_pieces k room acc (l @ CHR 0x0A # s) = (rev acc @ l @ [CHR 0x0A]) # fgets_pieces k k [] s"
  using assms
proof (induction l arbitrary: room acc)
  case Nil
  then show ?case by simp
next
  case (Cons c l)
  then show ?case using Cons.IH [of "room - 1" "c # acc"] by auto
qed

lemma takeWhile_tab: "tab \<notin> set u \<Longrightarrow> takeWhile (\<lambda>c. c \<noteq> tab) (u @ tab # s) = u"
  and dropWhile_tab: "tab \<notin> set u \<Longrightarrow> dropWhile (\<lambda>c. c \<noteq> tab) (u @ tab # s) = tab # s"
  by (induction u) auto

lemma show_ll_no_tab: "tab \<notin> set (show_ll x)" and show_ll_no_nl: "CHR 0x0A \<notin> set (show_ll x)"
proof -
  have "tab \<notin> set (show_nat n)" for n
    using show_nat_isdigit [of tab n] by (auto simp: isdigit_def ord_char_def tab_def)
  then show "tab \<notin> set (show_ll x)" by (auto simp: show_ll_def show_int_def tab_def)
  show "CHR 0x0A \<notin> set (show_ll x)" by (simp add: show_ll_def newline_not_in_show_int)
qed

lemma first_line_nl: "CHR 0x0A \<notin> set u \<Longrightarrow> first_line (u @ nl) = u"
  by (induction u) (auto simp: first_line_def nl_def)

lemma load_economy_line:
  assumes a: "plain_avatar a"
  shows "load_line (economy_line a) r = (case find_avatar_idx r (av_uuid a) of
     Some i \<Rightarrow> upd_avatar i (\<lambda>b. b\<lparr>balance := balance a\<rparr>) r
   | None \<Rightarrow> snd (region_add_avatar (av_uuid a) (balance a) (if av_name a = [] then None else Some (av_name a)) r))"
proof -
  let ?rest = "show_ll (balance a) @ tab # av_name a @ nl"
  have l: "economy_line a = av_uuid a @ tab # ?rest" by (simp add: economy_line_def)
  have u: "tab \<notin> set (av_uuid a)" using a by (simp add: plain_avatar_def)
  have n: "first_line (av_name a @ nl) = av_name a"
    using a by (intro first_line_nl) (simp add: plain_avatar_def)
  have eqs: "takeWhile (\<lambda>c. c \<noteq> tab) (economy_line a) = av_uuid a"
    "tl (dropWhile (\<lambda>c. c \<noteq> tab) (economy_line a)) = ?rest"
    "takeWhile (\<lambda>c. c \<noteq> tab) ?rest = show_ll (balance a)"
    "tl (dropWhile (\<lambda>c. c \<noteq> tab) ?rest) = av_name a @ nl"
    unfolding l by (simp_all add: takeWhile_tab dropWhile_tab u show_ll_no_tab)
  have t: "tab \<in> set (economy_line a)" "tab \<in> set ?rest" by (simp_all add: l)
  have bal: "strtoll 10 (show_ll (balance a)) = balance a" by (simp add: strtoll_show_ll)
  show ?thesis
    unfolding load_line_def Let_def
    by (simp only: eqs t n bal not_True_eq_False if_True if_False)
qed

lemma fgets_economy:
  "list_all plain_avatar as \<Longrightarrow> fgets_lines 511 (concat (map economy_line as)) = map economy_line as"
proof (induction as)
  case Nil
  then show ?case by (simp add: fgets_lines_def)
next
  case (Cons a as)
  let ?l = "av_uuid a @ [tab] @ show_ll (balance a) @ [tab] @ av_name a"
  have l: "economy_line a = ?l @ [CHR 0x0A]" by (simp add: economy_line_def nl_def)
  have "CHR 0x0A \<notin> set ?l" "length ?l < 511"
    using Cons.prems show_ll_no_nl by (auto simp: plain_avatar_def economy_line_def nl_def tab_def)
  from fgets_pieces_line [OF this order.refl, of "[]" "concat (map economy_line as)"]
  show ?case using Cons by (simp add: fgets_lines_def l)
qed

lemma fold_load_economy:
  assumes "list_all plain_avatar as" "distinct (map av_uuid as)"
    "set (map av_uuid as) \<inter> set (av_keys r) = {}"
  shows "avatars (fold (\<lambda>l. load_line (cstr l)) (map economy_line as) r) =
     avatars r @ map (\<lambda>a. a\<lparr>attached_object := None\<rparr>) as"
  using assms
proof (induction as arbitrary: r)
  case Nil
  then show ?case by simp
next
  case (Cons a as)
  let ?r = "load_line (economy_line a) r"
  have none: "find_avatar_idx r (av_uuid a) = None"
    using Cons.prems(3) by (simp add: find_avatar_idx_None)
  have "avatars ?r = avatars r @ [a\<lparr>attached_object := None\<rparr>]"
    using Cons.prems(1) none by (simp add: load_economy_line region_add_avatar_def)
  moreover have "av_keys ?r = av_keys r @ [av_uuid a]"
    using calculation by (simp add: av_keys_def)
  moreover have "cstr (economy_line a) = economy_line a"
    using Cons.prems(1) by (simp add: plain_avatar_def)
  ultimately show ?case using Cons.IH [of ?r] Cons.prems by auto
qed

text \<open>C38 Balances survive a run: the economy file a region can write, loaded by a region that
  knows no avatar yet, gives back every avatar with its key, name and balance, in order (what an
  avatar wears is not saved). The keys must be distinct, without tabs and line ends, the names without line ends, and a
  line must be at most 511 bytes long, as much as it is read in one piece.\<close>

theorem economy_roundtrip:
  assumes "vol r \<noteq> None" "h_can_open (host r) ''economy.txt''"
    and "list_all plain_avatar (avatars r)" "distinct (av_keys r)"
    and "vol r0 = vol (volume_save_economy r)" "avatars r0 = []"
  shows "avatars (volume_load_economy r0) = map (\<lambda>a. a\<lparr>attached_object := None\<rparr>) (avatars r)"
proof -
  from assms(1) obtain v where v: "vol r = Some v" by auto
  have "vol r0 = Some (v\<lparr>v_economy := Some (concat (map economy_line (avatars r)))\<rparr>)"
    using assms(2,5) v by (simp add: volume_save_economy_def)
  then have "volume_load_economy r0 = fold (\<lambda>l. load_line (cstr l)) (map economy_line (avatars r)) r0"
    using assms(3) by (simp add: volume_load_economy_def fgets_economy)
  moreover have "av_keys r0 = []" using assms(6) by (simp add: av_keys_def)
  ultimately show ?thesis
    using fold_load_economy [of "avatars r" r0] assms(3,4,6) by (simp add: av_keys_def)
qed

text \<open>C39 After a write that could open its file, a read gives the value written for every key
  with the same sanitised name and the old value for every other key; a deleted key reads as
  absent.\<close>

theorem lsd_read_after_write:
  assumes "can_open (sanitise_key k)"
  shows "volume_lsd_write can_open k x v = (True, snd (volume_lsd_write can_open k x v)) \<and>
    volume_lsd_read k' (snd (volume_lsd_write can_open k x v)) =
      (if sanitise_key k' = sanitise_key k then Some x else volume_lsd_read k' v) \<and>
    volume_lsd_read k' (snd (volume_lsd_delete k v)) =
      (if sanitise_key k' = sanitise_key k then None else volume_lsd_read k' v)"
proof -
  have "volume_lsd_write can_open k x v = volume_lsd_write (\<lambda>_. True) k x v"
    using assms by (simp add: volume_lsd_write_def)
  then show ?thesis
    using lsd.get_put [of k' k x v] lsd.get_del [of k' k v]
    by (simp add: volume_lsd_write_def Let_def)
qed

subsection \<open>Effects on the region\<close>

lemma av_keys_load_line: "distinct (av_keys r) \<Longrightarrow> distinct (av_keys (load_line l r))"
  by (auto simp: load_line_def Let_def av_keys_upd_avatar distinct_add_avatar split: option.split)

lemma distinct_load_economy: "distinct (av_keys r) \<Longrightarrow> distinct (av_keys (volume_load_economy r))"
proof -
  have "distinct (av_keys r) \<Longrightarrow> distinct (av_keys (fold (\<lambda>l. load_line (cstr l)) ls r))" for ls r
    by (induction ls arbitrary: r) (auto intro: av_keys_load_line)
  then show "distinct (av_keys r) \<Longrightarrow> distinct (av_keys (volume_load_economy r))"
    by (simp add: volume_load_economy_def split: option.split)
qed

end
