(* ===== verification/Http.thy ===== *)
theory Http
  imports Events
begin

text \<open>
  \<open>http.c\<close>: outgoing requests, answered from the fixture table or by the host's \<open>curl\<close>; and
  \<open>config.c\<close>: the world file, which also adds fixtures. Entries are pushed at the head of the table,
  and the first match from the head answers, so of two entries that match the later one wins.
\<close>

subsection \<open>Fixture files\<close>

definition new_fixture :: fixture where
  "new_fixture = \<lparr>match_url = None, fx_status = 200, fx_body = None\<rparr>"

definition chomp_cr :: "string \<Rightarrow> string" where
  "chomp_cr l = (if l \<noteq> [] \<and> last l = CHR 0x0D then butlast l else l)"

fun upd_head :: "('a \<Rightarrow> 'a) \<Rightarrow> 'a list \<Rightarrow> 'a list" where
  "upd_head f [] = []"
| "upd_head f (x # xs) = f x # xs"

text \<open>One line of the file; \<open>p\<close> is the text from the start of the line on, because \<open>atoi\<close> reads past
  the end of it. The state is whether an entry is open and the table.\<close>

definition fixture_line :: "string \<Rightarrow> bool \<times> fixture list \<Rightarrow> bool \<times> fixture list" where
  "fixture_line p st = (case st of (cur, fs) \<Rightarrow>
    (let t = chomp_cr (first_line p) in
     if t = [] then (False, fs)
     else
       let fs1 = (if cur then fs else new_fixture # fs) in
       (True,
        if is_prefix ''URL_MATCH'' t then
          upd_head (\<lambda>e. e\<lparr>match_url := Some (dropWhile is_blank (drop 9 t))\<rparr>) fs1
        else if is_prefix ''STATUS'' t then upd_head (\<lambda>e. e\<lparr>fx_status := atoi (drop 6 p)\<rparr>) fs1
        else if is_prefix ''BODY'' t then
          upd_head (\<lambda>e. e\<lparr>fx_body := Some (dropWhile is_blank (drop 4 t))\<rparr>) fs1
        else fs1)))"

definition http_fixture_load :: "string \<Rightarrow> fixture list" where
  "http_fixture_load buf = snd (fold fixture_line (line_starts True (cstr buf)) (False, []))"

definition fixture_matches :: "string \<Rightarrow> fixture \<Rightarrow> bool" where
  "fixture_matches url e = (case match_url e of Some u \<Rightarrow> has_substr url u | None \<Rightarrow> False)"

definition http_fixture_match :: "fixture list option \<Rightarrow> string \<Rightarrow> fixture option" where
  "http_fixture_match f url = (case f of None \<Rightarrow> None | Some fs \<Rightarrow> find (fixture_matches url) fs)"

subsection \<open>Requests\<close>

text \<open>The method and the MIME type among the parameters, a list of keys and values; a value that is
  not text would be read as a pointer.\<close>

fun http_params :: "svalue list \<Rightarrow> string \<Rightarrow> string \<Rightarrow> (string \<times> string) res" where
  "http_params (k # v # ps) meth mime =
    (let key = (case k of SInt i \<Rightarrow> i | _ \<Rightarrow> 0) in
     if key = 0 then (case sv_text v of Some s \<Rightarrow> http_params ps (take 15 s) mime | None \<Rightarrow> Inl BadMemory)
     else if key = 1 then (case sv_text v of Some s \<Rightarrow> http_params ps meth (take 63 s) | None \<Rightarrow> Inl BadMemory)
     else http_params ps meth mime)"
| "http_params _ meth mime = Inr (meth, mime)"

definition real_http_get ::
    "string \<Rightarrow> string \<Rightarrow> svalue list \<Rightarrow> region \<Rightarrow> ((int \<times> string) \<times> region) res" where
  "real_http_get url body ps r =
    rbind (http_params ps ''GET'' ''application/x-www-form-urlencoded'') (\<lambda>(meth, mime).
      (let with_body = body \<noteq> [] \<and> (meth = ''POST'' \<or> meth = ''PUT'') in
       Inr (h_curl (host r) (n_curl r) ([meth, mime, url] @ (if with_body then [body] else [])),
            r\<lparr>n_curl := Suc (n_curl r)\<rparr>)))"

definition int_value :: "int \<Rightarrow> svalue" where
  "int_value i = SInt (word_of_int i)"

definition http_request ::
    "nat \<Rightarrow> string \<Rightarrow> svalue list \<Rightarrow> string \<Rightarrow> region \<Rightarrow> (string \<times> region) res" where
  "http_request i url ps body r = (case gen_uuid r of (key, r1) \<Rightarrow>
     rbind (if http_real r1 then real_http_get url body ps r1
            else Inr ((case http_fixture_match (http_fix r1) url of
                Some fx \<Rightarrow> (fx_status fx, opt_str (fx_body fx))
              | None \<Rightarrow> (0, ''(no fixture match)'')), r1))
       (\<lambda>((status, resp), r2).
         Inr (key, evt_http_out i url ''GET'' status (length resp)
           (script_push_event i ''http_response''
              [SKey key, int_value status, SList [], SString resp] r2))))"

subsection \<open>World files\<close>

definition next_word :: "string \<Rightarrow> string option \<times> string" where
  "next_word p =
    (let q = dropWhile is_blank p in
     if q = [] then (None, q)
     else (Some (takeWhile (\<lambda>c. \<not> is_blank c) q), drop 1 (dropWhile (\<lambda>c. \<not> is_blank c) q)))"

definition rest_of :: "string \<Rightarrow> string" where
  "rest_of p = dropWhile is_blank p"

definition trim_line :: "string \<Rightarrow> string" where
  \<comment> \<open>without the trailing blanks and carriage returns\<close>
  "trim_line l = rev (dropWhile (\<lambda>c. c = CHR 0x0D \<or> is_blank c) (rev l))"

definition or_default :: "string \<Rightarrow> string \<Rightarrow> string" where
  "or_default d s = (if s = [] then d else s)"

definition balance_of :: "string option \<Rightarrow> llong" where
  "balance_of b = (case b of Some s \<Rightarrow> strtoll 10 s | None \<Rightarrow> 0)"

definition upd_fixture :: "(fixture \<Rightarrow> fixture) \<Rightarrow> region \<Rightarrow> region" where
  "upd_fixture f r = r\<lparr>http_fix := map_option (upd_head f) (http_fix r)\<rparr>"

definition new_fix :: "region \<Rightarrow> region" where
  "new_fix r = r\<lparr>http_fix := Some (new_fixture # (case http_fix r of Some fs \<Rightarrow> fs | None \<Rightarrow> []))\<rparr>"

text \<open>One directive; the flag tells whether a fixture is open, always the head of the table.\<close>

definition config_directive :: "string \<Rightarrow> string \<Rightarrow> bool \<times> region \<Rightarrow> bool \<times> region" where
  "config_directive w cur st = (case st of (fx, r) \<Rightarrow>
     if w = ''OWNER'' then
       (case next_word cur of (u, cur1) \<Rightarrow> case next_word cur1 of (b, cur2) \<Rightarrow>
         (let nm = or_default ''Owner'' (rest_of cur2);
              k = (case u of Some u \<Rightarrow> u | None \<Rightarrow> null_key)
          in (fx, region_set_owner k (Some nm) (snd (region_add_avatar k (balance_of b) (Some nm) r)))))
     else if w = ''AVATAR'' then
       (case next_word cur of (u, cur1) \<Rightarrow> case next_word cur1 of (b, cur2) \<Rightarrow>
         (fx, case u of None \<Rightarrow> r
              | Some k \<Rightarrow> snd (region_add_avatar k (balance_of b)
                  (Some (or_default ''Avatar'' (rest_of cur2))) r)))
     else if w = ''GROUP'' then
       (case next_word cur of (u, cur1) \<Rightarrow>
         (fx, case u of None \<Rightarrow> r
              | Some k \<Rightarrow> snd (region_add_group k (Some (or_default ''Group'' (rest_of cur1))) r)))
     else if w = ''GROUP_MEMBER'' then
       (case next_word cur of (g, cur1) \<Rightarrow> case next_word cur1 of (a, cur2) \<Rightarrow>
         (fx, case (g, a) of (Some g, Some a) \<Rightarrow> snd (region_group_add_member g a r) | _ \<Rightarrow> r))
     else if w = ''FIXTURE_URL'' then
       (True, upd_fixture (\<lambda>e. e\<lparr>match_url := Some (rest_of cur)\<rparr>) (new_fix r))
     else if w = ''FIXTURE_STATUS'' then
       (fx, if fx then upd_fixture (\<lambda>e. e\<lparr>fx_status := atoi (rest_of cur)\<rparr>) r else r)
     else if w = ''FIXTURE_BODY'' then
       (fx, if fx then upd_fixture (\<lambda>e. e\<lparr>fx_body := Some (rest_of cur)\<rparr>) r else r)
     else if w = ''FIXTURE_END'' then (False, r)
     else (fx, r))"

text \<open>A line of the file: blank lines and comments are skipped. The first non-blank character is
  looked for from the start of the line.\<close>

definition config_line :: "string \<Rightarrow> bool \<times> region \<Rightarrow> bool \<times> region" where
  "config_line p st =
    (let l = trim_line (first_line p); q = dropWhile is_blank p in
     if l = [] \<or> (q \<noteq> [] \<and> hd q = CHR ''#'') then st
     else (case next_word l of (None, _) \<Rightarrow> st | (Some w, cur) \<Rightarrow> config_directive w cur st))"

definition config_load :: "string option \<Rightarrow> string \<Rightarrow> region \<Rightarrow> bool \<times> region" where
  "config_load buf path r = (case buf of
     None \<Rightarrow> (False, emit_err (''slemu: cannot read config '' @ [CHR 0x27] @ path @ [CHR 0x27] @ nl) r)
   | Some txt \<Rightarrow> (True, snd (fold config_line (line_starts True (cstr txt)) (False, r))))"

subsection \<open>Facts\<close>

text \<open>C40 Of all the fixtures that match a URL the one added last answers, where the manual page has the first: a fixture
  of the world file is put in front of the table, so that it is the answer to the URLs it matches and leaves the answer
  to every other URL unchanged.\<close>

theorem fixture_last_wins:
  assumes "config_directive ''FIXTURE_URL'' cur (fx, r) = (fx', r')"
  shows "http_fixture_match (http_fix r') url =
     (if has_substr url (rest_of cur)
      then Some \<lparr>match_url = Some (rest_of cur), fx_status = 200, fx_body = None\<rparr>
      else http_fixture_match (http_fix r) url)"
  using assms
  by (auto simp: config_directive_def upd_fixture_def new_fix_def new_fixture_def
      http_fixture_match_def fixture_matches_def split: option.splits)

lemma distinct_config_directive:
  "config_directive w cur (fx, r) = (fx', r') \<Longrightarrow> distinct (av_keys r) \<Longrightarrow> distinct (av_keys r')"
  unfolding config_directive_def
  by (auto simp: Let_def av_keys_set_owner distinct_add_avatar split: if_splits prod.splits option.splits)
    (auto simp: av_keys_def region_add_group_def region_group_add_member_def upd_fixture_def new_fix_def
      split: option.splits)

end
