(* ===== verification/BuiltinsWorld.thy ===== *)
theory BuiltinsWorld
  imports VmFuel Volume Http
begin

unbundle bit_operations_syntax

text \<open>
  The library functions of \<open>builtins.c\<close> that act on the region: chat and dialogs, time, identity and
  life cycle of the object, listen handles and link messages, detection, permissions and money,
  linkset data, HTTP. A function takes the script it runs in and its arguments.
\<close>

subsection \<open>Arguments\<close>

definition ai :: "svalue list \<Rightarrow> nat \<Rightarrow> llong" where
  "ai a i = (if length a \<le> i then 0 else case a ! i of SInt n \<Rightarrow> n | SFloat f \<Rightarrow> d_to_ll f
     | SString s \<Rightarrow> strtoll 0 s | SKey s \<Rightarrow> strtoll 0 s | _ \<Rightarrow> 0)"

definition af :: "svalue list \<Rightarrow> nat \<Rightarrow> double" where
  "af a i = (if length a \<le> i then d_zero else case a ! i of SFloat f \<Rightarrow> f | SInt n \<Rightarrow> d_of_ll n
     | SString s \<Rightarrow> strtod s | SKey s \<Rightarrow> strtod s | _ \<Rightarrow> d_zero)"

definition as_str :: "svalue list \<Rightarrow> nat \<Rightarrow> string" where
  "as_str a i = (if length a \<le> i then [] else opt_str (sv_text (a ! i)))"

definition ai_int :: "svalue list \<Rightarrow> nat \<Rightarrow> int" where
  \<comment> \<open>\<open>(int)ai(a, n, i)\<close>\<close>
  "ai_int a i = int_of_ll (ai a i)"

definition arg_list :: "svalue list \<Rightarrow> nat \<Rightarrow> svalue list" where
  \<comment> \<open>the elements of an argument that is a list; none otherwise\<close>
  "arg_list a i = (if i < length a then (case a ! i of SList l \<Rightarrow> l | _ \<Rightarrow> []) else [])"

subsection \<open>Chat\<close>

text \<open>The filters of a listen entry; an empty filter, or the null key, lets everything through.\<close>

definition listen_hit :: "int \<Rightarrow> string \<Rightarrow> string \<Rightarrow> string \<Rightarrow> listen_entry \<Rightarrow> bool" where
  "listen_hit ch nm key msg le \<longleftrightarrow> le_active le \<and> le_channel le = ch \<and>
     (name_filter le = [] \<or> name_filter le = nm) \<and>
     (id_filter le = [] \<or> id_filter le = null_key \<or> id_filter le = key) \<and>
     (msg_filter le = [] \<or> msg_filter le = msg)"

definition listen_args :: "int \<Rightarrow> string \<Rightarrow> string \<Rightarrow> string \<Rightarrow> svalue list" where
  "listen_args ch nm key msg = [int_value ch, SString nm, SKey key, SString msg]"

text \<open>One event for each entry of a script that \<open>hit\<close> accepts, in list order.\<close>

definition push_listens :: "(listen_entry \<Rightarrow> bool) \<Rightarrow> svalue list \<Rightarrow> nat \<Rightarrow> region \<Rightarrow> region" where
  "push_listens hit args t r =
     fold (\<lambda>le r. if hit le then script_push_event t ''listen'' args r else r) (listens (script_at r t)) r"

definition route_listen :: "int \<Rightarrow> string \<Rightarrow> string \<Rightarrow> string \<Rightarrow> region \<Rightarrow> region" where
  "route_listen ch nm key msg r =
     fold (push_listens (listen_hit ch nm key msg) (listen_args ch nm key msg)) [0 ..< n_scripts r] r"

definition chatlog_record :: "string \<Rightarrow> int \<Rightarrow> string \<Rightarrow> region \<Rightarrow> region" where
  "chatlog_record kind ch msg r =
     r\<lparr>chat_log := \<lparr>ch_kind = kind, ch_ch = ch, ch_msg = msg\<rparr> # chat_log r\<rparr>"

definition say_on :: "string \<Rightarrow> nat \<Rightarrow> int \<Rightarrow> string \<Rightarrow> region \<Rightarrow> region" where
  \<comment> \<open>the common body of \<open>llSay\<close>, \<open>llWhisper\<close>, \<open>llShout\<close> and \<open>llRegionSay\<close>\<close>
  "say_on kind i ch msg r = route_listen ch (name (script_at r i)) (uuid (script_at r i)) msg
     (chatlog_record kind ch msg (evt_chat i kind ch msg r))"

definition bi_llSay :: "nat \<Rightarrow> svalue list \<Rightarrow> region \<Rightarrow> svalue \<times> region" where
  "bi_llSay i a r = (SVoid, say_on ''say'' i (ai_int a 0) (as_str a 1) r)"

definition bi_llWhisper :: "nat \<Rightarrow> svalue list \<Rightarrow> region \<Rightarrow> svalue \<times> region" where
  "bi_llWhisper i a r = (SVoid, say_on ''whisper'' i (ai_int a 0) (as_str a 1) r)"

definition bi_llShout :: "nat \<Rightarrow> svalue list \<Rightarrow> region \<Rightarrow> svalue \<times> region" where
  "bi_llShout i a r = (SVoid, say_on ''shout'' i (ai_int a 0) (as_str a 1) r)"

definition bi_llRegionSay :: "nat \<Rightarrow> svalue list \<Rightarrow> region \<Rightarrow> svalue \<times> region" where
  "bi_llRegionSay i a r = (SVoid, say_on ''region'' i (ai_int a 0) (as_str a 1) r)"

definition bi_llOwnerSay :: "nat \<Rightarrow> svalue list \<Rightarrow> region \<Rightarrow> svalue \<times> region" where
  "bi_llOwnerSay i a r = (let msg = as_str a 0 in
     (SVoid, chatlog_record ''owner'' 0 msg (evt_chat i ''owner'' 0 msg r)))"

text \<open>To one object: every active entry on the channel hears it, whatever its filters.\<close>

definition on_channel :: "int \<Rightarrow> listen_entry \<Rightarrow> bool" where
  "on_channel ch le \<longleftrightarrow> le_active le \<and> le_channel le = ch"

definition bi_llRegionSayTo :: "nat \<Rightarrow> svalue list \<Rightarrow> region \<Rightarrow> svalue \<times> region" where
  "bi_llRegionSayTo i a r =
    (let dst = as_str a 0; ch = ai_int a 1; msg = as_str a 2;
         r1 = chatlog_record ''region-to'' ch msg (evt_chat_to i dst ch msg r);
         args = listen_args ch (name (script_at r i)) (uuid (script_at r i)) msg
     in (SVoid, fold (\<lambda>t r. if uuid (script_at r t) = dst then push_listens (on_channel ch) args t r else r)
          [0 ..< n_scripts r1] r1))"

definition bi_llInstantMessage :: "nat \<Rightarrow> svalue list \<Rightarrow> region \<Rightarrow> svalue \<times> region" where
  "bi_llInstantMessage i a r = (let msg = as_str a 1 in
     (SVoid, chatlog_record ''im'' (- 1) msg (evt_chat i ''im'' (- 1) msg r)))"

definition bi_llSetText :: "nat \<Rightarrow> svalue list \<Rightarrow> region \<Rightarrow> svalue \<times> region" where
  "bi_llSetText i a r =
    (let txt = as_str a 0;
         (rr, gg, bb) = (if 1 < length a then (case a ! 1 of SVector x y z \<Rightarrow> (x, y, z)
             | _ \<Rightarrow> (d_one, d_one, d_one)) else (d_one, d_one, d_one));
         al = (if 2 < length a then (case a ! 2 of SFloat f \<Rightarrow> f | SInt n \<Rightarrow> d_of_ll n | _ \<Rightarrow> d_one) else d_one)
     in (SVoid, evt_hud_text i txt rr gg bb al
          (upd_script i (\<lambda>s. s\<lparr>hud := \<lparr>hud_text = Some txt, hud_r = rr, hud_g = gg, hud_b = bb,
             hud_alpha = al\<rparr>\<rparr>) r)))"

definition bi_llDialog :: "nat \<Rightarrow> svalue list \<Rightarrow> region \<Rightarrow> svalue \<times> region" where
  "bi_llDialog i a r =
    (let dst = as_str a 0; msg = as_str a 1; ch = ai_int a 3; bs = map sv_to_string (arg_list a 2)
     in (SVoid, dialog_open i dst msg bs ch False (evt_dialog i dst msg bs ch False r)))"

definition bi_llTextBox :: "nat \<Rightarrow> svalue list \<Rightarrow> region \<Rightarrow> svalue \<times> region" where
  "bi_llTextBox i a r =
    (let dst = as_str a 0; msg = as_str a 1; ch = ai_int a 2
     in (SVoid, dialog_open i dst msg [] ch True (evt_dialog i dst msg [] ch True r)))"

definition bi_llLoadURL :: "nat \<Rightarrow> svalue list \<Rightarrow> region \<Rightarrow> svalue \<times> region" where
  "bi_llLoadURL i a r = (SVoid, evt_loadurl i (as_str a 0) (as_str a 1) (as_str a 2) r)"

subsection \<open>Time\<close>

definition bi_llGetTime :: "nat \<Rightarrow> svalue list \<Rightarrow> region \<Rightarrow> svalue" where
  "bi_llGetTime i a r = SFloat (virtual_now r)"

definition next_time :: "(host \<Rightarrow> nat \<Rightarrow> svalue) \<Rightarrow> region \<Rightarrow> svalue \<times> region" where
  "next_time f r = (f (host r) (n_time r), r\<lparr>n_time := Suc (n_time r)\<rparr>)"

definition bi_llGetUnixTime :: "nat \<Rightarrow> svalue list \<Rightarrow> region \<Rightarrow> svalue \<times> region" where
  "bi_llGetUnixTime i a = next_time (\<lambda>h k. SInt (h_time h k))"

definition bi_llGetTimestamp :: "nat \<Rightarrow> svalue list \<Rightarrow> region \<Rightarrow> svalue \<times> region" where
  "bi_llGetTimestamp i a = next_time (\<lambda>h k. SString (h_timestamp h k))"

definition bi_llGetDate :: "nat \<Rightarrow> svalue list \<Rightarrow> region \<Rightarrow> svalue \<times> region" where
  "bi_llGetDate i a = next_time (\<lambda>h k. SString (h_date h k))"

definition bi_llGetWallclock :: "nat \<Rightarrow> svalue list \<Rightarrow> region \<Rightarrow> svalue \<times> region" where
  "bi_llGetWallclock i a = next_time (\<lambda>h k. SFloat (h_wallclock h k))"

definition bi_llSleep :: "nat \<Rightarrow> svalue list \<Rightarrow> region \<Rightarrow> svalue \<times> region" where
  "bi_llSleep i a r = (SVoid, r\<lparr>virtual_offset := d_add (virtual_offset r) (af a 0)\<rparr>)"

definition bi_llSetTimerEvent :: "nat \<Rightarrow> svalue list \<Rightarrow> region \<Rightarrow> svalue \<times> region" where
  "bi_llSetTimerEvent i a r =
    (let iv = af a 0 in
     (SVoid, upd_script i (\<lambda>s. s\<lparr>timer_interval := iv,
        timer_due := (if d_lt d_zero iv then d_add (virtual_now r) iv else d_zero)\<rparr>) r))"

subsection \<open>The object\<close>

definition default_owner :: string where
  "default_owner = ''11111111-1111-1111-1111-111111111111''"

definition owner_uuid :: "region \<Rightarrow> string" where
  "owner_uuid r = (case avatars r of a # as \<Rightarrow> av_uuid a
     | [] \<Rightarrow> (case env_owner r of Some u \<Rightarrow> u | None \<Rightarrow> default_owner))"

definition bi_llGetKey :: "nat \<Rightarrow> svalue list \<Rightarrow> region \<Rightarrow> svalue" where
  "bi_llGetKey i a r = SKey (uuid (script_at r i))"

definition bi_llGetOwner :: "nat \<Rightarrow> svalue list \<Rightarrow> region \<Rightarrow> svalue" where
  "bi_llGetOwner i a r = SKey (owner_uuid r)"

definition bi_llGetObjectName :: "nat \<Rightarrow> svalue list \<Rightarrow> region \<Rightarrow> svalue" where
  "bi_llGetObjectName i a r = SString (name (script_at r i))"

definition bi_llSetObjectName :: "nat \<Rightarrow> svalue list \<Rightarrow> region \<Rightarrow> svalue \<times> region" where
  "bi_llSetObjectName i a r = (SVoid, upd_script i (\<lambda>s. s\<lparr>name := as_str a 0\<rparr>) r)"

definition bi_llGetObjectDesc :: "nat \<Rightarrow> svalue list \<Rightarrow> region \<Rightarrow> svalue" where
  "bi_llGetObjectDesc i a r = SString (desc (script_at r i))"

definition bi_llSetObjectDesc :: "nat \<Rightarrow> svalue list \<Rightarrow> region \<Rightarrow> svalue \<times> region" where
  "bi_llSetObjectDesc i a r = (SVoid, upd_script i (\<lambda>s. s\<lparr>desc := as_str a 0\<rparr>) r)"

definition bi_llDie :: "nat \<Rightarrow> svalue list \<Rightarrow> region \<Rightarrow> svalue \<times> region" where
  "bi_llDie i a r = (SVoid, upd_script i (\<lambda>s. (flush_events s)\<lparr>timer_interval := d_zero\<rparr>)
     (emit_err (''[slemu] '' @ name (script_at r i) @ '' called llDie() - simulated removal'' @ nl) r))"

text \<open>Globals with an initialiser are evaluated again, in order; the others become void. The state
  becomes the default one, the queue is emptied and \<open>state_entry\<close> sent.\<close>

fun reset_globals :: "evaluator \<Rightarrow> nat \<Rightarrow> nat \<Rightarrow> global_var list \<Rightarrow> region \<Rightarrow> region res" where
  "reset_globals ev i k [] r = Inr r"
| "reset_globals ev i k (g # gs) r =
     (if gv_init g = E_NULL then reset_globals ev i (Suc k) gs r
      else rbind (ev (gv_init g) r) (\<lambda>(v, r).
        reset_globals ev i (Suc k) gs (upd_script i (\<lambda>s. s\<lparr>globals := (globals s)[k := v]\<rparr>) r)))"

definition default_state :: "program \<Rightarrow> nat option" where
  "default_state p = find_index (\<lambda>st. sd_is_default st \<noteq> 0) (p_states p)"

definition reset_state :: "script \<Rightarrow> script" where
  "reset_state s = (flush_events s)\<lparr>cur_state :=
     (case default_state (prog s) of Some k \<Rightarrow> int k | None \<Rightarrow> cur_state s)\<rparr>"

definition bi_llResetScript :: builtin where
  "bi_llResetScript ev i a r =
     rbind (reset_globals ev i 0 (p_globals (prog (script_at r i)))
              (upd_script i (\<lambda>s. s\<lparr>globals := map (\<lambda>_. SVoid) (globals s)\<rparr>) r))
       (\<lambda>r. Inr (SVoid, script_push_event i ''state_entry'' [] (upd_script i reset_state r)))"

definition bi_llGetScriptName :: "nat \<Rightarrow> svalue list \<Rightarrow> region \<Rightarrow> svalue" where
  "bi_llGetScriptName i a r = SString (p_path (prog (script_at r i)))"

definition vec_of_ints :: "int \<Rightarrow> int \<Rightarrow> int \<Rightarrow> svalue" where
  "vec_of_ints x y z = SVector (d_of_int x) (d_of_int y) (d_of_int z)"

text \<open>Setting position or rotation only reports it, without escaping the object's name. The components
  are read from the argument's union, whatever its type.\<close>

definition four_components :: "svalue \<Rightarrow> (double \<times> double \<times> double \<times> double) res" where
  "four_components v = (case v of SVector x y z \<Rightarrow> Inr (x, y, z, d_zero) | SRot x y z s \<Rightarrow> Inr (x, y, z, s)
     | _ \<Rightarrow> Inl BadMemory)"

definition set_report :: "nat \<Rightarrow> string \<Rightarrow> (string \<times> double) list \<Rightarrow> region \<Rightarrow> region" where
  "set_report i ty kvs r = emit (j_open r ty @ '','' @ snap_kv ''src'' (name (script_at r i)) @
     concat (map (\<lambda>(k, v). j_kv_dbl k v) kvs) @ j_close) r"

definition bi_llSetPos :: builtin where
  "bi_llSetPos ev i a r =
    (if json_events r then
       rbind (four_components (if a = [] then vec_of_ints 0 0 0 else hd a)) (\<lambda>(x, y, z, s).
         Inr (SVoid, set_report i ''set-pos'' [(''x'', x), (''y'', y), (''z'', z)] r))
     else Inr (SVoid, r))"

definition bi_llSetRot :: builtin where
  "bi_llSetRot ev i a r =
    (if json_events r then
       rbind (four_components (if a = [] then sv_zero SV_ROTATION else hd a)) (\<lambda>(x, y, z, s).
         Inr (SVoid, set_report i ''set-rot'' [(''x'', x), (''y'', y), (''z'', z), (''s'', s)] r))
     else Inr (SVoid, r))"

subsection \<open>Listen handles and links\<close>

definition bi_llListen :: "nat \<Rightarrow> svalue list \<Rightarrow> region \<Rightarrow> svalue \<times> region" where
  "bi_llListen i a r =
    (let h = next_handle r;
         e = \<lparr>le_handle = h, le_channel = ai_int a 0, name_filter = as_str a 1, id_filter = as_str a 2,
              msg_filter = as_str a 3, le_active = True\<rparr>
     in (SInt (ll_of_cint h),
         upd_script i (\<lambda>s. s\<lparr>listens := e # listens s\<rparr>) (r\<lparr>next_handle := h + 1\<rparr>)))"

definition bi_llListenRemove :: "nat \<Rightarrow> svalue list \<Rightarrow> region \<Rightarrow> svalue \<times> region" where
  "bi_llListenRemove i a r = (let h = cint_of_ll (ai a 0) in
     (SVoid, upd_script i (\<lambda>s. s\<lparr>listens := remove_first (\<lambda>e. le_handle e = h) (listens s)\<rparr>) r))"

definition bi_llListenControl :: "nat \<Rightarrow> svalue list \<Rightarrow> region \<Rightarrow> svalue \<times> region" where
  "bi_llListenControl i a r = (let h = cint_of_ll (ai a 0); on = cint_of_ll (ai a 1) \<noteq> 0 in
     (SVoid, upd_script i (\<lambda>s. s\<lparr>listens :=
        map (\<lambda>e. if le_handle e = h then e\<lparr>le_active := on\<rparr> else e) (listens s)\<rparr>) r))"

text \<open>Which scripts a link number addresses.\<close>

definition link_delivers :: "int \<Rightarrow> nat \<Rightarrow> nat \<Rightarrow> script \<Rightarrow> bool" where
  "link_delivers lk i t s =
    (if lk = - 1 then True else if lk = - 2 then t \<noteq> i else if lk = - 3 then 2 \<le> link_num s
     else if lk = - 4 then t = i else lk = link_num s)"

definition bi_llMessageLinked :: "nat \<Rightarrow> svalue list \<Rightarrow> region \<Rightarrow> svalue \<times> region" where
  "bi_llMessageLinked i a r =
    (let lk = ai_int a 0; num = ai a 1; str = as_str a 2; key = as_str a 3;
         r1 = evt_link_msg i lk num str key r;
         args = [int_value (link_num (script_at r1 i)), SInt num, SString str, SKey key]
     in (SVoid, fold (\<lambda>t r. if link_delivers lk i t (script_at r t)
                           then script_push_event t ''link_message'' args r else r)
          [0 ..< n_scripts r1] r1))"

definition bi_llGetLinkNumber :: "nat \<Rightarrow> svalue list \<Rightarrow> region \<Rightarrow> svalue" where
  "bi_llGetLinkNumber i a r = int_value (link_num (script_at r i))"

definition script_of_link :: "region \<Rightarrow> int \<Rightarrow> script option" where
  "script_of_link r lk = find (\<lambda>s. link_num s = lk) (scripts r)"

definition bi_llGetLinkName :: "nat \<Rightarrow> svalue list \<Rightarrow> region \<Rightarrow> svalue" where
  "bi_llGetLinkName i a r = SString (case script_of_link r (ai_int a 0) of Some s \<Rightarrow> name s | None \<Rightarrow> [])"

definition bi_llGetLinkKey :: "nat \<Rightarrow> svalue list \<Rightarrow> region \<Rightarrow> svalue" where
  "bi_llGetLinkKey i a r = SKey (case script_of_link r (ai_int a 0) of Some s \<Rightarrow> uuid s | None \<Rightarrow> null_key)"

definition bi_llGetNumberOfPrims :: "nat \<Rightarrow> svalue list \<Rightarrow> region \<Rightarrow> svalue" where
  "bi_llGetNumberOfPrims i a r = int_value (int (n_scripts r))"

subsection \<open>Detection\<close>

definition detected_at :: "region \<Rightarrow> nat \<Rightarrow> svalue list \<Rightarrow> detected option" where
  "detected_at r i a = (let k = ai_int a 0; ds = detected (script_at r i) in
     if k < 0 \<or> int (length ds) \<le> k then None else Some (ds ! nat k))"

definition bi_llDetectedKey :: "nat \<Rightarrow> svalue list \<Rightarrow> region \<Rightarrow> svalue" where
  "bi_llDetectedKey i a r = SKey (case detected_at r i a of Some d \<Rightarrow> dt_key d | None \<Rightarrow> null_key)"

definition bi_llDetectedName :: "nat \<Rightarrow> svalue list \<Rightarrow> region \<Rightarrow> svalue" where
  "bi_llDetectedName i a r = SString (case detected_at r i a of Some d \<Rightarrow> dt_name d | None \<Rightarrow> [])"

definition bi_llDetectedOwner :: "nat \<Rightarrow> svalue list \<Rightarrow> region \<Rightarrow> svalue" where
  "bi_llDetectedOwner i a r = SKey (case detected_at r i a of Some d \<Rightarrow> dt_owner d | None \<Rightarrow> null_key)"

definition bi_llDetectedType :: "nat \<Rightarrow> svalue list \<Rightarrow> region \<Rightarrow> svalue" where
  "bi_llDetectedType i a r = int_value (case detected_at r i a of Some d \<Rightarrow> dt_type d | None \<Rightarrow> 0)"

definition bi_llDetectedPos :: "nat \<Rightarrow> svalue list \<Rightarrow> region \<Rightarrow> svalue" where
  "bi_llDetectedPos i a r = (case detected_at r i a of Some d \<Rightarrow> dt_pos d | None \<Rightarrow> sv_zero SV_VECTOR)"

definition bi_llDetectedLinkNumber :: "nat \<Rightarrow> svalue list \<Rightarrow> region \<Rightarrow> svalue" where
  "bi_llDetectedLinkNumber i a r = int_value (case detected_at r i a of Some d \<Rightarrow> dt_link d | None \<Rightarrow> 0)"

subsection \<open>Permissions and money\<close>

definition bi_llRequestPermissions :: "nat \<Rightarrow> svalue list \<Rightarrow> region \<Rightarrow> svalue \<times> region" where
  "bi_llRequestPermissions i a r =
    (let p = cint_of_ll (ai a 1); who = as_str a 0 in
     (SVoid, script_push_event i ''run_time_permissions'' [SInt (ll_of_cint p)]
        (evt_permission_request i who p
          (upd_script i (\<lambda>s. s\<lparr>perms := p, perms_key := Some who\<rparr>) r))))"

definition bi_llGetPermissions :: "nat \<Rightarrow> svalue list \<Rightarrow> region \<Rightarrow> svalue" where
  "bi_llGetPermissions i a r = SInt (ll_of_cint (perms (script_at r i)))"

definition bi_llGetPermissionsKey :: "nat \<Rightarrow> svalue list \<Rightarrow> region \<Rightarrow> svalue" where
  "bi_llGetPermissionsKey i a r =
     SKey (case perms_key (script_at r i) of Some k \<Rightarrow> k | None \<Rightarrow> null_key)"

definition bi_llGetMyAccountBalance :: "nat \<Rightarrow> svalue list \<Rightarrow> region \<Rightarrow> svalue" where
  "bi_llGetMyAccountBalance i a r = SInt (case find_avatar_idx r (owner_uuid r) of
     Some k \<Rightarrow> balance (avatars r ! k) | None \<Rightarrow> 0)"

definition permission_debit :: cint where
  "permission_debit = 0x002"

definition pay :: "nat \<Rightarrow> nat \<Rightarrow> llong \<Rightarrow> region \<Rightarrow> region" where
  "pay src dst amt r = upd_avatar dst (\<lambda>a. a\<lparr>balance := balance a + amt\<rparr>)
     (upd_avatar src (\<lambda>a. a\<lparr>balance := balance a - amt\<rparr>) r)"

definition find_last_avatar :: "region \<Rightarrow> string \<Rightarrow> nat option" where
  "find_last_avatar r u = map_option (\<lambda>k. length (avatars r) - Suc k)
     (find_index (\<lambda>a. av_uuid a = u) (rev (avatars r)))"

definition ensure_avatar :: "nat option \<Rightarrow> string \<Rightarrow> region \<Rightarrow> nat \<times> region" where
  "ensure_avatar k u r = (case k of Some i \<Rightarrow> (i, r) | None \<Rightarrow> region_add_avatar u 0 None r)"

definition give_money :: "nat \<Rightarrow> svalue list \<Rightarrow> region \<Rightarrow> bool \<times> region" where
  "give_money i a r =
    (let dest = as_str a 0; amt = ai a 1 in
     if perms (script_at r i) AND permission_debit = 0 then
       (False, emit_err (''[slemu] llGiveMoney without PERMISSION_DEBIT '' @ [CHR 0xE2, CHR 0x80, CHR 0x94] @
          '' denied'' @ nl) r)
     else
       let o' = owner_uuid r; oi = find_last_avatar r o'; di = find_last_avatar r dest in
       case ensure_avatar di dest r of (d, r1) \<Rightarrow>
       case ensure_avatar oi o' r1 of (ow, r2) \<Rightarrow>
         if sint (balance (avatars r2 ! ow)) < sint amt then
           (False, emit_err (''[slemu] llGiveMoney: owner balance L$'' @ show_ll (balance (avatars r2 ! ow)) @
              '' too low for L$'' @ show_ll amt @ nl) r2)
         else (True, evt_money o' dest amt True (pay ow d amt r2)))"

definition bi_llGiveMoney :: "nat \<Rightarrow> svalue list \<Rightarrow> region \<Rightarrow> svalue \<times> region" where
  "bi_llGiveMoney i a r = (case give_money i a r of (ok, r1) \<Rightarrow> (sv_of_bool ok, r1))"

definition bi_llTransferLindenDollars :: "nat \<Rightarrow> svalue list \<Rightarrow> region \<Rightarrow> svalue \<times> region" where
  "bi_llTransferLindenDollars i a r = (case give_money i a r of (ok, r1) \<Rightarrow>
     case gen_uuid r1 of (key, r2) \<Rightarrow>
       (SKey key, script_push_event i ''transaction_result''
          [SKey key, sv_of_bool ok, SString (if ok then [] else ''INSUFFICIENT_FUNDS'')] r2))"

subsection \<open>Linkset data\<close>

definition with_vol :: "svalue \<Rightarrow> (volume \<Rightarrow> region \<Rightarrow> svalue \<times> region) \<Rightarrow> region \<Rightarrow> svalue \<times> region" where
  \<comment> \<open>\<open>if (!s->region->volume) return d;\<close>\<close>
  "with_vol d f r = (case vol r of None \<Rightarrow> (d, r) | Some v \<Rightarrow> f v r)"

definition lsd_can_open :: "region \<Rightarrow> string \<Rightarrow> bool" where
  "lsd_can_open r k = h_can_open (host r) (''lsd/'' @ k @ ''.txt'')"

definition bi_llLinksetDataWrite :: "nat \<Rightarrow> svalue list \<Rightarrow> region \<Rightarrow> svalue \<times> region" where
  "bi_llLinksetDataWrite i a = with_vol (SInt 0) (\<lambda>v r.
     let k = as_str a 0; x = as_str a 1 in
     case volume_lsd_write (lsd_can_open r) k x v of (ok, v') \<Rightarrow>
       (SInt (ll_bool (\<not> ok)),
        (if ok then evt_lsd_set i k x (r\<lparr>vol := Some v'\<rparr>) else r\<lparr>vol := Some v'\<rparr>)))"

definition bi_llLinksetDataRead :: "nat \<Rightarrow> svalue list \<Rightarrow> region \<Rightarrow> svalue" where
  "bi_llLinksetDataRead i a r = SString (case vol r of None \<Rightarrow> []
     | Some v \<Rightarrow> opt_str (volume_lsd_read (as_str a 0) v))"

definition lsd_delete :: "nat \<Rightarrow> string \<Rightarrow> region \<Rightarrow> bool \<times> region" where
  \<comment> \<open>a key removed and the removal reported, whether or not it was there\<close>
  "lsd_delete i k r = (case vol r of None \<Rightarrow> (False, r)
     | Some v \<Rightarrow> (case volume_lsd_delete k v of (ok, v') \<Rightarrow>
         (ok, evt_lsd_set i k [] (r\<lparr>vol := Some v'\<rparr>))))"

definition bi_llLinksetDataDelete :: "nat \<Rightarrow> svalue list \<Rightarrow> region \<Rightarrow> svalue \<times> region" where
  "bi_llLinksetDataDelete i a = with_vol (SInt 0) (\<lambda>v r.
     case lsd_delete i (as_str a 0) r of (ok, r') \<Rightarrow> (SInt (ll_bool (\<not> ok)), r'))"

definition bi_llLinksetDataReset :: "nat \<Rightarrow> svalue list \<Rightarrow> region \<Rightarrow> svalue \<times> region" where
  "bi_llLinksetDataReset i a = with_vol SVoid (\<lambda>v r.
     (SVoid, fold (\<lambda>k r. snd (lsd_delete i k r)) (volume_lsd_list_keys v) r))"

definition lsd_keys :: "region \<Rightarrow> string list" where
  "lsd_keys r = (case vol r of None \<Rightarrow> [] | Some v \<Rightarrow> volume_lsd_list_keys v)"

definition bi_llLinksetDataCountKeys :: "nat \<Rightarrow> svalue list \<Rightarrow> region \<Rightarrow> svalue" where
  "bi_llLinksetDataCountKeys i a r = int_value (int (length (lsd_keys r)))"

definition bi_llLinksetDataListKeys :: "nat \<Rightarrow> svalue list \<Rightarrow> region \<Rightarrow> svalue" where
  "bi_llLinksetDataListKeys i a r = SList (map SString (lsd_keys r))"

subsection \<open>HTTP, names\<close>

definition bi_llHTTPRequest :: builtin where
  "bi_llHTTPRequest ev i a r =
     rbind (http_request i (as_str a 0) (arg_list a 1) (as_str a 2) r) (\<lambda>(key, r). Inr (SKey key, r))"

definition bi_llRequestURL :: "nat \<Rightarrow> svalue list \<Rightarrow> region \<Rightarrow> svalue \<times> region" where
  "bi_llRequestURL i a r = (case gen_uuid r of (key, r1) \<Rightarrow> case inbound_register i key r1 of (url, r2) \<Rightarrow>
     (SKey key, script_push_event i ''http_request''
        [SKey key, SString ''URL_REQUEST_GRANTED'', SString url] r2))"

definition bi_llKey2Name :: "nat \<Rightarrow> svalue list \<Rightarrow> region \<Rightarrow> svalue" where
  "bi_llKey2Name i a r = SString (case find_avatar_idx r (as_str a 0) of
     Some k \<Rightarrow> av_name (avatars r ! k) | None \<Rightarrow> [])"

text \<open>The functions that ignore their arguments and return a constant.\<close>

definition memory_constants :: "(string \<times> svalue) list" where
  "memory_constants =
    [(''llGetScale'', vec_of_ints 1 1 1), (''llSetScale'', SVoid), (''llGetUsedMemory'', SInt 16384),
     (''llGetFreeMemory'', SInt 49152), (''llGetMemoryLimit'', SInt 65536), (''llSetMemoryLimit'', SInt 1)]"

definition url_constants :: "(string \<times> svalue) list" where
  "url_constants = [(''llReleaseURL'', SVoid), (''llSetContentType'', SVoid)]"

definition world_constants :: "(string \<times> svalue) list" where
  "world_constants =
    [(''llResetTime'', SVoid), (''llMinEventDelay'', SVoid), (''llGetPos'', vec_of_ints 128 128 25),
     (''llGetRot'', SRot d_zero d_zero d_zero d_one)] @ memory_constants @
    [(''llSetPayPrice'', SVoid), (''llGetPayPrice'', SList []), (''llLinksetDataAvailable'', SInt 65536),
     (''llHTTPResponse'', SVoid)] @ url_constants @
    [(''llGetRegionName'', SString ''slemu-region''), (''llGetAttached'', SInt 0)]"

end
