(* ===== verification/WorldProps.thy ===== *)
theory WorldProps
  imports BuiltinsWorld
begin

text \<open>
  Properties of the region functions of the library: who hears a message, who gets a link message,
  listen handles, and the money ledger. Their effect on the queues goes through one lemma: a loop
  over the scripts that appends to each queue events computed from that script.
\<close>

subsection \<open>Delivering events\<close>

definition push_all :: "nat \<Rightarrow> event list \<Rightarrow> region \<Rightarrow> region" where
  "push_all t es r = upd_script t (\<lambda>s. s\<lparr>evq := evq s @ es\<rparr>) r"

lemma n_scripts_push_all [simp]: "n_scripts (push_all t es r) = n_scripts r"
  by (simp add: push_all_def)

lemma push_all_Nil [simp]: "push_all t [] r = r"
  by (simp add: push_all_def upd_script_def update_nth_def)

lemma push_all_Cons: "push_all t (e # es) r = push_all t es (upd_script t (enqueue e) r)"
  by (simp add: push_all_def upd_script_def update_nth_update_nth enqueue_def)

lemma script_push_event_all: "script_push_event t nm args r = push_all t [\<lparr>ev_name = nm, ev_args = args\<rparr>] r"
  by (simp add: push_all_Cons script_push_event_def)

lemma push_listens_all:
  "push_listens hit args t r = push_all t (map (\<lambda>_. \<lparr>ev_name = ''listen'', ev_args = args\<rparr>)
     (filter hit (listens (script_at r t)))) r"
proof -
  have "fold (\<lambda>le r. if hit le then script_push_event t nm args r else r) ls r =
     push_all t (map (\<lambda>_. \<lparr>ev_name = nm, ev_args = args\<rparr>) (filter hit ls)) r" for ls r nm
    by (induction ls arbitrary: r) (simp_all add: push_all_Cons script_push_event_def)
  then show ?thesis by (simp add: push_listens_def)
qed

definition queue_only :: "(script \<Rightarrow> event list) \<Rightarrow> script \<Rightarrow> script" where
  "queue_only g s = s\<lparr>evq := evq s @ g s\<rparr>"

lemma fold_push_all:
  assumes "n \<le> n_scripts r"
  shows "n_scripts (fold (\<lambda>t r. push_all t (g t (script_at r t)) r) [0 ..< n] r) = n_scripts r \<and>
    (\<forall>j. script_at (fold (\<lambda>t r. push_all t (g t (script_at r t)) r) [0 ..< n] r) j =
     (if j < n then queue_only (g j) (script_at r j) else script_at r j))"
  using assms
proof (induction n)
  case 0
  then show ?case by simp
next
  case (Suc n)
  let ?r = "fold (\<lambda>t r. push_all t (g t (script_at r t)) r) [0 ..< n] r"
  have n: "n < n_scripts ?r" and at: "script_at ?r j = (if j < n then queue_only (g j) (script_at r j) else script_at r j)" for j
    using Suc by simp_all
  have "script_at (push_all n es ?r) j = (if j = n then queue_only (\<lambda>_. es) (script_at ?r n) else script_at ?r j)" for es j
    using n by (cases "j = n") (simp_all add: push_all_def queue_only_def)
  then show ?case using Suc by (simp add: at) (auto simp: queue_only_def)
qed

lemma at_quiet: "quiet r r' \<Longrightarrow> script_at r' = script_at r" "quiet r r' \<Longrightarrow> n_scripts r' = n_scripts r"
  by (simp_all add: script_at_def n_scripts_def fun_eq_iff quiet_fields)

lemmas at_evt [simp] = at_quiet [OF quiet_evt(1)] at_quiet [OF quiet_evt(2)] at_quiet [OF quiet_evt(3)]
  at_quiet [OF quiet_evt(6)] at_quiet [OF quiet_evt(7)] at_quiet [OF quiet_evt(8)] at_quiet [OF quiet_evt(9)]

text \<open>The loop of \<open>llMessageLinked\<close> and its like: one event for the scripts that a test selects.\<close>

lemma fold_push_some:
  assumes "n \<le> n_scripts r"
  shows "script_at (fold (\<lambda>t r. if P t (script_at r t) then script_push_event t nm args r else r) [0 ..< n] r) j =
     (if j < n then queue_only (\<lambda>s. if P j s then [\<lparr>ev_name = nm, ev_args = args\<rparr>] else []) (script_at r j)
      else script_at r j)"
proof -
  have "(\<lambda>t r. if P t (script_at r t) then script_push_event t nm args r else r) =
     (\<lambda>t r. push_all t ((\<lambda>t s. if P t s then [\<lparr>ev_name = nm, ev_args = args\<rparr>] else []) t (script_at r t)) r)"
    by (auto simp: fun_eq_iff script_push_event_all)
  then show ?thesis using fold_push_all [OF assms, where g = "\<lambda>t s. if P t s then [\<lparr>ev_name = nm, ev_args = args\<rparr>] else []"]
    by simp
qed

definition listen_events :: "(listen_entry \<Rightarrow> bool) \<Rightarrow> svalue list \<Rightarrow> script \<Rightarrow> event list" where
  "listen_events hit args s = map (\<lambda>_. \<lparr>ev_name = ''listen'', ev_args = args\<rparr>) (filter hit (listens s))"

lemma script_at_route_listen:
  assumes "j < n_scripts r"
  shows "script_at (route_listen ch nm key msg r) j =
     queue_only (listen_events (listen_hit ch nm key msg) (listen_args ch nm key msg)) (script_at r j)"
proof -
  have "push_listens hit args = (\<lambda>t r. push_all t ((\<lambda>_. listen_events hit args) t (script_at r t)) r)" for hit args
    by (simp add: fun_eq_iff push_listens_all listen_events_def)
  then show ?thesis
    using assms fold_push_all [OF order.refl, where r = r and g = "\<lambda>_. listen_events (listen_hit ch nm key msg) (listen_args ch nm key msg)"]
    by (simp add: route_listen_def)
qed

lemma chatlog_record_fields [simp]:
  "scripts (chatlog_record k c m r) = scripts r" "n_scripts (chatlog_record k c m r) = n_scripts r"
  "script_at (chatlog_record k c m r) = script_at r" "frames (chatlog_record k c m r) = frames r"
  by (simp_all add: chatlog_record_def n_scripts_def script_at_def fun_eq_iff)

lemma listen_hit_filters:
  "listen_hit ch nm key msg = (\<lambda>le. le_active le \<and> le_channel le = ch \<and> name_filter le \<in> {[], nm} \<and>
     id_filter le \<in> {[], null_key, key} \<and> msg_filter le \<in> {[], msg})"
  by (auto simp: listen_hit_def fun_eq_iff)

text \<open>C10 A chat message (\<open>llSay\<close>, \<open>llWhisper\<close>, \<open>llShout\<close>, \<open>llRegionSay\<close>) reaches every script of the region,
  the speaker's included,
  through the listen entries that are active, on the channel, and whose name, key and text filters
  are empty or match: one \<open>listen\<close> event per such entry, in entry order, behind the events already
  queued. Nothing else of any script changes.\<close>

theorem say_routing:
  assumes "j < n_scripts r" "say \<in> {bi_llSay, bi_llWhisper, bi_llShout, bi_llRegionSay}"
  shows "script_at (snd (say i a r)) j =
    (let s = script_at r i; ch = ai_int a 0; msg = as_str a 1; t = script_at r j
     in t\<lparr>evq := evq t @ map (\<lambda>_. \<lparr>ev_name = ''listen'',
            ev_args = [int_value ch, SString (name s), SKey (uuid s), SString msg]\<rparr>)
          (filter (\<lambda>le. le_active le \<and> le_channel le = ch \<and> name_filter le \<in> {[], name s} \<and>
             id_filter le \<in> {[], null_key, uuid s} \<and> msg_filter le \<in> {[], msg}) (listens t))\<rparr>)"
  using assms
  by (auto simp: bi_llSay_def bi_llWhisper_def bi_llShout_def bi_llRegionSay_def say_on_def
      script_at_route_listen queue_only_def listen_events_def listen_args_def Let_def listen_hit_filters)

lemma link_delivers_cases:
  "link_delivers lk i j t \<longleftrightarrow> lk = - 1 \<or> lk = - 2 \<and> j \<noteq> i \<or> lk = - 3 \<and> 2 \<le> link_num t \<or>
     lk = - 4 \<and> j = i \<or> lk \<notin> {- 1, - 2, - 3, - 4} \<and> lk = link_num t"
  by (auto simp: link_delivers_def)

text \<open>C32 A link message reaches exactly the scripts its link number addresses: the whole set (-1), all
  but the sender (-2), the children (-3), the sender itself (-4), or the script with that number. Each
  gets one \<open>link_message\<close> event with the sender's number, behind its queue; nothing else of a script
  changes.\<close>

theorem link_message_routing:
  assumes "j < n_scripts r"
  shows "script_at (snd (bi_llMessageLinked i a r)) j =
    (let t = script_at r j; lk = ai_int a 0 in
     if lk = - 1 \<or> lk = - 2 \<and> j \<noteq> i \<or> lk = - 3 \<and> 2 \<le> link_num t \<or> lk = - 4 \<and> j = i \<or>
        lk \<notin> {- 1, - 2, - 3, - 4} \<and> lk = link_num t
     then t\<lparr>evq := evq t @ [\<lparr>ev_name = ''link_message'',
        ev_args = [int_value (link_num (script_at r i)), SInt (ai a 1), SString (as_str a 2), SKey (as_str a 3)]\<rparr>]\<rparr>
     else t)"
  using assms unfolding Let_def link_delivers_cases [symmetric]
  by (simp add: bi_llMessageLinked_def Let_def queue_only_def
      fold_push_some [of _ _ "link_delivers (ai_int a 0) i"])

subsection \<open>Listen handles\<close>

definition handles :: "region \<Rightarrow> cint list" where
  "handles r = concat (map (\<lambda>s. map le_handle (listens s)) (scripts r))"

text \<open>No two open listens of the region have one handle, and the counter is above them all.\<close>

definition handles_ok :: "region \<Rightarrow> bool" where
  "handles_ok r \<longleftrightarrow> distinct (handles r) \<and> (\<forall>h \<in> set (handles r). unat h < unat (next_handle r))"

lemma concat_map_update:
  "i < length xs \<Longrightarrow> concat (map f (update_nth i g xs)) =
     concat (map f (take i xs)) @ f (g (xs ! i)) @ concat (map f (drop (Suc i) xs))"
  by (simp add: update_nth_def upd_conv_take_nth_drop)

lemma concat_map_split:
  "i < length xs \<Longrightarrow> concat (map f xs) =
     concat (map f (take i xs)) @ f (xs ! i) @ concat (map f (drop (Suc i) xs))"
proof -
  assume "i < length xs"
  from arg_cong [OF id_take_nth_drop [OF this], of "\<lambda>ys. concat (map f ys)"] show ?thesis by simp
qed

lemma handles_ok_upd:
  fixes r g i
  defines "old \<equiv> map le_handle (listens (script_at r i))"
    and "new \<equiv> map le_handle (listens (g (script_at r i)))"
  assumes ok: "handles_ok r" and i: "i < n_scripts r" and n: "unat (next_handle r) \<le> unat n"
    and d: "distinct new"
    and h: "\<And>h. h \<in> set new \<Longrightarrow> h \<in> set old \<or> unat (next_handle r) \<le> unat h \<and> unat h < unat n"
  shows "handles_ok (upd_script i g (r\<lparr>next_handle := n\<rparr>))"
proof -
  obtain pre post where 1: "handles r = pre @ old @ post"
    and 2: "handles (upd_script i g (r\<lparr>next_handle := n\<rparr>)) = pre @ new @ post"
    using i unfolding handles_def upd_script_def n_scripts_def script_at_def old_def new_def
    by (simp add: concat_map_update concat_map_split [where i = i and xs = "scripts r"])
  have lt: "unat h < unat (next_handle r)" if "h \<in> set pre \<union> set old \<union> set post" for h
    using ok that 1 by (auto simp: handles_ok_def)
  have new: "set new \<inter> (set pre \<union> set post) = {}"
  proof -
    have o': "set old \<inter> (set pre \<union> set post) = {}"
      using ok unfolding handles_ok_def 1 by auto
    have "h \<notin> set pre \<union> set post" if "h \<in> set new" for h
    proof (cases "h \<in> set old")
      case True
      with o' show ?thesis by blast
    next
      case False
      with h [OF that] have "\<not> unat h < unat (next_handle r)" by simp
      with lt [of h] show ?thesis by blast
    qed
    then show ?thesis by blast
  qed
  have "unat x < unat n" if "x \<in> set pre \<union> set new \<union> set post" for x
    using that lt [of x] h [of x] n by auto
  then show ?thesis
    using ok d new 1 2 by (auto simp: handles_ok_def)
qed

lemma handles_ok_upd_same:
  assumes "handles_ok r" "i < n_scripts r" "distinct (map le_handle (listens (g (script_at r i))))"
    "set (map le_handle (listens (g (script_at r i)))) \<subseteq> set (map le_handle (listens (script_at r i)))"
  shows "handles_ok (upd_script i g r)"
proof -
  have r: "r\<lparr>next_handle := next_handle r\<rparr> = r" by simp
  show ?thesis using assms handles_ok_upd [of r i "next_handle r" g] unfolding r by auto
qed

lemma handles_ok_script:
  assumes ok: "handles_ok r" and i: "i < n_scripts r"
  shows "distinct (map le_handle (listens (script_at r i)))"
    and "h \<in> set (map le_handle (listens (script_at r i))) \<Longrightarrow> unat h < unat (next_handle r)"
proof -
  have "\<exists>pre post. handles r = pre @ map le_handle (listens (script_at r i)) @ post"
    using i concat_map_split [of i "scripts r" "\<lambda>s. map le_handle (listens s)"]
    by (auto simp: handles_def n_scripts_def script_at_def)
  then show "distinct (map le_handle (listens (script_at r i)))"
    and "h \<in> set (map le_handle (listens (script_at r i))) \<Longrightarrow> unat h < unat (next_handle r)"
    using ok by (auto simp: handles_ok_def)
qed

lemma map_remove_first:
  "set (map f (remove_first P xs)) \<subseteq> set (map f xs) \<and>
     (distinct (map f xs) \<longrightarrow> distinct (map f (remove_first P xs)))"
  by (induction xs) auto

lemma unat_Suc_handle:
  fixes x :: cint
  assumes "x \<noteq> - 1"
  shows "unat (x + 1) = Suc (unat x)"
proof -
  have "1 + x \<noteq> 0" using assms eq_neg_iff_add_eq_0 [of x 1] by (simp add: add.commute)
  then show ?thesis using unatSuc [of x] by (simp add: add.commute)
qed

text \<open>C31 Listen handles are unique: until the 32-bit counter wraps, opening, closing and
  switching a listen keeps all the handles of the region distinct, and the handle that \<open>llListen\<close>
  returns is the one of the new entry, which hears the given channel at once.\<close>

theorem listen_handles_unique:
  assumes "handles_ok r" "i < n_scripts r" "next_handle r \<noteq> - 1"
  shows "handles_ok (snd (bi_llListen i a r)) \<and> handles_ok (snd (bi_llListenRemove i a r)) \<and>
    handles_ok (snd (bi_llListenControl i a r)) \<and>
    fst (bi_llListen i a r) = SInt (ll_of_cint (next_handle r)) \<and>
    (\<exists>e. listens (script_at (snd (bi_llListen i a r)) i) = e # listens (script_at r i) \<and>
      le_handle e = next_handle r \<and> le_active e \<and> le_channel e = ai_int a 0)"
proof -
  have new: "unat (next_handle r + 1) = Suc (unat (next_handle r))"
    using assms(3) by (rule unat_Suc_handle)
  have fresh: "next_handle r \<notin> set (map le_handle (listens (script_at r i)))"
    using handles_ok_script(2) [OF assms(1,2)] by blast
  have 1: "handles_ok (snd (bi_llListen i a r))"
    unfolding bi_llListen_def Let_def snd_conv
    by (rule handles_ok_upd [OF assms(1,2)]) (use new fresh handles_ok_script(1) [OF assms(1,2)] in auto)
  have 2: "handles_ok (snd (bi_llListenRemove i a r))"
    unfolding bi_llListenRemove_def Let_def snd_conv
    using handles_ok_script(1) [OF assms(1,2)] map_remove_first [of le_handle _ "listens (script_at r i)"]
    by (intro handles_ok_upd_same [OF assms(1,2)]) auto
  have m: "map (le_handle \<circ> (\<lambda>e. if le_handle e = h then e\<lparr>le_active := on\<rparr> else e)) es = map le_handle es" for h on es
    by (induction es) auto
  have 3: "handles_ok (snd (bi_llListenControl i a r))"
    unfolding bi_llListenControl_def Let_def snd_conv
    using handles_ok_script(1) [OF assms(1,2)]
    by (intro handles_ok_upd_same [OF assms(1,2)]) (simp_all add: m)
  have "n_scripts (r\<lparr>next_handle := n\<rparr>) = n_scripts r" "script_at (r\<lparr>next_handle := n\<rparr>) = script_at r" for n
    by (simp_all add: n_scripts_def script_at_def fun_eq_iff)
  with 1 2 3 assms(2) show ?thesis by (simp add: bi_llListen_def Let_def)
qed

subsection \<open>Money\<close>

definition total_money :: "region \<Rightarrow> llong" where
  "total_money r = sum_list (map balance (avatars r))"

lemma find_last_avatar_None: "find_last_avatar r u = None \<longleftrightarrow> u \<notin> set (av_keys r)"
  by (auto simp: find_last_avatar_def find_index_None av_keys_def)

lemma find_last_avatar_Some:
  assumes "find_last_avatar r u = Some k"
  shows "k < length (avatars r)" "av_uuid (avatars r ! k) = u"
proof -
  obtain m where m: "find_index (\<lambda>a. av_uuid a = u) (rev (avatars r)) = Some m"
    and k: "k = length (avatars r) - Suc m"
    using assms by (auto simp: find_last_avatar_def)
  have "m < length (avatars r)" using find_index_lt [OF m] by simp
  then show "k < length (avatars r)" "av_uuid (avatars r ! k) = u"
    using find_index_nth [OF m] by (auto simp: k rev_nth)
qed

text \<open>A party of a payment that is no avatar yet becomes one with an empty account; the accounts there
  are stay as they are.\<close>

definition opens_account :: "region \<Rightarrow> region \<Rightarrow> bool" where
  "opens_account r r' \<longleftrightarrow> scripts r' = scripts r \<and>
     (\<exists>new. avatars r' = avatars r @ new \<and> (\<forall>a \<in> set new. balance a = 0))"

lemma opens_account_refl: "opens_account r r"
  by (simp add: opens_account_def)

lemma opens_account_trans: "opens_account r r' \<Longrightarrow> opens_account r' r'' \<Longrightarrow> opens_account r r''"
  by (auto simp: opens_account_def)

lemma opens_account_total: "opens_account r r' \<Longrightarrow> total_money r' = total_money r"
proof -
  have "\<forall>a \<in> set new. balance a = 0 \<Longrightarrow> sum_list (map balance new) = 0" for new
    by (induction new) auto
  moreover assume "opens_account r r'"
  ultimately show ?thesis by (auto simp: opens_account_def total_money_def)
qed

lemma update_nth_id: "(i < length xs \<Longrightarrow> f (xs ! i) = xs ! i) \<Longrightarrow> update_nth i f xs = xs"
  by (simp add: update_nth_def)

lemma add_avatar_zero:
  assumes "\<And>a. a \<in> set (avatars r) \<Longrightarrow> av_uuid a = u \<Longrightarrow> balance a = 0"
  shows "opens_account r (snd (region_add_avatar u 0 None r))"
proof (cases "find_avatar_idx r u")
  case None
  then show ?thesis by (auto simp: region_add_avatar_def opens_account_def)
next
  case (Some i)
  with find_avatar_idx_Some [OF this] assms [of "avatars r ! i"]
  have "upd_avatar i (\<lambda>a. a\<lparr>balance := 0, av_name := av_name a\<rparr>) r = r"
    by (simp add: upd_avatar_def update_nth_id)
  with Some show ?thesis by (simp add: region_add_avatar_def opens_account_refl)
qed

lemma add_avatar_valid:
  "region_add_avatar u b nm r = (k, r') \<Longrightarrow> k < length (avatars r') \<and> av_uuid (avatars r' ! k) = u"
  using add_avatar_index [of u b nm r k r'] by simp

text \<open>The two parties of a payment, in the order the code looks them up.\<close>

lemma parties:
  assumes d: "ensure_avatar (find_last_avatar r dest) dest r = (di, r1)"
    and ow: "ensure_avatar (find_last_avatar r own) own r1 = (oi, r2)"
  shows "opens_account r r2" "oi < length (avatars r2)" "av_uuid (avatars r2 ! oi) = own"
    "di < length (avatars r2)" "av_uuid (avatars r2 ! di) = dest"
proof -
  have 1: "opens_account r r1 \<and> di < length (avatars r1) \<and> av_uuid (avatars r1 ! di) = dest"
  proof (cases "find_last_avatar r dest")
    case None
    then have "opens_account r (snd (region_add_avatar dest 0 None r))"
      by (intro add_avatar_zero) (auto simp: find_last_avatar_None av_keys_def)
    with d None add_avatar_valid show ?thesis by (auto simp: ensure_avatar_def)
  next
    case (Some k)
    with d find_last_avatar_Some [OF Some] show ?thesis
      by (auto simp: ensure_avatar_def opens_account_refl)
  qed
  have 2: "opens_account r1 r2 \<and> oi < length (avatars r2) \<and> av_uuid (avatars r2 ! oi) = own"
  proof (cases "find_last_avatar r own")
    case None
    then have no: "own \<notin> set (av_keys r)" by (simp add: find_last_avatar_None)
    have "opens_account r1 (snd (region_add_avatar own 0 None r1))"
    proof (rule add_avatar_zero)
      fix a assume "a \<in> set (avatars r1)" "av_uuid a = own"
      with 1 no show "balance a = 0" by (auto simp: opens_account_def av_keys_def)
    qed
    with ow None add_avatar_valid show ?thesis by (auto simp: ensure_avatar_def)
  next
    case (Some k)
    with ow 1 find_last_avatar_Some [OF Some] show ?thesis
      by (auto simp: ensure_avatar_def opens_account_def nth_append)
  qed
  show "opens_account r r2" using 1 2 opens_account_trans by blast
  show "oi < length (avatars r2)" "av_uuid (avatars r2 ! oi) = own" using 2 by simp_all
  show "di < length (avatars r2)" "av_uuid (avatars r2 ! di) = dest"
    using 1 2 by (auto simp: opens_account_def nth_append)
qed

text \<open>The money under a key: the balance of the last avatar with it, nothing when there is none.\<close>

definition funds :: "region \<Rightarrow> string \<Rightarrow> llong" where
  "funds r u = (case find_last_avatar r u of Some k \<Rightarrow> balance (avatars r ! k) | None \<Rightarrow> 0)"

lemma find_last_keys: "av_keys r' = av_keys r \<Longrightarrow> find_last_avatar r' u = find_last_avatar r u"
proof -
  assume k: "av_keys r' = av_keys r"
  have "find_index (\<lambda>a. av_uuid a = u) (rev (avatars x)) = find_index (\<lambda>k. k = u) (rev (av_keys x))" for x
    using find_index_map [of "\<lambda>a. av_uuid a = u" "rev (avatars x)"] find_index_map [of "\<lambda>k. k = u" "rev (av_keys x)"]
    by (simp add: av_keys_def rev_map comp_def)
  moreover have "length (avatars r') = length (avatars r)" using k by (auto simp: av_keys_def dest: map_eq_imp_length_eq)
  ultimately show ?thesis by (simp add: find_last_avatar_def k)
qed

definition empty_account :: "string \<Rightarrow> avatar" where
  "empty_account u = \<lparr>av_uuid = u, av_name = [], balance = 0, attached_object = None\<rparr>"

definition opened :: "string \<Rightarrow> region \<Rightarrow> region" where
  "opened u r = (if u \<in> set (av_keys r) then r else r\<lparr>avatars := avatars r @ [empty_account u]\<rparr>)"

lemma opens_opened: "opens_account r (opened u r)"
  by (simp add: opened_def opens_account_def empty_account_def)

lemma find_last_opened:
  "find_last_avatar (opened u r) w =
     (if w = u \<and> u \<notin> set (av_keys r) then Some (length (avatars r)) else find_last_avatar r w)"
  by (cases "find_index (\<lambda>a. av_uuid a = w) (rev (avatars r))")
    (auto simp: opened_def find_last_avatar_def empty_account_def dest: find_index_lt)

lemma funds_opened: "funds (opened u r) w = funds r w"
proof (cases "find_last_avatar r w")
  case None
  then have "funds (opened u r) w = 0"
    unfolding funds_def find_last_opened by (simp add: opened_def empty_account_def)
  with None show ?thesis by (simp add: funds_def)
next
  case (Some k)
  then have "w \<in> set (av_keys r)" "k < length (avatars r)"
    using find_last_avatar_None [of r w] find_last_avatar_Some [of r w k] by auto
  with Some show ?thesis unfolding funds_def find_last_opened by (auto simp: opened_def nth_append)
qed

lemma add_avatar_new:
  "u \<notin> set (av_keys r) \<Longrightarrow> region_add_avatar u 0 None r = (length (avatars r), opened u r)"
proof -
  assume u: "u \<notin> set (av_keys r)"
  then have "find_avatar_idx r u = None" by (auto simp: find_avatar_idx_def find_index_None av_keys_def)
  with u show ?thesis by (simp add: region_add_avatar_def opened_def empty_account_def)
qed

lemma ensure_opened:
  "ensure_avatar (find_last_avatar r u) u r = (the (find_last_avatar (opened u r) u), opened u r)"
proof (cases "find_last_avatar r u")
  case None
  then have "u \<notin> set (av_keys r)" by (simp add: find_last_avatar_None)
  with None show ?thesis by (simp add: ensure_avatar_def add_avatar_new find_last_opened)
next
  case (Some k)
  then have "u \<in> set (av_keys r)" using find_last_avatar_None [of r u] by auto
  with Some show ?thesis by (simp add: ensure_avatar_def opened_def)
qed

lemma ensure_opened_again:
  "ensure_avatar (find_last_avatar r own) own (opened dest r) =
     (the (find_last_avatar (opened own (opened dest r)) own), opened own (opened dest r))"
proof (cases "find_last_avatar r own = find_last_avatar (opened dest r) own")
  case True
  then show ?thesis using ensure_opened [of "opened dest r" own] by simp
next
  case False
  then have n: "own = dest" "dest \<notin> set (av_keys r)" by (auto simp: find_last_opened split: if_splits)
  then have f: "find_last_avatar r own = None" by (simp add: find_last_avatar_None)
  have i: "find_avatar_idx (opened dest r) dest = Some (length (avatars r))"
  proof -
    have "find_index (\<lambda>a. av_uuid a = dest) (avatars r) = None" using n(2) by (auto simp: find_index_None av_keys_def)
    with n(2) show ?thesis by (simp add: find_avatar_idx_def opened_def empty_account_def find_index_append)
  qed
  have "upd_avatar (length (avatars r)) (\<lambda>a. a\<lparr>balance := 0, av_name := av_name a\<rparr>) (opened dest r) = opened dest r"
    using n(2) by (simp add: upd_avatar_def update_nth_id opened_def empty_account_def)
  then have "region_add_avatar dest 0 None (opened dest r) = (length (avatars r), opened dest r)"
    using i by (simp add: region_add_avatar_def)
  moreover have "opened dest (opened dest r) = opened dest r"
    by (simp add: opened_def empty_account_def av_keys_def)
  ultimately show ?thesis using n f by (simp add: ensure_avatar_def find_last_opened)
qed

lemma sum_list_update_nth:
  fixes f :: "'a \<Rightarrow> llong"
  assumes "k < length xs"
  shows "sum_list (map f (update_nth k g xs)) = sum_list (map f xs) - f (xs ! k) + f (g (xs ! k))"
proof -
  from arg_cong [OF id_take_nth_drop [OF assms], of "\<lambda>ys. sum_list (map f ys)"]
  have "sum_list (map f xs) = sum_list (map f (take k xs)) + (f (xs ! k) + sum_list (map f (drop (Suc k) xs)))"
    by simp
  then show ?thesis using assms by (simp add: update_nth_def upd_conv_take_nth_drop)
qed

lemma total_money_pay:
  assumes "s < length (avatars r)" "d < length (avatars r)"
  shows "total_money (pay s d amt r) = total_money r"
  using assms by (simp add: pay_def upd_avatar_def total_money_def sum_list_update_nth)

lemma find_last_party:
  "find_last_avatar (opened own (opened dest r)) own = Some (the (find_last_avatar (opened own (opened dest r)) own))"
  "find_last_avatar (opened own (opened dest r)) dest = Some (the (find_last_avatar (opened dest r) dest))"
proof -
  have k: "u \<in> set (av_keys (opened u x))" for u x by (simp add: opened_def empty_account_def av_keys_def)
  have s: "find_last_avatar x u = Some (the (find_last_avatar x u))" if "u \<in> set (av_keys x)" for u x
    using that find_last_avatar_None [of x u] by auto
  show "find_last_avatar (opened own (opened dest r)) own = Some (the (find_last_avatar (opened own (opened dest r)) own))"
    by (rule s [OF k])
  have "find_last_avatar (opened own (opened dest r)) dest = find_last_avatar (opened dest r) dest"
    using k [of dest r] by (auto simp: find_last_opened [of own])
  with s [OF k] show "find_last_avatar (opened own (opened dest r)) dest = Some (the (find_last_avatar (opened dest r) dest))"
    by simp
qed

lemma funds_avatars: "avatars r' = avatars r \<Longrightarrow> funds r' u = funds r u"
  using find_last_keys [of r' r u] by (simp add: funds_def av_keys_def split: option.split)

lemma funds_pay:
  assumes "find_last_avatar r own = Some s" "find_last_avatar r dest = Some d"
  shows "funds (pay s d amt r) u = funds r u - (if u = own then amt else 0) + (if u = dest then amt else 0)"
proof -
  have "av_keys (pay s d amt r) = av_keys r"
    by (simp add: pay_def upd_avatar_def av_keys_def map_update_nth_same)
  note f = find_last_keys [OF this, of u]
  show ?thesis
  proof (cases "find_last_avatar r u")
    case None
    with assms f show ?thesis by (auto simp: funds_def)
  next
    case (Some k)
    have k: "k < length (avatars r)" using find_last_avatar_Some [OF Some] by simp
    have e: "s = k \<longleftrightarrow> u = own" "d = k \<longleftrightarrow> u = dest"
      using Some assms find_last_avatar_Some(2) [OF Some] find_last_avatar_Some(2) [OF assms(1)]
        find_last_avatar_Some(2) [OF assms(2)] by (metis option.inject)+
    have "balance (avatars (pay s d amt r) ! k) = balance (avatars r ! k) - (if s = k then amt else 0) + (if d = k then amt else 0)"
      using k by (simp add: pay_def upd_avatar_def nth_update_nth)
    then show ?thesis unfolding e using Some f by (simp add: funds_def)
  qed
qed

text \<open>C11 Payments move money and never make it: whatever a script asks for, the sum of all balances
  (64 bits) stays the same. A payment goes through exactly when the script has the debit permission and the
  amount is at most what the owner's account holds; then the owner's account has the amount less, the receiver's
  the amount more, and every other key holds what it held. A refused payment leaves every account as it was and
  at most opens empty ones, none without the permission.\<close>

theorem give_money_ledger:
  assumes "give_money i a r = (ok, r')"
  shows "total_money r' = total_money r \<and>
    (ok \<longleftrightarrow> perms (script_at r i) AND permission_debit \<noteq> 0 \<and> sint (ai a 1) \<le> sint (funds r (owner_uuid r))) \<and>
    (\<not> ok \<longrightarrow> opens_account r r') \<and>
    (perms (script_at r i) AND permission_debit = 0 \<longrightarrow> avatars r' = avatars r) \<and>
    (ok \<longrightarrow> (\<forall>u. funds r' u = funds r u - (if u = owner_uuid r then ai a 1 else 0) + (if u = as_str a 0 then ai a 1 else 0)))"
proof (cases "perms (script_at r i) AND permission_debit = 0")
  case True
  then show ?thesis
    using assms by (auto simp: give_money_def total_money_def opens_account_def)
next
  case False
  let ?own = "owner_uuid r" and ?dest = "as_str a 0" and ?amt = "ai a 1"
  define r2 where "r2 = opened ?own (opened ?dest r)"
  define s d where "s = the (find_last_avatar r2 ?own)" and "d = the (find_last_avatar (opened ?dest r) ?dest)"
  have p: "find_last_avatar r2 ?own = Some s" "find_last_avatar r2 ?dest = Some d"
    unfolding r2_def s_def d_def using find_last_party by blast+
  have o': "opens_account r r2" unfolding r2_def using opens_opened opens_account_trans by blast
  have f: "funds r2 u = funds r u" for u by (simp add: r2_def funds_opened)
  have b: "balance (avatars r2 ! s) = funds r ?own" using p(1) f [of ?own] by (simp add: funds_def)
  have g: "give_money i a r = (if sint (balance (avatars r2 ! s)) < sint ?amt then
      (False, emit_err (''[slemu] llGiveMoney: owner balance L$'' @ show_ll (balance (avatars r2 ! s)) @
         '' too low for L$'' @ show_ll ?amt @ nl) r2)
    else (True, evt_money ?own ?dest ?amt True (pay s d ?amt r2)))"
    using False unfolding give_money_def Let_def by (simp add: ensure_opened ensure_opened_again r2_def s_def d_def)
  show ?thesis
  proof (cases "sint (funds r ?own) < sint ?amt")
    case True
    then have "ok = False" "avatars r' = avatars r2" "scripts r' = scripts r2" using assms g b by auto
    with o' opens_account_total [OF o'] False True show ?thesis by (simp add: opens_account_def total_money_def not_le)
  next
    case enough: False
    then have ok: "ok = True" and av: "avatars r' = avatars (pay s d ?amt r2)" using assms g b by auto
    have "total_money r' = total_money r"
      using total_money_pay [OF find_last_avatar_Some(1) [OF p(1)] find_last_avatar_Some(1) [OF p(2)], of ?amt]
        opens_account_total [OF o'] av by (simp add: total_money_def)
    with ok False enough funds_avatars [OF av] funds_pay [OF p] f show ?thesis by simp
  qed
qed

end
