(* ===== verification/BuiltinsText.thy ===== *)
theory BuiltinsText
  imports BuiltinsWorld "HOL-Library.Multiset"
begin

unbundle bit_operations_syntax

text \<open>
  The library functions of \<open>builtins.c\<close> on strings, lists and numbers: functions of their arguments
  alone, but for the random ones. Lengths are assumed to fit in an \<open>int\<close>. A call that copies a negative
  amount of memory or reads outside a list is \<open>BadMemory\<close>.
\<close>

subsection \<open>Strings\<close>

definition len_value :: "'a list \<Rightarrow> svalue" where
  "len_value xs = SInt (of_nat (length xs))"

definition bi_llStringLength :: "svalue list \<Rightarrow> svalue" where
  "bi_llStringLength a = len_value (as_str a 0)"

definition bi_llSubStringIndex :: "svalue list \<Rightarrow> svalue" where
  "bi_llSubStringIndex a =
     SInt (case strstr (as_str a 0) (as_str a 1) of Some k \<Rightarrow> of_nat k | None \<Rightarrow> - 1)"

definition norm_idx :: "int \<Rightarrow> nat \<Rightarrow> nat" where
  "norm_idx i l = (let k = (if i < 0 then i + int l else i) in
     if k < 0 then 0 else if int l < k then l else nat k)"

definition bi_llGetSubString :: "svalue list \<Rightarrow> svalue" where
  "bi_llGetSubString a =
    (let st = as_str a 0; l = length st; i = norm_idx (ai_int a 1) l; j = norm_idx (ai_int a 2) l in
     SString (if j < i then drop i st @ take (Suc j) st else take (Suc j - i) (drop i st)))"

text \<open>An end index past the last character makes the code copy \<open>-1\<close> bytes.\<close>

definition bi_llDeleteSubString :: "svalue list \<Rightarrow> svalue res" where
  "bi_llDeleteSubString a =
    (let st = as_str a 0; l = length st; i = norm_idx (ai_int a 1) l; j = norm_idx (ai_int a 2) l;
         i' = (if j < i then j else i)
     in if j = l then Inl BadMemory else Inr (SString (take i' st @ drop (Suc j) st)))"

definition bi_llInsertString :: "svalue list \<Rightarrow> svalue" where
  "bi_llInsertString a =
    (let st = as_str a 0; i = norm_idx (ai_int a 1) (length st) in
     SString (take i st @ as_str a 2 @ drop i st))"

definition bi_llToLower :: "svalue list \<Rightarrow> svalue" where
  "bi_llToLower a = SString (map tolower (as_str a 0))"

definition bi_llToUpper :: "svalue list \<Rightarrow> svalue" where
  "bi_llToUpper a = SString (map toupper (as_str a 0))"

definition trim_end :: "string \<Rightarrow> string" where
  "trim_end s = rev (dropWhile isspace (rev s))"

definition bi_llStringTrim :: "svalue list \<Rightarrow> svalue" where
  "bi_llStringTrim a =
    (let mode = (if 1 < length a then cint_of_ll (ai a 1) else 3);
         t = (if mode AND 1 \<noteq> 0 then dropWhile isspace (as_str a 0) else as_str a 0)
     in SString (if mode AND 2 \<noteq> 0 then trim_end t else t))"

definition bi_llChar :: "svalue list \<Rightarrow> svalue" where
  "bi_llChar a = (let c = sint (ai a 0) in
     SString (cstr [if c < 0 \<or> 127 < c then CHR ''?'' else char_of (nat c)]))"

definition bi_llOrd :: "svalue list \<Rightarrow> svalue" where
  "bi_llOrd a = (let t = as_str a 0; k = ai_int a 1 in
     SInt (if k < 0 \<or> int (length t) \<le> k then 0 else of_nat (ord_char (t ! nat k))))"

subsection \<open>Lists\<close>

definition list_arg :: "svalue list \<Rightarrow> nat \<Rightarrow> svalue list option" where
  "list_arg a i = (if i < length a then (case a ! i of SList l \<Rightarrow> Some l | _ \<Rightarrow> None) else None)"

definition bi_llGetListLength :: "svalue list \<Rightarrow> svalue" where
  "bi_llGetListLength a = (case list_arg a 0 of Some l \<Rightarrow> len_value l | None \<Rightarrow> SInt 0)"

text \<open>The conversion of an element to the type its reader wants.\<close>

definition item_as :: "svtype \<Rightarrow> svalue \<Rightarrow> svalue" where
  "item_as want v =
    (if sv_type v = want then v else case want of
       SV_STRING \<Rightarrow> SString (sv_to_string v)
     | SV_INTEGER \<Rightarrow> SInt (case v of SFloat f \<Rightarrow> d_to_ll f | SString s \<Rightarrow> strtoll 0 s
         | SKey s \<Rightarrow> strtoll 0 s | _ \<Rightarrow> 0)
     | SV_FLOAT \<Rightarrow> SFloat (case v of SInt n \<Rightarrow> d_of_ll n | SString s \<Rightarrow> strtod s | _ \<Rightarrow> d_zero)
     | SV_KEY \<Rightarrow> SKey (sv_to_string v)
     | SV_VECTOR \<Rightarrow> sv_zero SV_VECTOR
     | SV_ROTATION \<Rightarrow> sv_zero SV_ROTATION
     | _ \<Rightarrow> v)"

text \<open>An index from the end counts back; one outside the list gives the zero of the wanted type.\<close>

definition list_at :: "svalue list \<Rightarrow> nat \<Rightarrow> svtype \<Rightarrow> svalue" where
  "list_at a i want = (case list_arg a 0 of
     None \<Rightarrow> sv_zero want
   | Some l \<Rightarrow> (let k = ai_int a i; k' = (if k < 0 then k + int (length l) else k) in
       if k' < 0 \<or> int (length l) \<le> k' then sv_zero want else item_as want (l ! nat k')))"

definition bi_llList2String :: "svalue list \<Rightarrow> svalue" where
  "bi_llList2String a = list_at a 1 SV_STRING"

definition bi_llList2Integer :: "svalue list \<Rightarrow> svalue" where
  "bi_llList2Integer a = list_at a 1 SV_INTEGER"

definition bi_llList2Float :: "svalue list \<Rightarrow> svalue" where
  "bi_llList2Float a = list_at a 1 SV_FLOAT"

definition bi_llList2Key :: "svalue list \<Rightarrow> svalue" where
  "bi_llList2Key a = list_at a 1 SV_KEY"

definition bi_llList2Vector :: "svalue list \<Rightarrow> svalue" where
  "bi_llList2Vector a = list_at a 1 SV_VECTOR"

definition bi_llList2Rot :: "svalue list \<Rightarrow> svalue" where
  "bi_llList2Rot a = list_at a 1 SV_ROTATION"

definition from_end :: "int \<Rightarrow> 'a list \<Rightarrow> int" where
  "from_end i l = (if i < 0 then i + int (length l) else i)"

definition bi_llList2List :: "svalue list \<Rightarrow> svalue" where
  "bi_llList2List a = SList (case list_arg a 0 of None \<Rightarrow> [] | Some l \<Rightarrow>
     (let i = max 0 (from_end (ai_int a 1) l);
          j = min (int (length l) - 1) (from_end (ai_int a 2) l)
      in if i \<le> j then take (nat (j + 1 - i)) (drop (nat i) l) else []))"

fun starts_equal :: "svalue list \<Rightarrow> svalue list \<Rightarrow> bool" where
  "starts_equal xs [] = True"
| "starts_equal [] (y # ys) = False"
| "starts_equal (x # xs) (y # ys) = (sv_equal x y \<and> starts_equal xs ys)"

definition bi_llListFindList :: "svalue list \<Rightarrow> svalue" where
  "bi_llListFindList a = SInt (case (list_arg a 0, list_arg a 1) of
     (Some l, Some m) \<Rightarrow> if m = [] then 0 else
       (case find_index (\<lambda>k. starts_equal (drop k l) m) [0 ..< Suc (length l) - length m] of
          Some k \<Rightarrow> of_nat k | None \<Rightarrow> - 1)
   | _ \<Rightarrow> - 1)"

definition first_arg :: "svalue list \<Rightarrow> svalue" where
  "first_arg a = (case a of [] \<Rightarrow> SVoid | v # vs \<Rightarrow> v)"

definition bi_llListInsertList :: "svalue list \<Rightarrow> svalue" where
  "bi_llListInsertList a = (case (list_arg a 0, list_arg a 1) of
     (Some l, Some m) \<Rightarrow> (let k = norm_idx (ai_int a 2) (length l) in SList (take k l @ m @ drop k l))
   | _ \<Rightarrow> first_arg a)"

text \<open>A start past the end, or an end more than one before the start of the list, makes the loops read
  outside it.\<close>

definition bi_llListReplaceList :: "svalue list \<Rightarrow> svalue res" where
  "bi_llListReplaceList a = (case (list_arg a 0, list_arg a 1) of
     (Some l, Some m) \<Rightarrow>
       if length a < 4 then Inr (first_arg a)
       else (let st = max 0 (from_end (ai_int a 2) l);
                 en = min (int (length l) - 1) (from_end (ai_int a 3) l)
             in if int (length l) < st \<or> en < - 1 then Inl BadMemory
                else Inr (SList (take (nat st) l @ m @ drop (nat (en + 1)) l)))
   | _ \<Rightarrow> Inr (first_arg a))"

definition bi_llDeleteSubList :: "svalue list \<Rightarrow> svalue" where
  "bi_llDeleteSubList a = SList (case list_arg a 0 of None \<Rightarrow> [] | Some l \<Rightarrow>
     (let st = from_end (ai_int a 1) l; en = from_end (ai_int a 2) l in
      map ((!) l) (filter (\<lambda>k. int k < st \<or> en < int k) [0 ..< length l])))"

subsection \<open>Sorting\<close>

text \<open>Whether two keys are out of order; keys of kinds that do not compare never are.\<close>

definition num_key :: "svalue \<Rightarrow> double" where
  "num_key v = (case v of SInt n \<Rightarrow> d_of_ll n | SFloat f \<Rightarrow> f | _ \<Rightarrow> d_zero)"

definition out_of_order :: "bool \<Rightarrow> svalue \<Rightarrow> svalue \<Rightarrow> bool" where
  "out_of_order asc x y =
    (if sv_type x = SV_INTEGER \<and> sv_type y = SV_INTEGER then
       (case (x, y) of (SInt m, SInt n) \<Rightarrow> if asc then n <s m else m <s n | _ \<Rightarrow> False)
     else if sv_type x \<in> {SV_INTEGER, SV_FLOAT} \<and> sv_type y \<in> {SV_INTEGER, SV_FLOAT} then
       (if asc then d_lt (num_key y) (num_key x) else d_lt (num_key x) (num_key y))
     else (case (sv_text x, sv_text y) of
       (Some s, Some t) \<Rightarrow> if asc then str_lt t s else str_lt s t | _ \<Rightarrow> False))"

definition swap_at :: "nat \<Rightarrow> nat \<Rightarrow> 'a list \<Rightarrow> 'a list" where
  "swap_at i j xs = xs[i := xs ! j, j := xs ! i]"

definition swap_strides :: "nat \<Rightarrow> nat \<Rightarrow> nat \<Rightarrow> 'a list \<Rightarrow> 'a list" where
  "swap_strides st i j xs =
     fold (\<lambda>k. swap_at (i + k) (j + k)) [0 ..< min st (min (length xs - i) (length xs - j))] xs"

text \<open>The positions from \<open>k\<close> below \<open>n\<close> in steps of \<open>st\<close>.\<close>

definition steps :: "nat \<Rightarrow> nat \<Rightarrow> nat \<Rightarrow> nat list" where
  "steps st k n = map (\<lambda>m. k + m * st) [0 ..< (n - k + (st - 1)) div st]"

definition sort_pass :: "bool \<Rightarrow> nat \<Rightarrow> nat \<Rightarrow> svalue list \<Rightarrow> svalue list" where
  "sort_pass asc st i xs = fold (\<lambda>j xs. if out_of_order asc (xs ! i) (xs ! j) then swap_strides st i j xs else xs)
     (steps st (i + st) (length xs)) xs"

definition sort_strides :: "bool \<Rightarrow> nat \<Rightarrow> svalue list \<Rightarrow> svalue list" where
  "sort_strides asc st xs = fold (sort_pass asc st) (steps st 0 (length xs)) xs"

definition stride_of :: "svalue list \<Rightarrow> nat" where
  "stride_of a = (if ai_int a 1 < 1 then 1 else nat (ai_int a 1))"

definition bi_llListSort :: "svalue list \<Rightarrow> svalue" where
  "bi_llListSort a = SList (case list_arg a 0 of None \<Rightarrow> []
     | Some l \<Rightarrow> sort_strides (ai_int a 2 \<noteq> 0) (stride_of a) l)"

text \<open>A Fisher-Yates shuffle of the strides, with \<open>rand()\<close>.\<close>

definition shuffle_step :: "nat \<Rightarrow> nat \<Rightarrow> svalue list \<times> region \<Rightarrow> svalue list \<times> region" where
  "shuffle_step st i p = (case p of (xs, r) \<Rightarrow>
     (swap_strides st i (h_rand (host r) (n_rand r) mod (i div st + 1) * st) xs,
      r\<lparr>n_rand := Suc (n_rand r)\<rparr>))"

definition bi_llListRandomize :: "nat \<Rightarrow> svalue list \<Rightarrow> region \<Rightarrow> svalue \<times> region" where
  "bi_llListRandomize i a r = (case list_arg a 0 of None \<Rightarrow> (SList [], r) | Some l \<Rightarrow>
     (let st = stride_of a; n = length l - st;
          turns = map (\<lambda>m. n - m * st) [0 ..< (n + (st - 1)) div st]
      in case fold (shuffle_step st) turns (l, r) of (xs, r') \<Rightarrow> (SList xs, r')))"

subsection \<open>Lists and text\<close>

definition bi_llDumpList2String :: "svalue list \<Rightarrow> svalue" where
  "bi_llDumpList2String a = SString (case list_arg a 0 of None \<Rightarrow> []
     | Some l \<Rightarrow> str_join (as_str a 1) (map sv_to_string l))"

definition bi_llList2CSV :: "svalue list \<Rightarrow> svalue" where
  "bi_llList2CSV a = SString (case list_arg a 0 of None \<Rightarrow> []
     | Some l \<Rightarrow> str_join '', '' (map sv_to_string l))"

text \<open>The pieces between commas, leading spaces dropped from all but the last.\<close>

fun csv_pieces :: "string \<Rightarrow> string \<Rightarrow> string list" where
  "csv_pieces cur [] = [rev cur]"
| "csv_pieces cur (c # s) = (if c = CHR '','' then dropWhile (\<lambda>c. c = CHR '' '') (rev cur) # csv_pieces [] s
     else csv_pieces (c # cur) s)"

definition bi_llCSV2List :: "svalue list \<Rightarrow> svalue" where
  "bi_llCSV2List a = SList (map SString (csv_pieces [] (as_str a 0)))"

definition token_strings :: "svalue list option \<Rightarrow> string list" where
  \<comment> \<open>only non-empty strings separate\<close>
  "token_strings l = (case l of None \<Rightarrow> [] | Some l \<Rightarrow>
     filter (\<lambda>t. t \<noteq> []) (concat (map (\<lambda>v. case v of SString s \<Rightarrow> [s] | _ \<Rightarrow> []) l)))"

text \<open>Whether a separator or a spacer starts here; a separator comes first.\<close>

definition match_token :: "string list \<Rightarrow> string list \<Rightarrow> string \<Rightarrow> (bool \<times> string) option" where
  "match_token seps spcs s = (case find (\<lambda>t. is_prefix t s) seps of Some t \<Rightarrow> Some (False, t)
     | None \<Rightarrow> map_option (Pair True) (find (\<lambda>t. is_prefix t s) spcs))"

function parse_tokens :: "bool \<Rightarrow> string list \<Rightarrow> string list \<Rightarrow> string \<Rightarrow> string \<Rightarrow> string list" where
  "parse_tokens keep seps spcs cur [] = (if cur \<noteq> [] \<or> keep then [rev cur] else [])"
| "parse_tokens keep seps spcs cur (c # s) = (case match_token seps spcs (c # s) of
     None \<Rightarrow> parse_tokens keep seps spcs (c # cur) s
   | Some (spacer, t) \<Rightarrow>
       (if cur \<noteq> [] \<or> keep then [rev cur] else []) @ (if spacer then [t] else []) @
       parse_tokens keep seps spcs [] (drop (length t - 1) s))"
  by pat_completeness auto
termination
  by (relation "measure (\<lambda>(keep, seps, spcs, cur, s). length s)") auto

definition parse_string2list :: "bool \<Rightarrow> svalue list \<Rightarrow> svalue" where
  "parse_string2list keep a = SList (if a = [] then [] else
     map SString (parse_tokens keep (token_strings (list_arg a 1)) (token_strings (list_arg a 2)) [] (as_str a 0)))"

definition bi_llParseString2List :: "svalue list \<Rightarrow> svalue" where
  "bi_llParseString2List a = parse_string2list False a"

definition bi_llParseStringKeepNulls :: "svalue list \<Rightarrow> svalue" where
  "bi_llParseStringKeepNulls a = parse_string2list True a"

subsection \<open>Numbers\<close>

definition d_half :: double where
  "d_half = DFin False (2 ^ 52) (- 53)"

definition libm :: "region \<Rightarrow> string \<Rightarrow> double list \<Rightarrow> double" where
  "libm r f xs = h_libm (host r) f xs"

definition bi_llAbs :: "svalue list \<Rightarrow> svalue" where
  "bi_llAbs a = (let v = ai a 0 in SInt (if v <s 0 then - v else v))"

definition bi_llFabs :: "svalue list \<Rightarrow> svalue" where
  "bi_llFabs a = SFloat (d_abs (af a 0))"

definition bi_llFloor :: "svalue list \<Rightarrow> svalue" where
  "bi_llFloor a = SInt (d_to_ll (d_floor (af a 0)))"

definition bi_llCeil :: "svalue list \<Rightarrow> svalue" where
  "bi_llCeil a = SInt (d_to_ll (d_ceil (af a 0)))"

definition bi_llRound :: "svalue list \<Rightarrow> svalue" where
  "bi_llRound a = SInt (d_to_ll (d_floor (d_add (af a 0) d_half)))"

definition bi_llSqrt :: "nat \<Rightarrow> svalue list \<Rightarrow> region \<Rightarrow> svalue" where
  "bi_llSqrt i a r = SFloat (if d_le d_zero (af a 0) then libm r ''sqrt'' [af a 0] else d_zero)"

definition libm1 :: "string \<Rightarrow> nat \<Rightarrow> svalue list \<Rightarrow> region \<Rightarrow> svalue" where
  \<comment> \<open>\<open>llSin\<close>, \<open>llCos\<close>, \<open>llTan\<close>, \<open>llAsin\<close>, \<open>llAcos\<close>\<close>
  "libm1 f i a r = SFloat (libm r f [af a 0])"

definition libm2 :: "string \<Rightarrow> nat \<Rightarrow> svalue list \<Rightarrow> region \<Rightarrow> svalue" where
  \<comment> \<open>\<open>llAtan2\<close>, \<open>llPow\<close>\<close>
  "libm2 f i a r = SFloat (libm r f [af a 0, af a 1])"

definition libm_log :: "string \<Rightarrow> nat \<Rightarrow> svalue list \<Rightarrow> region \<Rightarrow> svalue" where
  \<comment> \<open>\<open>llLog\<close>, \<open>llLog10\<close>\<close>
  "libm_log f i a r = SFloat (if d_lt d_zero (af a 0) then libm r f [af a 0] else d_zero)"

definition rand_max :: int where
  "rand_max = 2147483647"

definition bi_llFrand :: "nat \<Rightarrow> svalue list \<Rightarrow> region \<Rightarrow> svalue \<times> region" where
  "bi_llFrand i a r =
    (SFloat (d_mul (d_div (d_of_int (int (h_rand (host r) (n_rand r)))) (d_of_int rand_max)) (af a 0)),
     r\<lparr>n_rand := Suc (n_rand r)\<rparr>)"

definition vec_arg :: "svalue list \<Rightarrow> nat \<Rightarrow> (double \<times> double \<times> double) option" where
  "vec_arg a i = (if i < length a then (case a ! i of SVector x y z \<Rightarrow> Some (x, y, z) | _ \<Rightarrow> None) else None)"

definition vec_len :: "region \<Rightarrow> double \<Rightarrow> double \<Rightarrow> double \<Rightarrow> double" where
  "vec_len r x y z = libm r ''sqrt'' [d_add (d_add (d_mul x x) (d_mul y y)) (d_mul z z)]"

definition bi_llVecMag :: "nat \<Rightarrow> svalue list \<Rightarrow> region \<Rightarrow> svalue" where
  "bi_llVecMag i a r = SFloat (case vec_arg a 0 of None \<Rightarrow> d_zero | Some (x, y, z) \<Rightarrow> vec_len r x y z)"

definition bi_llVecNorm :: "nat \<Rightarrow> svalue list \<Rightarrow> region \<Rightarrow> svalue" where
  "bi_llVecNorm i a r = (case vec_arg a 0 of None \<Rightarrow> sv_zero SV_VECTOR
     | Some (x, y, z) \<Rightarrow> (let m = vec_len r x y z in
         if d_is_zero m then sv_zero SV_VECTOR else SVector (d_div x m) (d_div y m) (d_div z m)))"

definition bi_llVecDist :: "nat \<Rightarrow> svalue list \<Rightarrow> region \<Rightarrow> svalue" where
  "bi_llVecDist i a r = SFloat (case (vec_arg a 0, vec_arg a 1) of
     (Some (x, y, z), Some (x', y', z')) \<Rightarrow> vec_len r (d_sub x x') (d_sub y y') (d_sub z z')
   | _ \<Rightarrow> d_zero)"

end
