(* ===== verification/TextProps.thy ===== *)
theory TextProps
  imports BuiltinsText "HOL-Library.List_Lexorder" "HOL-Library.Char_ord"
begin

text \<open>
  Properties of the list and string functions: sorting, splitting and joining, cutting and
  inserting.
\<close>

subsection \<open>Sorting\<close>

lemma length_swap_at [simp]: "length (swap_at i j xs) = length xs"
  by (simp add: swap_at_def)

lemma mset_swap_at: "i < length xs \<Longrightarrow> j < length xs \<Longrightarrow> mset (swap_at i j xs) = mset xs"
  by (simp add: swap_at_def mset_swap)

lemma nth_swap_at:
  "i < length xs \<Longrightarrow> j < length xs \<Longrightarrow> k < length xs \<Longrightarrow>
     swap_at i j xs ! k = (if k = j then xs ! i else if k = i then xs ! j else xs ! k)"
  by (auto simp: swap_at_def nth_list_update)

lemma mset_fold_swap:
  assumes "\<And>k. k \<in> set ks \<Longrightarrow> i + k < length xs \<and> j + k < length xs"
  shows "mset (fold (\<lambda>k. swap_at (i + k) (j + k)) ks xs) = mset xs"
  using assms
proof (induction ks arbitrary: xs)
  case Nil
  then show ?case by simp
next
  case (Cons k ks)
  then show ?case using Cons.IH [of "swap_at (i + k) (j + k) xs"] by (simp add: mset_swap_at)
qed

lemma mset_swap_strides: "mset (swap_strides st i j xs) = mset xs"
  by (auto simp: swap_strides_def intro!: mset_fold_swap)

lemma mset_fold_id: "(\<And>x ys. mset (f x ys) = mset ys) \<Longrightarrow> mset (fold f xs ys) = mset ys"
  by (induction xs arbitrary: ys) simp_all

lemma mset_sort_pass: "mset (sort_pass asc st i xs) = mset xs"
  unfolding sort_pass_def by (rule mset_fold_id) (simp add: mset_swap_strides)

lemma mset_sort_strides: "mset (sort_strides asc st xs) = mset xs"
  unfolding sort_strides_def by (rule mset_fold_id) (rule mset_sort_pass)

lemma steps_1: "steps 1 k n = [k ..< n]"
  by (rule nth_equalityI) (simp_all add: steps_def)

lemma swap_strides_1: "i < length xs \<Longrightarrow> j < length xs \<Longrightarrow> swap_strides 1 i j xs = swap_at i j xs"
proof -
  assume "i < length xs" "j < length xs"
  then have "min 1 (min (length xs - i) (length xs - j)) = 1" by simp
  then show ?thesis by (simp add: swap_strides_def)
qed

text \<open>Keys that the comparison orders totally: then an exchange sort sorts them. The first \<open>i\<close> places
  are settled after \<open>i\<close> passes.\<close>

definition comparable :: "bool \<Rightarrow> svalue set \<Rightarrow> bool" where
  "comparable asc A \<longleftrightarrow>
    (\<forall>x \<in> A. \<forall>y \<in> A. out_of_order asc x y \<longrightarrow> \<not> out_of_order asc y x) \<and>
    (\<forall>x \<in> A. \<forall>y \<in> A. \<forall>z \<in> A. \<not> out_of_order asc x y \<longrightarrow> \<not> out_of_order asc y z \<longrightarrow> \<not> out_of_order asc x z)"

lemma comparable_flip:
  "comparable asc A \<Longrightarrow> x \<in> A \<Longrightarrow> y \<in> A \<Longrightarrow> out_of_order asc x y \<Longrightarrow> \<not> out_of_order asc y x"
  unfolding comparable_def by blast

lemma comparable_trans:
  "comparable asc A \<Longrightarrow> x \<in> A \<Longrightarrow> y \<in> A \<Longrightarrow> z \<in> A \<Longrightarrow>
     \<not> out_of_order asc x y \<Longrightarrow> \<not> out_of_order asc y z \<Longrightarrow> \<not> out_of_order asc x z"
  unfolding comparable_def by blast

definition pass_inv :: "bool \<Rightarrow> nat \<Rightarrow> nat \<Rightarrow> svalue list \<Rightarrow> svalue list \<Rightarrow> bool" where
  "pass_inv asc i j xs ys \<longleftrightarrow> mset ys = mset xs \<and> (\<forall>k < i. ys ! k = xs ! k) \<and>
     (\<forall>k. i < k \<and> k < j \<longrightarrow> \<not> out_of_order asc (ys ! i) (ys ! k)) \<and>
     (\<forall>q. i \<le> q \<and> q < length xs \<longrightarrow> (\<exists>q'. i \<le> q' \<and> q' < length xs \<and> ys ! q = xs ! q'))"

lemma pass_inv_step:
  assumes c: "comparable asc (set xs)" and I: "pass_inv asc i j xs ys" and ij: "i < j" "j < length xs"
  shows "pass_inv asc i (Suc j) xs
    (if out_of_order asc (ys ! i) (ys ! j) then swap_strides 1 i j ys else ys)"
proof -
  have m: "mset ys = mset xs" using I by (simp add: pass_inv_def)
  then have l: "length ys = length xs" and s: "set ys = set xs"
    by (rule mset_eq_length, rule mset_eq_setD)
  have ge: "\<exists>q'. i \<le> q' \<and> q' < length xs \<and> ys ! q = xs ! q'" if "i \<le> q" "q < length xs" for q
    using I that by (simp add: pass_inv_def)
  have le: "\<not> out_of_order asc (ys ! i) (ys ! k)" if "i < k" "k < j" for k
    using I that by (simp add: pass_inv_def)
  have mem: "ys ! k \<in> set xs" if "k < length xs" for k
    using that l s nth_mem [of k ys] by simp
  show ?thesis
  proof (cases "out_of_order asc (ys ! i) (ys ! j)")
    case False
    then have "\<not> out_of_order asc (ys ! i) (ys ! k)" if "i < k" "k < Suc j" for k
      using that le [of k] by (cases "k = j") auto
    with False I show ?thesis by (simp add: pass_inv_def)
  next
    case True
    let ?zs = "swap_at i j ys"
    have z: "?zs ! k = (if k = j then ys ! i else if k = i then ys ! j else ys ! k)" if "k < length xs" for k
      using nth_swap_at [of i ys j k] that ij l by simp
    have flip: "\<not> out_of_order asc (ys ! j) (ys ! i)"
      using comparable_flip [OF c mem mem True] ij by simp
    have 1: "\<not> out_of_order asc (?zs ! i) (?zs ! k)" if k: "i < k" "k < Suc j" for k
    proof (cases "k = j")
      case True
      with flip ij show ?thesis by (simp add: z)
    next
      case False
      with k have "k < j" by simp
      with comparable_trans [OF c mem mem mem flip le [OF k(1) this]] ij k False show ?thesis by (simp add: z)
    qed
    have 2: "\<exists>q'. i \<le> q' \<and> q' < length xs \<and> ?zs ! q = xs ! q'" if "i \<le> q" "q < length xs" for q
      using that ge [of q] ge [of i] ge [of j] ij by (auto simp: z)
    have 3: "\<forall>k < i. ?zs ! k = xs ! k" using I ij by (simp add: pass_inv_def z)
    have 4: "mset ?zs = mset xs" using ij l m by (simp add: mset_swap_at)
    have "swap_strides 1 i j ys = ?zs" using ij l by (intro swap_strides_1) simp_all
    with True 1 2 3 4 show ?thesis unfolding pass_inv_def by simp
  qed
qed

lemma sort_pass_inv:
  assumes c: "comparable asc (set xs)" and i: "i < length xs"
  shows "pass_inv asc i (length xs) xs (sort_pass asc 1 i xs)"
proof -
  let ?f = "\<lambda>j xs. if out_of_order asc (xs ! i) (xs ! j) then swap_strides 1 i j xs else xs"
  have "Suc i \<le> n \<Longrightarrow> n \<le> length xs \<Longrightarrow> pass_inv asc i n xs (fold ?f [Suc i ..< n] xs)" for n
  proof (induction n)
    case 0
    then show ?case by simp
  next
    case (Suc n)
    show ?case
    proof (cases "n = i")
      case True
      then show ?thesis by (auto simp: pass_inv_def)
    next
      case False
      with Suc have "pass_inv asc i n xs (fold ?f [Suc i ..< n] xs)" by simp
      from pass_inv_step [OF c this] False Suc.prems show ?thesis by simp
    qed
  qed
  moreover have "sort_pass asc 1 i xs = fold ?f [Suc i ..< length xs] xs"
    by (simp only: sort_pass_def steps_1 Suc_eq_plus1 [symmetric])
  ultimately show ?thesis using i by simp
qed

lemma sort_strides_sorted:
  assumes c: "comparable asc (set xs)"
  shows "sorted_wrt (\<lambda>x y. \<not> out_of_order asc x y) (sort_strides asc 1 xs)"
proof -
  let ?s = "\<lambda>i ys. \<forall>p q. p < i \<and> p < q \<and> q < length xs \<longrightarrow> \<not> out_of_order asc (ys ! p) (ys ! q)"
  have "i \<le> length xs \<Longrightarrow> mset (fold (sort_pass asc 1) [0 ..< i] xs) = mset xs \<and>
      ?s i (fold (sort_pass asc 1) [0 ..< i] xs)" for i
  proof (induction i)
    case 0
    then show ?case by simp
  next
    case (Suc i)
    let ?ys = "fold (sort_pass asc 1) [0 ..< i] xs"
    let ?zs = "sort_pass asc 1 i ?ys"
    have m: "mset ?ys = mset xs" and IH: "?s i ?ys" using Suc by simp_all
    have l: "length ?ys = length xs" and s: "set ?ys = set xs"
      using m by (rule mset_eq_length, rule mset_eq_setD)
    have I: "pass_inv asc i (length xs) ?ys ?zs"
      using sort_pass_inv [of asc ?ys i] c Suc.prems l s by simp
    have "\<not> out_of_order asc (?zs ! p) (?zs ! q)" if "p < Suc i" "p < q" and q: "q < length xs" for p q
    proof (cases "p = i")
      case True
      with I that show ?thesis by (simp add: pass_inv_def)
    next
      case False
      with that have p: "p < i" by simp
      with I have zp: "?zs ! p = ?ys ! p" by (simp add: pass_inv_def)
      show ?thesis
      proof (cases "q < i")
        case True
        with I have "?zs ! q = ?ys ! q" by (simp add: pass_inv_def)
        with zp IH p that show ?thesis by simp
      next
        case False
        then have "i \<le> q" by simp
        moreover have "\<forall>q. i \<le> q \<and> q < length ?ys \<longrightarrow> (\<exists>q'. i \<le> q' \<and> q' < length ?ys \<and> ?zs ! q = ?ys ! q')"
          using I unfolding pass_inv_def by blast
        ultimately obtain q' where "i \<le> q'" "q' < length xs" "?zs ! q = ?ys ! q'"
          using q unfolding l by blast
        with zp IH p show ?thesis by simp
      qed
    qed
    with I m show ?case by (simp add: pass_inv_def)
  qed
  from this [of "length xs"] have "?s (length xs) (sort_strides asc 1 xs)"
    unfolding sort_strides_def steps_1 by blast
  moreover have "length (sort_strides asc 1 xs) = length xs"
    using mset_sort_strides by (rule mset_eq_length)
  ultimately show ?thesis by (simp add: sorted_wrt_iff_nth_less)
qed

lemma str_lt_irrefl: "\<not> str_lt s s"
  by (induction s) auto

lemma str_lt_asym: "str_lt s t \<Longrightarrow> \<not> str_lt t s"
  by (induction s t rule: str_lt.induct) auto

lemma ord_char_inject: "ord_char a = ord_char b \<longleftrightarrow> a = b"
  by (simp add: ord_char_def)

lemma str_le_trans: "\<not> str_lt t s \<Longrightarrow> \<not> str_lt u t \<Longrightarrow> \<not> str_lt u s"
proof (induction u s arbitrary: t rule: str_lt.induct)
  case (1 u)
  then show ?case by simp
next
  case (2 c s)
  then show ?case by (cases t) auto
next
  case (3 a as b bs)
  from "3.prems" obtain c cs where t: "t = c # cs" by (cases t) auto
  have cb: "\<not> ord_char c < ord_char b" "c = b \<Longrightarrow> \<not> str_lt cs bs" using "3.prems"(1) t by simp_all
  have ac: "\<not> ord_char a < ord_char c" "a = c \<Longrightarrow> \<not> str_lt as cs" using "3.prems"(2) t by simp_all
  have "\<not> str_lt as bs" if ab: "a = b"
  proof -
    have "ord_char c = ord_char b" using cb(1) ac(1) ab by simp
    then have "c = b" by (simp only: ord_char_inject)
    then show ?thesis using "3.IH" [of cs] cb(2) ac(2) ab by simp
  qed
  with cb(1) ac(1) show ?case by simp
qed

definition all_ints :: "svalue list \<Rightarrow> bool" where
  "all_ints xs \<longleftrightarrow> (\<forall>x \<in> set xs. sv_type x = SV_INTEGER)"

definition all_texts :: "svalue list \<Rightarrow> bool" where
  "all_texts xs \<longleftrightarrow> (\<forall>x \<in> set xs. sv_text x \<noteq> None)"

lemma out_of_order_ints:
  "out_of_order asc (SInt m) (SInt n) = (if asc then n <s m else m <s n)"
  by (simp add: out_of_order_def)

lemma comparable_ints: "all_ints xs \<Longrightarrow> comparable asc (set xs)"
proof -
  assume a: "all_ints xs"
  have i: "\<exists>n. x = SInt n" if "x \<in> set xs" for x
    using a that by (cases x) (auto simp: all_ints_def)
  then show ?thesis
    unfolding comparable_def
  proof (intro conjI ballI impI)
    fix x y assume xy: "x \<in> set xs" "y \<in> set xs"
    { assume "out_of_order asc x y"
      with i [OF xy(1)] i [OF xy(2)]
      show "\<not> out_of_order asc y x" by (auto simp: out_of_order_ints word_sless_alt split: if_splits)
    next
      fix z assume "z \<in> set xs" and "\<not> out_of_order asc x y" "\<not> out_of_order asc y z"
      with i [OF xy(1)] i [OF xy(2)]
        i [of z]
      show "\<not> out_of_order asc x z" by (auto simp: out_of_order_ints word_sless_alt split: if_splits)
    }
  qed
qed

lemma comparable_texts: "all_texts xs \<Longrightarrow> comparable asc (set xs)"
  unfolding comparable_def
proof (intro conjI ballI impI)
  assume a: "all_texts xs"
  have t: "out_of_order asc x y = (if asc then str_lt (the (sv_text y)) (the (sv_text x))
      else str_lt (the (sv_text x)) (the (sv_text y)))" if "x \<in> set xs" "y \<in> set xs" for x y
    using a that by (cases x; cases y) (auto simp: all_texts_def out_of_order_def)
  fix x y assume xy: "x \<in> set xs" "y \<in> set xs"
  { assume "out_of_order asc x y"
    then show "\<not> out_of_order asc y x" using xy by (auto simp: t dest: str_lt_asym split: if_splits)
  next
    fix z assume z: "z \<in> set xs" and "\<not> out_of_order asc x y" "\<not> out_of_order asc y z"
    then show "\<not> out_of_order asc x z" using xy by (auto simp: t dest: str_le_trans split: if_splits)
  }
qed

text \<open>The order of \<open>strcmp\<close> is the lexicographic order of the characters' codes.\<close>

lemma str_lt_less: "str_lt s t \<longleftrightarrow> s < t"
  by (induction s t rule: str_lt.induct) (auto simp: ord_char_def less_char_def)

lemma in_order_ints:
  "all_ints xs \<Longrightarrow> x \<in> set xs \<Longrightarrow> y \<in> set xs \<Longrightarrow> \<not> out_of_order asc x y \<Longrightarrow>
     (if asc then sint (num_i x) \<le> sint (num_i y) else sint (num_i y) \<le> sint (num_i x))"
proof -
  assume "all_ints xs" "x \<in> set xs" "y \<in> set xs" and o': "\<not> out_of_order asc x y"
  then have "sv_type x = SV_INTEGER" "sv_type y = SV_INTEGER" by (simp_all add: all_ints_def)
  with o' show ?thesis by (cases x; cases y) (simp_all add: out_of_order_ints word_sless_alt split: if_splits)
qed

lemma in_order_texts:
  "all_texts xs \<Longrightarrow> x \<in> set xs \<Longrightarrow> y \<in> set xs \<Longrightarrow> \<not> out_of_order asc x y \<Longrightarrow>
     (if asc then the (sv_text x) \<le> the (sv_text y) else the (sv_text y) \<le> the (sv_text x))"
proof -
  assume "all_texts xs" "x \<in> set xs" "y \<in> set xs" and o': "\<not> out_of_order asc x y"
  then have "sv_text x \<noteq> None" "sv_text y \<noteq> None" by (simp_all add: all_texts_def)
  with o' show ?thesis by (cases x; cases y) (simp_all add: out_of_order_def str_lt_less not_less split: if_splits)
qed

text \<open>C34 \<open>llListSort\<close> returns the elements it was given, each as often, whatever the stride; with stride 1
  a list of integers comes out in the order of the numbers, and a list of strings and keys in the lexicographic order of
  the character codes, ascending when the third argument is not 0 and descending when it is.\<close>

theorem list_sort_correct:
  "\<exists>ys. bi_llListSort (SList xs # args) = SList ys \<and> mset ys = mset xs \<and>
     (let in_turn = (if ai_int (SList xs # args) 2 \<noteq> 0 then ys else rev ys) in
      stride_of (SList xs # args) = 1 \<longrightarrow>
        (all_ints xs \<longrightarrow> sorted (map (\<lambda>x. sint (num_i x)) in_turn)) \<and>
        (all_texts xs \<longrightarrow> sorted (map (\<lambda>x. the (sv_text x)) in_turn)))"
proof -
  let ?asc = "ai_int (SList xs # args) 2 \<noteq> 0"
  let ?ys = "sort_strides ?asc (stride_of (SList xs # args)) xs"
  have y: "set ?ys = set xs" using mset_sort_strides by (rule mset_eq_setD)
  have w: "sorted_wrt (\<lambda>x y. \<not> out_of_order ?asc x y) ?ys" if "stride_of (SList xs # args) = 1" "all_ints xs \<or> all_texts xs"
    using that comparable_ints [of xs ?asc] comparable_texts [of xs ?asc] sort_strides_sorted [of ?asc xs] by auto
  have "sorted (map (\<lambda>x. sint (num_i x)) (if ?asc then ?ys else rev ?ys))" if s: "stride_of (SList xs # args) = 1" "all_ints xs"
  proof -
    have "sorted_wrt (\<lambda>x y. if ?asc then sint (num_i x) \<le> sint (num_i y) else sint (num_i y) \<le> sint (num_i x)) ?ys"
      by (rule sorted_wrt_mono_rel [OF _ w]) (use s y in_order_ints in auto)
    then show ?thesis by (cases "?asc") (simp_all add: sorted_wrt_map sorted_wrt_rev del: sorted_map)
  qed
  moreover have "sorted (map (\<lambda>x. the (sv_text x)) (if ?asc then ?ys else rev ?ys))"
    if s: "stride_of (SList xs # args) = 1" "all_texts xs"
  proof -
    have "sorted_wrt (\<lambda>x y. if ?asc then the (sv_text x) \<le> the (sv_text y) else the (sv_text y) \<le> the (sv_text x)) ?ys"
      by (rule sorted_wrt_mono_rel [OF _ w]) (use s y in_order_texts in auto)
    then show ?thesis by (cases "?asc") (simp_all add: sorted_wrt_map sorted_wrt_rev del: sorted_map)
  qed
  moreover have "bi_llListSort (SList xs # args) = SList ?ys" by (simp add: bi_llListSort_def list_arg_def)
  ultimately show ?thesis unfolding Let_def using mset_sort_strides by blast
qed

subsection \<open>Splitting and joining\<close>

lemma str_join_Cons: "str_join sep (t # ts) = t @ concat (map ((@) sep) ts)"
  by (simp add: str_join_def)

lemma match_token_prefix: "match_token seps spcs s = Some (b, t) \<Longrightarrow> is_prefix t s \<and> t \<in> set seps \<union> set spcs"
  by (auto simp: match_token_def find_Some_iff split: option.splits)

lemma match_token_seps: "match_token seps [] s = Some (b, t) \<Longrightarrow> \<not> b \<and> t \<in> set seps"
  by (auto simp: match_token_def find_Some_iff split: option.splits)

lemma parse_tokens_not_Nil: "parse_tokens True seps spcs cur s \<noteq> []"
  by (induction "True" seps spcs cur s rule: parse_tokens.induct) (auto split: option.splits)

lemma parse_tokens_join:
  assumes "set seps \<subseteq> {sep}" "sep \<noteq> []"
  shows "str_join sep (parse_tokens True seps [] cur s) = rev cur @ s"
proof (induction s arbitrary: cur rule: measure_induct_rule [of length])
  case (less s)
  show ?case
  proof (cases s)
    case Nil
    then show ?thesis by (simp add: str_join_def)
  next
    case (Cons c s')
    show ?thesis
    proof (cases "match_token seps [] (c # s')")
      case None
      then show ?thesis using less.IH [of s' "c # cur"] Cons by simp
    next
      case (Some p)
      obtain b t where p: "p = (b, t)" by (cases p)
      with Some have t: "\<not> b" "t = sep" "is_prefix t (c # s')"
        using match_token_seps [of seps "c # s'" b t] match_token_prefix [of seps "[]" "c # s'" b t] assms(1)
        by auto
      then obtain u where u: "c # s' = sep @ u" by (auto simp: is_prefix_iff)
      with assms(2) have d: "drop (length sep - 1) s' = u" by (cases sep) auto
      let ?q = "parse_tokens True seps [] [] u"
      have "length u < length s" using u Cons assms(2) by (metis add_less_cancel_right length_append length_greater_0_conv less_add_same_cancel2)
      then have IH: "str_join sep ?q = u" using less.IH [of u "[]"] by simp
      have "parse_tokens True seps [] cur s = rev cur # ?q"
        using Some p t d Cons by simp
      moreover obtain x xs where "?q = x # xs" using parse_tokens_not_Nil [of seps "[]" "[]" u] by (cases ?q) auto
      ultimately show ?thesis using IH u Cons by (simp add: str_join_def)
    qed
  qed
qed

text \<open>Cutting a text at a separator and keeping the empty pieces loses nothing: joining what
  \<open>llParseStringKeepNulls\<close> returns with the same separator (\<open>llDumpList2String\<close>) gives back the text,
  for every text and every separator, the empty one included.\<close>

theorem parse_keep_nulls_dump:
  "bi_llDumpList2String [bi_llParseStringKeepNulls [SString s, SList [SString sep], SList []], SString sep] =
     SString s"
proof -
  let ?seps = "filter (\<lambda>t. t \<noteq> []) [sep]"
  have "bi_llParseStringKeepNulls [SString s, SList [SString sep], SList []] =
      SList (map SString (parse_tokens True ?seps [] [] s))"
    by (simp add: bi_llParseStringKeepNulls_def parse_string2list_def token_strings_def list_arg_def as_str_def
        opt_str_def)
  moreover have "str_join sep (parse_tokens True ?seps [] [] s) = s"
  proof (cases "sep = []")
    case True
    have "parse_tokens True [] [] cur s = [rev cur @ s]" for cur
      by (induction s arbitrary: cur) (simp_all add: match_token_def)
    with True show ?thesis by (simp add: str_join_def)
  next
    case False
    then show ?thesis using parse_tokens_join [of ?seps sep "[]" s] by simp
  qed
  moreover have "map (sv_to_string \<circ> SString) ts = ts" for ts by (induction ts) auto
  ultimately show ?thesis
    by (simp add: bi_llDumpList2String_def list_arg_def as_str_def opt_str_def)
qed

definition plain_piece :: "string \<Rightarrow> bool" where
  "plain_piece t \<longleftrightarrow> CHR '','' \<notin> set t \<and> (t = [] \<or> hd t \<noteq> CHR '' '')"

lemma csv_pieces_plain: "CHR '','' \<notin> set t \<Longrightarrow> csv_pieces cur t = [rev cur @ t]"
  by (induction t arbitrary: cur) auto

lemma csv_pieces_comma:
  "CHR '','' \<notin> set t \<Longrightarrow>
     csv_pieces cur (t @ CHR '','' # s) = dropWhile (\<lambda>c. c = CHR '' '') (rev cur @ t) # csv_pieces [] s"
  by (induction t arbitrary: cur) auto

lemma drop_blanks_plain: "plain_piece t \<Longrightarrow> dropWhile (\<lambda>c. c = CHR '' '') t = t"
  by (cases t) (auto simp: plain_piece_def)

lemma csv_pieces_tail:
  assumes "list_all plain_piece ts" "plain_piece u"
  shows "csv_pieces [] (CHR '' '' # str_join '', '' (ts @ [u])) = ts @ [CHR '' '' # u]"
  using assms
proof (induction ts)
  case Nil
  then show ?case by (simp add: str_join_def csv_pieces_plain plain_piece_def)
next
  case (Cons t ts)
  have j: "str_join '', '' (t # ts @ [u]) = t @ CHR '','' # CHR '' '' # str_join '', '' (ts @ [u])"
    by (cases ts) (simp_all add: str_join_def)
  have "CHR '','' \<notin> set t" "dropWhile (\<lambda>c. c = CHR '' '') t = t"
    using Cons.prems drop_blanks_plain by (simp_all add: plain_piece_def)
  then show ?case using Cons by (simp add: j csv_pieces_comma)
qed

text \<open>\<open>llCSV2List\<close> does not undo \<open>llList2CSV\<close>: of two or more plain strings all come back but the
  last, which keeps the space written behind the comma.\<close>

theorem csv_last_element:
  assumes "list_all plain_piece (t # ts)" "plain_piece u"
  shows "bi_llCSV2List [bi_llList2CSV [SList (map SString ((t # ts) @ [u]))]] =
     SList (map SString ((t # ts) @ [CHR '' '' # u]))"
proof -
  have j: "str_join '', '' (t # ts @ [u]) = t @ CHR '','' # CHR '' '' # str_join '', '' (ts @ [u])"
    by (cases ts) (simp_all add: str_join_def)
  have "CHR '','' \<notin> set t" "dropWhile (\<lambda>c. c = CHR '' '') t = t"
    using assms drop_blanks_plain by (simp_all add: plain_piece_def)
  then have "csv_pieces [] (str_join '', '' (t # ts @ [u])) = (t # ts) @ [CHR '' '' # u]"
    using csv_pieces_tail [of ts u] assms unfolding j by (simp add: csv_pieces_comma)
  moreover have "map (sv_to_string \<circ> SString) xs = xs" for xs by (induction xs) auto
  ultimately show ?thesis
    by (simp add: bi_llCSV2List_def bi_llList2CSV_def list_arg_def as_str_def opt_str_def)
qed

subsection \<open>Cutting and inserting\<close>

lemma ai_int_nat: "n < 2 ^ 31 \<Longrightarrow> i < length a \<Longrightarrow> a ! i = SInt (of_nat n) \<Longrightarrow> ai_int a i = int n"
proof -
  assume n: "n < 2 ^ 31" and a: "i < length a" "a ! i = SInt (of_nat n)"
  have "ucast (of_nat n :: llong) = (of_nat n :: cint)" by transfer (simp add: take_bit_take_bit)
  moreover have "sint (of_nat n :: cint) = int n"
    using n by (simp add: signed_of_nat signed_take_bit_int_eq_self)
  ultimately show ?thesis using a by (simp add: ai_int_def ai_def int_of_ll_def cint_of_ll_def)
qed

lemma cut_insert:
  assumes "i \<le> j" "j < length s"
  shows "take i (take i s @ drop (Suc j) s) @ take (Suc j - i) (drop i s) @ drop i (take i s @ drop (Suc j) s) = s"
proof -
  have "take i s @ take (Suc j - i) (drop i s) = take (Suc j) s"
    using take_add [of i "Suc j - i" s] assms by simp
  then have "take i s @ take (Suc j - i) (drop i s) @ drop (Suc j) s = s"
    by (metis append_assoc append_take_drop_id)
  then show ?thesis using assms by simp
qed

text \<open>Inside a text, deleting a range and inserting at its start what \<open>llGetSubString\<close> takes from
  the range gives back the text.\<close>

theorem string_cut_insert:
  assumes "i \<le> j" "j < length s" "length s < 2 ^ 31"
  shows "\<exists>rest. bi_llDeleteSubString [SString s, SInt (of_nat i), SInt (of_nat j)] = Inr (SString rest) \<and>
    length rest + (j + 1 - i) = length s \<and>
    bi_llInsertString [SString rest, SInt (of_nat i),
      bi_llGetSubString [SString s, SInt (of_nat i), SInt (of_nat j)]] = SString s"
proof -
  let ?rest = "take i s @ drop (Suc j) s" and ?cut = "take (Suc j - i) (drop i s)"
  have "ai_int [x, SInt (of_nat i), y] 1 = int i" "ai_int [x, y, SInt (of_nat j)] 2 = int j" for x y
    using assms by (auto intro!: ai_int_nat)
  moreover have "norm_idx (int k) n = k" if "k \<le> n" for k n
    using that by (simp add: norm_idx_def)
  ultimately have 1: "bi_llDeleteSubString [SString s, SInt (of_nat i), SInt (of_nat j)] = Inr (SString ?rest)"
    and 2: "bi_llGetSubString [SString s, SInt (of_nat i), SInt (of_nat j)] = SString ?cut"
    and 3: "bi_llInsertString [SString ?rest, SInt (of_nat i), SString ?cut] =
      SString (take i ?rest @ ?cut @ drop i ?rest)"
    using assms
    by (simp_all add: bi_llDeleteSubString_def bi_llGetSubString_def bi_llInsertString_def as_str_def opt_str_def
        Let_def)
  have "take i ?rest @ ?cut @ drop i ?rest = s"
    using assms(1,2) by (rule cut_insert)
  moreover have "length ?rest + (j + 1 - i) = length s" using assms by simp
  ultimately show ?thesis using 1 2 3 by simp
qed

end
