(* ===== verification/HashSpec.thy ===== *)
theory HashSpec
  imports Prelude
begin

unbundle bit_operations_syntax

text \<open>
  The hash functions as their standards define them, on a whole message and independently of \<open>builtins.c\<close>: MD5 (RFC 1321)
  on four numbered registers with its table of operations and its constants, SHA-1 (RFC 3174) with its recursive message schedule, HMAC
  (RFC 2104).
\<close>

subsection \<open>Messages\<close>

text \<open>The padded message is cut into blocks of 64 bytes.\<close>

function chunks :: "byte list \<Rightarrow> byte list list" where
  "chunks m = (if length m < 64 then [] else take 64 m # chunks (drop 64 m))"
  by pat_completeness auto
termination by (relation "measure length") auto

declare chunks.simps [simp del]

definition padding :: "nat \<Rightarrow> byte list" where
  "padding n = 0x80 # replicate ((119 - n mod 64) mod 64) 0"

text \<open>Numbers as bytes, low-order byte first, and the words of a block.\<close>

definition low_bytes :: "nat \<Rightarrow> nat \<Rightarrow> byte list" where
  "low_bytes k n = map (\<lambda>j. of_nat (n div 256 ^ j mod 256)) [0 ..< k]"

definition low_word :: "byte list \<Rightarrow> cint" where
  "low_word bs = of_nat (horner_sum unat 256 bs)"

definition bytes_at :: "byte list \<Rightarrow> nat \<Rightarrow> byte list" where
  "bytes_at p i = take 4 (drop (4 * i) p)"

subsection \<open>MD5\<close>

definition rfc_F :: "cint \<Rightarrow> cint \<Rightarrow> cint \<Rightarrow> cint" where "rfc_F X Y Z = (X AND Y) OR (NOT X AND Z)"
definition rfc_G :: "cint \<Rightarrow> cint \<Rightarrow> cint \<Rightarrow> cint" where "rfc_G X Y Z = (X AND Z) OR (Y AND NOT Z)"
definition rfc_H :: "cint \<Rightarrow> cint \<Rightarrow> cint \<Rightarrow> cint" where "rfc_H X Y Z = X XOR Y XOR Z"
definition rfc_I :: "cint \<Rightarrow> cint \<Rightarrow> cint \<Rightarrow> cint" where "rfc_I X Y Z = Y XOR (X OR NOT Z)"

text \<open>\<open>T[i]\<close> for \<open>i\<close> from 1 to 64 is the integer part of \<open>4294967296 * |sin i|\<close>.\<close>

definition md5_T :: "nat list" where
  "md5_T =
    [0xd76aa478, 0xe8c7b756, 0x242070db, 0xc1bdceee, 0xf57c0faf, 0x4787c62a, 0xa8304613, 0xfd469501,
     0x698098d8, 0x8b44f7af, 0xffff5bb1, 0x895cd7be, 0x6b901122, 0xfd987193, 0xa679438e, 0x49b40821,
     0xf61e2562, 0xc040b340, 0x265e5a51, 0xe9b6c7aa, 0xd62f105d, 0x02441453, 0xd8a1e681, 0xe7d3fbc8,
     0x21e1cde6, 0xc33707d6, 0xf4d50d87, 0x455a14ed, 0xa9e3e905, 0xfcefa3f8, 0x676f02d9, 0x8d2a4c8a,
     0xfffa3942, 0x8771f681, 0x6d9d6122, 0xfde5380c, 0xa4beea44, 0x4bdecfa9, 0xf6bb4b60, 0xbebfbc70,
     0x289b7ec6, 0xeaa127fa, 0xd4ef3085, 0x04881d05, 0xd9d4d039, 0xe6db99e5, 0x1fa27cf8, 0xc4ac5665,
     0xf4292244, 0x432aff97, 0xab9423a7, 0xfc93a039, 0x655b59c3, 0x8f0ccc92, 0xffeff47d, 0x85845dd1,
     0x6fa87e4f, 0xfe2ce6e0, 0xa3014314, 0x4e0811a1, 0xf7537e82, 0xbd3af235, 0x2ad7d2bb, 0xeb86d391]"

text \<open>The operation \<open>[abcd k s i]\<close> of a round: \<open>a = b + ((a + f(b,c,d) + X[k] + T[i]) <<< s)\<close>, where \<open>a b c d\<close> are four of
  the registers 0 to 3.\<close>

definition md5_op ::
    "(nat \<Rightarrow> cint) \<Rightarrow> (cint \<Rightarrow> cint \<Rightarrow> cint \<Rightarrow> cint) \<Rightarrow> (nat \<times> nat \<times> nat \<times> nat) \<times> nat \<times> nat \<times> nat \<Rightarrow>
     (nat \<Rightarrow> cint) \<Rightarrow> (nat \<Rightarrow> cint)" where
  "md5_op X f o' R = (case o' of ((a, b, c, d), k, s, i) \<Rightarrow>
     R(a := R b + word_rotl s (R a + f (R b) (R c) (R d) + X k + of_nat (md5_T ! (i - 1)))))"

text \<open>The sixteen operations of a round, given the order of the words, the four shifts and the number of the first.\<close>

definition md5_ops :: "nat list \<Rightarrow> nat list \<Rightarrow> nat \<Rightarrow> ((nat \<times> nat \<times> nat \<times> nat) \<times> nat \<times> nat \<times> nat) list" where
  "md5_ops ks ss i = zip (concat (replicate 4 [(0, 1, 2, 3), (3, 0, 1, 2), (2, 3, 0, 1), (1, 2, 3, 0)]))
     (zip ks (zip (concat (replicate 4 ss)) (map ((+) i) [0 ..< 16])))"

definition md5_rounds :: "((cint \<Rightarrow> cint \<Rightarrow> cint \<Rightarrow> cint) \<times> ((nat \<times> nat \<times> nat \<times> nat) \<times> nat \<times> nat \<times> nat) list) list" where
  "md5_rounds =
    [(rfc_F, md5_ops [0, 1, 2, 3, 4, 5, 6, 7, 8, 9, 10, 11, 12, 13, 14, 15] [7, 12, 17, 22] 1),
     (rfc_G, md5_ops [1, 6, 11, 0, 5, 10, 15, 4, 9, 14, 3, 8, 13, 2, 7, 12] [5, 9, 14, 20] 17),
     (rfc_H, md5_ops [5, 8, 11, 14, 1, 4, 7, 10, 13, 0, 3, 6, 9, 12, 15, 2] [4, 11, 16, 23] 33),
     (rfc_I, md5_ops [0, 7, 14, 5, 12, 3, 10, 1, 8, 15, 6, 13, 4, 11, 2, 9] [6, 10, 15, 21] 49)]"

definition rfc_md5_block :: "cint \<times> cint \<times> cint \<times> cint \<Rightarrow> byte list \<Rightarrow> cint \<times> cint \<times> cint \<times> cint" where
  "rfc_md5_block s p = (case s of (A, B, C, D) \<Rightarrow>
     let X = (\<lambda>k. low_word (bytes_at p k));
         R = fold (\<lambda>(f, ops). fold (md5_op X f) ops) md5_rounds ((\<lambda>_. 0)(0 := A, 1 := B, 2 := C, 3 := D))
     in (A + R 0, B + R 1, C + R 2, D + R 3))"

text \<open>The initial state is the bytes 01 23 45 .. ef, fe dc .. 10, low-order bytes first.\<close>

definition md5_ref :: "byte list \<Rightarrow> byte list" where
  "md5_ref m =
    (case foldl rfc_md5_block
        (low_word [0x01, 0x23, 0x45, 0x67], low_word [0x89, 0xab, 0xcd, 0xef],
         low_word [0xfe, 0xdc, 0xba, 0x98], low_word [0x76, 0x54, 0x32, 0x10])
        (chunks (m @ padding (length m) @ low_bytes 8 (8 * length m))) of
     (A, B, C, D) \<Rightarrow> concat (map (\<lambda>w. low_bytes 4 (unat w)) [A, B, C, D]))"

subsection \<open>SHA-1\<close>

text \<open>The schedule of 80 words, the functions \<open>f(t;B,C,D)\<close> and the constants \<open>K(t)\<close>.\<close>

fun sha1_W :: "(nat \<Rightarrow> cint) \<Rightarrow> nat \<Rightarrow> cint" where
  "sha1_W M t = (if t < 16 then M t
     else word_rotl 1 (sha1_W M (t - 3) XOR sha1_W M (t - 8) XOR sha1_W M (t - 14) XOR sha1_W M (t - 16)))"

declare sha1_W.simps [simp del]

definition sha1_f :: "nat \<Rightarrow> cint \<Rightarrow> cint \<Rightarrow> cint \<Rightarrow> cint" where
  "sha1_f t B C D =
    (if t \<le> 19 then (B AND C) OR (NOT B AND D)
     else if t \<le> 39 then B XOR C XOR D
     else if t \<le> 59 then (B AND C) OR (B AND D) OR (C AND D)
     else B XOR C XOR D)"

definition sha1_K :: "nat \<Rightarrow> cint" where
  "sha1_K t = [0x5A827999, 0x6ED9EBA1, 0x8F1BBCDC, 0xCA62C1D6] ! (t div 20)"

definition sha1_op :: "(nat \<Rightarrow> cint) \<Rightarrow> cint \<times> cint \<times> cint \<times> cint \<times> cint \<Rightarrow> nat \<Rightarrow> cint \<times> cint \<times> cint \<times> cint \<times> cint" where
  "sha1_op W s t = (case s of (A, B, C, D, E) \<Rightarrow>
     (word_rotl 5 A + sha1_f t B C D + E + W t + sha1_K t, A, word_rotl 30 B, C, D))"

definition rfc_sha1_block :: "cint \<times> cint \<times> cint \<times> cint \<times> cint \<Rightarrow> byte list \<Rightarrow> cint \<times> cint \<times> cint \<times> cint \<times> cint" where
  "rfc_sha1_block s p =
    (case (s, foldl (sha1_op (sha1_W (\<lambda>t. low_word (rev (bytes_at p t))))) s [0 ..< 80]) of
       ((H0, H1, H2, H3, H4), (A, B, C, D, E)) \<Rightarrow> (H0 + A, H1 + B, H2 + C, H3 + D, H4 + E))"

definition sha1_ref :: "byte list \<Rightarrow> byte list" where
  "sha1_ref m =
    (case foldl rfc_sha1_block (0x67452301, 0xEFCDAB89, 0x98BADCFE, 0x10325476, 0xC3D2E1F0)
        (chunks (m @ padding (length m) @ rev (low_bytes 8 (8 * length m)))) of
     (H0, H1, H2, H3, H4) \<Rightarrow> concat (map (\<lambda>w. rev (low_bytes 4 (unat w))) [H0, H1, H2, H3, H4]))"

subsection \<open>HMAC\<close>

definition hmac_ref :: "byte list \<Rightarrow> byte list \<Rightarrow> byte list" where
  "hmac_ref k m =
    (let k0 = (if 64 < length k then sha1_ref k else k); key = k0 @ replicate (64 - length k0) 0
     in sha1_ref (map (\<lambda>b. b XOR 0x5C) key @ sha1_ref (map (\<lambda>b. b XOR 0x36) key @ m)))"

end
