(* ===== verification/Encoding.thy ===== *)
theory Encoding
  imports BuiltinsText
begin

unbundle bit_operations_syntax

text \<open>
  The encodings and hashes of \<open>builtins.c\<close>: base 64, URL escaping, the small string hash, MD5, SHA-1 and
  the HMAC over it. Text becomes bytes and back; \<open>uint32_t\<close> is \<open>32 word\<close>. The buffer of a hash is kept as
  the list of its used bytes.
\<close>

subsection \<open>Base 64\<close>

definition b64_alphabet :: string where
  "b64_alphabet = ''ABCDEFGHIJKLMNOPQRSTUVWXYZabcdefghijklmnopqrstuvwxyz0123456789+/''"

definition b64v :: "char \<Rightarrow> nat option" where
  \<comment> \<open>\<open>None\<close>: negative, for padding and for characters that do not belong\<close>
  "b64v c = find_index (\<lambda>x. x = c) b64_alphabet"

definition b64_digit :: "nat \<Rightarrow> nat \<Rightarrow> char" where
  "b64_digit sh v = b64_alphabet ! take_bit 6 (drop_bit sh v)"

fun b64_encode :: "string \<Rightarrow> string" where
  "b64_encode [] = []"
| "b64_encode [x] = (let v = ord_char x * 2 ^ 16 in [b64_digit 18 v, b64_digit 12 v, CHR ''='', CHR ''=''])"
| "b64_encode [x, y] = (let v = ord_char x * 2 ^ 16 + ord_char y * 2 ^ 8 in
     [b64_digit 18 v, b64_digit 12 v, b64_digit 6 v, CHR ''=''])"
| "b64_encode (x # y # z # s) = (let v = ord_char x * 2 ^ 16 + ord_char y * 2 ^ 8 + ord_char z in
     [b64_digit 18 v, b64_digit 12 v, b64_digit 6 v, b64_digit 0 v] @ b64_encode s)"

text \<open>\<open>buf\<close> holds the bits read, of which the lowest \<open>bits\<close> are not yet written; it is an \<open>int\<close> that wraps.\<close>

fun b64_decode :: "nat \<Rightarrow> nat \<Rightarrow> string \<Rightarrow> string" where
  "b64_decode buf bits [] = []"
| "b64_decode buf bits (c # s) = (case b64v c of None \<Rightarrow> b64_decode buf bits s
   | Some v \<Rightarrow> (let buf' = take_bit 32 (buf * 64 + v) in
       if 8 \<le> bits + 6 then char_of (take_bit 8 (drop_bit (bits - 2) buf')) # b64_decode buf' (bits - 2) s
       else b64_decode buf' (bits + 6) s))"

definition bi_llStringToBase64 :: "svalue list \<Rightarrow> svalue" where
  "bi_llStringToBase64 a = SString (b64_encode (as_str a 0))"

definition base64_text :: "svalue list \<Rightarrow> string" where
  "base64_text a = cstr (b64_decode 0 0 (as_str a 0))"

definition bi_llBase64ToString :: "svalue list \<Rightarrow> svalue" where
  "bi_llBase64ToString a = SString (base64_text a)"

text \<open>The four bytes travel as a C string, so the first zero byte ends them.\<close>

definition bi_llIntegerToBase64 :: "svalue list \<Rightarrow> svalue" where
  "bi_llIntegerToBase64 a = (let v = ai a 0 in
     bi_llStringToBase64 [SString (cstr (map (\<lambda>k. char_of (unat (ucast (drop_bit k v) :: byte))) [24, 16, 8, 0]))])"

definition bi_llBase64ToInteger :: "svalue list \<Rightarrow> svalue" where
  "bi_llBase64ToInteger a = SInt (case base64_text a of
     b # c # d # e # s \<Rightarrow>
       of_nat (ord_char b * 2 ^ 24 + ord_char c * 2 ^ 16 + ord_char d * 2 ^ 8 + ord_char e)
   | _ \<Rightarrow> 0)"

subsection \<open>URLs\<close>

definition url_plain :: "char \<Rightarrow> bool" where
  "url_plain c \<longleftrightarrow> isalnum c \<or> c \<in> {CHR ''-'', CHR ''_'', CHR ''.'', CHR 0x7E}"

definition upper_hex :: "nat \<Rightarrow> char" where
  "upper_hex k = ''0123456789ABCDEF'' ! k"

definition escape_char :: "char \<Rightarrow> string" where
  "escape_char c = (if url_plain c then [c]
     else [CHR ''%'', upper_hex (ord_char c div 16), upper_hex (ord_char c mod 16)])"

definition bi_llEscapeURL :: "svalue list \<Rightarrow> svalue" where
  "bi_llEscapeURL a = SString (concat (map escape_char (as_str a 0)))"

definition hexd :: "char \<Rightarrow> nat option" where
  "hexd c = (let n = ord_char c in
     if 48 \<le> n \<and> n \<le> 57 then Some (n - 48)
     else if 97 \<le> n \<and> n \<le> 102 then Some (n - 97 + 10)
     else if 65 \<le> n \<and> n \<le> 70 then Some (n - 65 + 10) else None)"

fun unescape :: "string \<Rightarrow> string" where
  "unescape (c # h # l # s) =
     (if c = CHR ''%'' then
        (case (hexd h, hexd l) of (Some x, Some y) \<Rightarrow> char_of (x * 16 + y) # unescape s
         | _ \<Rightarrow> c # unescape (h # l # s))
      else c # unescape (h # l # s))"
| "unescape s = s"

definition bi_llUnescapeURL :: "svalue list \<Rightarrow> svalue" where
  "bi_llUnescapeURL a = SString (cstr (unescape (as_str a 0)))"

subsection \<open>Hashes\<close>

definition bi_llHash :: "svalue list \<Rightarrow> svalue" where
  "bi_llHash a = SInt (fold (\<lambda>c h. push_bit 5 h + h + of_nat (ord_char c)) (as_str a 0) 5381)"

definition bytes_of :: "string \<Rightarrow> byte list" where
  "bytes_of s = map (\<lambda>c. of_nat (ord_char c)) s"

definition hex_of :: "byte list \<Rightarrow> string" where
  "hex_of d = concat (map (\<lambda>b. [''0123456789abcdef'' ! (unat b div 16), ''0123456789abcdef'' ! (unat b mod 16)]) d)"

text \<open>Both hashes take their input in blocks of 64 bytes through a buffer, which is never full between two
  turns of the loop.\<close>

function hash_feed :: "('s \<Rightarrow> byte list \<Rightarrow> 's) \<Rightarrow> byte list \<Rightarrow> 's \<times> byte list \<Rightarrow> 's \<times> byte list" where
  "hash_feed blk d (st, buf) =
    (if d = [] \<or> 64 \<le> length buf then (st, buf)
     else (let t = min (64 - length buf) (length d); buf' = buf @ take t d in
       hash_feed blk (drop t d) (if length buf' = 64 then (blk st buf', []) else (st, buf'))))"
  by pat_completeness auto
termination
  by (relation "measure (\<lambda>(blk, d, st, buf). length d)") (auto simp: min_def)

declare hash_feed.simps [simp del]

text \<open>The end: a one bit, zeros up to 56 bytes of a block, and the eight bytes of the length.\<close>

definition hash_pad :: "('s \<Rightarrow> byte list \<Rightarrow> 's) \<Rightarrow> byte list \<Rightarrow> 's \<times> byte list \<Rightarrow> 's" where
  "hash_pad blk len p = (case p of (st, buf) \<Rightarrow>
     (let buf1 = buf @ [0x80];
          (st1, buf2) = (if 56 < length buf1 then (blk st (buf1 @ replicate (64 - length buf1) 0), [])
                         else (st, buf1))
      in blk st1 (buf2 @ replicate (56 - length buf2) 0 @ len)))"

definition word_le :: "byte list \<Rightarrow> nat \<Rightarrow> cint" where
  "word_le p i = ucast (p ! (4 * i)) OR push_bit 8 (ucast (p ! (4 * i + 1)))
     OR push_bit 16 (ucast (p ! (4 * i + 2))) OR push_bit 24 (ucast (p ! (4 * i + 3)))"

definition word_be :: "byte list \<Rightarrow> nat \<Rightarrow> cint" where
  "word_be p i = push_bit 24 (ucast (p ! (4 * i))) OR push_bit 16 (ucast (p ! (4 * i + 1)))
     OR push_bit 8 (ucast (p ! (4 * i + 2))) OR ucast (p ! (4 * i + 3))"

text \<open>MD5.\<close>

type_synonym md5_state = "cint \<times> cint \<times> cint \<times> cint"

definition md5_init :: md5_state where
  "md5_init = (0x67452301, 0xefcdab89, 0x98badcfe, 0x10325476)"

definition md5_F :: "cint \<Rightarrow> cint \<Rightarrow> cint \<Rightarrow> cint" where "md5_F x y z = (x AND y) OR (NOT x AND z)"
definition md5_G :: "cint \<Rightarrow> cint \<Rightarrow> cint \<Rightarrow> cint" where "md5_G x y z = (x AND z) OR (y AND NOT z)"
definition md5_H :: "cint \<Rightarrow> cint \<Rightarrow> cint \<Rightarrow> cint" where "md5_H x y z = x XOR y XOR z"
definition md5_I :: "cint \<Rightarrow> cint \<Rightarrow> cint \<Rightarrow> cint" where "md5_I x y z = y XOR (x OR NOT z)"

definition md5_K :: "cint list" where
  "md5_K =
    [0xd76aa478,0xe8c7b756,0x242070db,0xc1bdceee,0xf57c0faf,0x4787c62a,0xa8304613,0xfd469501,
     0x698098d8,0x8b44f7af,0xffff5bb1,0x895cd7be,0x6b901122,0xfd987193,0xa679438e,0x49b40821,
     0xf61e2562,0xc040b340,0x265e5a51,0xe9b6c7aa,0xd62f105d,0x02441453,0xd8a1e681,0xe7d3fbc8,
     0x21e1cde6,0xc33707d6,0xf4d50d87,0x455a14ed,0xa9e3e905,0xfcefa3f8,0x676f02d9,0x8d2a4c8a,
     0xfffa3942,0x8771f681,0x6d9d6122,0xfde5380c,0xa4beea44,0x4bdecfa9,0xf6bb4b60,0xbebfbc70,
     0x289b7ec6,0xeaa127fa,0xd4ef3085,0x04881d05,0xd9d4d039,0xe6db99e5,0x1fa27cf8,0xc4ac5665,
     0xf4292244,0x432aff97,0xab9423a7,0xfc93a039,0x655b59c3,0x8f0ccc92,0xffeff47d,0x85845dd1,
     0x6fa87e4f,0xfe2ce6e0,0xa3014314,0x4e0811a1,0xf7537e82,0xbd3af235,0x2ad7d2bb,0xeb86d391]"

definition md5_S :: "nat list" where
  "md5_S = concat (map (\<lambda>q. concat (replicate 4 q)) [[7,12,17,22], [5,9,14,20], [4,11,16,23], [6,10,15,21]])"

definition md5_round :: "cint list \<Rightarrow> nat \<Rightarrow> md5_state \<Rightarrow> md5_state" where
  "md5_round M i s = (case s of (A, B, C, D) \<Rightarrow>
     (let (f, g) = (if i < 16 then (md5_F B C D, i)
                    else if i < 32 then (md5_G B C D, (5 * i + 1) mod 16)
                    else if i < 48 then (md5_H B C D, (3 * i + 5) mod 16)
                    else (md5_I B C D, (7 * i) mod 16))
      in (D, B + word_rotl (md5_S ! i) (A + f + md5_K ! i + M ! g), B, C)))"

definition md5_block :: "md5_state \<Rightarrow> byte list \<Rightarrow> md5_state" where
  "md5_block s p =
    (let M = map (word_le p) [0 ..< 16] in
     case (s, fold (md5_round M) [0 ..< 64] s) of ((a, b, c, d), (A, B, C, D)) \<Rightarrow> (a + A, b + B, c + C, d + D))"

definition le_bytes :: "cint \<Rightarrow> byte list" where
  "le_bytes w = map (\<lambda>k. ucast (drop_bit k w)) [0, 8, 16, 24]"

text \<open>A context: the count of bytes (32 bits), the state and the buffer.\<close>

type_synonym md5_ctx = "cint \<times> md5_state \<times> byte list"

definition md5_start :: md5_ctx where
  "md5_start = (0, md5_init, [])"

definition md5_update :: "byte list \<Rightarrow> md5_ctx \<Rightarrow> md5_ctx" where
  "md5_update d c = (fst c + of_nat (length d), hash_feed md5_block d (snd c))"

definition md5_final :: "md5_ctx \<Rightarrow> byte list" where
  "md5_final c = (let bits = ucast (fst c) * 8 :: llong in
     case hash_pad md5_block (map (\<lambda>k. ucast (drop_bit k bits)) [0, 8, 16, 24, 32, 40, 48, 56]) (snd c) of
     (a, b, c, d) \<Rightarrow> concat (map le_bytes [a, b, c, d]))"

definition bi_llMD5String :: "svalue list \<Rightarrow> svalue" where
  "bi_llMD5String a = SString (hex_of (md5_final
     (md5_update (bytes_of ('':'' @ show_ll (ai a 1))) (md5_update (bytes_of (as_str a 0)) md5_start))))"

text \<open>SHA-1.\<close>

type_synonym sha1_state = "cint \<times> cint \<times> cint \<times> cint \<times> cint"

definition sha1_init :: sha1_state where
  "sha1_init = (0x67452301, 0xEFCDAB89, 0x98BADCFE, 0x10325476, 0xC3D2E1F0)"

definition sha1_extend :: "cint list \<Rightarrow> cint list" where
  "sha1_extend W = fold (\<lambda>i W. W @ [word_rotl 1 (W ! (i - 3) XOR W ! (i - 8) XOR W ! (i - 14) XOR W ! (i - 16))])
     [16 ..< 80] W"

definition sha1_round :: "cint list \<Rightarrow> nat \<Rightarrow> sha1_state \<Rightarrow> sha1_state" where
  "sha1_round W i s = (case s of (a, b, c, d, e) \<Rightarrow>
     (let (f, k) = (if i < 20 then ((b AND c) OR (NOT b AND d), 0x5A827999)
                    else if i < 40 then (b XOR c XOR d, 0x6ED9EBA1)
                    else if i < 60 then ((b AND c) OR (b AND d) OR (c AND d), 0x8F1BBCDC)
                    else (b XOR c XOR d, 0xCA62C1D6))
      in (word_rotl 5 a + f + e + k + W ! i, a, word_rotl 30 b, c, d)))"

definition sha1_block :: "sha1_state \<Rightarrow> byte list \<Rightarrow> sha1_state" where
  "sha1_block s p =
    (let W = sha1_extend (map (word_be p) [0 ..< 16]) in
     case (s, fold (sha1_round W) [0 ..< 80] s) of
       ((a, b, c, d, e), (A, B, C, D, E)) \<Rightarrow> (a + A, b + B, c + C, d + D, e + E))"

definition be_bytes :: "cint \<Rightarrow> byte list" where
  "be_bytes w = map (\<lambda>k. ucast (drop_bit k w)) [24, 16, 8, 0]"

text \<open>A context: the count of bits, the state and the buffer.\<close>

type_synonym sha1_ctx = "llong \<times> sha1_state \<times> byte list"

definition sha1_start :: sha1_ctx where
  "sha1_start = (0, sha1_init, [])"

definition sha1_update :: "byte list \<Rightarrow> sha1_ctx \<Rightarrow> sha1_ctx" where
  "sha1_update d c = (fst c + of_nat (length d) * 8, hash_feed sha1_block d (snd c))"

definition sha1_final :: "sha1_ctx \<Rightarrow> byte list" where
  "sha1_final c =
    (case hash_pad sha1_block (map (\<lambda>k. ucast (drop_bit k (fst c))) [56, 48, 40, 32, 24, 16, 8, 0]) (snd c) of
     (a, b, c, d, e) \<Rightarrow> concat (map be_bytes [a, b, c, d, e]))"

definition sha1 :: "byte list \<Rightarrow> byte list" where
  "sha1 d = sha1_final (sha1_update d sha1_start)"

definition bi_llSHA1String :: "svalue list \<Rightarrow> svalue" where
  "bi_llSHA1String a = SString (hex_of (sha1 (bytes_of (as_str a 0))))"

text \<open>Not SHA-256: the SHA-1 digest and its first twelve bytes again.\<close>

definition bi_llSHA256String :: "svalue list \<Rightarrow> svalue" where
  "bi_llSHA256String a = (let d = sha1 (bytes_of (as_str a 0)) in SString (hex_of (d @ take 12 d)))"

definition hmac_sha1 :: "byte list \<Rightarrow> byte list \<Rightarrow> byte list" where
  "hmac_sha1 k m =
    (let k' = (if 64 < length k then sha1 k else k); key = k' @ replicate (64 - length k') 0;
         inner = sha1_final (sha1_update m (sha1_update (map (\<lambda>b. b XOR 0x36) key) sha1_start))
     in sha1_final (sha1_update inner (sha1_update (map (\<lambda>b. b XOR 0x5C) key) sha1_start)))"

definition bi_llHMAC :: "svalue list \<Rightarrow> svalue" where
  "bi_llHMAC a = SString (hex_of (hmac_sha1 (bytes_of (as_str a 0)) (bytes_of (as_str a 1))))"

end
