(* ===== verification/HashBlocks.thy ===== *)
theory HashBlocks
  imports HashSpec Encoding
begin

unbundle bit_operations_syntax

text \<open>
  The compression functions of \<open>builtins.c\<close> are those of the standards: the code rotates the roles of four variables and
  computes word order and functions from the step number, where RFC 1321 names registers and lists the operations.
\<close>

subsection \<open>Words and bytes\<close>

lemma low_word4:
  "low_word [a, b, c, d] = ucast a + 256 * (ucast b + 256 * (ucast c + 256 * ucast d))"
  by (simp add: low_word_def)

lemma or_add: "(x :: cint) AND y = 0 \<Longrightarrow> x OR y = x + y"
  by (rule disjunctive_add [symmetric]) (metis bit_and_iff bit_0_eq bot_apply bot_bool_def)

lemma le_sum: "ucast (a :: byte) OR push_bit 8 (ucast b) OR push_bit 16 (ucast c) OR push_bit 24 (ucast d :: cint) =
   ucast a + 256 * (ucast b + 256 * (ucast c + 256 * ucast d))" for b c d :: byte
proof -
  have z: "(x :: cint) AND y = 0" if "\<And>n. bit x n \<Longrightarrow> bit y n \<Longrightarrow> False" for x y
    using that by (auto intro!: bit_eqI simp: bit_and_iff)
  have p: "bit (ucast (e::byte) :: cint) n \<Longrightarrow> n < 8" for e n
    by (auto simp: bit_simps dest: bit_imp_le_length)
  have q: "ucast b OR push_bit 8 x = (ucast b + push_bit 8 x :: cint)" for b :: byte and x
    by (rule or_add, rule z) (auto simp: bit_push_bit_iff dest: p)
  have "ucast a OR push_bit 8 (ucast b) OR push_bit 16 (ucast c) OR push_bit 24 (ucast d :: cint) =
     ucast a OR push_bit 8 (ucast b OR push_bit 8 (ucast c OR push_bit 8 (ucast d)))"
    by (simp add: push_bit_or push_bit_push_bit or.assoc)
  also have "\<dots> = ucast a + 256 * (ucast b + 256 * (ucast c + 256 * ucast d))"
    unfolding q by (simp add: push_bit_eq_mult)
  finally show ?thesis .
qed

lemma bytes_at4: "4 * i + 3 < length p \<Longrightarrow>
  bytes_at p i = [p ! (4 * i), p ! (4 * i + 1), p ! (4 * i + 2), p ! (4 * i + 3)]"
  by (auto simp: bytes_at_def intro!: nth_equalityI simp: less_Suc_eq numeral_eq_Suc)

lemma word_le_low: "4 * i + 3 < length p \<Longrightarrow> word_le p i = low_word (bytes_at p i)"
  by (simp add: bytes_at4 low_word4 word_le_def le_sum)

lemma word_be_low: "4 * i + 3 < length p \<Longrightarrow> word_be p i = low_word (rev (bytes_at p i))"
  by (simp only: bytes_at4 rev.simps append.simps low_word4 word_be_def le_sum [symmetric])
    (simp add: or.commute or.left_commute)

lemma low_byte: "ucast (drop_bit k (w :: cint)) = (of_nat (unat w div 2 ^ k mod 256) :: byte)"
proof -
  have "ucast (drop_bit k w) = (of_nat (unat (drop_bit k w)) :: byte)" by simp
  also have "unat (drop_bit k w) = unat w div 2 ^ k"
    by (simp only: unat_drop_bit_eq) (simp only: drop_bit_eq_div)
  finally have 1: "ucast (drop_bit k w) = (of_nat (unat w div 2 ^ k) :: byte)" .
  have "of_nat (n mod 256) = (of_nat n :: byte)" for n
    by (simp add: word_of_nat_eq_iff take_bit_nat_def)
  with 1 show ?thesis by simp
qed

lemma low_bytes4: "low_bytes 4 n = [of_nat (n div 2 ^ 0 mod 256), of_nat (n div 2 ^ 8 mod 256),
    of_nat (n div 2 ^ 16 mod 256), of_nat (n div 2 ^ 24 mod 256)]"
proof -
  have "[0 ..< 4] = [0, 1, 2, 3 :: nat]" by (simp add: upt_rec)
  then show ?thesis by (simp only: low_bytes_def) simp
qed

lemma le_bytes_low: "le_bytes w = low_bytes 4 (unat w)"
  by (simp only: low_bytes4 le_bytes_def list.map low_byte)

lemma be_bytes_low: "be_bytes w = rev (low_bytes 4 (unat w))"
  by (simp only: low_bytes4 be_bytes_def list.map low_byte rev.simps append.simps)

subsection \<open>MD5\<close>

text \<open>The code rotates the roles of its four variables; at step \<open>j\<close> they are these registers.\<close>

definition rotated :: "nat \<Rightarrow> (nat \<Rightarrow> cint) \<Rightarrow> md5_state" where
  "rotated j R = (let p = 64 - j in (R (p mod 4), R ((p + 1) mod 4), R ((p + 2) mod 4), R ((p + 3) mod 4)))"

lemma rotated64: "rotated 64 R = (R 0, R 1, R 2, R 3)"
proof -
  have "0 mod 4 = (0::nat)" "(0 + 1) mod 4 = (1::nat)" "(0 + 2) mod 4 = (2::nat)" "(0 + 3) mod 4 = (3::nat)" by simp_all
  then show ?thesis by (simp only: rotated_def Let_def diff_self_eq_0)
qed

definition numbered :: "nat \<Rightarrow> (nat \<times> nat \<times> nat \<times> nat) \<times> nat \<times> nat \<times> nat" where
  "numbered j = (let p = 64 - j in ((p mod 4, (p + 1) mod 4, (p + 2) mod 4, (p + 3) mod 4),
     (if j < 16 then j else if j < 32 then (5 * j + 1) mod 16 else if j < 48 then (3 * j + 5) mod 16 else (7 * j) mod 16),
     md5_S ! j, j + 1))"

lemma md5_T_K: "map of_nat md5_T = md5_K"
  by (simp add: md5_T_def md5_K_def)

lemma four: "replicate 4 x = [x, x, x, x]"
  by (simp add: eval_nat_numeral)

lemma md5_S_list: "md5_S =
   [7, 12, 17, 22, 7, 12, 17, 22, 7, 12, 17, 22, 7, 12, 17, 22, 5, 9, 14, 20, 5, 9, 14, 20, 5, 9, 14, 20, 5, 9, 14, 20,
    4, 11, 16, 23, 4, 11, 16, 23, 4, 11, 16, 23, 4, 11, 16, 23, 6, 10, 15, 21, 6, 10, 15, 21, 6, 10, 15, 21, 6, 10, 15, 21]"
  by (simp add: md5_S_def four)

lemma upt16: "[0 ..< 16] = [0, 1, 2, 3, 4, 5, 6, 7, 8, 9, 10, 11, 12, 13, 14, 15 :: nat]"
  by (simp add: upt_rec)

lemmas round_table = md5_ops_def upt16 numbered_def Let_def four md5_S_list

lemma ops_numbered:
  "md5_ops [0, 1, 2, 3, 4, 5, 6, 7, 8, 9, 10, 11, 12, 13, 14, 15] [7, 12, 17, 22] 1 = map (\<lambda>j. numbered j) [0 ..< 16]"
  "md5_ops [1, 6, 11, 0, 5, 10, 15, 4, 9, 14, 3, 8, 13, 2, 7, 12] [5, 9, 14, 20] 17 = map (\<lambda>j. numbered (16 + j)) [0 ..< 16]"
  "md5_ops [5, 8, 11, 14, 1, 4, 7, 10, 13, 0, 3, 6, 9, 12, 15, 2] [4, 11, 16, 23] 33 = map (\<lambda>j. numbered (32 + j)) [0 ..< 16]"
  "md5_ops [0, 7, 14, 5, 12, 3, 10, 1, 8, 15, 6, 13, 4, 11, 2, 9] [6, 10, 15, 21] 49 = map (\<lambda>j. numbered (48 + j)) [0 ..< 16]"
  unfolding md5_ops_def upt16 by (simp_all add: round_table)

definition round_fun :: "nat \<Rightarrow> cint \<Rightarrow> cint \<Rightarrow> cint \<Rightarrow> cint" where
  "round_fun j = (if j < 16 then rfc_F else if j < 32 then rfc_G else if j < 48 then rfc_H else rfc_I)"

lemma step_rotated:
  assumes "j < 64" "\<And>g. g < 16 \<Longrightarrow> M ! g = X g"
  shows "rotated (Suc j) (md5_op X (round_fun j) (numbered j) R) = md5_round M j (rotated j R)"
proof -
  obtain q where q: "64 - j = Suc q" "64 - Suc j = q" using assms(1) by (metis Suc_diff_Suc)
  let ?g = "if j < 16 then j else if j < 32 then (5 * j + 1) mod 16 else if j < 48 then (3 * j + 5) mod 16 else (7 * j) mod 16"
  have x: "X ?g = M ! ?g" by (rule assms(2) [symmetric]) simp
  have "length md5_T = 64" by (simp add: md5_T_def)
  then have t: "of_nat (md5_T ! j) = md5_K ! j" using assms(1) by (simp flip: md5_T_K)
  have m: "Suc q mod 4 = (q + 1) mod 4" "(Suc q + 1) mod 4 = (q + 2) mod 4" "(Suc q + 2) mod 4 = (q + 3) mod 4"
    "(Suc q + 3) mod 4 = q mod 4" by presburger+
  have d: "(q + 1) mod 4 \<noteq> q mod 4" "(q + 1) mod 4 \<noteq> (q + 2) mod 4" "(q + 1) mod 4 \<noteq> (q + 3) mod 4" by presburger+
  have f: "(if j < 16 then (md5_F B C D, j) else if j < 32 then (md5_G B C D, (5 * j + 1) mod 16)
      else if j < 48 then (md5_H B C D, (3 * j + 5) mod 16) else (md5_I B C D, (7 * j) mod 16)) = (round_fun j B C D, ?g)" for B C D
    by (simp add: round_fun_def md5_F_def rfc_F_def md5_G_def rfc_G_def md5_H_def rfc_H_def md5_I_def rfc_I_def)
  show ?thesis
    unfolding rotated_def numbered_def md5_round_def md5_op_def Let_def q prod.case f m
    using d by (simp add: x t ac_simps)
qed

lemma steps_rotated:
  assumes "\<And>g. g < 16 \<Longrightarrow> M ! g = X g"
  shows "j + k \<le> 64 \<Longrightarrow> (\<And>l. j \<le> l \<Longrightarrow> l < j + k \<Longrightarrow> round_fun l = f) \<Longrightarrow>
    rotated (j + k) (fold (md5_op X f) (map (\<lambda>l. numbered (j + l)) [0 ..< k]) R) = fold (md5_round M) [j ..< j + k] (rotated j R)"
proof (induction k)
  case (Suc k)
  have "round_fun (j + k) = f" using Suc.prems(2) by simp
  with step_rotated [of "j + k" M X] assms Suc show ?case by simp
qed simp

lemma md5_block_eq:
  assumes "length p = 64"
  shows "md5_block s p = rfc_md5_block s p"
proof -
  obtain A B C D where s: "s = (A, B, C, D)" by (cases s)
  let ?M = "map (word_le p) [0 ..< 16]" and ?X = "\<lambda>k. low_word (bytes_at p k)"
  let ?I = "(\<lambda>_. 0)(0 := A, 1 := B, 2 := C, 3 := D) :: nat \<Rightarrow> cint"
  have X: "g < 16 \<Longrightarrow> ?M ! g = ?X g" for g using assms word_le_low [of g p] by simp
  define step where "step f j R = fold (md5_op ?X f) (map (\<lambda>l. numbered (j + l)) [0 ..< 16]) R" for f j R
  have r: "rotated k (step f j R) = fold (md5_round ?M) [j ..< k] (rotated j R)"
    if "j + 16 = k" "k \<le> 64" "\<And>l. j \<le> l \<Longrightarrow> l < k \<Longrightarrow> round_fun l = f" for f j k R
    unfolding step_def that(1) [symmetric] by (rule steps_rotated [OF X]) (use that in simp_all)
  have rs: "rotated 16 (step rfc_F 0 R) = fold (md5_round ?M) [0 ..< 16] (rotated 0 R)"
    "rotated 32 (step rfc_G 16 R) = fold (md5_round ?M) [16 ..< 32] (rotated 16 R)"
    "rotated 48 (step rfc_H 32 R) = fold (md5_round ?M) [32 ..< 48] (rotated 32 R)"
    "rotated 64 (step rfc_I 48 R) = fold (md5_round ?M) [48 ..< 64] (rotated 48 R)" for R
    by (rule r; simp add: round_fun_def)+
  have z: "fold (\<lambda>(f, ops). fold (md5_op ?X f) ops) md5_rounds R =
      step rfc_I 48 (step rfc_H 32 (step rfc_G 16 (step rfc_F 0 R)))" for R
    unfolding md5_rounds_def ops_numbered by (simp add: step_def)
  let ?Z = "step rfc_I 48 (step rfc_H 32 (step rfc_G 16 (step rfc_F 0 ?I)))"
  have u: "[0 ..< 64] = [0 ..< 16] @ [16 ..< 32] @ [32 ..< 48] @ [48 ..< 64 :: nat]"
    using upt_add_eq_append [of 0 16 48] upt_add_eq_append [of 16 32 32] upt_add_eq_append [of 32 48 16] by simp
  have "rotated 64 ?Z = fold (md5_round ?M) [48 ..< 64] (fold (md5_round ?M) [32 ..< 48]
      (fold (md5_round ?M) [16 ..< 32] (fold (md5_round ?M) [0 ..< 16] (rotated 0 ?I))))"
    by (simp only: rs)
  also have "\<dots> = fold (md5_round ?M) [0 ..< 64] s"
    unfolding u by (simp add: rotated_def s)
  also have "rotated 64 ?Z = (?Z 0, ?Z 1, ?Z 2, ?Z 3)" by (rule rotated64)
  finally have "fold (md5_round ?M) [0 ..< 64] s = (?Z 0, ?Z 1, ?Z 2, ?Z 3)" by (rule sym)
  then show ?thesis
    unfolding md5_block_def rfc_md5_block_def Let_def z by (simp only: s prod.case)
qed

subsection \<open>SHA-1\<close>

lemma sha1_extend_W:
  assumes "\<And>t. t < 16 \<Longrightarrow> W ! t = M t" "length W = 16"
  shows "sha1_extend W = map (sha1_W M) [0 ..< 80]"
proof -
  have "fold (\<lambda>i W. W @ [word_rotl 1 (W ! (i - 3) XOR W ! (i - 8) XOR W ! (i - 14) XOR W ! (i - 16))]) [16 ..< 16 + k] W =
      map (sha1_W M) [0 ..< 16 + k]" for k
  proof (induction k)
    case 0
    have "sha1_W M t = M t" if "t < 16" for t using that by (simp add: sha1_W.simps)
    with assms show ?case by (auto intro!: nth_equalityI)
  next
    case (Suc k)
    have u: "[16 ..< 16 + Suc k] = [16 ..< 16 + k] @ [16 + k]" "[0 ..< 16 + Suc k] = [0 ..< 16 + k] @ [16 + k]"
      by (simp_all only: add_Suc_right upt_Suc) simp_all
    let ?Ws = "map (sha1_W M) [0 ..< 16 + k]"
    have n: "?Ws ! (16 + k - 3) = sha1_W M (16 + k - 3)" "?Ws ! (16 + k - 8) = sha1_W M (16 + k - 8)"
      "?Ws ! (16 + k - 14) = sha1_W M (16 + k - 14)" "?Ws ! (16 + k - 16) = sha1_W M (16 + k - 16)" by simp_all
    have "sha1_W M (16 + k) = word_rotl 1 (?Ws ! (16 + k - 3) XOR ?Ws ! (16 + k - 8) XOR ?Ws ! (16 + k - 14) XOR ?Ws ! (16 + k - 16))"
      unfolding n by (subst sha1_W.simps) (simp del: One_nat_def)
    then show ?case
      unfolding u fold_append o_apply Suc by simp
  qed
  from this [of 64] have "fold (\<lambda>i W. W @ [word_rotl 1 (W ! (i - 3) XOR W ! (i - 8) XOR W ! (i - 14) XOR W ! (i - 16))])
      [16 ..< 80] W = map (sha1_W M) [0 ..< 80]" by (simp only: arith_simps)
  then show ?thesis by (simp only: sha1_extend_def)
qed

lemma sha1_step:
  "t < 80 \<Longrightarrow> sha1_round (map W [0 ..< 80]) t s = sha1_op W s t"
  by (cases s) (auto simp: sha1_round_def sha1_op_def sha1_f_def sha1_K_def nth_Cons' ac_simps)

lemma sha1_steps: "k \<le> 80 \<Longrightarrow> fold (sha1_round (map W [0 ..< 80])) [0 ..< k] s = foldl (sha1_op W) s [0 ..< k]"
  by (induction k) (simp_all add: sha1_step)

lemma sha1_block_eq:
  assumes "length p = 64"
  shows "sha1_block s p = rfc_sha1_block s p"
proof -
  let ?M = "\<lambda>t. low_word (rev (bytes_at p t))"
  have "sha1_extend (map (word_be p) [0 ..< 16]) = map (sha1_W ?M) [0 ..< 80]"
    using assms by (intro sha1_extend_W) (simp_all add: word_be_low)
  then show ?thesis
    unfolding sha1_block_def rfc_sha1_block_def Let_def by (simp only: sha1_steps order_refl)
qed

subsection \<open>Whole messages\<close>

lemma chunk_length: "p \<in> set (chunks m) \<Longrightarrow> length p = 64"
proof (induction m rule: chunks.induct)
  case (1 m)
  then show ?case by (cases "length m < 64") (auto simp: chunks.simps [of m])
qed

lemma md5_blocks: "foldl md5_block s (chunks m) = foldl rfc_md5_block s (chunks m)"
  by (rule foldl_cong) (simp_all add: chunk_length md5_block_eq)

lemma sha1_blocks: "foldl sha1_block s (chunks m) = foldl rfc_sha1_block s (chunks m)"
  by (rule foldl_cong) (simp_all add: chunk_length sha1_block_eq)

lemma md5_init_low: "md5_init =
   (low_word [0x01, 0x23, 0x45, 0x67], low_word [0x89, 0xab, 0xcd, 0xef],
    low_word [0xfe, 0xdc, 0xba, 0x98], low_word [0x76, 0x54, 0x32, 0x10])"
  by (simp add: md5_init_def low_word4)

end
