(* ===== verification/EncodingProps.thy ===== *)
theory EncodingProps
  imports HashBlocks
begin

unbundle bit_operations_syntax

text \<open>
  Round trips of the encodings, and the hashes against their standards (\<open>HashSpec\<close>): however the input is cut into
  pieces, the digest is that of the whole padded message.
\<close>

subsection \<open>URL escaping\<close>

lemma ord_char_lt: "ord_char c < 256"
  unfolding ord_char_def by (rule nat_of_char_less_256)

lemma char_of_ord [simp]: "char_of (ord_char c) = c"
  by (simp add: ord_char_def)

lemma hexd_upper: "k < 16 \<Longrightarrow> hexd (upper_hex k) = Some k"
proof -
  assume "k < 16"
  then have "k \<in> {0, 1, 2, 3, 4, 5, 6, 7, 8, 9, 10, 11, 12, 13, 14, 15}" by (simp only: insert_iff empty_iff) presburger
  then show ?thesis by (auto simp: hexd_def upper_hex_def ord_char_def)
qed

lemma url_plain_not_percent: "url_plain c \<Longrightarrow> c \<noteq> CHR ''%''"
  by (auto simp: url_plain_def isalnum_def isdigit_def isupper_def islower_def ord_char_def)

lemma unescape_plain: "c \<noteq> CHR ''%'' \<Longrightarrow> unescape (c # s) = c # unescape s"
  by (cases s; cases "tl s") auto

lemma unescape_escape: "unescape (concat (map escape_char s)) = s"
proof (induction s)
  case Nil
  then show ?case by simp
next
  case (Cons c s)
  show ?case
  proof (cases "url_plain c")
    case True
    then show ?thesis using Cons url_plain_not_percent [OF True] by (simp add: escape_char_def unescape_plain)
  next
    case False
    have "ord_char c div 16 < 16" using ord_char_lt [of c] by simp
    moreover have "ord_char c div 16 * 16 + ord_char c mod 16 = ord_char c" by simp
    ultimately show ?thesis using Cons False by (simp add: escape_char_def hexd_upper)
  qed
qed

text \<open>C37 Unescaping an escaped text gives back the text, for every C string.\<close>

theorem url_escape_roundtrip:
  assumes "c_string s"
  shows "bi_llUnescapeURL [bi_llEscapeURL [SString s]] = SString s"
  using assms by (simp add: bi_llUnescapeURL_def bi_llEscapeURL_def as_str_def opt_str_def unescape_escape)

subsection \<open>Base 64\<close>

lemma find_index_distinct: "distinct xs \<Longrightarrow> k < length xs \<Longrightarrow> find_index (\<lambda>x. x = xs ! k) xs = Some k"
proof -
  assume d: "distinct xs" and k: "k < length xs"
  from k have "xs ! k \<in> set xs" by simp
  then obtain j where j: "find_index (\<lambda>x. x = xs ! k) xs = Some j"
    using find_index_None [of "\<lambda>x. x = xs ! k" xs] by auto
  with find_index_nth [OF j] find_index_lt [OF j] d k show ?thesis by (simp add: nth_eq_iff_index_eq)
qed

lemma b64_alphabet_facts: "distinct b64_alphabet" "length b64_alphabet = 64" "CHR ''='' \<notin> set b64_alphabet"
  by (simp_all add: b64_alphabet_def)

lemma b64v_digit: "b64v (b64_digit sh v) = Some (take_bit 6 (drop_bit sh v))"
proof -
  have "take_bit 6 (drop_bit sh v) < 64"
    using take_bit_nat_less_exp [of 6 "drop_bit sh v"] by simp
  then show ?thesis
    unfolding b64v_def b64_digit_def by (intro find_index_distinct) (simp_all add: b64_alphabet_facts)
qed

lemma b64v_pad: "b64v (CHR ''='') = None"
  using b64_alphabet_facts(3) by (auto simp: b64v_def find_index_None)

lemma out_byte:
  "k \<le> 24 \<Longrightarrow> take_bit 8 (drop_bit k (take_bit 32 (x::nat))) = take_bit 8 (drop_bit k x)"
  by (simp add: drop_bit_take_bit take_bit_take_bit)

text \<open>The digits of three bytes, as arithmetic.\<close>

lemma div_split: "(r::nat) < n \<Longrightarrow> (q * n + r) div n = q" and mod_split: "(r::nat) < n \<Longrightarrow> (q * n + r) mod n = r"
  by simp_all

lemma digits3:
  fixes a b c :: nat
  assumes "a < 256" "b < 256" "c < 256"
  shows "take_bit 6 (drop_bit 18 (a * 2 ^ 16 + b * 2 ^ 8 + c)) = a div 4"
    and "take_bit 6 (drop_bit 12 (a * 2 ^ 16 + b * 2 ^ 8 + c)) = (a mod 4) * 16 + b div 16"
    and "take_bit 6 (drop_bit 6 (a * 2 ^ 16 + b * 2 ^ 8 + c)) = (b mod 16) * 4 + c div 64"
    and "take_bit 6 (drop_bit 0 (a * 2 ^ 16 + b * 2 ^ 8 + c)) = c mod 64"
proof -
  let ?v = "a * 2 ^ 16 + b * 2 ^ 8 + c"
  have a: "a = a div 4 * 4 + a mod 4" and b: "b = b div 16 * 16 + b mod 16" and c: "c = c div 64 * 64 + c mod 64"
    by simp_all
  have m: "a mod 4 < 4" "b mod 16 < 16" "c mod 64 < 64" "b div 16 < 16" "c div 64 < 4" "a div 4 < 64"
    using assms by simp_all
  have p: "(2::nat) ^ 16 = 65536" "(2::nat) ^ 8 = 256" by simp_all
  have 1: "?v = a div 4 * 262144 + (a mod 4 * 65536 + b * 256 + c)" unfolding p using a by linarith
  have "?v div 262144 = a div 4" unfolding 1 using m assms by (intro div_split) simp
  then show "take_bit 6 (drop_bit 18 ?v) = a div 4" using m by (simp add: take_bit_eq_mod drop_bit_eq_div)
  have 2: "?v = (a div 4 * 64 + (a mod 4 * 16 + b div 16)) * 4096 + (b mod 16 * 256 + c)"
  proof -
    have "(qa * 4 + ra) * 65536 + (qb * 16 + rb) * 256 + c = (qa * 64 + (ra * 16 + qb)) * 4096 + (rb * 256 + c)"
      for qa ra qb rb :: nat by (simp add: algebra_simps)
    from this [of "a div 4" "a mod 4" "b div 16" "b mod 16"] show ?thesis unfolding p by simp
  qed
  have "?v div 4096 = a div 4 * 64 + (a mod 4 * 16 + b div 16)"
    unfolding 2 using m assms by (intro div_split) simp
  then show "take_bit 6 (drop_bit 12 ?v) = (a mod 4) * 16 + b div 16"
    using m by (simp add: take_bit_eq_mod drop_bit_eq_div)
  have 3: "?v = ((a * 16 + b div 16) * 64 + (b mod 16 * 4 + c div 64)) * 64 + c mod 64"
  proof -
    have "a * 65536 + (qb * 16 + rb) * 256 + (qc * 64 + rc) = ((a * 16 + qb) * 64 + (rb * 4 + qc)) * 64 + rc"
      for qb rb qc rc :: nat by (simp add: algebra_simps)
    from this [of "b div 16" "b mod 16" "c div 64" "c mod 64"] show ?thesis unfolding p by simp
  qed
  have "?v div 64 = (a * 16 + b div 16) * 64 + (b mod 16 * 4 + c div 64)"
    unfolding 3 using m by (intro div_split) simp
  then show "take_bit 6 (drop_bit 6 ?v) = (b mod 16) * 4 + c div 64"
    using m mod_split [of "b mod 16 * 4 + c div 64" 64 "a * 16 + b div 16"]
    by (simp add: take_bit_eq_mod drop_bit_eq_div)
  have "?v mod 64 = c mod 64" unfolding 3 using m by (intro mod_split) simp
  then show "take_bit 6 (drop_bit 0 ?v) = c mod 64" by (simp add: take_bit_eq_mod)
qed

text \<open>The decoder on whole digits, with any bits left in its buffer.\<close>

lemma b64_decode_digit:
  "b64_decode buf bits (b64_digit sh v # s) =
     (let d = take_bit 6 (drop_bit sh v); buf' = take_bit 32 (buf * 64 + d) in
      if 8 \<le> bits + 6 then char_of (take_bit 8 (drop_bit (bits - 2) buf')) # b64_decode buf' (bits - 2) s
      else b64_decode buf' (bits + 6) s)"
  by (simp add: b64v_digit Let_def)

lemma b64_decode_pad: "b64_decode buf bits (CHR ''='' # s) = b64_decode buf bits s"
  by (simp add: b64v_pad)

lemma take8_buf:
  fixes x y :: nat
  assumes "k \<le> 6"
  shows "take_bit 8 (drop_bit k (take_bit 32 (take_bit 32 x * 64 + y))) = take_bit 8 (drop_bit k (x * 64 + y))"
proof -
  have "take_bit 32 (take_bit 32 x * 64 + y) = take_bit 32 (x * 64 + y)"
    unfolding take_bit_eq_mod by (rule mod_add_cong [OF mod_mult_cong]) simp_all
  then show ?thesis using assms by (simp add: out_byte)
qed

lemma byte1: "a < 256 \<Longrightarrow> d < 16 \<Longrightarrow>
    take_bit 8 (drop_bit 4 ((x * 64 + a div 4) * 64 + (a mod 4 * 16 + d))) = (a::nat)"
proof -
  assume a: "a < 256" "d < 16"
  have "(x * 64 + qa) * 64 + (ra * 16 + d) = (x * 256 + (qa * 4 + ra)) * 16 + d" for qa ra by (simp add: algebra_simps)
  from this [of "a div 4" "a mod 4"] have "(x * 64 + a div 4) * 64 + (a mod 4 * 16 + d) = (x * 256 + a) * 16 + d" by simp
  moreover have "((x * 256 + a) * 16 + d) div 16 = x * 256 + a" using a by (intro div_split)
  ultimately show ?thesis
    using a mod_split [of a 256 x] by (simp only: take_bit_eq_mod drop_bit_eq_div power_numeral) simp
qed

lemma byte2: "b < 256 \<Longrightarrow> d < 4 \<Longrightarrow>
    take_bit 8 (drop_bit 2 ((x * 64 + (a * 16 + b div 16)) * 64 + (b mod 16 * 4 + d))) = (b::nat)"
proof -
  assume b: "b < 256" "d < 4"
  have "(x * 64 + (a * 16 + qb)) * 64 + (rb * 4 + d) = ((x * 4 + a) * 256 + (qb * 16 + rb)) * 4 + d" for qb rb
    by (simp add: algebra_simps)
  from this [of "b div 16" "b mod 16"]
  have "(x * 64 + (a * 16 + b div 16)) * 64 + (b mod 16 * 4 + d) = ((x * 4 + a) * 256 + b) * 4 + d" by simp
  moreover have "(((x * 4 + a) * 256 + b) * 4 + d) div 4 = (x * 4 + a) * 256 + b" using b by (intro div_split)
  ultimately show ?thesis
    using b mod_split [of b 256 "x * 4 + a"] by (simp only: take_bit_eq_mod drop_bit_eq_div) simp
qed

lemma byte3: "c < 256 \<Longrightarrow> take_bit 8 (drop_bit 0 ((x * 64 + (b * 4 + c div 64)) * 64 + c mod 64)) = (c::nat)"
proof -
  assume c: "c < 256"
  have "(x * 64 + (b * 4 + qc)) * 64 + rc = (x * 16 + b) * 256 + (qc * 64 + rc)" for qc rc by (simp add: algebra_simps)
  from this [of "c div 64" "c mod 64"] have "(x * 64 + (b * 4 + c div 64)) * 64 + c mod 64 = (x * 16 + b) * 256 + c" by simp
  moreover have "((x * 16 + b) * 256 + c) mod 256 = c" using c by (intro mod_split)
  ultimately show ?thesis by (simp only: take_bit_eq_mod drop_bit_0 id_apply) simp
qed

lemma take32_step: "take_bit 32 (take_bit 32 x * 64 + y) = take_bit 32 (x * 64 + (y::nat))"
  unfolding take_bit_eq_mod by (rule mod_add_cong [OF mod_mult_cong]) simp_all

text \<open>The decoder on two, three and four digits of a group.\<close>

lemma decode2:
  assumes "a < 256" "d < 16" and t: "b64v p = Some (a div 4)" "b64v q = Some (a mod 4 * 16 + d)"
  shows "b64_decode (take_bit 32 x) 0 (p # q # s) =
    char_of a # b64_decode (take_bit 32 ((x * 64 + a div 4) * 64 + (a mod 4 * 16 + d))) 4 s"
proof -
  have "b64_decode (take_bit 32 x) 0 (p # q # s) =
      (let y = take_bit 32 (take_bit 32 (take_bit 32 x * 64 + a div 4) * 64 + (a mod 4 * 16 + d))
       in char_of (take_bit 8 (drop_bit 4 y)) # b64_decode y 4 s)"
    using t by (simp add: Let_def)
  then show ?thesis
    using byte1 [OF assms(1,2), of x] out_byte [of 4] by (simp only: take32_step Let_def)
qed

lemma decode3:
  assumes "b < 256" "d < 4" and t: "b64v p = Some (b mod 16 * 4 + d)"
  shows "b64_decode (take_bit 32 (x * 64 + (e * 16 + b div 16))) 4 (p # s) = char_of b #
    b64_decode (take_bit 32 ((x * 64 + (e * 16 + b div 16)) * 64 + (b mod 16 * 4 + d))) 2 s"
proof -
  let ?y = "x * 64 + (e * 16 + b div 16)"
  have "b64_decode (take_bit 32 ?y) 4 (p # s) =
      (let y = take_bit 32 (take_bit 32 ?y * 64 + (b mod 16 * 4 + d))
       in char_of (take_bit 8 (drop_bit 2 y)) # b64_decode y 2 s)"
    using t by (simp add: Let_def)
  then show ?thesis
    using byte2 [OF assms(1,2), of x e] out_byte [of 2] by (simp only: take32_step Let_def)
qed

lemma decode4:
  assumes "c < 256" and t: "b64v p = Some (c mod 64)"
  shows "b64_decode (take_bit 32 (x * 64 + (e * 4 + c div 64))) 2 (p # s) = char_of c #
    b64_decode (take_bit 32 ((x * 64 + (e * 4 + c div 64)) * 64 + c mod 64)) 0 s"
proof -
  let ?y = "x * 64 + (e * 4 + c div 64)"
  have "b64_decode (take_bit 32 ?y) 2 (p # s) =
      (let y = take_bit 32 (take_bit 32 ?y * 64 + c mod 64)
       in char_of (take_bit 8 (drop_bit 0 y)) # b64_decode y 0 s)"
    using t by (simp add: Let_def)
  then show ?thesis
    using byte3 [OF assms(1), of x e] out_byte [of 0] by (simp only: take32_step Let_def)
qed

lemma b64_decode_encode: "b64_decode (take_bit 32 x) 0 (b64_encode s) = s"
proof (induction s arbitrary: x rule: b64_encode.induct)
  case 1
  then show ?case by simp
next
  case (2 a)
  let ?v = "ord_char a * 2 ^ 16"
  note d = digits3 [of "ord_char a" 0 0, OF ord_char_lt, simplified]
  have t: "b64v (b64_digit 18 ?v) = Some (ord_char a div 4)" "b64v (b64_digit 12 ?v) = Some (ord_char a mod 4 * 16 + 0)"
    by (simp_all add: b64v_digit d)
  have "b64_encode [a] = [b64_digit 18 ?v, b64_digit 12 ?v, CHR ''='', CHR ''='']" by (simp add: Let_def)
  then show ?case using decode2 [OF ord_char_lt _ t] by (simp only:) (simp add: b64v_pad)
next
  case (3 a b)
  let ?v = "ord_char a * 2 ^ 16 + ord_char b * 2 ^ 8"
  note d = digits3 [of "ord_char a" "ord_char b" 0, OF ord_char_lt ord_char_lt, simplified]
  have t: "b64v (b64_digit 18 ?v) = Some (ord_char a div 4)"
    "b64v (b64_digit 12 ?v) = Some (ord_char a mod 4 * 16 + ord_char b div 16)"
    "b64v (b64_digit 6 ?v) = Some (ord_char b mod 16 * 4 + 0)"
    by (simp_all add: b64v_digit d)
  have lt: "ord_char b div 16 < 16" "0 < (4::nat)" using ord_char_lt [of b] by simp_all
  have "b64_encode [a, b] = [b64_digit 18 ?v, b64_digit 12 ?v, b64_digit 6 ?v, CHR ''='']" by (simp add: Let_def)
  then show ?case
    unfolding decode2 [OF ord_char_lt lt(1) t(1,2)] decode3 [OF ord_char_lt lt(2) t(3)]
    by (simp only: decode2 [OF ord_char_lt lt(1) t(1,2)] decode3 [OF ord_char_lt lt(2) t(3)]) (simp add: b64v_pad)
next
  case (4 a b c s)
  let ?v = "ord_char a * 2 ^ 16 + ord_char b * 2 ^ 8 + ord_char c"
  note d = digits3 [of "ord_char a" "ord_char b" "ord_char c", OF ord_char_lt ord_char_lt ord_char_lt]
  have t: "b64v (b64_digit 18 ?v) = Some (ord_char a div 4)"
    "b64v (b64_digit 12 ?v) = Some (ord_char a mod 4 * 16 + ord_char b div 16)"
    "b64v (b64_digit 6 ?v) = Some (ord_char b mod 16 * 4 + ord_char c div 64)"
    "b64v (b64_digit 0 ?v) = Some (ord_char c mod 64)"
    by (simp_all only: b64v_digit d)
  have lt: "ord_char b div 16 < 16" "ord_char c div 64 < 4" using ord_char_lt [of b] ord_char_lt [of c] by simp_all
  have e: "b64_encode (a # b # c # s) =
      b64_digit 18 ?v # b64_digit 12 ?v # b64_digit 6 ?v # b64_digit 0 ?v # b64_encode s"
    by (simp add: Let_def)
  show ?case
    unfolding e decode2 [OF ord_char_lt lt(1) t(1,2)] decode3 [OF ord_char_lt lt(2) t(3)]
      decode4 [OF ord_char_lt t(4)] "4.IH" [OF refl] by (simp only: char_of_ord)
qed

text \<open>C36 Decoding what was encoded gives back the text, for every C string.\<close>

theorem base64_roundtrip:
  assumes "c_string s"
  shows "bi_llBase64ToString [bi_llStringToBase64 [SString s]] = SString s"
  using assms b64_decode_encode [of 0 s]
  by (simp add: bi_llBase64ToString_def base64_text_def bi_llStringToBase64_def as_str_def opt_str_def)

subsection \<open>Hashes\<close>

definition rest64 :: "byte list \<Rightarrow> byte list" where
  "rest64 m = drop (64 * (length m div 64)) m"

lemma rest64_len [simp]: "length (rest64 m) = length m mod 64"
  by (simp add: rest64_def minus_mult_div_eq_mod)

lemma chunks_short [simp]: "length m < 64 \<Longrightarrow> chunks m = []"
  by (simp add: chunks.simps)

lemma chunks_one: "length m = 64 \<Longrightarrow> chunks m = [m]"
  by (simp add: chunks.simps)

lemma chunks_append: "length a mod 64 = 0 \<Longrightarrow> chunks (a @ b) = chunks a @ chunks b"
proof (induction a rule: chunks.induct)
  case (1 a)
  show ?case
  proof (cases "length a < 64")
    case True
    with 1(2) have "a = []" by simp
    then show ?thesis by simp
  next
    case False
    with 1(2) have "length (drop 64 a) mod 64 = 0" by (simp add: mod_if)
    with 1(1) False show ?thesis by (simp add: chunks.simps [of "a @ b"] chunks.simps [of a])
  qed
qed

lemma split_rest: "\<exists>a. m = a @ rest64 m \<and> length a mod 64 = 0"
proof (intro exI conjI)
  let ?k = "64 * (length m div 64)"
  show "m = take ?k m @ rest64 m" by (simp add: rest64_def)
  have "length (take ?k m) = ?k" by simp
  then show "length (take ?k m) mod 64 = 0" by (simp only: mod_mult_self1_is_0)
qed

lemma rest64_append: "length a mod 64 = 0 \<Longrightarrow> rest64 (a @ b) = rest64 b"
proof -
  assume "length a mod 64 = 0"
  then obtain q where q: "length a = 64 * q" by (metis mod_0_imp_dvd dvdE)
  have "64 * (length (a @ b) div 64) = length a + 64 * (length b div 64)" by (simp add: q)
  then show ?thesis unfolding rest64_def by (simp only: drop_append) simp
qed

definition absorbed :: "('s \<Rightarrow> byte list \<Rightarrow> 's) \<Rightarrow> 's \<Rightarrow> byte list \<Rightarrow> 's \<times> byte list" where
  "absorbed blk s m = (foldl blk s (chunks m), rest64 m)"

lemma absorbed_more:
  assumes "length (rest64 m) + length x \<le> 64"
  shows "absorbed blk s (m @ x) = (let b = rest64 m @ x; st = fst (absorbed blk s m) in
     if length b = 64 then (blk st b, []) else (st, b))"
proof -
  obtain a where a: "m = a @ rest64 m" "length a mod 64 = 0"
    using split_rest [of m] by (elim exE conjE) (rule that)
  define b where "b = rest64 m @ x"
  have m: "m @ x = a @ b" "length b \<le> 64" using a(1) assms by (simp_all add: b_def)
  have c: "chunks m = chunks a" using chunks_append [OF a(2), of "rest64 m"] a(1) by simp
  show ?thesis
  proof (cases "length b = 64")
    case True
    then have "rest64 (a @ b) = []" by (simp add: rest64_append [OF a(2)]) (simp add: rest64_def)
    with True show ?thesis
      by (simp add: absorbed_def m(1) c chunks_append [OF a(2)] chunks_one b_def [symmetric])
  next
    case False
    with m(2) have "rest64 (a @ b) = b" by (simp add: rest64_append [OF a(2)]) (simp add: rest64_def)
    with False m(2) show ?thesis
      by (simp add: absorbed_def m(1) c chunks_append [OF a(2)] b_def [symmetric])
  qed
qed

lemma feed_absorbed: "hash_feed blk d (absorbed blk s m) = absorbed blk s (m @ d)"
proof (induction "length d" arbitrary: d m rule: less_induct)
  case less
  show ?case
  proof (cases "d = []")
    case True
    then show ?thesis by (simp add: absorbed_def hash_feed.simps)
  next
    case False
    let ?t = "min (64 - length (rest64 m)) (length d)"
    have t: "0 < ?t" using False by simp
    have "hash_feed blk d (absorbed blk s m) = hash_feed blk (drop ?t d) (absorbed blk s (m @ take ?t d))"
    proof -
      have "q + min (64 - q) l \<le> 64" if "q < 64" for q l :: nat using that by linarith
      from this [of "length m mod 64" "length d"] have "length (rest64 m) + length (take ?t d) \<le> 64" by simp
      moreover have "\<not> 64 \<le> length m mod 64" by (simp add: not_le)
      ultimately show ?thesis
        using absorbed_more [of m "take ?t d" blk s] False
        by (simp only: absorbed_def fst_conv Let_def) (simp add: hash_feed.simps [of blk d] Let_def)
    qed
    also have "\<dots> = absorbed blk s (m @ take ?t d @ drop ?t d)"
      using less [of "drop ?t d" "m @ take ?t d"] t False by simp
    finally show ?thesis by simp
  qed
qed

lemma pad_zeros:
  fixes q :: nat
  shows "q \<le> 55 \<Longrightarrow> (119 - q) mod 64 = 55 - q" "\<not> q \<le> 55 \<Longrightarrow> q < 64 \<Longrightarrow> (119 - q) mod 64 = 119 - q"
proof -
  assume "q \<le> 55"
  then have "119 - q = 64 + (55 - q)" by simp
  then have "(119 - q) mod 64 = (55 - q) mod 64" by (simp only: mod_add_self1)
  with \<open>q \<le> 55\<close> show "(119 - q) mod 64 = 55 - q" by simp
qed simp

lemma pad_absorbed:
  assumes "length len = 8"
  shows "hash_pad blk len (absorbed blk s d) = foldl blk s (chunks (d @ padding (length d) @ len))"
proof -
  obtain a where a: "d = a @ rest64 d" "length a mod 64 = 0"
    using split_rest [of d] by (elim exE conjE) (rule that)
  let ?b = "rest64 d" and ?n = "length d mod 64"
  have c: "chunks d = chunks a" using chunks_append [OF a(2), of ?b] by (simp only: a(1) [symmetric]) simp
  have n: "?n < 64" by simp
  show ?thesis
  proof (cases "?n \<le> 55")
    case True
    note z = pad_zeros(1) [OF True]
    have e: "d @ padding (length d) @ len = a @ (?b @ padding (length d) @ len)"
      by (simp only: append_assoc [symmetric] a(1) [symmetric])
    have "length (?b @ padding (length d) @ len) = 64" using True z assms by (simp add: padding_def)
    then have "chunks (d @ padding (length d) @ len) = chunks a @ [?b @ padding (length d) @ len]"
      unfolding e chunks_append [OF a(2)] by (simp only: chunks_one)
    with True z show ?thesis by (simp add: hash_pad_def absorbed_def c padding_def)
  next
    case False
    note z = pad_zeros(2) [OF False n]
    let ?x = "?b @ 0x80 # replicate (63 - ?n) 0" and ?y = "replicate 56 0 @ len"
    have "padding (length d) = 0x80 # replicate (63 - ?n) 0 @ replicate 56 0"
      using n z by (simp add: padding_def replicate_add [symmetric])
    then have "d @ padding (length d) @ len = (a @ ?b) @ (0x80 # replicate (63 - ?n) 0) @ ?y"
      by (simp only: a(1) [symmetric] append_assoc append_Cons)
    then have e: "d @ padding (length d) @ len = a @ ?x @ ?y" by simp
    have "length ?x = 64" "length ?y = 64" using n assms by simp_all
    then have "chunks (d @ padding (length d) @ len) = chunks a @ [?x, ?y]"
      unfolding e chunks_append [OF a(2)] using chunks_append [of ?x ?y] chunks_one by simp
    with False n show ?thesis by (simp add: hash_pad_def absorbed_def c)
  qed
qed

lemma length_byte: "k + 8 \<le> 64 \<Longrightarrow> ucast (drop_bit k (of_nat n :: llong)) = (of_nat (n div 2 ^ k mod 256) :: byte)"
proof -
  assume k: "k + 8 \<le> 64"
  have "ucast (drop_bit k (of_nat n :: llong)) = (of_nat (take_bit 8 (drop_bit k n)) :: byte)"
    using k by (intro bit_word_eqI) (simp add: bit_simps)
  then show ?thesis by (simp only: drop_bit_eq_div take_bit_eq_mod) simp
qed

lemma length_bytes:
  "map (\<lambda>k. ucast (drop_bit k (of_nat n :: llong))) [0, 8, 16, 24, 32, 40, 48, 56] = low_bytes 8 n"
proof -
  have "[0 ..< 8] = [0, 1, 2, 3, 4, 5, 6, 7 :: nat]" by (simp add: upt_rec)
  then show ?thesis by (simp only: low_bytes_def list.map length_byte) simp
qed

lemma feed_start: "hash_feed blk d (s, []) = absorbed blk s d"
  using feed_absorbed [of blk d s "[]"] by (simp add: absorbed_def rest64_def)

text \<open>The contexts after a message has been fed.\<close>

definition md5_fed :: "byte list \<Rightarrow> md5_ctx" where
  "md5_fed m = (of_nat (length m), absorbed md5_block md5_init m)"

definition sha1_fed :: "byte list \<Rightarrow> sha1_ctx" where
  "sha1_fed m = (of_nat (length m) * 8, absorbed sha1_block sha1_init m)"

lemma md5_feeds: "md5_update d md5_start = md5_fed d" "md5_update e (md5_fed d) = md5_fed (d @ e)"
  by (simp_all add: md5_update_def md5_start_def md5_fed_def feed_start feed_absorbed)

lemma sha1_feeds: "sha1_update d sha1_start = sha1_fed d" "sha1_update e (sha1_fed d) = sha1_fed (d @ e)"
  by (simp_all add: sha1_update_def sha1_start_def sha1_fed_def feed_start feed_absorbed algebra_simps)

lemma md5_final_ref:
  assumes "length m < 2 ^ 32"
  shows "md5_final (md5_fed m) = md5_ref m"
proof -
  have "ucast (of_nat (length m) :: cint) * 8 = (of_nat (8 * length m) :: llong)"
    using assms by (simp add: unsigned_of_nat take_bit_nat_eq_self mult.commute)
  then show ?thesis
    unfolding md5_final_def md5_fed_def fst_conv snd_conv Let_def md5_ref_def
    by (simp only: length_bytes) (simp add: pad_absorbed md5_blocks md5_init_low le_bytes_low low_bytes_def split: prod.split)
qed

lemma sha1_final_ref: "sha1_final (sha1_fed m) = sha1_ref m"
proof -
  have "of_nat (length m) * 8 = (of_nat (8 * length m) :: llong)" by (simp add: mult.commute)
  moreover have "map (\<lambda>k. ucast (drop_bit k (of_nat n :: llong))) [56, 48, 40, 32, 24, 16, 8, 0] = rev (low_bytes 8 n)" for n
    unfolding length_bytes [symmetric] by simp
  ultimately show ?thesis
    unfolding sha1_final_def sha1_fed_def fst_conv snd_conv Let_def sha1_ref_def sha1_init_def
    by (simp only:) (simp add: low_bytes_def pad_absorbed sha1_blocks be_bytes_low split: prod.split)
qed

text \<open>C22 The hashes are those of the standards: feeding the text in pieces through the 64-byte buffer, padding at the end
  and the rotating compression loops compute MD5 (RFC 1321), SHA-1 (RFC 3174) and HMAC-SHA-1 (RFC 2104) of the whole message
  as the standards define them. The text and the nonce of the MD5 together stay below 4 GB, as its counter has 32 bits.\<close>

theorem hashes_standard:
  assumes "length s + length (show_ll n) < 2 ^ 32 - 1"
  shows "bi_llMD5String [SString s, SInt n] = SString (hex_of (md5_ref (bytes_of (s @ '':'' @ show_ll n)))) \<and>
    bi_llSHA1String [SString s] = SString (hex_of (sha1_ref (bytes_of s))) \<and>
    bi_llHMAC [SString k, SString s] = SString (hex_of (hmac_ref (bytes_of k) (bytes_of s)))"
proof (intro conjI)
  let ?m = "bytes_of (s @ '':'' @ show_ll n)"
  have "bytes_of s @ bytes_of ('':'' @ show_ll n) = ?m" by (simp add: bytes_of_def)
  moreover have "length ?m < 2 ^ 32" using assms by (simp add: bytes_of_def)
  ultimately show "bi_llMD5String [SString s, SInt n] = SString (hex_of (md5_ref ?m))"
    by (simp add: bi_llMD5String_def as_str_def opt_str_def ai_def md5_feeds md5_final_ref)
  show "bi_llSHA1String [SString s] = SString (hex_of (sha1_ref (bytes_of s)))"
    by (simp add: bi_llSHA1String_def as_str_def opt_str_def sha1_def sha1_feeds sha1_final_ref)
  show "bi_llHMAC [SString k, SString s] = SString (hex_of (hmac_ref (bytes_of k) (bytes_of s)))"
    by (simp add: bi_llHMAC_def as_str_def opt_str_def hmac_sha1_def hmac_ref_def sha1_def sha1_feeds sha1_final_ref Let_def)
qed

end
