(* ===== verification/Json.thy ===== *)
theory Json
  imports BuiltinsText
begin

text \<open>
  The JSON functions of \<open>builtins.c\<close>. They walk the text without parsing it into a value; a position in
  the text is the rest of the text from there, so that two positions are compared by the lengths of
  their rests. A lone quote at the end of the text makes the code copy \<open>-1\<close> bytes: \<open>BadMemory\<close>.
\<close>

subsection \<open>Walking over the text\<close>

definition is_ws :: "char \<Rightarrow> bool" where
  "is_ws c \<longleftrightarrow> c = CHR '' '' \<or> c = CHR 0x09 \<or> c = CHR 0x0A \<or> c = CHR 0x0D"

definition json_skip_ws :: "string \<Rightarrow> string" where
  "json_skip_ws p = dropWhile is_ws p"

fun str_rest :: "string \<Rightarrow> string" where
  \<comment> \<open>behind the closing quote; an escape passes two characters\<close>
  "str_rest [] = []"
| "str_rest (c # cs) = (if c = CHR 0x5C \<and> cs \<noteq> [] then str_rest (tl cs)
     else if c = CHR 0x22 then cs else str_rest cs)"

definition json_walk_str :: "string \<Rightarrow> string" where
  "json_walk_str p = (case p of c # cs \<Rightarrow> if c = CHR 0x22 then str_rest cs else p | [] \<Rightarrow> p)"

lemma str_rest_len: "length (str_rest p) \<le> length p"
  by (induction p rule: str_rest.induct) auto

lemma walk_str_less [simp]: "length (json_walk_str (CHR 0x22 # cs)) < Suc (length cs)"
  using str_rest_len [of cs] by (simp add: json_walk_str_def)

lemma walk_str_len: "length (json_walk_str p) \<le> length p"
  using str_rest_len by (auto simp: json_walk_str_def le_SucI split: list.split)

text \<open>Behind the bracket that closes the first one; strings are passed as a whole.\<close>

function (sequential) json_nest :: "char \<Rightarrow> char \<Rightarrow> int \<Rightarrow> string \<Rightarrow> string" where
  "json_nest op cl d [] = []"
| "json_nest op cl d (c # cs) = (if c = CHR 0x22 then json_nest op cl d (json_walk_str (c # cs))
     else if c = op then json_nest op cl (d + 1) cs
     else if c = cl then (if d - 1 = 0 then cs else json_nest op cl (d - 1) cs)
     else json_nest op cl d cs)"
  by pat_completeness auto
termination by (relation "measure (\<lambda>(op, cl, d, p). length p)") auto

definition ends_scalar :: "char \<Rightarrow> bool" where
  "ends_scalar c \<longleftrightarrow> c = CHR '','' \<or> c = CHR ''}'' \<or> c = CHR '']'' \<or> c = CHR '' '' \<or> c = CHR 0x09 \<or> c = CHR 0x0A"

definition json_walk :: "string \<Rightarrow> string" where
  "json_walk q = (case json_skip_ws q of [] \<Rightarrow> []
     | c # p \<Rightarrow> if c = CHR 0x22 then json_walk_str (c # p)
         else if c = CHR ''{'' then json_nest c (CHR ''}'') 0 (c # p)
         else if c = CHR ''['' then json_nest c (CHR '']'') 0 (c # p)
         else dropWhile (\<lambda>x. \<not> ends_scalar x) (c # p))"

lemma walk_Nil [simp]: "json_skip_ws [] = []" "json_walk [] = []"
  by (simp_all add: json_walk_def json_skip_ws_def)

text \<open>The text from one position to a later one.\<close>

definition span :: "string \<Rightarrow> string \<Rightarrow> string" where
  "span s e = take (length s - length e) s"

definition json_extract_value :: "string \<Rightarrow> string" where
  \<comment> \<open>of the text between the two positions\<close>
  "json_extract_value seg = (let t = rev (dropWhile is_ws (rev (dropWhile is_ws seg))) in
     if 2 \<le> length t \<and> hd t = CHR 0x22 \<and> last t = CHR 0x22 then butlast (tl t) else t)"

text \<open>The key at a quote, without the quotes, and the position behind it.\<close>

definition json_key :: "string \<Rightarrow> (string \<times> string) res" where
  "json_key s = (let ke = json_walk_str s; n = length s - length ke in
     if n < 2 then Inl BadMemory else Inr (take (n - 2) (tl s), ke))"

lemma str_rest_skip: "length (json_skip_ws p) \<le> length p"
  by (simp add: json_skip_ws_def length_dropWhile_le)

lemma nest_len: "length (json_nest op cl d p) \<le> length p"
  by (induction op cl d p rule: json_nest.induct) (auto simp del: walk_str_less intro: le_trans less_imp_le [OF walk_str_less])

lemma if_len: "length a \<le> n \<Longrightarrow> length b \<le> n \<Longrightarrow> length (if c then a else b) \<le> n"
  by simp

lemma walk_len: "length (json_walk p) \<le> length p"
proof (cases "json_skip_ws p")
  case (Cons c q)
  have "length (json_walk p) \<le> length (c # q)"
    unfolding json_walk_def Cons list.case
    by (intro if_len nest_len walk_str_len length_dropWhile_le)
  with str_rest_skip [of p] Cons show ?thesis by simp
qed (simp add: json_walk_def)

lemma json_key_less: "json_key s = Inr (k, ke) \<Longrightarrow> length ke < length s"
  by (auto simp: json_key_def Let_def split: if_splits)

text \<open>Where the loops over members and elements go on.\<close>

lemma next_elem_le: "json_skip_ws (json_walk (json_skip_ws p)) = c # t \<Longrightarrow> length t < length p"
  using str_rest_skip [of "json_walk (json_skip_ws p)"] walk_len [of "json_skip_ws p"] str_rest_skip [of p] by simp

lemma next_field_less:
  assumes "json_key (json_skip_ws p) = Inr (key, ke)" "json_skip_ws ke = c # v0"
    "json_skip_ws (json_walk (json_skip_ws v0)) = c' # t"
  shows "Suc (length t) < length p"
  using next_elem_le [OF assms(3)] str_rest_skip [of ke] json_key_less [OF assms(1)] str_rest_skip [of p] assms(2) by simp

subsection \<open>Finding a value\<close>

text \<open>The value of a member of an object, from behind the opening brace.\<close>

function json_field :: "string \<Rightarrow> string \<Rightarrow> string option res" where
  "json_field k p =
    (let s = json_skip_ws p in
     if s = [] \<or> hd s \<noteq> CHR 0x22 then Inr None
     else case json_key s of Inl e \<Rightarrow> Inl e
       | Inr (key, ke) \<Rightarrow>
         (case json_skip_ws ke of [] \<Rightarrow> Inr None
          | c # v0 \<Rightarrow> if c \<noteq> CHR '':'' then Inr None
             else
               (let v = json_skip_ws v0 in
                if key = k then Inr (Some v)
                else (case json_skip_ws (json_walk v) of [] \<Rightarrow> Inr None
                  | c # t \<Rightarrow> if c = CHR '','' then json_field k t
                      else if c = CHR ''}'' then Inr None else json_field k (c # t)))))"
  by pat_completeness auto
termination
  by (relation "measure (\<lambda>(k, p). length p)") (auto dest: next_field_less)

text \<open>The element of an array. Before a closing brace the walk does not move: the loop then counts up to
  the index, or for ever when the index is behind the count (\<open>OutOfFuel\<close>).\<close>

function json_elem :: "int \<Rightarrow> int \<Rightarrow> string \<Rightarrow> string option res" where
  "json_elem want k p =
    (if p = [] then Inr None
     else
       (let s = json_skip_ws p in
        if s \<noteq> [] \<and> hd s = CHR '']'' then Inr None
        else if k = want then Inr (Some s)
        else (case json_skip_ws (json_walk s) of [] \<Rightarrow> Inr None
          | c # t \<Rightarrow> if c = CHR '','' then json_elem want (k + 1) t
              else if c = CHR '']'' then Inr None
              else if length p \<le> length (c # t) \<and> want < k then Inl OutOfFuel
              else json_elem want (k + 1) (c # t))))"
  by pat_completeness auto
termination
  by (relation "measures [\<lambda>(want, k, p). length p, \<lambda>(want, k, p). nat (want - k)]")
    (auto dest: next_elem_le)

fun json_find_value :: "string \<Rightarrow> svalue list \<Rightarrow> string option res" where
  "json_find_value json [] = Inr (Some (json_skip_ws json))"
| "json_find_value json (step # path) =
     rbind (case json_skip_ws json of [] \<Rightarrow> Inr None
       | c # p \<Rightarrow> if c = CHR ''{'' then (case step of SString k \<Rightarrow> json_field k p | _ \<Rightarrow> Inr None)
           else if c = CHR ''['' then (case step of SInt w \<Rightarrow> json_elem (sint w) 0 p | _ \<Rightarrow> Inr None)
           else Inr None)
       (\<lambda>r. case r of None \<Rightarrow> Inr None
         | Some v \<Rightarrow> if path = [] then Inr (Some v) else json_find_value v path)"

definition sentinel :: "char \<Rightarrow> string" where
  "sentinel c = [CHR 0xEF, CHR 0xBF, c]"

text \<open>The path of a call: its second argument, when that is a list.\<close>

definition path_arg :: "svalue list \<Rightarrow> svalue list option" where
  "path_arg a = (case a of _ # SList l # _ \<Rightarrow> Some l | _ \<Rightarrow> None)"

definition bi_llJsonGetValue :: "svalue list \<Rightarrow> svalue res" where
  "bi_llJsonGetValue a = (case path_arg a of None \<Rightarrow> Inr (SString [])
     | Some path \<Rightarrow> rbind (json_find_value (as_str a 0) path) (\<lambda>r.
         Inr (SString (case r of None \<Rightarrow> sentinel (CHR 0xB6)
           | Some p \<Rightarrow> json_extract_value (span p (json_walk p))))))"

definition type_sentinel :: "string \<Rightarrow> char" where
  "type_sentinel p = (case json_skip_ws p of [] \<Rightarrow> CHR 0xBA
     | c # q \<Rightarrow> if c = CHR ''{'' then CHR 0xBD else if c = CHR ''['' then CHR 0xBC
         else if c = CHR 0x22 then CHR 0xBB else if c = CHR ''t'' then CHR 0xB9
         else if c = CHR ''f'' then CHR 0xB8 else if c = CHR ''n'' then CHR 0xB7 else CHR 0xBA)"

definition bi_llJsonValueType :: "svalue list \<Rightarrow> svalue res" where
  "bi_llJsonValueType a = (case path_arg a of None \<Rightarrow> Inr (SString (sentinel (CHR 0xB6)))
     | Some path \<Rightarrow> rbind (json_find_value (as_str a 0) path) (\<lambda>r.
         Inr (SString (sentinel (case r of None \<Rightarrow> CHR 0xB6 | Some p \<Rightarrow> type_sentinel p)))))"

subsection \<open>Setting a value\<close>

text \<open>The closing brace of the object that starts here, with what follows it.\<close>

function (sequential) json_close :: "int \<Rightarrow> string \<Rightarrow> string option" where
  "json_close d [] = None"
| "json_close d (c # cs) = (if c = CHR 0x22 then json_close d (json_walk_str (c # cs))
     else if c = CHR ''{'' then json_close (d + 1) cs
     else if c = CHR ''}'' then (if d - 1 = 0 then Some (c # cs) else json_close (d - 1) cs)
     else json_close d cs)"
  by pat_completeness auto
termination by (relation "measure (\<lambda>(d, p). length p)") auto

text \<open>The value of a member before the closing brace \<open>e\<close>: where it begins and where it ends.\<close>

function json_slot :: "string \<Rightarrow> string \<Rightarrow> string \<Rightarrow> (string \<times> string) option res" where
  "json_slot key e p =
    (if length p \<le> length e then Inr None
     else
       (let s = json_skip_ws p in
        if s = [] \<or> length s \<le> length e \<or> hd s \<noteq> CHR 0x22 then Inr None
        else case json_key s of Inl x \<Rightarrow> Inl x
          | Inr (k, ke) \<Rightarrow>
            (case json_skip_ws ke of [] \<Rightarrow> Inr None
             | c # v0 \<Rightarrow> if c \<noteq> CHR '':'' then Inr None
                else
                  (let v = json_skip_ws v0; ve = json_walk v in
                   if k = key then Inr (Some (v, ve))
                   else (case json_skip_ws ve of [] \<Rightarrow> Inr None
                     | c # t \<Rightarrow> json_slot key e (if c = CHR '','' then t else c # t))))))"
  by pat_completeness auto
termination
  by (relation "measure (\<lambda>(key, e, p). length p)") (auto dest: next_field_less)

text \<open>\<open>json\<close> with the text \<open>txt\<close> as the value of a member, in place of its value or before the closing
  brace. \<open>json_obj_set_top\<close> puts the value in quotes, without escaping it.\<close>

definition json_put :: "string \<Rightarrow> string \<Rightarrow> string \<Rightarrow> string res" where
  "json_put json key txt =
    (case json_skip_ws json of [] \<Rightarrow> Inr json
     | c # body \<Rightarrow> if c \<noteq> CHR ''{'' then Inr json
       else (case json_close 0 (c # body) of None \<Rightarrow> Inr json
         | Some e \<Rightarrow> rbind (json_slot key e body) (\<lambda>r. Inr (case r of
             Some (v, ve) \<Rightarrow> span json v @ txt @ ve
           | None \<Rightarrow> span json e @ (if list_all is_ws (span body e) then [] else '','') @
               dq key @ '':'' @ txt @ e))))"

definition json_obj_set_top :: "string \<Rightarrow> string \<Rightarrow> string \<Rightarrow> string res" where
  "json_obj_set_top json key val = json_put json key (dq val)"

definition sub_object :: "string \<Rightarrow> string option \<Rightarrow> string" where
  "sub_object json r = (case r of None \<Rightarrow> ''{}'' | Some p \<Rightarrow> span p (json_walk p))"

definition bi_llJsonSetValue :: "svalue list \<Rightarrow> svalue res" where
  "bi_llJsonSetValue a =
    (if a = [] then Inr (SString [])
     else if length a < 3 then Inr (a ! 0)
     else case a ! 1 of
       SList [SString k] \<Rightarrow> rbind (json_obj_set_top (as_str a 0) k (as_str a 2)) (\<lambda>t. Inr (SString t))
     | SList [SString k1, SString k2] \<Rightarrow>
         rbind (json_find_value (as_str a 0) [SString k1]) (\<lambda>r.
         rbind (json_obj_set_top (sub_object (as_str a 0) r) k2 (as_str a 2)) (\<lambda>sub.
         rbind (json_put (as_str a 0) k1 sub) (\<lambda>t. Inr (SString t))))
     | _ \<Rightarrow> Inr (a ! 0))"

subsection \<open>Lists\<close>

lemma walk_moves:
  "\<not> is_ws c \<Longrightarrow> \<not> ends_scalar c \<Longrightarrow> length (json_walk (c # q)) \<le> length q"
  using nest_len [of _ _ 1 q] walk_str_less [of q] length_dropWhile_le [of "\<lambda>x. \<not> ends_scalar x" q]
  by (simp add: json_walk_def json_skip_ws_def less_Suc_eq_le)

lemma skip_ws_head: "json_skip_ws p = c # q \<Longrightarrow> \<not> is_ws c \<and> json_skip_ws (c # q) = c # q"
  using hd_dropWhile [of is_ws p] by (auto simp: json_skip_ws_def)

text \<open>The key before an item of an object, and where the value starts.\<close>

definition item_key :: "bool \<Rightarrow> string \<Rightarrow> (svalue list \<times> string) res" where
  "item_key obj t = (if obj \<and> t \<noteq> [] \<and> hd t = CHR 0x22
     then rbind (json_key t) (\<lambda>(k, ke). Inr ([SString k],
       (case json_skip_ws ke of [] \<Rightarrow> [] | c # v \<Rightarrow> if c = CHR '':'' then v else c # v)))
     else Inr ([], t))"

lemma items_next:
  assumes "\<not> (json_skip_ws p \<noteq> [] \<and> (hd (json_skip_ws p) = CHR ''}'' \<or> hd (json_skip_ws p) = CHR '']''))"
    and "item_key obj (json_skip_ws p) = Inr (k, v0)" "json_skip_ws (json_walk (json_skip_ws v0)) = c # t"
  shows "length (if c = CHR '','' then t else c # t) < length p"
proof (cases "obj \<and> json_skip_ws p \<noteq> [] \<and> hd (json_skip_ws p) = CHR 0x22")
  case True
  with assms(2) obtain ks ke where k: "json_key (json_skip_ws p) = Inr (ks, ke)"
    and v0: "v0 = (case json_skip_ws ke of [] \<Rightarrow> [] | c # v \<Rightarrow> if c = CHR '':'' then v else c # v)"
    by (auto simp: item_key_def rbind_eq_Inr)
  have "length v0 \<le> length ke" using str_rest_skip [of ke] by (auto simp: v0 split: list.split)
  with json_key_less [OF k] next_elem_le [OF assms(3)] str_rest_skip [of p] show ?thesis by simp
next
  case False
  then have v0: "v0 = json_skip_ws p" using assms(2) by (auto simp: item_key_def split: if_splits)
  show ?thesis
  proof (cases "json_skip_ws p")
    case Nil
    with assms(3) v0 show ?thesis by simp
  next
    case (Cons d q)
    note h = skip_ws_head [OF Cons]
    show ?thesis
    proof (cases "ends_scalar d")
      case True
      with assms(1) h Cons have "d = CHR '',''" by (auto simp: ends_scalar_def is_ws_def)
      then have "json_walk (d # q) = d # q" using h by (simp add: json_walk_def ends_scalar_def)
      with assms(3) v0 Cons h \<open>d = CHR '',''\<close> have "c = CHR '',''" "t = q" by simp_all
      with str_rest_skip [of p] Cons show ?thesis by simp
    next
      case False
      have "length (c # t) \<le> length (json_walk (json_skip_ws v0))" using str_rest_skip assms(3) by metis
      also have "\<dots> \<le> length q" using walk_moves [OF _ False, of q] h v0 Cons by simp
      finally show ?thesis using str_rest_skip [of p] Cons by simp
    qed
  qed
qed

function json_items :: "bool \<Rightarrow> string \<Rightarrow> svalue list res" where
  "json_items obj p =
    (if p = [] then Inr []
     else
       (let t = json_skip_ws p in
        if t \<noteq> [] \<and> (hd t = CHR ''}'' \<or> hd t = CHR '']'') then Inr []
        else rbind (item_key obj t)
           (\<lambda>(k, v0). let v = json_skip_ws v0; ve = json_walk v in
             rbind (case json_skip_ws ve of [] \<Rightarrow> Inr []
                 | c # t' \<Rightarrow> json_items obj (if c = CHR '','' then t' else c # t'))
               (\<lambda>xs. Inr (k @ SString (json_extract_value (span v ve)) # xs)))))"
  by pat_completeness auto
termination
  by (relation "measure (\<lambda>(obj, p). length p)") (auto simp only: in_measure prod.case wf_measure intro: items_next)

definition bi_llJson2List :: "svalue list \<Rightarrow> svalue res" where
  "bi_llJson2List a = (case json_skip_ws (as_str a 0) of [] \<Rightarrow> Inr (SList [SString []])
     | c # t \<Rightarrow> if c \<noteq> CHR ''['' \<and> c \<noteq> CHR ''{'' then Inr (SList [SString (c # t)])
         else rbind (json_items (c = CHR ''{'') t) (\<lambda>xs. Inr (SList xs)))"

definition json_value_text :: "svalue \<Rightarrow> string" where
  \<comment> \<open>numbers bare, everything else in quotes\<close>
  "json_value_text v = (if sv_type v = SV_INTEGER \<or> sv_type v = SV_FLOAT then sv_to_string v else dq (sv_to_string v))"

fun json_pairs :: "svalue list \<Rightarrow> string list" where
  "json_pairs (k # v # xs) = (dq (sv_to_string k) @ '':'' @ json_value_text v) # json_pairs xs"
| "json_pairs _ = []"

definition bi_llList2Json :: "svalue list \<Rightarrow> svalue" where
  "bi_llList2Json a =
    (let obj = has_substr (as_str a 0) (sentinel (CHR 0xBD));
         l = (case path_arg a of Some l \<Rightarrow> l | None \<Rightarrow> [])
     in SString (if obj then ''{'' @ str_join '','' (json_pairs l) @ ''}''
         else ''['' @ str_join '','' (map json_value_text l) @ '']''))"

declare json_field.simps [simp del] json_slot.simps [simp del] json_items.simps [simp del]
  json_elem.simps [simp del]

text \<open>Only the array loop of \<open>json_find_value\<close> can go on for ever.\<close>

lemma json_key_ends: "json_key s \<noteq> Inl OutOfFuel"
  by (simp add: json_key_def Let_def)

lemma json_field_ends: "json_field k p \<noteq> Inl OutOfFuel"
proof (induction k p rule: json_field.induct)
  case (1 k p)
  then show ?case
    using json_key_ends [of "json_skip_ws p"]
    by (subst json_field.simps) (auto simp: Let_def split: if_splits sum.split list.split)
qed

lemma json_slot_ends: "json_slot key e p \<noteq> Inl OutOfFuel"
proof (induction key e p rule: json_slot.induct)
  case (1 key e p)
  then show ?case
    using json_key_ends [of "json_skip_ws p"]
    by (subst json_slot.simps) (auto simp: Let_def split: if_splits sum.split list.split)
qed

lemma json_items_ends: "json_items obj p \<noteq> Inl OutOfFuel"
proof (induction obj p rule: json_items.induct)
  case (1 obj p)
  have "item_key obj t \<noteq> Inl OutOfFuel" for t
    using json_key_ends [of t] by (auto simp: item_key_def rbind_eq_Inl)
  with 1 show ?case
    by (subst json_items.simps) (auto simp: Let_def rbind_eq_Inl split: list.splits)
qed

lemma json_put_ends: "json_put json key txt \<noteq> Inl OutOfFuel"
  using json_slot_ends by (auto simp: json_put_def rbind_eq_Inl split: list.split option.split)

lemma json_calls_end:
  "bi_llJsonSetValue a \<noteq> Inl OutOfFuel" "bi_llJson2List a \<noteq> Inl OutOfFuel"
proof -
  have "json_find_value j [SString k] \<noteq> Inl OutOfFuel" for j k
    using json_field_ends by (auto simp: rbind_eq_Inl split: list.split option.split)
  then show "bi_llJsonSetValue a \<noteq> Inl OutOfFuel"
    using json_put_ends
    by (auto simp: bi_llJsonSetValue_def json_obj_set_top_def rbind_eq_Inl split: svalue.split list.split
        simp del: json_find_value.simps)
  show "bi_llJson2List a \<noteq> Inl OutOfFuel"
    using json_items_ends by (auto simp: bi_llJson2List_def rbind_eq_Inl split: list.split)
qed

end
