(* ===== verification/JsonProps.thy ===== *)
theory JsonProps
  imports Json "HOL-Library.AList"
begin

text \<open>
  The JSON functions against an abstract map: on object texts that \<open>llList2Json\<close> writes for plain keys and
  values, reading is lookup and setting is update of an association list.
\<close>

text \<open>A text without quotes and backslashes: the functions do not escape.\<close>

definition plain_text :: "string \<Rightarrow> bool" where
  "plain_text s \<longleftrightarrow> CHR 0x22 \<notin> set s \<and> CHR 0x5C \<notin> set s"

definition plain_members :: "(string \<times> string) list \<Rightarrow> bool" where
  "plain_members kvs \<longleftrightarrow> list_all (\<lambda>(k, v). plain_text k \<and> plain_text v) kvs"

definition member_text :: "string \<times> string \<Rightarrow> string" where
  "member_text kv = dq (fst kv) @ '':'' @ dq (snd kv)"

definition object_text :: "(string \<times> string) list \<Rightarrow> string" where
  "object_text kvs = ''{'' @ str_join '','' (map member_text kvs) @ ''}''"

fun as_items :: "(string \<times> string) list \<Rightarrow> svalue list" where
  "as_items [] = []"
| "as_items ((k, v) # kvs) = SString k # SString v # as_items kvs"

lemma json_pairs_items: "json_pairs (as_items kvs) = map member_text kvs"
  by (induction kvs rule: as_items.induct) (simp_all add: member_text_def json_value_text_def)

lemma list2json_object:
  "bi_llList2Json [SString (sentinel (CHR 0xBD)), SList (as_items kvs)] = SString (object_text kvs)"
  by (simp add: bi_llList2Json_def path_arg_def json_pairs_items object_text_def as_str_def opt_str_def
      has_substr_def sentinel_def)

subsection \<open>Walking over what was written\<close>

lemma str_rest_plain: "plain_text s \<Longrightarrow> str_rest (s @ CHR 0x22 # p) = p"
  by (induction s) (auto simp: plain_text_def)

lemma walk_str_dq [simp]: "plain_text s \<Longrightarrow> json_walk_str (CHR 0x22 # s @ CHR 0x22 # p) = p"
  by (simp add: json_walk_str_def str_rest_plain)

lemma skip_ws_non [simp]: "\<not> is_ws c \<Longrightarrow> json_skip_ws (c # p) = c # p"
  by (simp add: json_skip_ws_def)

lemma not_ws [simp]:
  "\<not> is_ws (CHR 0x22)" "\<not> is_ws (CHR '':'')" "\<not> is_ws (CHR '','')" "\<not> is_ws (CHR ''{'')" "\<not> is_ws (CHR ''}'')"
  "\<not> is_ws (CHR ''['')" "\<not> is_ws (CHR '']'')"
  by (simp_all add: is_ws_def)

lemma walk_dq [simp]: "plain_text s \<Longrightarrow> json_walk (CHR 0x22 # s @ CHR 0x22 # p) = p"
  by (simp add: json_walk_def)

lemma json_key_dq [simp]: "plain_text s \<Longrightarrow> json_key (CHR 0x22 # s @ CHR 0x22 # p) = Inr (s, p)"
  by (simp add: json_key_def Let_def)

lemma dq_app: "dq s @ p = CHR 0x22 # s @ CHR 0x22 # p"
  by (simp add: dq_def)

text \<open>The members from some point on, up to the end of the text.\<close>

fun members_from :: "(string \<times> string) list \<Rightarrow> string" where
  "members_from [] = ''}''"
| "members_from [kv] = member_text kv @ ''}''"
| "members_from (kv # kvs) = member_text kv @ '','' @ members_from kvs"

lemma join_members: "str_join '','' (map member_text kvs) @ ''}'' = members_from kvs"
  by (induction kvs rule: members_from.induct) (simp_all add: str_join_def)

lemma members_from_Cons:
  "members_from ((k, v) # kvs) = CHR 0x22 # k @ CHR 0x22 # CHR '':'' # CHR 0x22 # v @ CHR 0x22 #
     (if kvs = [] then ''}'' else CHR '','' # members_from kvs)"
  by (cases kvs) (simp_all add: member_text_def dq_def)

lemma members_end: "\<exists>ms. members_from kvs = ms @ ''}''"
  by (induction kvs rule: members_from.induct) auto

declare members_from.simps(2,3) [simp del]

lemma field_members:
  "plain_members kvs \<Longrightarrow> plain_text k \<Longrightarrow>
     (case map_of kvs k of None \<Rightarrow> json_field k (members_from kvs) = Inr None
      | Some v \<Rightarrow> \<exists>p. json_field k (members_from kvs) = Inr (Some (CHR 0x22 # v @ CHR 0x22 # p)) \<and> plain_text v)"
proof (induction kvs)
  case Nil
  then show ?case by (simp add: json_field.simps)
next
  case (Cons kv kvs)
  obtain k' v' where kv: "kv = (k', v')" by (cases kv)
  have p: "plain_text k'" "plain_text v'" "plain_members kvs" using Cons.prems by (auto simp: plain_members_def kv)
  show ?case
  proof (cases "k' = k")
    case True
    then show ?thesis using p by (auto simp: kv members_from_Cons json_field.simps Let_def)
  next
    case False
    then have "json_field k (members_from (kv # kvs)) = (if kvs = [] then Inr None else json_field k (members_from kvs))"
      using p by (simp add: kv members_from_Cons json_field.simps [of k "CHR 0x22 # _"] Let_def)
    then show ?thesis using Cons.IH [OF p(3) Cons.prems(2)] False by (cases "kvs = []") (auto simp: kv split: option.splits)
  qed
qed

subsection \<open>Setting a member\<close>

lemma close_members: "plain_members kvs \<Longrightarrow> json_close 1 (members_from kvs) = Some ''}''"
proof (induction kvs)
  case (Cons kv kvs)
  then show ?case by (cases kv) (auto simp: plain_members_def members_from_Cons)
qed simp

lemma slot_step:
  assumes "plain_text k'" "plain_text v'"
  shows "json_slot k ''}'' (members_from ((k', v') # kvs)) =
    (if k' = k then Inr (Some (dq v' @ (if kvs = [] then ''}'' else '','' @ members_from kvs),
        if kvs = [] then ''}'' else '','' @ members_from kvs))
     else if kvs = [] then Inr None else json_slot k ''}'' (members_from kvs))"
proof -
  have e: "json_slot k ''}'' ''}'' = Inr None" by (simp add: json_slot.simps)
  show ?thesis
    using assms e by (simp add: members_from_Cons json_slot.simps [of k "''}''" "CHR 0x22 # _"] Let_def dq_def)
qed

lemma slot_found:
  "plain_members kvs \<Longrightarrow> map_of kvs k = Some v \<Longrightarrow> \<exists>pre rest. members_from kvs = pre @ dq v @ rest \<and>
     json_slot k ''}'' (members_from kvs) = Inr (Some (dq v @ rest, rest)) \<and>
     (\<forall>w. members_from (AList.update k w kvs) = pre @ dq w @ rest)"
proof (induction kvs)
  case (Cons kv kvs)
  obtain k' v' where kv: "kv = (k', v')" by (cases kv)
  have p: "plain_text k'" "plain_text v'" "plain_members kvs" using Cons.prems by (auto simp: plain_members_def kv)
  show ?case
  proof (cases "k' = k")
    case True
    let ?rest = "if kvs = [] then ''}'' else CHR '','' # members_from kvs"
    have "members_from ((k, w) # kvs) = (dq k @ '':'') @ dq w @ ?rest" for w
      by (simp add: members_from_Cons dq_def)
    with True Cons.prems(2) show ?thesis
      unfolding kv slot_step [OF p(1,2)] by (intro exI [of _ "dq k @ '':''"] exI [of _ ?rest]) simp
  next
    case False
    with Cons.prems(2) have m: "map_of kvs k = Some v" "kvs \<noteq> []" by (auto simp: kv)
    from Cons.IH [OF p(3) m(1)] obtain pre rest where ih: "members_from kvs = pre @ dq v @ rest"
      "json_slot k ''}'' (members_from kvs) = Inr (Some (dq v @ rest, rest))"
      "\<And>w. members_from (AList.update k w kvs) = pre @ dq w @ rest" by blast
    have ne: "AList.update k w kvs \<noteq> []" for w by (cases kvs) auto
    show ?thesis
      unfolding kv slot_step [OF p(1,2)]
      using False m(2) ih ne
      by (intro exI [of _ "dq k' @ '':'' @ dq v' @ '','' @ pre"] exI [of _ rest])
        (simp add: members_from_Cons dq_def)
  qed
qed simp

lemma slot_absent: "plain_members kvs \<Longrightarrow> map_of kvs k = None \<Longrightarrow> json_slot k ''}'' (members_from kvs) = Inr None"
proof (induction kvs)
  case (Cons kv kvs)
  then show ?case by (cases kv) (auto simp: plain_members_def slot_step)
qed (simp add: json_slot.simps)

lemma update_absent: "map_of kvs k = None \<Longrightarrow> AList.update k w kvs = kvs @ [(k, w)]"
  by (induction kvs) (auto split: if_splits)

lemma members_app:
  "members_from kvs = ms @ ''}'' \<Longrightarrow>
     members_from (kvs @ [kv]) = ms @ (if kvs = [] then [] else '','') @ member_text kv @ ''}''"
proof (induction kvs arbitrary: ms rule: members_from.induct)
  case (3 kv1 kv2 kvs)
  obtain ms' where m: "members_from (kv2 # kvs) = ms' @ ''}''" using members_end by blast
  with 3(2) have "ms = member_text kv1 @ '','' @ ms'" by (simp add: members_from.simps)
  with 3(1) [OF m] show ?case by (simp add: members_from.simps)
qed (simp_all add: members_from.simps)

lemma put_members:
  assumes "plain_members kvs"
  shows "json_put (object_text kvs) k (dq w) = Inr (object_text (AList.update k w kvs))"
proof -
  have o: "object_text kvs = CHR ''{'' # members_from kvs" for kvs by (simp add: object_text_def join_members)
  have c: "json_close 0 (CHR ''{'' # members_from kvs) = Some ''}''" using close_members [OF assms] by simp
  show ?thesis
  proof (cases "map_of kvs k")
    case (Some v)
    from slot_found [OF assms Some] obtain pre rest where m: "members_from kvs = pre @ dq v @ rest"
      "json_slot k ''}'' (members_from kvs) = Inr (Some (dq v @ rest, rest))"
      "\<And>w. members_from (AList.update k w kvs) = pre @ dq w @ rest" by blast
    then show ?thesis using c by (simp add: json_put_def o span_def m(1))
  next
    case None
    obtain ms where m: "members_from kvs = ms @ ''}''" using members_end by blast
    have "list_all is_ws ms \<longleftrightarrow> kvs = []"
      using m by (cases kvs rule: as_items.cases) (auto simp: members_from_Cons Cons_eq_append_conv)
    then show ?thesis
      using c m slot_absent [OF assms None] members_app [OF m, of "(k, w)"]
      by (simp add: json_put_def o span_def update_absent [OF None] member_text_def)
  qed
qed

subsection \<open>Objects as maps\<close>

text \<open>C20 \<open>llJsonGetValue\<close> on an object text that \<open>llList2Json\<close> wrote from strings is lookup in the association list it was
  written from: the value of the first member with the key, or the sentinel for an invalid path when there is none. No key, value
  or the key looked up may contain a quote or a backslash, which the writer does not escape.\<close>

theorem json_get_lookup:
  assumes "plain_members kvs" "plain_text k"
  shows "bi_llJsonGetValue [bi_llList2Json [SString (sentinel (CHR 0xBD)), SList (as_items kvs)], SList [SString k]] =
    Inr (SString (case map_of kvs k of Some v \<Rightarrow> v | None \<Rightarrow> sentinel (CHR 0xB6)))"
proof -
  have "json_find_value (object_text kvs) [SString k] = json_field k (members_from kvs)"
    by (simp add: object_text_def join_members rbind_eq_Inr) (cases "json_field k (members_from kvs)"; auto split: option.split)
  then show ?thesis
    using field_members [OF assms]
    by (auto simp: list2json_object bi_llJsonGetValue_def path_arg_def as_str_def opt_str_def span_def
        json_extract_value_def Let_def split: option.splits)
qed

text \<open>C21 \<open>llJsonSetValue\<close> on such an object text is update of that association list, as text: the value of
  the key is replaced in place, or the member is added at the end. The keys and values of the object are free of quotes and
  backslashes; the new key and value are written as they are.\<close>

theorem json_set_update:
  assumes "plain_members kvs"
  shows "bi_llJsonSetValue [bi_llList2Json [SString (sentinel (CHR 0xBD)), SList (as_items kvs)],
      SList [SString k], SString w] =
    Inr (bi_llList2Json [SString (sentinel (CHR 0xBD)), SList (as_items (AList.update k w kvs))])"
  using put_members [OF assms, of k w]
  by (simp add: bi_llJsonSetValue_def list2json_object json_obj_set_top_def as_str_def opt_str_def)

subsection \<open>Arrays\<close>

fun plain_item :: "svalue \<Rightarrow> bool" where
  "plain_item (SString s) = plain_text s"
| "plain_item (SInt i) = True"
| "plain_item v = False"

lemma list2json_array:
  "bi_llList2Json [SString (sentinel (CHR 0xBC)), SList xs] = SString (''['' @ str_join '','' (map json_value_text xs) @ '']'')"
  by (simp add: bi_llList2Json_def path_arg_def as_str_def opt_str_def has_substr_def sentinel_def)

text \<open>A bare value: no character of it ends a scalar, is white space or opens something.\<close>

definition bare_text :: "string \<Rightarrow> bool" where
  "bare_text t \<longleftrightarrow> t \<noteq> [] \<and> list_all (\<lambda>c. \<not> ends_scalar c \<and> \<not> is_ws c \<and> c \<noteq> CHR 0x22 \<and> c \<noteq> CHR ''{'' \<and> c \<noteq> CHR ''['') t"

lemma show_ll_bare: "bare_text (show_ll i)"
proof -
  have "c = CHR ''-'' \<or> isdigit c" if "c \<in> set (show_ll i)" for c
    using that show_nat_isdigit by (auto simp: show_ll_def show_int_def split: if_splits)
  moreover have "\<not> ends_scalar c \<and> \<not> is_ws c \<and> c \<noteq> CHR 0x22 \<and> c \<noteq> CHR ''{'' \<and> c \<noteq> CHR ''[''"
    if "c = CHR ''-'' \<or> isdigit c" for c
    using that by (auto simp: ends_scalar_def is_ws_def isdigit_def ord_char_def)
  ultimately show ?thesis by (auto simp: bare_text_def list_all_iff show_ll_def show_int_def)
qed

lemma walk_bare:
  assumes "bare_text t" "ends_scalar c"
  shows "json_walk (t @ c # p) = c # p"
proof -
  obtain d u where t: "t = d # u" using assms(1) by (cases t) (auto simp: bare_text_def)
  have "dropWhile (\<lambda>x. \<not> ends_scalar x) (t @ c # p) = c # p"
    using assms by (subst dropWhile_append2) (auto simp: bare_text_def list_all_iff)
  with assms(1) show ?thesis by (simp add: json_walk_def t bare_text_def)
qed

lemma extract_bare: "bare_text t \<Longrightarrow> json_extract_value t = t"
proof -
  assume b: "bare_text t"
  then have d: "dropWhile is_ws t = t" "dropWhile is_ws (rev t) = rev t" "hd t \<noteq> CHR 0x22"
    by (auto simp: bare_text_def list_all_iff dropWhile_eq_self_iff hd_rev)
  then show ?thesis by (simp add: json_extract_value_def Let_def)
qed

lemma extract_dq: "json_extract_value (dq s) = s"
  by (simp add: json_extract_value_def Let_def dq_def butlast_append)

text \<open>One item: where it starts, where it ends, what is extracted.\<close>

lemma item_walk:
  assumes "plain_item v" "ends_scalar c"
  shows "json_skip_ws (json_value_text v @ c # p) = json_value_text v @ c # p"
    and "json_walk (json_value_text v @ c # p) = c # p"
    and "json_extract_value (json_value_text v) = sv_to_string v"
    and "json_value_text v \<noteq> []" "hd (json_value_text v) \<noteq> CHR '']'' \<and> hd (json_value_text v) \<noteq> CHR ''}''"
proof -
  have "\<exists>d u. json_value_text v = d # u \<and> \<not> is_ws d \<and> d \<noteq> CHR '']'' \<and> d \<noteq> CHR ''}'' \<and>
      json_walk (json_value_text v @ c # p) = c # p \<and> json_extract_value (json_value_text v) = sv_to_string v"
  proof (cases v)
    case (SInt i)
    obtain d u where t: "show_ll i = d # u" using show_ll_bare [of i] by (cases "show_ll i") (auto simp: bare_text_def)
    with show_ll_bare [of i] have "\<not> is_ws d \<and> \<not> ends_scalar d" by (simp add: bare_text_def)
    with walk_bare [OF show_ll_bare assms(2), of i] extract_bare [OF show_ll_bare, of i] show ?thesis
      unfolding SInt by (intro exI [of _ d] exI [of _ u]) (auto simp: json_value_text_def ends_scalar_def t)
  next
    case (SString s)
    with assms(1) extract_dq [of s] show ?thesis by (simp add: json_value_text_def dq_def)
  qed (use assms(1) in auto)
  then show "json_skip_ws (json_value_text v @ c # p) = json_value_text v @ c # p"
    "json_walk (json_value_text v @ c # p) = c # p" "json_extract_value (json_value_text v) = sv_to_string v"
    "json_value_text v \<noteq> []" "hd (json_value_text v) \<noteq> CHR '']'' \<and> hd (json_value_text v) \<noteq> CHR ''}''"
    by auto
qed

lemma items_step:
  assumes "plain_item v" "ends_scalar c" "\<not> is_ws c"
  shows "json_items False (json_value_text v @ c # p) =
    rbind (json_items False (if c = CHR '','' then p else c # p)) (\<lambda>xs. Inr (SString (sv_to_string v) # xs))"
  using item_walk [OF assms(1,2)] assms(3)
  by (simp add: json_items.simps [of False "json_value_text v @ c # p"] item_key_def Let_def span_def)

lemma items_array:
  "list_all plain_item xs \<Longrightarrow>
     json_items False (str_join '','' (map json_value_text xs) @ '']'') = Inr (map (SString \<circ> sv_to_string) xs)"
proof (induction xs rule: induct_list012)
  case 1
  show ?case by (simp add: str_join_def json_items.simps)
next
  case (2 v)
  have "json_items False '']'' = Inr []" by (simp add: json_items.simps)
  with 2 items_step [of v "CHR '']''" "[]"] show ?case by (simp add: str_join_def ends_scalar_def)
next
  case (3 v w xs)
  let ?t = "str_join '','' (map json_value_text (w # xs)) @ '']''"
  have j: "str_join '','' (map json_value_text (v # w # xs)) @ '']'' = json_value_text v @ CHR '','' # ?t"
    by (simp add: str_join_def)
  have "json_items False ?t = Inr (map (SString \<circ> sv_to_string) (w # xs))" using 3 by simp
  then show ?case
    unfolding j using 3(3) items_step [of v "CHR '',''" ?t] by (simp add: ends_scalar_def)
qed

text \<open>C35 \<open>llJson2List\<close> of an array written by \<open>llList2Json\<close> from integers and from strings without quotes and backslashes gives
  back the texts of the elements, in order.\<close>

theorem json_array_roundtrip:
  assumes "list_all plain_item xs"
  shows "bi_llJson2List [bi_llList2Json [SString (sentinel (CHR 0xBC)), SList xs]] =
    Inr (SList (map (SString \<circ> sv_to_string) xs))"
  using items_array [OF assms]
  by (simp add: list2json_array bi_llJson2List_def as_str_def opt_str_def)

end
