(* ===== verification/Commands.thy ===== *)
theory Commands
  imports BuiltinsWorld
begin

text \<open>
  \<open>commands.c\<close>: the commands that play the avatars and the world, one line each, consumed by the main
  loop when no script has anything to do, and the assertions of a test file.

  A missing word is printed as \<open>(null)\<close>, as the C libraries in use do with a null pointer.
\<close>

subsection \<open>Loading\<close>

text \<open>Blank lines and comments are dropped, trailing blanks cut off; what is left is appended.\<close>

definition command_line :: "string \<Rightarrow> string option" where
  "command_line p = (let l = trim_line (first_line p); q = dropWhile is_blank l in
     if q \<noteq> [] \<and> hd q \<noteq> CHR ''#'' then Some l else None)"

definition commands_load :: "string option \<Rightarrow> region \<Rightarrow> int \<times> region" where
  "commands_load buf r = (case buf of
     None \<Rightarrow> (- 1, r)
   | Some txt \<Rightarrow> (let ls = List.map_filter command_line (line_starts True (cstr txt)) in
       (int (length ls), r\<lparr>command_lines := command_lines r @ ls, next_command := 0\<rparr>)))"

subsection \<open>The chat log\<close>

definition any_channel :: int where
  \<comment> \<open>\<open>INT_MAX_SENTINEL\<close>\<close>
  "any_channel = - 2147483647"

definition chatlog_alias :: "string option \<Rightarrow> string" where
  "chatlog_alias k = (case k of None \<Rightarrow> []
     | Some k \<Rightarrow>
       if k = ''owner-say'' \<or> k = ''owner_say'' then ''owner''
       else if k = ''region-say'' \<or> k = ''region_say'' then ''region''
       else if k = ''region-say-to'' \<or> k = ''region-to'' then ''region-to''
       else if k = ''instant-message'' \<or> k = ''instant_message'' \<or> k = ''im'' then ''im''
       else k)"

definition chatlog_matches :: "string option \<Rightarrow> int \<Rightarrow> string \<Rightarrow> region \<Rightarrow> bool" where
  "chatlog_matches kind ch substr r = (let want = chatlog_alias kind in
     list_ex (\<lambda>c. (want = [] \<or> ch_kind c = want) \<and> (ch = any_channel \<or> ch_ch c = ch) \<and>
       (substr = [] \<or> has_substr (ch_msg c) substr)) (chat_log r))"

subsection \<open>Helpers\<close>

definition next_tok :: "string \<Rightarrow> string option \<times> string" where
  "next_tok p = next_word p"

definition rest_of_line :: "string \<Rightarrow> string" where
  "rest_of_line p = rest_of p"

definition script_by_link :: "region \<Rightarrow> int \<Rightarrow> nat option" where
  "script_by_link r lk = find_index (\<lambda>s. link_num s = lk) (scripts r)"

definition script_by_uuid :: "region \<Rightarrow> string \<Rightarrow> nat option" where
  "script_by_uuid r u = find_index (\<lambda>s. uuid s = u) (scripts r)"

text \<open>The avatar that acts becomes the only detected one.\<close>

definition push_detected :: "nat \<Rightarrow> string \<Rightarrow> string \<Rightarrow> int \<Rightarrow> region \<Rightarrow> region" where
  "push_detected i u nm face = upd_script i (\<lambda>s. s\<lparr>detected :=
     [\<lparr>dt_key = u, dt_name = nm, dt_owner = u, dt_pos = SVector d_zero d_zero d_zero, dt_link = 0,
       dt_type = 1, dt_face = face\<rparr>]\<rparr>)"

definition push_touches :: "nat \<Rightarrow> string list \<Rightarrow> region \<Rightarrow> region" where
  "push_touches i nms r = fold (\<lambda>nm. script_push_event i nm [SInt 1]) nms r"

definition int_or :: "int \<Rightarrow> string option \<Rightarrow> int" where
  "int_or d t = (case t of Some s \<Rightarrow> atoi s | None \<Rightarrow> d)"

definition str_or :: "string \<Rightarrow> string option \<Rightarrow> string" where
  "str_or d t = (case t of Some s \<Rightarrow> s | None \<Rightarrow> d)"

definition first_avatar :: "string \<Rightarrow> region \<Rightarrow> string" where
  "first_avatar d r = (case avatars r of [] \<Rightarrow> d | a # as \<Rightarrow> av_uuid a)"

definition first_avatar_name :: "string \<Rightarrow> region \<Rightarrow> string" where
  "first_avatar_name d r = (case avatars r of [] \<Rightarrow> d | a # as \<Rightarrow> av_name a)"

subsection \<open>Commands\<close>

definition cmd_wait :: "string \<Rightarrow> region \<Rightarrow> region" where
  "cmd_wait p r = (let s = (case fst (next_tok p) of Some t \<Rightarrow> strtod t | None \<Rightarrow> d_zero) in
     evt_info (''wait '' @ show_fixed 3 s @ ''s'') (r\<lparr>virtual_offset := d_add (virtual_offset r) s\<rparr>))"

definition cmd_exit :: "region \<Rightarrow> region" where
  "cmd_exit r = r\<lparr>n_steps := max_steps r + 1\<rparr>"

definition cmd_touch :: "string \<Rightarrow> region \<Rightarrow> region" where
  "cmd_touch p r = (let lk = int_or 1 (fst (next_tok p)) in
     case script_by_link r lk of None \<Rightarrow> r
     | Some i \<Rightarrow> (let nm = first_avatar_name ''Avatar'' r in
         evt_info (''TOUCH link='' @ show_int lk @ '' by '' @ nm)
           (push_touches i [''touch_start'', ''touch'', ''touch_end'']
             (push_detected i (first_avatar ''anon'' r) nm (- 1) r))))"

definition cmd_touch_face :: "string \<Rightarrow> region \<Rightarrow> region" where
  "cmd_touch_face p r = (case next_tok p of (l, p1) \<Rightarrow>
     (let lk = int_or 1 l; face = int_or 0 (fst (next_tok p1)) in
      case script_by_link r lk of None \<Rightarrow> r
      | Some i \<Rightarrow> evt_info (''TOUCH link='' @ show_int lk @ '' face='' @ show_int face)
          (push_touches i [''touch_start'', ''touch_end'']
            (push_detected i (first_avatar ''anon'' r) (first_avatar_name ''Avatar'' r) face r))))"

definition cmd_touch_as :: "string \<Rightarrow> region \<Rightarrow> region" where
  "cmd_touch_as p r = (case next_tok p of (l, p1) \<Rightarrow>
     (let lk = int_or 1 l in
      case (script_by_link r lk, fst (next_tok p1)) of
        (Some i, Some who) \<Rightarrow>
          (let nm = (case region_find_avatar r (Some who) of Some a \<Rightarrow> av_name a | None \<Rightarrow> ''Avatar'') in
           evt_info (''TOUCH_AS link='' @ show_int lk @ '' by '' @ who)
             (push_touches i [''touch_start'', ''touch_end''] (push_detected i who nm (- 1) r)))
      | _ \<Rightarrow> r))"

text \<open>The speaker of \<open>LISTEN\<close>: looked up by key, then by name; \<open>*\<close> stands for the first avatar.\<close>

definition find_speaker :: "string \<Rightarrow> region \<Rightarrow> avatar option" where
  "find_speaker who r = (case region_find_avatar r (Some who) of Some a \<Rightarrow> Some a
     | None \<Rightarrow> (case find (\<lambda>a. av_name a = who) (avatars r) of Some a \<Rightarrow> Some a
       | None \<Rightarrow> if who = ''*'' \<and> avatars r \<noteq> [] then Some (hd (avatars r)) else None))"

definition cmd_listen :: "string \<Rightarrow> region \<Rightarrow> region" where
  "cmd_listen p r = (case next_tok p of (cs, p1) \<Rightarrow> case next_tok p1 of (who, p2) \<Rightarrow>
     (let ch = int_or 0 cs; msg = rest_of_line p2;
          av = (case who of None \<Rightarrow> None | Some w \<Rightarrow> find_speaker w r);
          u = (case av of Some a \<Rightarrow> av_uuid a | None \<Rightarrow> null_key);
          nm = (case av of Some a \<Rightarrow> av_name a | None \<Rightarrow> str_or ''speaker'' who)
      in evt_info (''LISTEN ch='' @ show_int ch @ '' from='' @ nm @ '' msg='' @ msg)
           (route_listen ch nm u msg r)))"

definition cmd_im :: "string \<Rightarrow> region \<Rightarrow> region" where
  "cmd_im p r = (case next_tok p of (who, p1) \<Rightarrow>
     evt_info (''IM from='' @ str_or ''(null)'' who @ '' msg='' @ rest_of_line p1) r)"

text \<open>\<open>DIALOG_REPLY\<close> and \<open>TEXTBOX_REPLY\<close> differ in the words of the report.\<close>

definition cmd_reply :: "string \<Rightarrow> string \<Rightarrow> string \<Rightarrow> region \<Rightarrow> region" where
  "cmd_reply tag lbl p r = (case next_tok p of (who, p1) \<Rightarrow>
     case (case who of None \<Rightarrow> None | Some w \<Rightarrow> dialog_find r w) of
       None \<Rightarrow> evt_info (tag @ '': no open dialog for '' @ str_or ''?'' who) r
     | Some d \<Rightarrow>
         (let w = str_or [] who; txt = rest_of_line p1;
              nm = (case region_find_avatar r (Some w) of Some a \<Rightarrow> av_name a | None \<Rightarrow> ''Avatar'');
              r1 = (case script_by_uuid r (d_script d) of None \<Rightarrow> r
                | Some t \<Rightarrow> push_listens (on_channel (d_channel d)) (listen_args (d_channel d) nm w txt) t r)
          in dialog_close w (evt_info (tag @ '' by='' @ w @ '' '' @ lbl @ ''='' @ txt) r1)))"

definition cmd_money_from :: "string \<Rightarrow> region \<Rightarrow> region" where
  "cmd_money_from p r = (case next_tok p of (who, p1) \<Rightarrow>
     (let amt = (case fst (next_tok p1) of Some t \<Rightarrow> strtoll 10 t | None \<Rightarrow> 0) in
      case who of None \<Rightarrow> r
      | Some w \<Rightarrow> (case find_avatar_idx r w of None \<Rightarrow> r
        | Some k \<Rightarrow>
            if sint (balance (avatars r ! k)) < sint amt then
              evt_info (''MONEY_FROM: '' @ w @ '' insufficient balance L$'' @
                show_ll (balance (avatars r ! k)) @ ''<L$'' @ show_ll amt) r
            else
              (let r1 = upd_avatar 0 (\<lambda>a. a\<lparr>balance := balance a + amt\<rparr>)
                     (upd_avatar k (\<lambda>a. a\<lparr>balance := balance a - amt\<rparr>) r);
                   r2 = (if scripts r = [] then r1 else script_push_event 0 ''money'' [SKey w, SInt amt] r1)
               in evt_money w (first_avatar ''owner'' r2) amt True r2))))"

definition cmd_http_in :: "string \<Rightarrow> region \<Rightarrow> region" where
  "cmd_http_in p r = (case next_tok p of (url, p1) \<Rightarrow> case next_tok p1 of (meth, p2) \<Rightarrow>
     (let body = rest_of_line p2 in
      case inbound_resolve r (str_or [] url) of
        None \<Rightarrow> evt_info (''HTTP_IN: no script listening on '' @ str_or ''?'' url) r
      | Some t \<Rightarrow> (case gen_uuid r of (req, r1) \<Rightarrow>
          evt_info (''HTTP_IN url='' @ str_or ''?'' url @ '' method='' @ str_or ''GET'' meth @ '' body='' @
              show_nat (length body) @ '' bytes'')
            (script_push_event t ''http_request'' [SKey req, SString (str_or ''GET'' meth), SString body] r1))))"

definition cmd_attach :: "string \<Rightarrow> region \<Rightarrow> region" where
  "cmd_attach p r = (case next_tok p of (who, p1) \<Rightarrow>
     (let point = int_or 1 (fst (next_tok p1)) in
      if scripts r = [] then r
      else
        (let r1 = evt_info (''ATTACH to='' @ str_or ''(null)'' who @ '' point='' @ show_int point)
               (script_push_event 0 ''attach'' [SKey (str_or null_key who)] r)
         in case who of None \<Rightarrow> r1
            | Some w \<Rightarrow> (case find_avatar_idx r1 w of None \<Rightarrow> r1
              | Some k \<Rightarrow> upd_avatar k (\<lambda>a. a\<lparr>attached_object := Some (uuid (script_at r 0))\<rparr>) r1))))"

definition cmd_detach :: "region \<Rightarrow> region" where
  "cmd_detach r = (if scripts r = [] then r
     else evt_info ''DETACH'' (script_push_event 0 ''attach'' [SKey null_key] r))"

text \<open>\<open>ON_REZ\<close> and \<open>CHANGED\<close>: an event with one integer for every script.\<close>

definition cmd_all :: "string \<Rightarrow> string \<Rightarrow> string \<Rightarrow> region \<Rightarrow> region" where
  "cmd_all tag nm p r = (let k = int_or 0 (fst (next_tok p)) in
     evt_info (tag @ '' '' @ show_int k) (region_broadcast_event nm [int_value k] r))"

subsection \<open>Assertions\<close>

definition cmd_assert_balance :: "string \<Rightarrow> region \<Rightarrow> region" where
  "cmd_assert_balance p r = (case next_tok p of (who, p1) \<Rightarrow>
     (let want = (case fst (next_tok p1) of Some t \<Rightarrow> strtoll 10 t | None \<Rightarrow> 0) in
      case (case who of None \<Rightarrow> None | Some w \<Rightarrow> region_find_avatar r (Some w)) of
        None \<Rightarrow> evt_assertion ''balance'' False (take 127 (str_or ''?'' who @ '' not in region'')) r
      | Some a \<Rightarrow> if balance a \<noteq> want then
          evt_assertion ''balance'' False (take 127 (str_or [] who @ '' balance '' @ show_ll (balance a) @
            '' != '' @ show_ll want)) r
        else evt_assertion ''balance'' True (take 127 (str_or [] who @ '' balance == '' @ show_ll want)) r))"

definition cmd_assert_hud :: "string \<Rightarrow> region \<Rightarrow> region" where
  "cmd_assert_hud p r = (case next_tok p of (l, p1) \<Rightarrow>
     (let lk = int_or 1 l; want = rest_of_line p1;
          txt = (case script_by_link r lk of None \<Rightarrow> None | Some i \<Rightarrow> hud_text (hud (script_at r i)));
          ok = (case txt of None \<Rightarrow> False | Some t \<Rightarrow> has_substr t want)
      in evt_assertion ''hud'' ok (take 255 (''link='' @ show_int lk @ '' want='' @ dq want @ '' got='' @
           dq (opt_str txt))) r))"

definition cmd_assert_said :: "string \<Rightarrow> region \<Rightarrow> region" where
  "cmd_assert_said p r = (case next_tok p of (kind, p1) \<Rightarrow> case next_tok p1 of (cs, p2) \<Rightarrow>
     (let ch = int_or any_channel cs; substr = rest_of_line p2 in
      evt_assertion ''said'' (chatlog_matches kind ch substr r)
        (take 255 (''kind='' @ str_or ''*'' kind @ '' ch='' @ show_int ch @ '' substr='' @ dq substr)) r))"

definition cmd_assert_dialog :: "string \<Rightarrow> region \<Rightarrow> region" where
  "cmd_assert_dialog p r = (let who = fst (next_tok p) in
     evt_assertion ''dialog_open''
       (case who of None \<Rightarrow> False | Some w \<Rightarrow> dialog_find r w \<noteq> None) (str_or ''?'' who) r)"

subsection \<open>The pump\<close>

definition run_command :: "string \<Rightarrow> string \<Rightarrow> region \<Rightarrow> region" where
  "run_command cmd p r =
    (if cmd = ''WAIT'' then cmd_wait p r
     else if cmd = ''ECHO'' then evt_info (rest_of_line p) r
     else if cmd = ''SNAPSHOT'' then snapshot_dump r
     else if cmd = ''EXIT'' then cmd_exit r
     else if cmd = ''TOUCH'' then cmd_touch p r
     else if cmd = ''TOUCH_FACE'' then cmd_touch_face p r
     else if cmd = ''TOUCH_AS'' then cmd_touch_as p r
     else if cmd = ''LISTEN'' then cmd_listen p r
     else if cmd = ''IM'' then cmd_im p r
     else if cmd = ''DIALOG_REPLY'' then cmd_reply ''DIALOG_REPLY'' ''button'' p r
     else if cmd = ''TEXTBOX_REPLY'' then cmd_reply ''TEXTBOX_REPLY'' ''txt'' p r
     else if cmd = ''MONEY_FROM'' then cmd_money_from p r
     else if cmd = ''HTTP_IN'' then cmd_http_in p r
     else if cmd = ''ATTACH'' then cmd_attach p r
     else if cmd = ''DETACH'' then cmd_detach r
     else if cmd = ''ON_REZ'' then cmd_all ''ON_REZ'' ''on_rez'' p r
     else if cmd = ''CHANGED'' then cmd_all ''CHANGED'' ''changed'' p r
     else if cmd = ''ASSERT_BALANCE'' then cmd_assert_balance p r
     else if cmd = ''ASSERT_HUD'' then cmd_assert_hud p r
     else if cmd = ''ASSERT_SAID'' then cmd_assert_said p r
     else if cmd = ''ASSERT_DIALOG_OPEN'' then cmd_assert_dialog p r
     else evt_info (''unknown command: '' @ cmd) r)"

definition commands_pump :: "region \<Rightarrow> bool \<times> region" where
  "commands_pump r = (if length (command_lines r) \<le> next_command r then (False, r)
     else
       (let line = command_lines r ! next_command r; r1 = r\<lparr>next_command := Suc (next_command r)\<rparr> in
        case next_tok line of (None, p) \<Rightarrow> (True, r1) | (Some cmd, p) \<Rightarrow> (True, run_command cmd p r1)))"

end
