(* ===== verification/Stubs.thy ===== *)
theory Stubs
  imports BuiltinsWorld VmFuel
begin

text \<open>
  The shapes of a library function, and the functions of \<open>builtins.c\<close> that only stand in for the
  simulator's: they ignore their arguments and return a constant; some report the call as an event
  first. They come as tables, in the order of the file.
\<close>

subsection \<open>Shapes of library functions\<close>

definition pure_bi :: "(svalue list \<Rightarrow> svalue) \<Rightarrow> builtin" where
  "pure_bi f ev i a r = Inr (f a, r)"

definition partial_bi :: "(svalue list \<Rightarrow> svalue res) \<Rightarrow> builtin" where
  "partial_bi f ev i a r = rbind (f a) (\<lambda>v. Inr (v, r))"

definition read_bi :: "(nat \<Rightarrow> svalue list \<Rightarrow> region \<Rightarrow> svalue) \<Rightarrow> builtin" where
  "read_bi f ev i a r = Inr (f i a r, r)"

definition step_bi :: "(nat \<Rightarrow> svalue list \<Rightarrow> region \<Rightarrow> svalue \<times> region) \<Rightarrow> builtin" where
  "step_bi f ev i a r = Inr (f i a r)"

subsection \<open>Stubs\<close>

definition stub :: "svalue \<Rightarrow> builtin" where
  "stub v = pure_bi (\<lambda>a. v)"

definition stub_prim_set :: "string \<Rightarrow> svalue \<Rightarrow> builtin" where
  "stub_prim_set nm v = step_bi (\<lambda>i a r. (v, evt_prim_set i nm r))"

definition stub_agent_data :: "string \<Rightarrow> svalue \<Rightarrow> builtin" where
  "stub_agent_data nm v = step_bi (\<lambda>i a r. (v, evt_agent_data_request i (as_str a 0) nm r))"

definition stub_rez :: builtin where
  "stub_rez = step_bi (\<lambda>i a r. (SVoid, evt_rez i (as_str a 0) r))"

definition stubs_1 :: "(string \<times> builtin) list" where
  "stubs_1 =
    [(''llAddToLandBanList'', stub SVoid), (''llAddToLandPassList'', stub SVoid),
     (''llAgentInExperience'', stub (SInt 0)), (''llAngleBetween'', stub (SFloat d_zero)),
     (''llApplyImpulse'', stub SVoid), (''llApplyRotationalImpulse'', stub SVoid),
     (''llAttachToAvatar'', stub SVoid), (''llAttachToAvatarTemp'', stub SVoid),
     (''llAvatarOnLinkSitTarget'', stub (SKey null_key)), (''llAvatarOnSitTarget'', stub (SKey null_key)),
     (''llAxes2Rot'', stub (sv_zero SV_ROTATION)), (''llAxisAngle2Rot'', stub (sv_zero SV_ROTATION)),
     (''llBreakAllLinks'', stub SVoid), (''llBreakLink'', stub SVoid), (''llCastRay'', stub (SList [])),
     (''llCharacterUpdate'', stub SVoid), (''llClearCameraParams'', stub SVoid),
     (''llClearLinkMedia'', stub (SInt 0)), (''llClearPrimMedia'', stub (SInt 0)),
     (''llCloseRemoteDataChannel'', stub SVoid), (''llCloud'', stub (SFloat d_zero)),
     (''llCollisionFilter'', stub SVoid), (''llCollisionSound'', stub SVoid),
     (''llCollisionSprite'', stub SVoid), (''llComputeHash'', stub (SString [])),
     (''llCreateCharacter'', stub SVoid), (''llCreateKeyValue'', stub (SKey null_key)),
     (''llCreateLink'', stub SVoid), (''llDamageEvent'', stub SVoid),
     (''llDataSizeKeyValue'', stub (SKey null_key)), (''llDeleteCharacter'', stub SVoid),
     (''llDeleteKeyValue'', stub (SKey null_key)), (''llDetachFromAvatar'', stub SVoid),
     (''llDetectedGrab'', stub (sv_zero SV_VECTOR)), (''llDetectedGroup'', stub (SInt 0)),
     (''llDetectedRot'', stub (sv_zero SV_ROTATION)),
     (''llDetectedTouchBinormal'', stub (sv_zero SV_VECTOR))]"

definition stubs_2 :: "(string \<times> builtin) list" where
  "stubs_2 =
    [(''llDetectedTouchFace'', stub (SInt 0)), (''llDetectedTouchNormal'', stub (sv_zero SV_VECTOR)),
     (''llDetectedTouchPos'', stub (sv_zero SV_VECTOR)), (''llDetectedTouchST'', stub (sv_zero SV_VECTOR)),
     (''llDetectedTouchUV'', stub (sv_zero SV_VECTOR)), (''llDetectedVel'', stub (sv_zero SV_VECTOR)),
     (''llEmail'', stub SVoid), (''llEuler2Rot'', stub (sv_zero SV_ROTATION)), (''llEvade'', stub SVoid),
     (''llExecCharacterCmd'', stub SVoid), (''llFleeFrom'', stub SVoid), (''llForceMouselook'', stub SVoid),
     (''llGenerateKey'', stub (SKey null_key)), (''llGetAccel'', stub (sv_zero SV_VECTOR)),
     (''llGetAgentInfo'', stub (SInt 0)), (''llGetAgentLanguage'', stub (SString [])),
     (''llGetAgentList'', stub (SList [])), (''llGetAgentSize'', stub (sv_zero SV_VECTOR)),
     (''llGetAlpha'', stub (SFloat d_zero)), (''llGetAndResetTime'', stub (SFloat d_zero)),
     (''llGetAnimation'', stub (SString [])), (''llGetAnimationList'', stub (SList [])),
     (''llGetAnimationOverride'', stub (SString [])), (''llGetAttachedList'', stub (SList [])),
     (''llGetAttachedListFiltered'', stub (SList [])), (''llGetBoundingBox'', stub (SList [])),
     (''llGetCameraPos'', stub (sv_zero SV_VECTOR)), (''llGetCameraRot'', stub (sv_zero SV_ROTATION)),
     (''llGetCenterOfMass'', stub (sv_zero SV_VECTOR)), (''llGetClosestNavPoint'', stub (SList [])),
     (''llGetColor'', stub (sv_zero SV_VECTOR)), (''llGetEnergy'', stub (SFloat d_zero)),
     (''llGetEnv'', stub (SString [])), (''llGetEventTimer'', stub (SFloat d_zero)),
     (''llGetExperienceDetails'', stub (SList [])), (''llGetExperienceErrorMessage'', stub (SString [])),
     (''llGetForce'', stub (sv_zero SV_VECTOR))]"

definition stubs_3 :: "(string \<times> builtin) list" where
  "stubs_3 =
    [(''llGetFreeURLs'', stub (SInt 0)), (''llGetGMTclock'', stub (SFloat d_zero)),
     (''llGetGeometricCenter'', stub (sv_zero SV_VECTOR)), (''llGetHTTPHeader'', stub (SString [])),
     (''llGetHealth'', stub (SFloat d_zero)), (''llGetInventoryCreator'', stub (SKey null_key)),
     (''llGetInventoryDesc'', stub (SString [])), (''llGetInventoryKey'', stub (SKey null_key)),
     (''llGetInventoryName'', stub (SString [])), (''llGetInventoryNumber'', stub (SInt 0)),
     (''llGetInventoryPermMask'', stub (SInt 0)), (''llGetInventoryType'', stub (SInt 0)),
     (''llGetLinkMedia'', stub (SList [])), (''llGetLinkPrimitiveParams'', stub (SList [])),
     (''llGetLocalPos'', stub (sv_zero SV_VECTOR)), (''llGetLocalRot'', stub (sv_zero SV_ROTATION)),
     (''llGetMass'', stub (SFloat d_zero)), (''llGetMassMKS'', stub (SFloat d_zero)),
     (''llGetMoonDirection'', stub (sv_zero SV_VECTOR)), (''llGetMoonRotation'', stub (sv_zero SV_ROTATION)),
     (''llGetNextEmail'', stub SVoid), (''llGetNotecardLine'', stub (SKey null_key)),
     (''llGetNotecardLineSync'', stub (SString [])), (''llGetNumberOfNotecardLines'', stub (SKey null_key)),
     (''llGetObjectDetails'', stub (SList [])), (''llGetObjectPermMask'', stub (SInt 0)),
     (''llGetObjectPrimCount'', stub (SInt 0)), (''llGetObjectVelocity'', stub (sv_zero SV_VECTOR)),
     (''llGetOmega'', stub (sv_zero SV_VECTOR)), (''llGetOwnerKey'', stub (SKey null_key)),
     (''llGetParcelDetails'', stub (SList [])), (''llGetParcelFlags'', stub (SInt 0)),
     (''llGetParcelMaxPrims'', stub (SInt 0)), (''llGetParcelMusicURL'', stub (SString [])),
     (''llGetParcelPrimCount'', stub (SInt 0)), (''llGetParcelPrimOwners'', stub (SList [])),
     (''llGetPhysicsMaterial'', stub (SList []))]"

definition stubs_4 :: "(string \<times> builtin) list" where
  "stubs_4 =
    [(''llGetPrimMediaParams'', stub (SList [])), (''llGetPrimitiveParams'', stub (SList [])),
     (''llGetRegionAgentCount'', stub (SInt 0)), (''llGetRegionCorner'', stub (sv_zero SV_VECTOR)),
     (''llGetRegionFPS'', stub (SFloat d_zero)), (''llGetRegionFlags'', stub (SInt 0)),
     (''llGetRegionTimeDilation'', stub (SFloat d_zero)), (''llGetRootPosition'', stub (sv_zero SV_VECTOR)),
     (''llGetRootRotation'', stub (sv_zero SV_ROTATION)), (''llGetSPMaxMemory'', stub (SInt 0)),
     (''llGetScriptState'', stub (SInt 0)), (''llGetSimStats'', stub (SFloat d_zero)),
     (''llGetSimulatorHostname'', stub (SString [])), (''llGetStartParameter'', stub (SInt 0)),
     (''llGetStartString'', stub (SString [])), (''llGetStatus'', stub (SInt 0)),
     (''llGetSunDirection'', stub (sv_zero SV_VECTOR)), (''llGetTexture'', stub (SString [])),
     (''llGetTextureOffset'', stub (sv_zero SV_VECTOR)), (''llGetTextureRot'', stub (SFloat d_zero)),
     (''llGetTextureScale'', stub (sv_zero SV_VECTOR)), (''llGetTimeOfDay'', stub (SFloat d_zero)),
     (''llGetTorque'', stub (sv_zero SV_VECTOR)), (''llGetVel'', stub (sv_zero SV_VECTOR)),
     (''llGiveInventory'', stub SVoid), (''llGiveInventoryList'', stub SVoid),
     (''llGround'', stub (SFloat d_zero)), (''llGroundNormal'', stub (sv_zero SV_VECTOR)),
     (''llGroundSlope'', stub (sv_zero SV_VECTOR)), (''llKeysKeyValue'', stub (SKey null_key)),
     (''llLinkParticleSystem'', stub SVoid), (''llLinkSitTarget'', stub SVoid),
     (''llLinksetDataCountFound'', stub (SInt 0)), (''llLinksetDataDeleteKey'', stub (SInt 0)),
     (''llLinksetDataDeleteProtected'', stub (SInt 0)), (''llLinksetDataFindKeys'', stub (SList [])),
     (''llLinksetDataReadProtected'', stub (SString []))]"

definition stubs_5 :: "(string \<times> builtin) list" where
  "stubs_5 =
    [(''llLinksetDataUsed'', stub (SInt 0)), (''llLinksetDataWriteProtected'', stub (SInt 0)),
     (''llList2ListStrided'', stub (SList [])), (''llListFindListNext'', stub (SInt 0)),
     (''llListStatistics'', stub (SFloat d_zero)), (''llLookAt'', stub SVoid), (''llLoopSound'', stub SVoid),
     (''llLoopSoundMaster'', stub SVoid), (''llLoopSoundSlave'', stub SVoid),
     (''llManageEstateAccess'', stub (SInt 0)), (''llMapDestination'', stub SVoid),
     (''llMax'', stub (SFloat d_zero)), (''llMin'', stub (SFloat d_zero)), (''llModPow'', stub (SInt 0)),
     (''llMoveToTarget'', stub SVoid), (''llName2Key'', stub (SKey null_key)),
     (''llNavigateTo'', stub SVoid), (''llOffsetTexture'', stub SVoid),
     (''llOpenRemoteDataChannel'', stub SVoid), (''llParticleSystem'', stub SVoid),
     (''llPatrolPoints'', stub SVoid), (''llPlaySound'', stub SVoid), (''llPreloadSound'', stub SVoid),
     (''llPursue'', stub SVoid), (''llPushObject'', stub SVoid), (''llReadKeyValue'', stub (SKey null_key)),
     (''llRefreshPrimURL'', stub SVoid), (''llReleaseControls'', stub SVoid),
     (''llRemoteDataReply'', stub SVoid), (''llRemoteDataSetRegion'', stub SVoid),
     (''llRemoteLoadScriptPin'', stub SVoid), (''llRemoveFromLandBanList'', stub SVoid),
     (''llRemoveFromLandPassList'', stub SVoid), (''llRemoveInventory'', stub SVoid),
     (''llRemoveVehicleFlags'', stub SVoid),
     (''llRequestAgentData'', stub_agent_data ''llRequestAgentData'' (SKey null_key)),
     (''llRequestAnimationData'', stub_agent_data ''llRequestAnimationData'' (SKey null_key))]"

definition stubs_6 :: "(string \<times> builtin) list" where
  "stubs_6 =
    [(''llRequestDisplayName'', stub_agent_data ''llRequestDisplayName'' (SKey null_key)),
     (''llRequestExperiencePermissions'', stub_agent_data ''llRequestExperiencePermissions'' SVoid),
     (''llRequestInventoryData'', stub_agent_data ''llRequestInventoryData'' (SKey null_key)),
     (''llRequestSecureURL'', stub (SKey null_key)),
     (''llRequestSimulatorData'', stub_agent_data ''llRequestSimulatorData'' (SKey null_key)),
     (''llRequestUserKey'', stub (SKey null_key)),
     (''llRequestUsername'', stub_agent_data ''llRequestUsername'' (SKey null_key)),
     (''llResetAnimationOverride'', stub SVoid), (''llResetOtherScript'', stub SVoid),
     (''llReturnObjectsByID'', stub (SInt 0)), (''llReturnObjectsByOwner'', stub (SInt 0)),
     (''llRezAtRoot'', stub_rez), (''llRezObject'', stub_rez), (''llRot2Angle'', stub (SFloat d_zero)),
     (''llRot2Axis'', stub (sv_zero SV_VECTOR)), (''llRot2Euler'', stub (sv_zero SV_VECTOR)),
     (''llRot2Fwd'', stub (sv_zero SV_VECTOR)), (''llRot2Left'', stub (sv_zero SV_VECTOR)),
     (''llRot2Up'', stub (sv_zero SV_VECTOR)), (''llRotBetween'', stub (sv_zero SV_ROTATION)),
     (''llRotLookAt'', stub SVoid), (''llRotTarget'', stub (SInt 0)), (''llRotTargetRemove'', stub SVoid),
     (''llRotateTexture'', stub SVoid), (''llScaleTexture'', stub SVoid),
     (''llSendRemoteData'', stub (SKey null_key)), (''llSensor'', stub SVoid),
     (''llSensorRemove'', stub SVoid), (''llSensorRepeat'', stub SVoid),
     (''llSetAlpha'', stub_prim_set ''llSetAlpha'' SVoid), (''llSetAngularVelocity'', stub SVoid),
     (''llSetAnimationOverride'', stub SVoid), (''llSetBuoyancy'', stub SVoid),
     (''llSetCameraAtOffset'', stub SVoid), (''llSetCameraEyeOffset'', stub SVoid)]"

definition stubs_7 :: "(string \<times> builtin) list" where
  "stubs_7 =
    [(''llSetCameraParams'', stub SVoid), (''llSetClickAction'', stub SVoid),
     (''llSetCollisionFilter'', stub SVoid), (''llSetColor'', stub_prim_set ''llSetColor'' SVoid),
     (''llSetDamage'', stub SVoid), (''llSetEnv'', stub (SInt 0)), (''llSetForce'', stub SVoid),
     (''llSetForceAndTorque'', stub SVoid), (''llSetHoverHeight'', stub SVoid),
     (''llSetInventoryPermMask'', stub SVoid), (''llSetKeyframedMotion'', stub SVoid),
     (''llSetLinkAlpha'', stub_prim_set ''llSetLinkAlpha'' SVoid), (''llSetLinkCamera'', stub SVoid),
     (''llSetLinkColor'', stub_prim_set ''llSetLinkColor'' SVoid),
     (''llSetLinkMedia'', stub_prim_set ''llSetLinkMedia'' (SInt 0)),
     (''llSetLinkPhysicsMaterial'', stub SVoid),
     (''llSetLinkPrimitiveParams'', stub_prim_set ''llSetLinkPrimitiveParams'' SVoid),
     (''llSetLinkPrimitiveParamsFast'', stub_prim_set ''llSetLinkPrimitiveParamsFast'' SVoid),
     (''llSetLinkRenderMaterial'', stub_prim_set ''llSetLinkRenderMaterial'' SVoid),
     (''llSetLinkTexture'', stub_prim_set ''llSetLinkTexture'' SVoid),
     (''llSetLinkTextureAnim'', stub_prim_set ''llSetLinkTextureAnim'' SVoid),
     (''llSetLocalRot'', stub SVoid), (''llSetObjectPermMask'', stub SVoid),
     (''llSetParcelDetails'', stub (SInt 0)), (''llSetParcelMusicURL'', stub SVoid),
     (''llSetPhysicsMaterial'', stub SVoid),
     (''llSetPrimMediaParams'', stub_prim_set ''llSetPrimMediaParams'' SVoid),
     (''llSetPrimURL'', stub SVoid),
     (''llSetPrimitiveParams'', stub_prim_set ''llSetPrimitiveParams'' SVoid),
     (''llSetRegionPos'', stub (SInt 0)), (''llSetRemoteScriptAccessPin'', stub SVoid),
     (''llSetScriptState'', stub SVoid), (''llSetSitText'', stub SVoid),
     (''llSetSoundQueueing'', stub SVoid)]"

definition stubs_8 :: "(string \<times> builtin) list" where
  "stubs_8 =
    [(''llSetSoundRadius'', stub SVoid), (''llSetStatus'', stub SVoid),
     (''llSetTexture'', stub_prim_set ''llSetTexture'' SVoid),
     (''llSetTextureAnim'', stub_prim_set ''llSetTextureAnim'' SVoid), (''llSetTorque'', stub SVoid),
     (''llSetTouchText'', stub SVoid), (''llSetVehicleFlags'', stub SVoid),
     (''llSetVehicleFloatParam'', stub SVoid), (''llSetVehicleRotationParam'', stub SVoid),
     (''llSetVehicleType'', stub SVoid), (''llSetVehicleVectorParam'', stub SVoid),
     (''llSetVelocity'', stub SVoid), (''llSitOnLink'', stub (SInt 0)), (''llSitTarget'', stub SVoid),
     (''llSoundPreload'', stub SVoid), (''llStartAnimation'', stub SVoid),
     (''llStartObjectAnimation'', stub SVoid), (''llStopAnimation'', stub SVoid),
     (''llStopHover'', stub SVoid), (''llStopLookAt'', stub SVoid), (''llStopMoveToTarget'', stub SVoid),
     (''llStopObjectAnimation'', stub SVoid), (''llStopSound'', stub SVoid),
     (''llSunDirection'', stub (sv_zero SV_VECTOR)), (''llTakeControls'', stub SVoid),
     (''llTarget'', stub (SInt 0)), (''llTargetOmega'', stub SVoid), (''llTargetRemove'', stub SVoid),
     (''llTeleportAgent'', stub SVoid), (''llTeleportAgentGlobalCoords'', stub SVoid),
     (''llTeleportAgentHome'', stub SVoid), (''llTriggerSound'', stub SVoid),
     (''llTriggerSoundLimited'', stub SVoid), (''llUnSit'', stub SVoid),
     (''llUpdateKeyValue'', stub (SKey null_key)), (''llVolumeDetect'', stub SVoid),
     (''llWanderWithin'', stub SVoid)]"

definition stubs_9 :: "(string \<times> builtin) list" where
  "stubs_9 =
    [(''llWater'', stub (SFloat d_zero)), (''llWind'', stub (sv_zero SV_VECTOR)),
     (''llXorBase64'', stub (SString [])), (''llXorBase64Strings'', stub (SString [])),
     (''llXorBase64StringsCorrect'', stub (SString []))]"

end
