(* ===== verification/Builtins.thy ===== *)
theory Builtins
  imports Stubs BuiltinsText Encoding Json
begin

text \<open>
  The registration table of \<open>builtins.c\<close> and its lookup, and the contract of the library: every entry
  keeps the shape of the state, and depends on the evaluator only monotonically. The first entry
  of a name wins, as in the loop of \<open>builtins_lookup\<close>.
\<close>

subsection \<open>The table\<close>

definition io_table :: "(string \<times> builtin) list" where
  "io_table =
    [(''llSay'', step_bi bi_llSay), (''llWhisper'', step_bi bi_llWhisper),
     (''llShout'', step_bi bi_llShout), (''llOwnerSay'', step_bi bi_llOwnerSay),
     (''llRegionSay'', step_bi bi_llRegionSay), (''llRegionSayTo'', step_bi bi_llRegionSayTo),
     (''llInstantMessage'', step_bi bi_llInstantMessage), (''llSetText'', step_bi bi_llSetText),
     (''llDialog'', step_bi bi_llDialog), (''llTextBox'', step_bi bi_llTextBox),
     (''llLoadURL'', step_bi bi_llLoadURL)]"

definition string_table :: "(string \<times> builtin) list" where
  "string_table =
    [(''llStringLength'', pure_bi bi_llStringLength), (''llSubStringIndex'', pure_bi bi_llSubStringIndex),
     (''llGetSubString'', pure_bi bi_llGetSubString),
     (''llDeleteSubString'', partial_bi bi_llDeleteSubString),
     (''llInsertString'', pure_bi bi_llInsertString), (''llToLower'', pure_bi bi_llToLower),
     (''llToUpper'', pure_bi bi_llToUpper), (''llStringTrim'', pure_bi bi_llStringTrim),
     (''llChar'', pure_bi bi_llChar), (''llOrd'', pure_bi bi_llOrd)]"

definition list_table :: "(string \<times> builtin) list" where
  "list_table =
    [(''llGetListLength'', pure_bi bi_llGetListLength), (''llList2String'', pure_bi bi_llList2String),
     (''llList2Integer'', pure_bi bi_llList2Integer), (''llList2Float'', pure_bi bi_llList2Float),
     (''llList2Key'', pure_bi bi_llList2Key), (''llList2Vector'', pure_bi bi_llList2Vector),
     (''llList2Rot'', pure_bi bi_llList2Rot), (''llList2List'', pure_bi bi_llList2List),
     (''llListFindList'', pure_bi bi_llListFindList), (''llListInsertList'', pure_bi bi_llListInsertList),
     (''llListReplaceList'', partial_bi bi_llListReplaceList),
     (''llDeleteSubList'', pure_bi bi_llDeleteSubList), (''llListSort'', pure_bi bi_llListSort),
     (''llDumpList2String'', pure_bi bi_llDumpList2String), (''llList2CSV'', pure_bi bi_llList2CSV),
     (''llCSV2List'', pure_bi bi_llCSV2List), (''llParseString2List'', pure_bi bi_llParseString2List),
     (''llParseStringKeepNulls'', pure_bi bi_llParseStringKeepNulls),
     (''llListRandomize'', step_bi bi_llListRandomize)]"

definition math_table :: "(string \<times> builtin) list" where
  "math_table =
    [(''llAbs'', pure_bi bi_llAbs), (''llFabs'', pure_bi bi_llFabs), (''llFloor'', pure_bi bi_llFloor),
     (''llCeil'', pure_bi bi_llCeil), (''llRound'', pure_bi bi_llRound), (''llSqrt'', read_bi bi_llSqrt),
     (''llSin'', read_bi (libm1 ''sin'')), (''llCos'', read_bi (libm1 ''cos'')),
     (''llTan'', read_bi (libm1 ''tan'')), (''llAsin'', read_bi (libm1 ''asin'')),
     (''llAcos'', read_bi (libm1 ''acos'')), (''llAtan2'', read_bi (libm2 ''atan2'')),
     (''llPow'', read_bi (libm2 ''pow'')), (''llLog'', read_bi (libm_log ''log'')),
     (''llLog10'', read_bi (libm_log ''log10'')), (''llFrand'', step_bi bi_llFrand),
     (''llVecMag'', read_bi bi_llVecMag), (''llVecNorm'', read_bi bi_llVecNorm),
     (''llVecDist'', read_bi bi_llVecDist)]"

definition object_table :: "(string \<times> builtin) list" where
  "object_table =
    [(''llGetTime'', read_bi bi_llGetTime), (''llGetUnixTime'', step_bi bi_llGetUnixTime),
     (''llGetTimestamp'', step_bi bi_llGetTimestamp), (''llGetDate'', step_bi bi_llGetDate),
     (''llGetWallclock'', step_bi bi_llGetWallclock), (''llSleep'', step_bi bi_llSleep),
     (''llSetTimerEvent'', step_bi bi_llSetTimerEvent), (''llGetKey'', read_bi bi_llGetKey),
     (''llGetOwner'', read_bi bi_llGetOwner), (''llGetCreator'', read_bi bi_llGetOwner),
     (''llGetCreatorKey'', read_bi bi_llGetOwner), (''llGetObjectName'', read_bi bi_llGetObjectName),
     (''llSetObjectName'', step_bi bi_llSetObjectName), (''llGetObjectDesc'', read_bi bi_llGetObjectDesc),
     (''llSetObjectDesc'', step_bi bi_llSetObjectDesc), (''llDie'', step_bi bi_llDie),
     (''llResetScript'', bi_llResetScript), (''llGetScriptName'', read_bi bi_llGetScriptName),
     (''llGetScriptID'', read_bi bi_llGetKey), (''llSetPos'', bi_llSetPos), (''llSetRot'', bi_llSetRot)]"

definition region_table :: "(string \<times> builtin) list" where
  "region_table =
    [(''llListen'', step_bi bi_llListen), (''llListenRemove'', step_bi bi_llListenRemove),
     (''llListenControl'', step_bi bi_llListenControl), (''llMessageLinked'', step_bi bi_llMessageLinked),
     (''llGetLinkNumber'', read_bi bi_llGetLinkNumber), (''llGetLinkName'', read_bi bi_llGetLinkName),
     (''llGetLinkKey'', read_bi bi_llGetLinkKey), (''llGetNumberOfPrims'', read_bi bi_llGetNumberOfPrims),
     (''llDetectedKey'', read_bi bi_llDetectedKey), (''llDetectedName'', read_bi bi_llDetectedName),
     (''llDetectedOwner'', read_bi bi_llDetectedOwner), (''llDetectedType'', read_bi bi_llDetectedType),
     (''llDetectedPos'', read_bi bi_llDetectedPos),
     (''llDetectedLinkNumber'', read_bi bi_llDetectedLinkNumber),
     (''llRequestPermissions'', step_bi bi_llRequestPermissions),
     (''llGetPermissions'', read_bi bi_llGetPermissions),
     (''llGetPermissionsKey'', read_bi bi_llGetPermissionsKey),
     (''llGetMyAccountBalance'', read_bi bi_llGetMyAccountBalance),
     (''llGiveMoney'', step_bi bi_llGiveMoney),
     (''llTransferLindenDollars'', step_bi bi_llTransferLindenDollars)]"

definition lsd_table :: "(string \<times> builtin) list" where
  "lsd_table =
    [(''llLinksetDataWrite'', step_bi bi_llLinksetDataWrite),
     (''llLinksetDataRead'', read_bi bi_llLinksetDataRead),
     (''llLinksetDataDelete'', step_bi bi_llLinksetDataDelete),
     (''llLinksetDataReset'', step_bi bi_llLinksetDataReset),
     (''llLinksetDataCountKeys'', read_bi bi_llLinksetDataCountKeys),
     (''llLinksetDataListKeys'', read_bi bi_llLinksetDataListKeys)]"

definition encoding_table :: "(string \<times> builtin) list" where
  "encoding_table =
    [(''llMD5String'', pure_bi bi_llMD5String), (''llSHA1String'', pure_bi bi_llSHA1String),
     (''llSHA256String'', pure_bi bi_llSHA256String), (''llStringToBase64'', pure_bi bi_llStringToBase64),
     (''llBase64ToString'', pure_bi bi_llBase64ToString),
     (''llIntegerToBase64'', pure_bi bi_llIntegerToBase64),
     (''llBase64ToInteger'', pure_bi bi_llBase64ToInteger), (''llEscapeURL'', pure_bi bi_llEscapeURL),
     (''llUnescapeURL'', pure_bi bi_llUnescapeURL), (''llHMAC'', pure_bi bi_llHMAC),
     (''llHash'', pure_bi bi_llHash)]"

definition json_table :: "(string \<times> builtin) list" where
  "json_table =
    [(''llJsonGetValue'', partial_bi bi_llJsonGetValue), (''llJsonValueType'', partial_bi bi_llJsonValueType),
     (''llJsonSetValue'', partial_bi bi_llJsonSetValue), (''llJson2List'', partial_bi bi_llJson2List),
     (''llList2Json'', pure_bi bi_llList2Json)]"

definition net_table :: "(string \<times> builtin) list" where
  "net_table =
    [(''llHTTPRequest'', bi_llHTTPRequest), (''llRequestURL'', step_bi bi_llRequestURL),
     (''llRequestSecureURL'', step_bi bi_llRequestURL), (''llKey2Name'', read_bi bi_llKey2Name),
     (''llGetUsername'', read_bi bi_llKey2Name), (''llGetDisplayName'', read_bi bi_llKey2Name)]"

text \<open>The rows of the functions that only answer a constant, in the order of the table.\<close>

definition stub_rows_a :: "(string \<times> builtin) list" where
  "stub_rows_a = stubs_1 @ stubs_2 @ stubs_3 @ stubs_4"

definition stub_rows_b :: "(string \<times> builtin) list" where
  "stub_rows_b = stubs_5 @ stubs_6 @ stubs_7 @ stubs_8 @ stubs_9"

definition builtin_table :: "(string \<times> builtin) list" where
  "builtin_table = io_table @ string_table @ list_table @ math_table @ object_table @ region_table @
     lsd_table @ encoding_table @ json_table @ net_table @
     map (\<lambda>(nm, v). (nm, stub v)) world_constants @
     stub_rows_a @ stub_rows_b"

definition builtins_lookup :: "string \<Rightarrow> builtin option" where
  "builtins_lookup nm = map_of builtin_table nm"

subsection \<open>The contract\<close>

definition good_builtin :: "builtin \<Rightarrow> bool" where
  "good_builtin b \<longleftrightarrow>
    (\<forall>ev i a. (\<forall>e. keeps eval_shape (ev e)) \<longrightarrow> keeps eval_shape (b ev i a)) \<and>
    (\<forall>ev ev' i a. (\<forall>e. act_le (ev e) (ev' e)) \<longrightarrow> act_le (b ev i a) (b ev' i a))"

lemma good_builtinI:
  assumes "\<And>ev i a r v r'. b ev i a r = Inr (v, r') \<Longrightarrow> eval_shape r r'"
    and "\<And>ev ev' i a. b ev i a = b ev' i a"
  shows "good_builtin b"
proof -
  have "act_le (b ev i a) (b ev' i a)" for ev ev' i a
    using assms(2) [of ev i a ev'] by simp
  with assms(1) show ?thesis unfolding good_builtin_def keeps_def by blast
qed

named_theorems good "library functions that keep the contract"

lemma good_pure [good]: "good_builtin (pure_bi f)"
  by (rule good_builtinI) (auto simp: pure_bi_def fun_eq_iff)

lemma good_partial [good]: "good_builtin (partial_bi f)"
  by (rule good_builtinI) (auto simp: partial_bi_def fun_eq_iff rbind_eq_Inr)

lemma good_read [good]: "good_builtin (read_bi f)"
  by (rule good_builtinI) (auto simp: read_bi_def fun_eq_iff)

lemma good_step: "(\<And>i a r. eval_shape r (snd (f i a r))) \<Longrightarrow> good_builtin (step_bi f)"
proof (rule good_builtinI)
  fix ev i a r v r' assume f: "\<And>i a r. eval_shape r (snd (f i a r))" and "step_bi f ev i a r = Inr (v, r')"
  then have "f i a r = (v, r')" by (simp add: step_bi_def)
  with f [of r i a] show "eval_shape r r'" by simp
qed (simp add: step_bi_def fun_eq_iff)

text \<open>Building up \<open>eval_shape\<close> along the operations of a step.\<close>

lemma shape_upd: "eval_shape r r' \<Longrightarrow> (\<And>s. keeps_script s (f s)) \<Longrightarrow> eval_shape r (upd_script i f r')"
  by (rule es.step_trans [OF _ eval_shape_upd_script])

lemma shape_push: "eval_shape r r' \<Longrightarrow> eval_shape r (script_push_event i nm args r')"
  unfolding script_push_event_def by (rule shape_upd) (simp_all add: enqueue_def keeps_script_def)

lemma shape_quiet: "eval_shape r r' \<Longrightarrow> quiet r' r'' \<Longrightarrow> eval_shape r r''"
  by (rule es.step_trans [OF _ eval_shape_quiet])

lemma shape_same: "eval_shape r r' \<Longrightarrow> scripts r'' = scripts r' \<Longrightarrow> frames r'' = frames r' \<Longrightarrow> eval_shape r r''"
  by (rule es.step_trans [OF _ eval_shape_same])

lemma shape_fold: "eval_shape r r' \<Longrightarrow> (\<And>x r. eval_shape r (f x r)) \<Longrightarrow> eval_shape r (fold f xs r')"
proof (induction xs arbitrary: r')
  case (Cons x xs)
  then show ?case using es.step_trans [OF Cons.prems(1), of "f x r'"] by simp
qed simp

lemma shape_if: "(c \<Longrightarrow> eval_shape r x) \<Longrightarrow> (\<not> c \<Longrightarrow> eval_shape r y) \<Longrightarrow> eval_shape r (if c then x else y)"
  by simp

lemmas shape_intros = es.step_refl shape_upd shape_push shape_fold shape_if

lemma shape_evt:
  "eval_shape r r' \<Longrightarrow> eval_shape r (evt_chat i k ch msg r')"
  "eval_shape r r' \<Longrightarrow> eval_shape r (evt_chat_to i dst ch msg r')"
  "eval_shape r r' \<Longrightarrow> eval_shape r (evt_dialog i dst msg bs ch tb r')"
  "eval_shape r r' \<Longrightarrow> eval_shape r (evt_loadurl i dst msg url r')"
  "eval_shape r r' \<Longrightarrow> eval_shape r (evt_hud_text i txt rr gg bb al r')"
  "eval_shape r r' \<Longrightarrow> eval_shape r (evt_money src dst amt ok r')"
  "eval_shape r r' \<Longrightarrow> eval_shape r (evt_permission_request i who bits r')"
  "eval_shape r r' \<Longrightarrow> eval_shape r (evt_link_msg i target num str sid r')"
  "eval_shape r r' \<Longrightarrow> eval_shape r (evt_http_out i url method status len r')"
  "eval_shape r r' \<Longrightarrow> eval_shape r (evt_lsd_set i key v r')"
  "eval_shape r r' \<Longrightarrow> eval_shape r (evt_prim_set i fn r')"
  "eval_shape r r' \<Longrightarrow> eval_shape r (evt_agent_data_request i who kind r')"
  "eval_shape r r' \<Longrightarrow> eval_shape r (evt_rez i item r')"
  by (rule shape_quiet, assumption, rule quiet_evt)+

lemma shape_fields:
  "eval_shape r r' \<Longrightarrow> eval_shape r (emit t r')"
  "eval_shape r r' \<Longrightarrow> eval_shape r (emit_err t r')"
  "eval_shape r r' \<Longrightarrow> eval_shape r (chatlog_record k ch msg r')"
  "eval_shape r r' \<Longrightarrow> eval_shape r (dialog_open i dst msg bs ch tb r')"
  "eval_shape r r' \<Longrightarrow> eval_shape r (upd_avatar n f r')"
  "eval_shape r r' \<Longrightarrow> eval_shape r (r'\<lparr>n_time := a\<rparr>)"
  "eval_shape r r' \<Longrightarrow> eval_shape r (r'\<lparr>n_rand := a\<rparr>)"
  "eval_shape r r' \<Longrightarrow> eval_shape r (r'\<lparr>virtual_offset := x\<rparr>)"
  "eval_shape r r' \<Longrightarrow> eval_shape r (r'\<lparr>next_handle := h\<rparr>)"
  "eval_shape r r' \<Longrightarrow> eval_shape r (r'\<lparr>vol := v\<rparr>)"
  by (erule shape_same; simp add: chatlog_record_def dialog_open_def upd_avatar_def)+

lemma gen_uuid_shape: "gen_uuid r = (u, r') \<Longrightarrow> eval_shape r r'"
  by (rule eval_shape_same) (auto simp: gen_uuid_def Let_def)

lemma add_avatar_shape: "region_add_avatar u b nm r = (k, r') \<Longrightarrow> eval_shape r r'"
  by (rule eval_shape_same) (auto simp: region_add_avatar_def upd_avatar_def split: option.splits)

lemma push_listens_shape: "eval_shape r r' \<Longrightarrow> eval_shape r (push_listens hit args t r')"
  unfolding push_listens_def by (rule shape_fold) (auto intro: shape_push)

lemma route_listen_shape: "eval_shape r r' \<Longrightarrow> eval_shape r (route_listen ch nm key msg r')"
  unfolding route_listen_def by (rule shape_fold) (auto intro: push_listens_shape)

lemma say_on_shape: "eval_shape r (say_on kind i ch msg r)"
  unfolding say_on_def by (intro route_listen_shape shape_fields shape_evt es.step_refl)

lemmas shapes = shape_intros shape_evt shape_fields push_listens_shape route_listen_shape say_on_shape

lemma good_chat [good]:
  "good_builtin (step_bi bi_llSay)" "good_builtin (step_bi bi_llWhisper)"
  "good_builtin (step_bi bi_llShout)" "good_builtin (step_bi bi_llRegionSay)"
  "good_builtin (step_bi bi_llOwnerSay)" "good_builtin (step_bi bi_llRegionSayTo)"
  "good_builtin (step_bi bi_llInstantMessage)" "good_builtin (step_bi bi_llDialog)"
  "good_builtin (step_bi bi_llTextBox)" "good_builtin (step_bi bi_llLoadURL)"
  by (rule good_step; simp add: bi_llSay_def bi_llWhisper_def bi_llShout_def bi_llRegionSay_def
      bi_llOwnerSay_def bi_llRegionSayTo_def bi_llInstantMessage_def bi_llDialog_def bi_llTextBox_def
      bi_llLoadURL_def Let_def; intro shapes)+

lemma good_object [good]:
  "good_builtin (step_bi bi_llGetUnixTime)" "good_builtin (step_bi bi_llGetTimestamp)"
  "good_builtin (step_bi bi_llGetDate)" "good_builtin (step_bi bi_llGetWallclock)"
  "good_builtin (step_bi bi_llSleep)" "good_builtin (step_bi bi_llFrand)"
  by (rule good_step; simp add: bi_llGetUnixTime_def bi_llGetTimestamp_def bi_llGetDate_def
      bi_llGetWallclock_def bi_llSleep_def bi_llFrand_def next_time_def; intro shapes)+

lemma good_setters [good]:
  "good_builtin (step_bi bi_llSetTimerEvent)" "good_builtin (step_bi bi_llSetObjectName)"
  "good_builtin (step_bi bi_llSetObjectDesc)" "good_builtin (step_bi bi_llDie)"
  "good_builtin (step_bi bi_llListen)" "good_builtin (step_bi bi_llListenRemove)"
  "good_builtin (step_bi bi_llListenControl)" "good_builtin (step_bi bi_llRequestPermissions)"
  by (rule good_step; auto simp: bi_llSetTimerEvent_def bi_llSetObjectName_def bi_llSetObjectDesc_def
      bi_llDie_def bi_llListen_def bi_llListenRemove_def bi_llListenControl_def
      bi_llRequestPermissions_def Let_def keeps_script_def flush_events_def intro!: shapes)+

lemma good_set_text [good]: "good_builtin (step_bi bi_llSetText)"
  by (rule good_step)
    (auto simp: bi_llSetText_def Let_def keeps_script_def split: prod.splits intro!: shapes)

lemma good_message [good]: "good_builtin (step_bi bi_llMessageLinked)"
  by (rule good_step; simp add: bi_llMessageLinked_def Let_def; intro shapes)

lemma ensure_avatar_shape: "ensure_avatar k u r = (i, r') \<Longrightarrow> eval_shape r r'"
  by (auto simp: ensure_avatar_def split: option.splits intro: add_avatar_shape)

lemma give_money_shape: "give_money i a r = (ok, r') \<Longrightarrow> eval_shape r r'"
  by (auto simp: give_money_def Let_def pay_def split: if_splits prod.splits
      dest!: ensure_avatar_shape intro!: shape_fields shape_evt intro: es.step_trans)

lemma good_money [good]:
  "good_builtin (step_bi bi_llGiveMoney)" "good_builtin (step_bi bi_llTransferLindenDollars)"
  by (rule good_step; auto simp: bi_llGiveMoney_def bi_llTransferLindenDollars_def split: prod.splits
      dest!: give_money_shape gen_uuid_shape intro!: shape_push intro: es.step_trans)+

lemma lsd_delete_shape: "eval_shape r r' \<Longrightarrow> eval_shape r (snd (lsd_delete i k r'))"
  by (auto simp: lsd_delete_def split: option.splits prod.splits intro!: shapes)

lemma with_vol_shape:
  "(\<And>v. vol r = Some v \<Longrightarrow> eval_shape r (snd (f v r))) \<Longrightarrow> eval_shape r (snd (with_vol d f r))"
  by (simp add: with_vol_def split: option.split)

lemma good_lsd [good]:
  "good_builtin (step_bi bi_llLinksetDataWrite)" "good_builtin (step_bi bi_llLinksetDataDelete)"
  "good_builtin (step_bi bi_llLinksetDataReset)"
proof -
  show "good_builtin (step_bi bi_llLinksetDataWrite)"
    by (rule good_step) (auto simp: bi_llLinksetDataWrite_def Let_def split: prod.splits
        intro!: with_vol_shape shapes)
  have "eval_shape r (snd (case lsd_delete i k r of (ok, r') \<Rightarrow> (f ok, r')))" for r i k and f :: "bool \<Rightarrow> svalue"
    using lsd_delete_shape [OF es.step_refl, of r i k] by (auto split: prod.splits)
  then show "good_builtin (step_bi bi_llLinksetDataDelete)"
    by (intro good_step) (auto simp: bi_llLinksetDataDelete_def intro!: with_vol_shape)
  show "good_builtin (step_bi bi_llLinksetDataReset)"
    by (rule good_step) (auto simp: bi_llLinksetDataReset_def intro!: with_vol_shape shapes lsd_delete_shape)
qed

lemma good_url [good]: "good_builtin (step_bi bi_llRequestURL)"
proof (rule good_step)
  fix i a and r :: region
  obtain k r1 where g: "gen_uuid r = (k, r1)" by (cases "gen_uuid r")
  obtain u r2 where b: "inbound_register i k r1 = (u, r2)" by (cases "inbound_register i k r1")
  have "eval_shape r r2"
    using b gen_uuid_shape [OF g] by (auto simp: inbound_register_def Let_def intro: shape_same)
  then show "eval_shape r (snd (bi_llRequestURL i a r))"
    by (auto simp: bi_llRequestURL_def g b intro: shape_push)
qed

lemma shuffle_shape: "fold (shuffle_step st) is (xs, r) = (ys, r') \<Longrightarrow> eval_shape r r'"
proof (induction "is" arbitrary: xs r)
  case (Cons i "is")
  obtain zs r1 where 1: "shuffle_step st i (xs, r) = (zs, r1)" by (cases "shuffle_step st i (xs, r)")
  then have "eval_shape r r1" by (auto simp: shuffle_step_def intro: eval_shape_same)
  with Cons 1 show ?case using es.step_trans by auto
qed simp

lemma good_randomize [good]: "good_builtin (step_bi bi_llListRandomize)"
proof (rule good_step)
  fix i a and r :: region
  show "eval_shape r (snd (bi_llListRandomize i a r))"
  proof (cases "list_arg a 0")
    case None
    then show ?thesis by (simp add: bi_llListRandomize_def)
  next
    case (Some l)
    let ?turns = "map (\<lambda>m. length l - stride_of a - m * stride_of a)
      [0 ..< (length l - stride_of a + (stride_of a - 1)) div stride_of a]"
    obtain xs r' where f: "fold (shuffle_step (stride_of a)) ?turns (l, r) = (xs, r')"
      by (cases "fold (shuffle_step (stride_of a)) ?turns (l, r)")
    from Some f shuffle_shape [OF f] show ?thesis by (simp add: bi_llListRandomize_def Let_def)
  qed
qed

lemma good_stub [good]: "good_builtin (stub v)" "good_builtin (stub_prim_set nm v)"
  "good_builtin (stub_agent_data nm v)" "good_builtin stub_rez"
  by (auto simp: stub_def stub_prim_set_def stub_agent_data_def stub_rez_def intro!: good good_step shapes)

lemma good_report [good]: "good_builtin bi_llSetPos" "good_builtin bi_llSetRot"
  by (rule good_builtinI;
      force simp: bi_llSetPos_def bi_llSetRot_def set_report_def rbind_eq_Inr split: if_splits
        intro: shapes)+

lemma http_request_shape: "http_request i url ps body r = Inr (k, r') \<Longrightarrow> eval_shape r r'"
proof -
  assume h: "http_request i url ps body r = Inr (k, r')"
  obtain u r1 where g: "gen_uuid r = (u, r1)" by (cases "gen_uuid r")
  have c: "eval_shape r1 r2" if "real_http_get url body ps r1 = Inr (x, r2)" for x r2
    using that by (auto simp: real_http_get_def rbind_eq_Inr Let_def intro: eval_shape_same)
  have "\<exists>r2. eval_shape r1 r2 \<and> eval_shape r2 r'"
    using h by (auto simp: http_request_def g rbind_eq_Inr split: if_splits dest!: c intro!: shape_evt shape_push
        intro: es.step_refl)
  with gen_uuid_shape [OF g] show ?thesis using es.step_trans by blast
qed

lemma good_http [good]: "good_builtin bi_llHTTPRequest"
  by (rule good_builtinI) (auto simp: bi_llHTTPRequest_def rbind_eq_Inr fun_eq_iff dest: http_request_shape)

lemma reset_globals_shape:
  assumes "\<And>e. keeps eval_shape (ev e)"
  shows "keeps eval_shape (\<lambda>r. rbind (reset_globals ev i k gs r) (\<lambda>r. Inr ((), r)))"
  unfolding keeps_def
proof (intro allI impI, simp add: rbind_eq_Inr)
  fix r r' assume "reset_globals ev i k gs r = Inr r'"
  then show "eval_shape r r'"
  proof (induction gs arbitrary: k r)
    case (Cons g gs)
    show ?case
    proof (cases "gv_init g = E_NULL")
      case True
      with Cons show ?thesis by simp
    next
      case False
      with Cons.prems obtain v r1 where 1: "ev (gv_init g) r = Inr (v, r1)"
        and 2: "reset_globals ev i (Suc k) gs (upd_script i (\<lambda>s. s\<lparr>globals := (globals s)[k := v]\<rparr>) r1) = Inr r'"
        by (auto simp: rbind_eq_Inr)
      have "eval_shape r (upd_script i (\<lambda>s. s\<lparr>globals := (globals s)[k := v]\<rparr>) r1)"
        using keepsD [OF assms 1] by (rule shape_upd) (simp add: keeps_script_def)
      then show ?thesis using Cons.IH [OF 2] by (rule es.step_trans)
    qed
  qed simp
qed

lemma reset_globals_le:
  assumes "\<And>e. act_le (ev e) (ev' e)"
  shows "reset_globals ev i k gs r \<noteq> Inl OutOfFuel \<Longrightarrow> reset_globals ev' i k gs r = reset_globals ev i k gs r"
proof (induction gs arbitrary: k r)
  case (Cons g gs)
  show ?case
  proof (cases "gv_init g = E_NULL")
    case True
    with Cons show ?thesis by simp
  next
    case False
    with Cons.prems have "ev (gv_init g) r \<noteq> Inl OutOfFuel" by auto
    with act_leD [OF assms this] False Cons show ?thesis
      by (cases "ev (gv_init g) r") auto
  qed
qed simp

lemma good_reset [good]: "good_builtin bi_llResetScript"
  unfolding good_builtin_def
proof (intro conjI allI impI)
  fix ev :: evaluator and i a assume ev: "\<forall>e. keeps eval_shape (ev e)"
  show "keeps eval_shape (bi_llResetScript ev i a)"
    unfolding keeps_def
  proof (intro allI impI)
    fix r v r' assume b: "bi_llResetScript ev i a r = Inr (v, r')"
    let ?r = "upd_script i (\<lambda>s. s\<lparr>globals := map (\<lambda>_. SVoid) (globals s)\<rparr>) r"
    obtain r1 where 1: "reset_globals ev i 0 (p_globals (prog (script_at r i))) ?r = Inr r1"
      and r': "r' = script_push_event i ''state_entry'' [] (upd_script i reset_state r1)"
      using b by (auto simp: bi_llResetScript_def rbind_eq_Inr)
    have "eval_shape r ?r" by (rule eval_shape_upd_script) (simp add: keeps_script_def)
    also have "eval_shape ?r r1"
      using keepsD [OF reset_globals_shape [of ev i 0 "p_globals (prog (script_at r i))"], of ?r "()" r1] ev 1
      by simp
    finally have "eval_shape r r1" .
    then show "eval_shape r r'"
      unfolding r' by (intro shape_push shape_upd) (simp_all add: reset_state_def keeps_script_def flush_events_def)
  qed
next
  fix ev ev' :: evaluator and i a assume le: "\<forall>e. act_le (ev e) (ev' e)"
  show "act_le (bi_llResetScript ev i a) (bi_llResetScript ev' i a)"
    unfolding act_le_def
  proof (intro allI impI)
    fix r
    let ?r = "upd_script i (\<lambda>s. s\<lparr>globals := map (\<lambda>_. SVoid) (globals s)\<rparr>) r"
    have "reset_globals ev' i 0 gs ?r = reset_globals ev i 0 gs ?r"
      if "reset_globals ev i 0 gs ?r \<noteq> Inl OutOfFuel" for gs
      using le that by (intro reset_globals_le) simp_all
    then show "bi_llResetScript ev i a r \<noteq> Inl OutOfFuel \<Longrightarrow> bi_llResetScript ev' i a r = bi_llResetScript ev i a r"
      unfolding bi_llResetScript_def
      by (cases "reset_globals ev i 0 (p_globals (prog (script_at r i))) ?r = Inl OutOfFuel") simp_all
  qed
qed

definition good_table :: "(string \<times> builtin) list \<Rightarrow> bool" where
  "good_table t \<longleftrightarrow> list_all (\<lambda>(nm, b). good_builtin b) t"

lemma good_table_append [simp]: "good_table (s @ t) \<longleftrightarrow> good_table s \<and> good_table t"
  by (simp add: good_table_def)

lemma good_tables:
  "good_table io_table" "good_table string_table" "good_table list_table" "good_table math_table"
  "good_table object_table" "good_table region_table" "good_table lsd_table" "good_table encoding_table"
  "good_table json_table" "good_table net_table" "good_table (map (\<lambda>(nm, v). (nm, stub v)) world_constants)"
  by (simp_all add: good_table_def io_table_def string_table_def list_table_def math_table_def
      object_table_def region_table_def lsd_table_def encoding_table_def json_table_def net_table_def
      world_constants_def memory_constants_def url_constants_def good)

lemma good_stub_tables:
  "good_table stubs_1" "good_table stubs_2" "good_table stubs_3" "good_table stubs_4" "good_table stubs_5"
  "good_table stubs_6" "good_table stubs_7" "good_table stubs_8" "good_table stubs_9"
  unfolding good_table_def
  by (simp_all only: list.pred_inject prod.case good simp_thms stubs_1_def stubs_2_def stubs_3_def
      stubs_4_def stubs_5_def stubs_6_def stubs_7_def stubs_8_def stubs_9_def)

lemma good_builtin_table: "good_table builtin_table"
  unfolding builtin_table_def stub_rows_a_def stub_rows_b_def good_table_append by (intro conjI good_tables good_stub_tables)

lemma lookup_good: "builtins_lookup nm = Some b \<Longrightarrow> good_builtin b"
  using good_builtin_table
  by (auto simp: builtins_lookup_def good_table_def list_all_iff dest: map_of_SomeD)

interpretation lib: library_mono builtins_lookup
  by unfold_locales (use lookup_good in \<open>auto simp: good_builtin_def\<close>)

end
