(* ===== verification/RegionLoop.thy ===== *)
theory RegionLoop
  imports Commands Builtins
begin

text \<open>
  The main loop of \<open>region.c\<close>: dispatching an event, starting a script, and \<open>region_run\<close>. One turn of
  the loop fires at most one timer, gives every script with a queued event one event, and when neither
  happened runs the next command. \<open>n\<close> is the fuel of the interpreter, \<open>k\<close> that of the loop, one unit
  per turn; \<open>t\<close> counts the turns, for the host decides when the wall-clock limit is passed.
\<close>

subsection \<open>Dispatch\<close>

definition find_handler :: "program \<Rightarrow> int \<Rightarrow> string \<Rightarrow> event_decl option" where
  "find_handler p st nm = find (\<lambda>ed. prog_str p (ed_name ed) = nm) (sd_events (p_states p ! nat st))"

definition dispatch_event ::
    "(string \<Rightarrow> builtin option) \<Rightarrow> nat \<Rightarrow> nat \<Rightarrow> event \<Rightarrow> region \<Rightarrow> region res" where
  "dispatch_event lib n i ev r =
    (let s = script_at r i in
     if cur_state s < 0 then Inr r
     else (case find_handler (prog s) (cur_state s) (ev_name ev) of
         None \<Rightarrow> Inr r
       | Some ed \<Rightarrow> vm_dispatch lib n i ed (ev_args ev)
           (evt_event_dispatch i (ev_name ev) (length (ev_args ev)) r)))"

subsection \<open>Starting a script\<close>

fun init_globals :: "evaluator \<Rightarrow> nat \<Rightarrow> nat \<Rightarrow> global_var list \<Rightarrow> region \<Rightarrow> region res" where
  "init_globals ev i k [] r = Inr r"
| "init_globals ev i k (g # gs) r =
     rbind (if gv_init g = E_NULL then Inr (sv_zero (type_byte (gv_type g)), r) else ev (gv_init g) r) (\<lambda>(v, r).
       init_globals ev i (Suc k) gs (upd_script i (\<lambda>s. s\<lparr>globals := (globals s)[k := v]\<rparr>) r))"

definition start_state :: "script \<Rightarrow> script" where
  "start_state s = s\<lparr>cur_state := (case default_state (prog s) of Some k \<Rightarrow> int k
     | None \<Rightarrow> if cur_state s < 0 \<and> p_states (prog s) \<noteq> [] then 0 else cur_state s)\<rparr>"

definition init_script :: "(string \<Rightarrow> builtin option) \<Rightarrow> nat \<Rightarrow> nat \<Rightarrow> region \<Rightarrow> region res" where
  "init_script lib n i r =
     rbind (init_globals (\<lambda>e r. vm_eval lib n i e r) i 0 (p_globals (prog (script_at r i))) r) (\<lambda>r.
       Inr (script_push_event i ''state_entry'' [] (upd_script i start_state r)))"

fun init_scripts :: "(string \<Rightarrow> builtin option) \<Rightarrow> nat \<Rightarrow> nat list \<Rightarrow> region \<Rightarrow> region res" where
  "init_scripts lib n [] r = Inr r"
| "init_scripts lib n (i # is) r = rbind (init_script lib n i r) (init_scripts lib n is)"

subsection \<open>One turn\<close>

text \<open>The earliest timer that is due by \<open>el\<close>, and its script; of equal ones the first.\<close>

definition earlier_timer :: "double \<Rightarrow> region \<Rightarrow> nat \<Rightarrow> double \<times> nat option \<Rightarrow> double \<times> nat option" where
  "earlier_timer el r i best = (let s = script_at r i in
     if d_lt d_zero (timer_interval s) \<and> d_le (timer_due s) el \<and> d_lt (timer_due s) (fst best)
     then (timer_due s, Some i) else best)"

definition earliest_timer :: "double \<Rightarrow> region \<Rightarrow> double \<times> nat option" where
  "earliest_timer el r = fold (earlier_timer el r) [0 ..< n_scripts r] (d_add el d_one, None)"

definition fire_timer :: "region \<Rightarrow> bool \<times> region" where
  "fire_timer r = (let el = virtual_offset r in
     case earliest_timer el r of
       (due, Some i) \<Rightarrow> (True, upd_script i (\<lambda>s. s\<lparr>timer_due := d_add (timer_due s) (timer_interval s)\<rparr>)
           (script_push_event i ''timer'' [] (r\<lparr>virtual_now := due\<rparr>)))
     | (due, None) \<Rightarrow> (False, r\<lparr>virtual_now := el\<rparr>))"

text \<open>A pending state change: the queue of the old state is dropped, its \<open>state_exit\<close> runs, with the
  new state already current, and \<open>state_entry\<close> is sent.\<close>

definition enter_state :: "script \<Rightarrow> script" where
  "enter_state s = (flush_events s)\<lparr>cur_state := pending_state s, pending_state := - 1\<rparr>"

definition switch_state :: "(string \<Rightarrow> builtin option) \<Rightarrow> nat \<Rightarrow> nat \<Rightarrow> region \<Rightarrow> region res" where
  "switch_state lib n i r =
    (let old = cur_state (script_at r i); p = prog (script_at r i); r1 = upd_script i enter_state r in
     rbind (if old < 0 then Inr r1
            else (case find_handler p old ''state_exit'' of None \<Rightarrow> Inr r1
              | Some ed \<Rightarrow> vm_dispatch lib n i ed [] r1))
       (\<lambda>r. Inr (script_push_event i ''state_entry'' [] r)))"

definition count_step :: "region \<Rightarrow> region" where
  "count_step r = r\<lparr>n_steps := n_steps r + 1\<rparr>"

text \<open>The next event of one script; whether there was one.\<close>

definition take_turn :: "(string \<Rightarrow> builtin option) \<Rightarrow> nat \<Rightarrow> nat \<Rightarrow> region \<Rightarrow> (bool \<times> region) res" where
  "take_turn lib n i r = (case dequeue (script_at r i) of
     None \<Rightarrow> Inr (False, r)
   | Some (ev, s) \<Rightarrow>
       rbind (dispatch_event lib n i ev (upd_script i (\<lambda>_. s) r)) (\<lambda>r.
         rbind (if 0 \<le> pending_state (script_at r i) then switch_state lib n i (count_step r)
                else Inr (count_step r)) (\<lambda>r.
           Inr (True, r))))"

fun round_robin :: "(string \<Rightarrow> builtin option) \<Rightarrow> nat \<Rightarrow> nat list \<Rightarrow> bool \<Rightarrow> region \<Rightarrow> (bool \<times> region) res" where
  "round_robin lib n [] moved r = Inr (moved, r)"
| "round_robin lib n (i # is) moved r = rbind (take_turn lib n i r) (\<lambda>(b, r).
     round_robin lib n is (moved \<or> b) r)"

text \<open>The body of the loop; \<open>None\<close> when the loop ends in it.\<close>

definition run_turn :: "(string \<Rightarrow> builtin option) \<Rightarrow> nat \<Rightarrow> nat \<Rightarrow> region \<Rightarrow> (bool \<times> region) res" where
  "run_turn lib n t r =
    (if 0 < max_steps r \<and> max_steps r \<le> n_steps r then Inr (False, r)
     else if d_lt d_zero (wall_timeout r) \<and> h_expired (host r) t then Inr (False, r)
     else (case fire_timer r of (fired, r) \<Rightarrow>
       rbind (round_robin lib n [0 ..< n_scripts r] fired r) (\<lambda>(progress, r).
         if progress then Inr (True, r)
         else (case commands_pump r of (pumped, r) \<Rightarrow>
           Inr (if pumped then (True, count_step r) else (False, r))))))"

fun run_loop :: "(string \<Rightarrow> builtin option) \<Rightarrow> nat \<Rightarrow> nat \<Rightarrow> nat \<Rightarrow> region \<Rightarrow> region res" where
  "run_loop lib n 0 t r = Inl OutOfFuel"
| "run_loop lib n (Suc k) t r = rbind (run_turn lib n t r) (\<lambda>(go, r).
     if go then run_loop lib n k (Suc t) r else Inr r)"

subsection \<open>The run\<close>

text \<open>The commands left when the loop has ended; \<open>j\<close> is their number.\<close>

fun pump_rest :: "nat \<Rightarrow> region \<Rightarrow> region" where
  "pump_rest 0 r = r"
| "pump_rest (Suc j) r = (case commands_pump r of (True, r) \<Rightarrow> pump_rest j (count_step r) | (False, r) \<Rightarrow> r)"

definition region_run :: "(string \<Rightarrow> builtin option) \<Rightarrow> nat \<Rightarrow> nat \<Rightarrow> region \<Rightarrow> region res" where
  "region_run lib n k r =
     rbind (init_scripts lib n [0 ..< n_scripts r] (volume_load_economy r)) (\<lambda>r.
     rbind (run_loop lib n k 0 (if dbg_enabled (dbg r) \<and> scripts r \<noteq> [] then dbg_handshake_pause 0 r else r)) (\<lambda>r.
       Inr (volume_save_economy (pump_rest (length (command_lines r) - next_command r) r))))"

end
