(* ===== verification/Driver.thy ===== *)
theory Driver
  imports RegionLoop
begin

text \<open>
  \<open>main.c\<close>: the options, the start-up and the run. What is read from outside comes in \<open>files\<close>: the
  contents of text files and of bytecode files by path, the volume a directory holds, standard input,
  and the values of uninitialised variables the loader may see. A result is the exit code with the
  final region, whose output streams hold all that was printed.
\<close>

record files =
  f_text :: "string \<Rightarrow> string option"
  f_code :: "string \<Rightarrow> byte list option"
  f_volume :: "string \<Rightarrow> volume option"
  f_stdin :: string
  f_junk :: "nat \<Rightarrow> llong"

text \<open>The local variables of \<open>main\<close>.\<close>

record driver =
  dr_region :: region
  volume_path :: string
  fixture_path :: "string option"
  config_path :: "string option"
  commands_path :: "string option"
  owner_uuid_arg :: "string option"
  owner_name :: "string option"
  owner_balance :: llong
  object_name :: string

definition start_driver :: "region \<Rightarrow> driver" where
  "start_driver r = \<lparr>dr_region = r, volume_path = ''./slemu_volume'', fixture_path = None, config_path = None,
     commands_path = None, owner_uuid_arg = None, owner_name = None, owner_balance = 0, object_name = ''Object''\<rparr>"

definition help_lines :: "string list" where
  "help_lines =
    [[],
     ''slemu '' @ [CHR 0xE2] @ [CHR 0x80] @ [CHR 0x94] @ '' Sakura Studios LSL region emulator. Runs SLBC bytecode produced'',
     ''        by sakura-lslc ('' @ [CHR 0x60] @ ''lslc -c '' @ [CHR 0xE2] @ [CHR 0x80] @ [CHR 0xA6] @ [CHR 0x60] @ '') in a headless region with mocked'',
     ''        side effects, persistent volume state, and routed listen/link'',
     ''        traffic between linked scripts.'',
     [],
     ''Scripts:'',
     ''  Each positional arg is a .lslbc file. Multiple scripts become linked'',
     ''  prims in the same simulated object (link 1 = root, others children).'',
     [],
     ''Targeting:'',
     ''  --volume DIR              Persistence directory (default: ./slemu_volume)'',
     ''  --owner UUID[:Name]       Owner avatar; assigned to llGetOwner()'',
     ''  --avatar UUID:BAL[:Name]  Pre-register an avatar with starting L$ balance'',
     ''  --owner-balance N         Starting balance for the owner (default 0)'',
     ''  --name NAME               Object name returned by llGetObjectName()'',
     [],
     ''Execution:'',
     ''  --steps N                 Run at most N events then stop (default 100000)'',
     ''  --timeout SECS            Wall-clock cap (default 60)'',
     ''  --trace                   Log every dispatched event'',
     [],
     ''HTTP:'',
     ''  --no-http                 (default) Use fixture for HTTP requests'',
     ''  --http-real               Send real HTTP via the system '' @ [CHR 0x60] @ ''curl'' @ [CHR 0x60] @ '' binary'',
     ''  --http-fixture FILE       Fixture file matched by URL substring'',
     [],
     ''World / player simulation:'',
     ''  --config FILE             Load world config (avatars, groups, fixtures)'',
     ''  --commands FILE           Load a command file (player actions)'',
     ''  --json-events             Emit events as one JSON object per line'',
     [],
     ''Debugging:'',
     ''  --debug                   Enter the line-level debug protocol on stdin/stdout'',
     ''                            (use sakura-lsldb as a friendly front-end)'',
     [],
     ''Other:'',
     ''  --version                 Print version and exit'',
     ''  -h, --help                Show this help message'',
     [],
     ''Examples:'',
     ''  slemu greeter.lslbc                          # run a single script'',
     ''  slemu --http-real vendor.lslbc               # real HTTP via curl'',
     ''  slemu --http-fixture fx.txt vendor.lslbc     # deterministic HTTP'',
     ''  slemu --config club.cfg --commands buy.cmd '' @ [CHR 0x5C],
     ''        club_vendor.lslbc                      # scripted multi-avatar world'',
     ''  slemu --debug greeter.lslbc                  # debug protocol (use lsldb)'',
     [],
     ''See slemu(1) for the complete manual.'']"

definition help_text :: "string \<Rightarrow> string" where
  "help_text p = ''Usage: '' @ p @ '' [options] script.lslbc [more.lslbc ...]'' @ nl @
     concat (map (\<lambda>l. l @ nl) help_lines)"

definition slemu_version :: string where
  "slemu_version = ''1.0.0''"

subsection \<open>Options\<close>

definition upd_region :: "(region \<Rightarrow> region) \<Rightarrow> driver \<Rightarrow> driver" where
  "upd_region f d = d\<lparr>dr_region := f (dr_region d)\<rparr>"

text \<open>The text before the first colon, and what follows it if there is one.\<close>

definition at_colon :: "string \<Rightarrow> string \<times> string option" where
  "at_colon v = (takeWhile (\<lambda>c. c \<noteq> CHR '':'') v,
     case dropWhile (\<lambda>c. c \<noteq> CHR '':'') v of [] \<Rightarrow> None | c # w \<Rightarrow> Some w)"

definition set_owner_arg :: "string \<Rightarrow> driver \<Rightarrow> driver" where
  "set_owner_arg v d = (case at_colon v of
     (u, Some nm) \<Rightarrow> d\<lparr>owner_uuid_arg := Some u, owner_name := Some nm\<rparr>
   | (u, None) \<Rightarrow> d\<lparr>owner_uuid_arg := Some u\<rparr>)"

definition add_avatar_arg :: "string \<Rightarrow> driver \<Rightarrow> driver option" where
  "add_avatar_arg v d = (case at_colon v of
     (u, None) \<Rightarrow> None
   | (u, Some rest) \<Rightarrow> (case at_colon rest of
       (b, nm) \<Rightarrow> Some (upd_region (\<lambda>r. snd (region_add_avatar u (strtoll 10 b) nm r)) d)))"

text \<open>The options without a value; \<open>None\<close> for any other word.\<close>

definition flag_option :: "files \<Rightarrow> string \<Rightarrow> driver \<Rightarrow> driver option" where
  "flag_option fs a d =
    (if a = ''--trace'' then Some (upd_region (\<lambda>r. r\<lparr>trace := True\<rparr>) d)
     else if a = ''--no-http'' then Some (upd_region (\<lambda>r. r\<lparr>http_real := False\<rparr>) d)
     else if a = ''--http-real'' then Some (upd_region (\<lambda>r. r\<lparr>http_real := True\<rparr>) d)
     else if a = ''--json-events'' then Some (upd_region (\<lambda>r. r\<lparr>json_events := True\<rparr>) d)
     else if a = ''--debug'' then Some (upd_region (\<lambda>r. dbg_init (f_stdin fs) (r\<lparr>json_events := True\<rparr>)) d)
     else None)"

text \<open>What an option with a value says when the value is missing.\<close>

definition value_options :: "(string \<times> string) list" where
  "value_options =
    [(''--http-fixture'', ''a path''), (''--volume'', ''a path''), (''--owner'', ''UUID[:Name]''),
     (''--owner-balance'', ''N''), (''--avatar'', ''UUID:BAL[:Name]''), (''--steps'', ''N''), (''--timeout'', ''SECS''),
     (''--name'', ''a string''), (''--config'', ''a path''), (''--commands'', ''a path'')]"

text \<open>Only \<open>--avatar\<close> can refuse its value.\<close>

definition value_option :: "string \<Rightarrow> string \<Rightarrow> driver \<Rightarrow> driver option" where
  "value_option a v d =
    (if a = ''--http-fixture'' then Some (d\<lparr>fixture_path := Some v\<rparr>)
     else if a = ''--volume'' then Some (d\<lparr>volume_path := v\<rparr>)
     else if a = ''--owner'' then Some (set_owner_arg v d)
     else if a = ''--owner-balance'' then Some (d\<lparr>owner_balance := strtoll 10 v\<rparr>)
     else if a = ''--avatar'' then add_avatar_arg v d
     else if a = ''--steps'' then Some (upd_region (\<lambda>r. r\<lparr>max_steps := sint (strtoll 10 v)\<rparr>) d)
     else if a = ''--timeout'' then Some (upd_region (\<lambda>r. r\<lparr>wall_timeout := strtod v\<rparr>) d)
     else if a = ''--name'' then Some (d\<lparr>object_name := v\<rparr>)
     else if a = ''--config'' then Some (d\<lparr>config_path := Some v\<rparr>)
     else Some (d\<lparr>commands_path := Some v\<rparr>))"

definition err_exit :: "string \<Rightarrow> region \<Rightarrow> int \<times> region" where
  "err_exit msg r = (2, emit_err (''slemu: '' @ msg @ nl) r)"

text \<open>The options up to the first word that is none: an exit, or the words that are left.\<close>

fun parse_options :: "files \<Rightarrow> string \<Rightarrow> string list \<Rightarrow> driver \<Rightarrow> (int \<times> region) + (string list \<times> driver)" where
  "parse_options fs p [] d = Inr ([], d)"
| "parse_options fs p (a # as) d =
    (if a = [] \<or> hd a \<noteq> CHR ''-'' then Inr (a # as, d)
     else if a = ''-h'' \<or> a = ''--help'' then Inl (0, emit (help_text p) (dr_region d))
     else if a = ''--version'' then Inl (0, emit (''slemu '' @ slemu_version @ nl) (dr_region d))
     else if a = ''--'' then Inr (as, d)
     else case flag_option fs a d of Some d' \<Rightarrow> parse_options fs p as d'
     | None \<Rightarrow> (case map_of value_options a of
         None \<Rightarrow> Inl (err_exit (''unrecognised option '' @ [CHR 0x27] @ a @ [CHR 0x27] @ '' (try --help)'') (dr_region d))
       | Some what \<Rightarrow> (case as of
           [] \<Rightarrow> Inl (err_exit (a @ '' needs '' @ what) (dr_region d))
         | v # as' \<Rightarrow> (case value_option a v d of
             None \<Rightarrow> Inl (err_exit (a @ '' format is '' @ what) (dr_region d))
           | Some d' \<Rightarrow> parse_options fs p as' d'))))"

subsection \<open>Start-up\<close>

definition add_owner :: "driver \<Rightarrow> region \<Rightarrow> region" where
  "add_owner d r =
    (let r1 = (case owner_uuid_arg d of
         Some u \<Rightarrow> snd (region_add_avatar u (owner_balance d) (owner_name d) r)
       | None \<Rightarrow> snd (region_add_avatar default_owner (owner_balance d) (Some ''Test Owner'') r))
     in region_set_owner (case owner_uuid_arg d of Some u \<Rightarrow> u | None \<Rightarrow> default_owner)
          (Some (case owner_name d of Some nm \<Rightarrow> nm | None \<Rightarrow> ''Test Owner'')) r1)"

text \<open>The files of the world, in the order the program reads them; \<open>Inl\<close> when one cannot be read.\<close>

definition load_fixtures :: "files \<Rightarrow> driver \<Rightarrow> region \<Rightarrow> (int \<times> region) + region" where
  "load_fixtures fs d r = (case fixture_path d of None \<Rightarrow> Inr r
     | Some path \<Rightarrow> (case f_text fs path of
         None \<Rightarrow> Inl (err_exit (''cannot read fixture '' @ [CHR 0x27] @ path @ [CHR 0x27]) r)
       | Some txt \<Rightarrow> Inr (r\<lparr>http_fix := Some (http_fixture_load txt)\<rparr>)))"

definition load_config :: "files \<Rightarrow> driver \<Rightarrow> region \<Rightarrow> (int \<times> region) + region" where
  "load_config fs d r = (case config_path d of None \<Rightarrow> Inr r
     | Some path \<Rightarrow> (case config_load (f_text fs path) path r of (ok, r) \<Rightarrow> if ok then Inr r else Inl (2, r)))"

definition load_commands :: "files \<Rightarrow> driver \<Rightarrow> region \<Rightarrow> (int \<times> region) + region" where
  "load_commands fs d r = (case commands_path d of None \<Rightarrow> Inr r
     | Some path \<Rightarrow> (case commands_load (f_text fs path) r of (n, r) \<Rightarrow>
         if n < 0 then Inl (err_exit (''cannot read commands '' @ [CHR 0x27] @ path @ [CHR 0x27]) r) else Inr r))"

fun load_scripts :: "files \<Rightarrow> string \<Rightarrow> string list \<Rightarrow> region \<Rightarrow> ((int \<times> region) + region) res" where
  "load_scripts fs nm [] r = Inr (Inr r)"
| "load_scripts fs nm (path # paths) r =
     rbind (region_load_script (f_junk fs) path (f_code fs path) r) (\<lambda>(ok, r).
       if ok then load_scripts fs nm paths (upd_script (n_scripts r - 1) (\<lambda>s. s\<lparr>name := nm\<rparr>) r)
       else Inr (Inl (2, r)))"

fun then_do :: "'e + 'a \<Rightarrow> ('a \<Rightarrow> 'e + 'b) \<Rightarrow> 'e + 'b" where
  "then_do (Inl e) f = Inl e"
| "then_do (Inr x) f = f x"

text \<open>Everything before the scripts are loaded.\<close>

definition set_up :: "files \<Rightarrow> string \<Rightarrow> string list \<Rightarrow> region \<Rightarrow> (int \<times> region) + (string list \<times> driver \<times> region)" where
  "set_up fs p args r =
     then_do (parse_options fs p args (start_driver r)) (\<lambda>(paths, d).
       if paths = [] then Inl (err_exit ''no input scripts'' (dr_region d))
       else case f_volume fs (volume_path d) of
         None \<Rightarrow> Inl (err_exit (''cannot create/open volume '' @ [CHR 0x27] @ volume_path d @ [CHR 0x27]) (dr_region d))
       | Some v \<Rightarrow>
           then_do (load_fixtures fs d (add_owner d (region_set_volume (Some v) (dr_region d)))) (\<lambda>r.
           then_do (load_config fs d r) (\<lambda>r.
           then_do (load_commands fs d r) (\<lambda>r. Inr (paths, d, r)))))"

definition main :: "(string \<Rightarrow> builtin option) \<Rightarrow> nat \<Rightarrow> nat \<Rightarrow> files \<Rightarrow> string \<Rightarrow> string list \<Rightarrow> region \<Rightarrow> (int \<times> region) res" where
  "main lib n k fs p args r =
    (case set_up fs p args r of Inl x \<Rightarrow> Inr x
     | Inr (paths, d, r) \<Rightarrow>
         rbind (load_scripts fs (object_name d) paths r) (\<lambda>x. case x of Inl x \<Rightarrow> Inr x
         | Inr r \<Rightarrow> rbind (region_run lib n k r) (\<lambda>r. Inr (0, dbg_notify_exit r))))"

end
