(* ===== verification/Effects.thy ===== *)
theory Effects
  imports Builtins WorldProps "HOL-Library.Sublist"
begin

unbundle bit_operations_syntax

text \<open>
  What running code may do to the region, as a step relation. \<open>effect i\<close> lists the primitive changes a
  script can make, \<open>i\<close> being the script that runs; \<open>effects i\<close> is its reflexive and transitive closure.
  Every library function, and so every evaluation, is such a sequence, and what every primitive
  change preserves is preserved by every run: invariants follow by induction on the relation.
\<close>

subsection \<open>Primitive changes\<close>

text \<open>Changes of a script to itself: its data, attributes and listens, never its program, key, number,
  queue or pending state. No listen handle appears, and the state, if it changes, is one the program
  has.\<close>

definition own_ok :: "script \<Rightarrow> script \<Rightarrow> bool" where
  "own_ok s s' \<longleftrightarrow> prog s' = prog s \<and> uuid s' = uuid s \<and> link_num s' = link_num s \<and> evq s' = evq s \<and>
     pending_state s' = pending_state s \<and> s_trace s' = s_trace s \<and> detected s' = detected s \<and>
     length (globals s') = length (globals s) \<and>
     subseq (map le_handle (listens s')) (map le_handle (listens s)) \<and>
     (cur_state s' = cur_state s \<or> 0 \<le> cur_state s' \<and> cur_state s' < int (length (p_states (prog s))))"

inductive effect :: "nat \<Rightarrow> region \<Rightarrow> region \<Rightarrow> bool" for i :: nat where
  ef_quiet: "quiet r r' \<Longrightarrow> effect i r r'"
| ef_err: "effect i r (emit_err t r)"
| ef_frames: "effect i r (r\<lparr>frames := fs\<rparr>)"
| ef_own: "(\<And>s. own_ok s (f s)) \<Longrightarrow> effect i r (upd_script i f r)"
| ef_state: "k < length (p_states (prog (script_at r i))) \<Longrightarrow>
    effect i r (upd_script i (\<lambda>s. s\<lparr>pending_state := int k\<rparr>) r)"
| ef_push: "effect i r (script_push_event j nm args r)"
| ef_flush: "effect i r (upd_script i flush_events r)"
| ef_listen: "le_handle e = next_handle r \<Longrightarrow>
    effect i r (upd_script i (\<lambda>s. s\<lparr>listens := e # listens s\<rparr>) (r\<lparr>next_handle := next_handle r + 1\<rparr>))"
| ef_account: "(\<And>a. a \<in> set (avatars r) \<Longrightarrow> av_uuid a = u \<Longrightarrow> balance a = 0) \<Longrightarrow>
    effect i r (snd (region_add_avatar u 0 None r))"
| ef_pay: "s < length (avatars r) \<Longrightarrow> d < length (avatars r) \<Longrightarrow> effect i r (pay s d amt r)"
| ef_vol: "effect i r (r\<lparr>vol := v\<rparr>)"
| ef_counters: "effect i r (r\<lparr>uuid_counter := c, n_rand := b, n_time := a, n_curl := d\<rparr>)"
| ef_sleep: "effect i r (r\<lparr>virtual_offset := x\<rparr>)"
| ef_chat: "effect i r (chatlog_record k ch msg r)"
| ef_dialog: "effect i r (dialog_open i dst msg bs ch tb r)"
| ef_inbound: "effect i r (snd (inbound_register i q r))"

abbreviation effects :: "nat \<Rightarrow> region \<Rightarrow> region \<Rightarrow> bool" where
  "effects i \<equiv> rtranclp (effect i)"

interpretation ef: step_rel "effects i" for i
  by unfold_locales (auto intro: rtranclp_trans)

lemma then_effect: "effects i r r' \<Longrightarrow> effect i r' r'' \<Longrightarrow> effects i r r''"
  by (rule rtranclp.rtrancl_into_rtrancl)

text \<open>Building up \<open>effects\<close> along the operations of a step.\<close>

lemmas effects_quiet = then_effect [OF _ ef_quiet]
  and effects_err = then_effect [OF _ ef_err]
  and effects_frames = then_effect [OF _ ef_frames]
  and effects_own = then_effect [OF _ ef_own]
  and effects_push = then_effect [OF _ ef_push]
  and effects_flush = then_effect [OF _ ef_flush]
  and effects_vol = then_effect [OF _ ef_vol]
  and effects_sleep = then_effect [OF _ ef_sleep]
  and effects_chat = then_effect [OF _ ef_chat]
  and effects_dialog = then_effect [OF _ ef_dialog]

lemma effects_emit: "effects i r r' \<Longrightarrow> effects i r (emit t r')"
  by (rule effects_quiet) auto

lemmas effects_evt = quiet_evt [THEN effects_quiet [rotated]]

lemma effects_counters:
  "effects i r r' \<Longrightarrow> effects i r (r'\<lparr>n_time := a\<rparr>)"
  "effects i r r' \<Longrightarrow> effects i r (r'\<lparr>n_rand := b\<rparr>)"
  "effects i r r' \<Longrightarrow> effects i r (r'\<lparr>n_curl := d\<rparr>)"
  "effects i r r' \<Longrightarrow> effects i r (r'\<lparr>uuid_counter := c, n_rand := b\<rparr>)"
proof -
  have e: "effect i r (r\<lparr>n_time := a\<rparr>)" "effect i r (r\<lparr>n_rand := b\<rparr>)" "effect i r (r\<lparr>n_curl := d\<rparr>)"
    "effect i r (r\<lparr>uuid_counter := c, n_rand := b\<rparr>)" for r
    using ef_counters [where i = i and r = r and a = a and b = "n_rand r" and c = "uuid_counter r" and d = "n_curl r"]
      ef_counters [where i = i and r = r and a = "n_time r" and b = b and c = "uuid_counter r" and d = "n_curl r"]
      ef_counters [where i = i and r = r and a = "n_time r" and b = "n_rand r" and c = "uuid_counter r" and d = d]
      ef_counters [where i = i and r = r and a = "n_time r" and b = b and c = c and d = "n_curl r"]
    by simp_all
  show "effects i r r' \<Longrightarrow> effects i r (r'\<lparr>n_time := a\<rparr>)"
    "effects i r r' \<Longrightarrow> effects i r (r'\<lparr>n_rand := b\<rparr>)"
    "effects i r r' \<Longrightarrow> effects i r (r'\<lparr>n_curl := d\<rparr>)"
    "effects i r r' \<Longrightarrow> effects i r (r'\<lparr>uuid_counter := c, n_rand := b\<rparr>)"
    by (erule then_effect, rule e)+
qed

lemma effects_fold:
  "effects i r r' \<Longrightarrow> (\<And>x r. effects i r (f x r)) \<Longrightarrow> effects i r (fold f xs r')"
proof (induction xs arbitrary: r')
  case (Cons x xs)
  from rtranclp_trans [OF Cons.prems(1) Cons.prems(2) [of r' x]] show ?case
    using Cons.IH Cons.prems(2) by simp
qed simp

lemma effects_if: "(c \<Longrightarrow> effects i r x) \<Longrightarrow> (\<not> c \<Longrightarrow> effects i r y) \<Longrightarrow> effects i r (if c then x else y)"
  by simp

lemmas effects_intros = rtranclp.rtrancl_refl effects_err effects_emit effects_push effects_flush
  effects_vol effects_sleep effects_chat effects_dialog effects_evt effects_counters effects_fold effects_if

lemma own_ok_refl [simp]: "own_ok s s"
  by (simp add: own_ok_def)


subsection \<open>Library functions\<close>

definition effective :: "builtin \<Rightarrow> bool" where
  "effective b \<longleftrightarrow> (\<forall>ev i a. (\<forall>e. keeps (effects i) (ev e)) \<longrightarrow> keeps (effects i) (b ev i a))"

lemma effectiveI:
  assumes "\<And>ev i a r v r'. b ev i a r = Inr (v, r') \<Longrightarrow> effects i r r'"
  shows "effective b"
  using assms unfolding effective_def keeps_def by blast

named_theorems eff "library functions that only have the listed effects"

lemma eff_pure [eff]: "effective (pure_bi f)" "effective (partial_bi g)" "effective (read_bi h)"
  by (rule effectiveI, auto simp: pure_bi_def partial_bi_def read_bi_def rbind_eq_Inr)+

lemma eff_step: "(\<And>i a r. effects i r (snd (f i a r))) \<Longrightarrow> effective (step_bi f)"
proof (rule effectiveI)
  fix ev i a r v r' assume f: "\<And>i a r. effects i r (snd (f i a r))" and "step_bi f ev i a r = Inr (v, r')"
  then have "f i a r = (v, r')" by (simp add: step_bi_def)
  with f [of i r a] show "effects i r r'" by simp
qed

lemma push_listens_effects: "effects i r r' \<Longrightarrow> effects i r (push_listens hit args t r')"
  unfolding push_listens_def by (rule effects_fold) (auto intro: effects_push)

lemma route_listen_effects: "effects i r r' \<Longrightarrow> effects i r (route_listen ch nm key msg r')"
  unfolding route_listen_def by (rule effects_fold) (auto intro: push_listens_effects)

lemma say_on_effects: "effects i r (say_on kind i ch msg r)"
  unfolding say_on_def by (intro route_listen_effects effects_chat effects_evt rtranclp.rtrancl_refl)

lemmas effects_all = effects_intros push_listens_effects route_listen_effects say_on_effects

lemma eff_chat [eff]:
  "effective (step_bi bi_llSay)" "effective (step_bi bi_llWhisper)"
  "effective (step_bi bi_llShout)" "effective (step_bi bi_llRegionSay)"
  "effective (step_bi bi_llOwnerSay)" "effective (step_bi bi_llRegionSayTo)"
  "effective (step_bi bi_llInstantMessage)" "effective (step_bi bi_llDialog)"
  "effective (step_bi bi_llTextBox)" "effective (step_bi bi_llLoadURL)"
  by (rule eff_step; simp add: bi_llSay_def bi_llWhisper_def bi_llShout_def bi_llRegionSay_def
      bi_llOwnerSay_def bi_llRegionSayTo_def bi_llInstantMessage_def bi_llDialog_def bi_llTextBox_def
      bi_llLoadURL_def Let_def; intro effects_all)+

lemma eff_object [eff]:
  "effective (step_bi bi_llGetUnixTime)" "effective (step_bi bi_llGetTimestamp)"
  "effective (step_bi bi_llGetDate)" "effective (step_bi bi_llGetWallclock)"
  "effective (step_bi bi_llSleep)" "effective (step_bi bi_llFrand)"
  by (rule eff_step; simp add: bi_llGetUnixTime_def bi_llGetTimestamp_def bi_llGetDate_def
      bi_llGetWallclock_def bi_llSleep_def bi_llFrand_def next_time_def; intro effects_all)+

lemma subseq_handles: "subseq (map le_handle (remove_first P ls)) (map le_handle ls)"
  by (induction ls) auto

lemma handles_control: "le_handle \<circ> (\<lambda>e. if le_handle e = h then e\<lparr>le_active := on\<rparr> else e) = le_handle"
  by (simp add: fun_eq_iff)

lemma eff_setters [eff]:
  "effective (step_bi bi_llSetTimerEvent)" "effective (step_bi bi_llSetObjectName)"
  "effective (step_bi bi_llSetObjectDesc)" "effective (step_bi bi_llRequestPermissions)"
  "effective (step_bi bi_llListenRemove)" "effective (step_bi bi_llListenControl)"
  by (rule eff_step, auto simp: bi_llSetTimerEvent_def bi_llSetObjectName_def bi_llSetObjectDesc_def
      bi_llListenRemove_def bi_llListenControl_def bi_llRequestPermissions_def Let_def own_ok_def
      subseq_handles handles_control intro!: effects_all effects_own)+

lemma eff_message [eff]: "effective (step_bi bi_llMessageLinked)"
  by (rule eff_step; simp add: bi_llMessageLinked_def Let_def; intro effects_all)

lemma eff_set_text [eff]: "effective (step_bi bi_llSetText)"
  by (rule eff_step)
    (auto simp: bi_llSetText_def Let_def own_ok_def split: prod.splits intro!: effects_all effects_own)

lemma upd_script_twice: "upd_script i f (upd_script i g r) = upd_script i (\<lambda>s. f (g s)) r"
  by (simp add: upd_script_def update_nth_def)

lemma eff_die [eff]: "effective (step_bi bi_llDie)"
proof (rule eff_step)
  fix i a and r :: region
  have "upd_script i (\<lambda>s. (flush_events s)\<lparr>timer_interval := d_zero\<rparr>) r =
      upd_script i (\<lambda>s. s\<lparr>timer_interval := d_zero\<rparr>) (upd_script i flush_events r)" for r
    by (simp add: upd_script_def update_nth_def)
  then show "effects i r (snd (bi_llDie i a r))"
    by (auto simp: bi_llDie_def own_ok_def intro!: effects_own effects_all)
qed

lemma eff_listen [eff]: "effective (step_bi bi_llListen)"
  by (rule eff_step) (auto simp: bi_llListen_def Let_def intro!: r_into_rtranclp ef_listen)

lemma ensure_avatar_effects:
  assumes "ensure_avatar (find_last_avatar r0 u) u r = (j, r')" and "opens_account r0 r"
  shows "effects i r r'"
proof (cases "find_last_avatar r0 u")
  case None
  have "effect i r (snd (region_add_avatar u 0 None r))"
  proof (rule ef_account)
    fix a assume "a \<in> set (avatars r)" "av_uuid a = u"
    with None assms(2) show "balance a = 0"
      by (auto simp: find_last_avatar_None opens_account_def av_keys_def)
  qed
  with None assms(1) show ?thesis by (auto simp: ensure_avatar_def)
next
  case (Some k)
  with assms(1) show ?thesis by (simp add: ensure_avatar_def)
qed

lemma ensure_avatar_opens: "ensure_avatar (find_last_avatar r u) u r = (k, r') \<Longrightarrow> opens_account r r'"
  using add_avatar_zero [of r u]
  by (auto simp: ensure_avatar_def find_last_avatar_None av_keys_def opens_account_refl split: option.splits)

lemma give_money_effects:
  assumes "give_money j a r = (ok, r')"
  shows "effects i r r'"
proof (cases "perms (script_at r j) AND permission_debit = 0")
  case True
  with assms show ?thesis by (auto simp: give_money_def intro!: effects_intros)
next
  case False
  obtain di r1 where d: "ensure_avatar (find_last_avatar r (as_str a 0)) (as_str a 0) r = (di, r1)" by fastforce
  obtain oi r2 where o: "ensure_avatar (find_last_avatar r (owner_uuid r)) (owner_uuid r) r1 = (oi, r2)" by fastforce
  have "effects i r r1" using d by (rule ensure_avatar_effects) (rule opens_account_refl)
  also have "effects i r1 r2" using o ensure_avatar_opens [OF d] by (rule ensure_avatar_effects)
  finally have 2: "effects i r r2" .
  have "effects i r2 (pay oi di (ai a 1) r2)"
    using parties [OF d o] by (intro r_into_rtranclp ef_pay)
  with 2 have "effects i r (pay oi di (ai a 1) r2)" by (rule rtranclp_trans)
  with 2 assms False d o show ?thesis
    by (auto simp: give_money_def Let_def split: if_splits intro!: effects_err effects_evt)
qed

lemma gen_uuid_effects: "gen_uuid r = (u, r') \<Longrightarrow> effects i r r'"
  by (auto simp: gen_uuid_def Let_def intro!: effects_counters rtranclp.rtrancl_refl)

lemma eff_money [eff]:
  "effective (step_bi bi_llGiveMoney)" "effective (step_bi bi_llTransferLindenDollars)"
  by (rule eff_step; auto simp: bi_llGiveMoney_def bi_llTransferLindenDollars_def split: prod.splits
      dest!: give_money_effects gen_uuid_effects intro!: effects_push intro: rtranclp_trans)+

lemma lsd_delete_effects: "effects i r r' \<Longrightarrow> effects i r (snd (lsd_delete j k r'))"
  by (auto simp: lsd_delete_def split: option.splits prod.splits intro!: effects_all)

lemma with_vol_effects:
  "(\<And>v. vol r = Some v \<Longrightarrow> effects i r (snd (f v r))) \<Longrightarrow> effects i r (snd (with_vol d f r))"
  by (simp add: with_vol_def split: option.split)

lemma eff_lsd [eff]:
  "effective (step_bi bi_llLinksetDataWrite)" "effective (step_bi bi_llLinksetDataDelete)"
  "effective (step_bi bi_llLinksetDataReset)"
proof -
  show "effective (step_bi bi_llLinksetDataWrite)"
    by (rule eff_step) (auto simp: bi_llLinksetDataWrite_def Let_def split: prod.splits
        intro!: with_vol_effects effects_all)
  have "effects i r (snd (case lsd_delete i k r of (ok, r') \<Rightarrow> (f ok, r')))" for r i k and f :: "bool \<Rightarrow> svalue"
    using lsd_delete_effects [OF rtranclp.rtrancl_refl, of i r i k] by (auto split: prod.splits)
  then show "effective (step_bi bi_llLinksetDataDelete)"
    by (intro eff_step) (auto simp: bi_llLinksetDataDelete_def intro!: with_vol_effects)
  show "effective (step_bi bi_llLinksetDataReset)"
    by (rule eff_step) (auto simp: bi_llLinksetDataReset_def intro!: with_vol_effects effects_all lsd_delete_effects)
qed

lemma eff_url [eff]: "effective (step_bi bi_llRequestURL)"
proof (rule eff_step)
  fix i a and r :: region
  obtain k r1 where g: "gen_uuid r = (k, r1)" by fastforce
  have "effects i r (snd (inbound_register i k r1))"
    by (rule then_effect [OF gen_uuid_effects [OF g] ef_inbound])
  then show "effects i r (snd (bi_llRequestURL i a r))"
    by (auto simp: bi_llRequestURL_def g split: prod.splits intro!: effects_push)
qed

lemma shuffle_effects: "fold (shuffle_step st) is (xs, r) = (ys, r') \<Longrightarrow> effects i r r'"
proof (induction "is" arbitrary: xs r)
  case (Cons j "is")
  obtain zs r1 where 1: "shuffle_step st j (xs, r) = (zs, r1)" by fastforce
  then have "effects i r r1" by (auto simp: shuffle_step_def Let_def intro!: effects_counters)
  with Cons 1 show ?case by (auto intro: rtranclp_trans)
qed simp

lemma eff_randomize [eff]: "effective (step_bi bi_llListRandomize)"
proof (rule eff_step)
  fix i a and r :: region
  show "effects i r (snd (bi_llListRandomize i a r))"
    by (auto simp: bi_llListRandomize_def Let_def split: option.split prod.splits dest!: shuffle_effects)
qed

lemma eff_stub [eff]: "effective (stub v)" "effective (stub_prim_set nm v)"
  "effective (stub_agent_data nm v)" "effective stub_rez"
  by (auto simp: stub_def stub_prim_set_def stub_agent_data_def stub_rez_def
      intro!: eff_pure eff_step effects_all)

lemma eff_report [eff]: "effective bi_llSetPos" "effective bi_llSetRot"
  by (rule effectiveI;
      force simp: bi_llSetPos_def bi_llSetRot_def set_report_def rbind_eq_Inr split: if_splits
        intro: effects_emit)+

lemma http_request_effects:
  assumes h: "http_request i url ps body r = Inr (k, r')"
  shows "effects i r r'"
proof -
  obtain u r1 where g: "gen_uuid r = (u, r1)" by fastforce
  have c: "effects i r1 r2" if "real_http_get url body ps r1 = Inr (x, r2)" for x r2
    using that by (auto simp: real_http_get_def rbind_eq_Inr Let_def intro!: effects_counters)
  have "effects i r1 r'"
    using h by (auto simp: http_request_def g rbind_eq_Inr split: if_splits dest!: c
        intro!: effects_evt effects_push)
  with gen_uuid_effects [OF g] show ?thesis by (rule rtranclp_trans)
qed

lemma eff_http [eff]: "effective bi_llHTTPRequest"
  by (rule effectiveI) (auto simp: bi_llHTTPRequest_def rbind_eq_Inr dest: http_request_effects)

lemma set_global_effects:
  "effects i r r' \<Longrightarrow> effects i r (upd_script i (\<lambda>s. s\<lparr>globals := (globals s)[k := v]\<rparr>) r')"
  by (erule effects_own) (simp add: own_ok_def)

lemma reset_globals_effects:
  assumes ev: "\<And>e. keeps (effects i) (ev e)"
  shows "reset_globals ev i k gs r = Inr r' \<Longrightarrow> effects i r r'"
proof (induction gs arbitrary: k r)
  case (Cons g gs)
  show ?case
  proof (cases "gv_init g = E_NULL")
    case True
    with Cons show ?thesis by simp
  next
    case False
    with Cons.prems obtain v r1 where 1: "ev (gv_init g) r = Inr (v, r1)"
      and 2: "reset_globals ev i (Suc k) gs (upd_script i (\<lambda>s. s\<lparr>globals := (globals s)[k := v]\<rparr>) r1) = Inr r'"
      by (auto simp: rbind_eq_Inr)
    show ?thesis using set_global_effects [OF keepsD [OF ev 1]] Cons.IH [OF 2] by (rule rtranclp_trans)
  qed
qed simp

lemma default_state_lt: "default_state p = Some k \<Longrightarrow> k < length (p_states p)"
  by (auto simp: default_state_def dest: find_index_lt)

lemma eff_reset [eff]: "effective bi_llResetScript"
  unfolding effective_def keeps_def
proof (intro allI impI)
  fix ev :: evaluator and i a r v r'
  assume ev: "\<forall>e r a r'. ev e r = Inr (a, r') \<longrightarrow> effects i r r'" and b: "bi_llResetScript ev i a r = Inr (v, r')"
  let ?r = "upd_script i (\<lambda>s. s\<lparr>globals := map (\<lambda>_. SVoid) (globals s)\<rparr>) r"
  let ?f = "\<lambda>s. s\<lparr>cur_state := (case default_state (prog s) of Some k \<Rightarrow> int k | None \<Rightarrow> cur_state s)\<rparr>"
  obtain r1 where 1: "reset_globals ev i 0 (p_globals (prog (script_at r i))) ?r = Inr r1"
    and r': "r' = script_push_event i ''state_entry'' [] (upd_script i reset_state r1)"
    using b by (auto simp: bi_llResetScript_def rbind_eq_Inr)
  have "effects i r ?r" by (intro effects_own rtranclp.rtrancl_refl) (simp add: own_ok_def)
  also have "effects i ?r r1" using ev by (intro reset_globals_effects [OF _ 1]) (simp add: keeps_def)
  finally have "effects i r (upd_script i ?f (upd_script i flush_events r1))"
    by (intro effects_own effects_flush) (auto simp: own_ok_def default_state_lt split: option.split)
  moreover have "upd_script i reset_state r1 = upd_script i ?f (upd_script i flush_events r1)"
    unfolding upd_script_twice by (rule arg_cong [where f = "\<lambda>f. upd_script i f r1"])
      (simp add: fun_eq_iff reset_state_def flush_events_def split: option.split)
  ultimately show "effects i r r'" unfolding r' by (auto intro: effects_push)
qed

definition eff_table :: "(string \<times> builtin) list \<Rightarrow> bool" where
  "eff_table t \<longleftrightarrow> list_all (\<lambda>(nm, b). effective b) t"

lemma eff_table_append [simp]: "eff_table (s @ t) \<longleftrightarrow> eff_table s \<and> eff_table t"
  by (simp add: eff_table_def)

lemma eff_tables:
  "eff_table io_table" "eff_table string_table" "eff_table list_table" "eff_table math_table"
  "eff_table object_table" "eff_table region_table" "eff_table lsd_table" "eff_table encoding_table"
  "eff_table json_table" "eff_table net_table" "eff_table (map (\<lambda>(nm, v). (nm, stub v)) world_constants)"
  by (simp_all add: eff_table_def io_table_def string_table_def list_table_def math_table_def
      object_table_def region_table_def lsd_table_def encoding_table_def json_table_def net_table_def
      world_constants_def memory_constants_def url_constants_def eff)

lemma eff_stub_tables:
  "eff_table stubs_1" "eff_table stubs_2" "eff_table stubs_3" "eff_table stubs_4" "eff_table stubs_5"
  "eff_table stubs_6" "eff_table stubs_7" "eff_table stubs_8" "eff_table stubs_9"
  unfolding eff_table_def
  by (simp_all only: list.pred_inject prod.case eff simp_thms stubs_1_def stubs_2_def stubs_3_def
      stubs_4_def stubs_5_def stubs_6_def stubs_7_def stubs_8_def stubs_9_def)

lemma lookup_effective: "builtins_lookup nm = Some b \<Longrightarrow> effective b"
proof -
  have "eff_table builtin_table"
    unfolding builtin_table_def stub_rows_a_def stub_rows_b_def eff_table_append by (intro conjI eff_tables eff_stub_tables)
  then show "builtins_lookup nm = Some b \<Longrightarrow> effective b"
    by (auto simp: builtins_lookup_def eff_table_def list_all_iff dest: map_of_SomeD)
qed

subsection \<open>The interpreter\<close>

lemma upd_top_effects: "effects i r r' \<Longrightarrow> effects i r (upd_top f r')"
  by (cases "frames r'") (auto simp: upd_top_def intro: effects_frames)

lemma frame_push_effects: "effects i r r' \<Longrightarrow> effects i r (frame_push f r')"
  unfolding frame_push_def by (rule effects_frames)

lemma frame_pop_effects: "effects i r r' \<Longrightarrow> effects i r (frame_pop r')"
  by (auto simp: frame_pop_def Let_def split: list.split
      intro!: effects_frames effects_quiet [OF _ quiet_upd_dbg])

lemma set_cell_effects: "effects i r r' \<Longrightarrow> effects i r (set_cell i c v r')"
  by (cases c) (auto simp: set_cell_def intro: upd_top_effects set_global_effects)

lemma statechg_effects: "effects i r (exec_statechg i nm r)"
proof (cases "find_state (prog (script_at r i)) (prog_str (prog (script_at r i)) nm)")
  case (Some k)
  then have "k < length (p_states (prog (script_at r i)))" by (auto simp: find_state_def)
  with Some show ?thesis by (auto simp: exec_statechg_def Let_def intro!: r_into_rtranclp ef_state)
qed (simp add: exec_statechg_def Let_def)

lemma assign_lval_effects: "assign_lval i lv v r = (w, r') \<Longrightarrow> effects i r r'"
  by (auto simp: assign_lval_def Let_def split: lval.splits if_splits intro!: set_cell_effects)

lemma bind_args_effects:
  assumes ev: "\<And>e. keeps (effects i) (ev e)"
  shows "bind_args ev ps es f r = Inr (f', r') \<Longrightarrow> effects i r r'"
  using ev
proof (induction ev ps es f r arbitrary: f' r' rule: bind_args.induct)
  case (1 ev p ps e es f r)
  then obtain v r1 where e: "ev e r = Inr (v, r1)"
    and b: "bind_args ev ps es (frame_define (pm_name p) (coerce v (type_byte (pm_type p))) f) r1 = Inr (f', r')"
    by (auto simp: rbind_eq_Inr)
  have "effects i r r1" using keepsD [OF "1.prems"(2) e] .
  moreover from "1.IH" [OF e HOL.refl b "1.prems"(2)] have "effects i r1 r'" .
  ultimately show ?case by (rule rtranclp_trans)
qed simp_all

lemma run_user_func_effects:
  assumes ev: "\<And>e. keeps (effects i) (ev e)" and ex: "\<And>s. keeps (effects i) (ex s)"
  shows "keeps (effects i) (run_user_func ev ex fd args)"
  unfolding keeps_def
proof (intro allI impI)
  fix r v r' assume "run_user_func ev ex fd args r = Inr (v, r')"
  then obtain f r1 rc r2 where
    b: "bind_args ev (fd_params fd) args new_frame r = Inr (f, r1)" and
    x: "ex (fd_body fd) (frame_push f r1) = Inr (rc, r2)" and r': "r' = frame_pop r2"
    by (auto simp: run_user_func_def rbind_eq_Inr)
  have "effects i r (frame_push f r1)" using bind_args_effects [OF ev b] by (rule frame_push_effects)
  also note keepsD [OF ex x]
  finally show "effects i r r'" unfolding r' by (rule frame_pop_effects)
qed

locale effect_library =
  fixes lib :: "string \<Rightarrow> builtin option"
  assumes lib_effects:
    "lib nm = Some b \<Longrightarrow> (\<And>e. keeps (effects i) (ev e)) \<Longrightarrow> keeps (effects i) (b ev i args)"
begin

lemma eval_call_effects:
  assumes ev: "\<And>e. keeps (effects i) (ev e)" and ex: "\<And>s. keeps (effects i) (ex s)"
  shows "keeps (effects i) (eval_call lib ev ex i nm args)"
  unfolding keeps_def
proof (intro allI impI)
  fix r v r' assume c: "eval_call lib ev ex i nm args r = Inr (v, r')"
  show "effects i r r'"
  proof (cases "find_func (prog (script_at r i)) nm")
    case (Some fd)
    with c keepsD [OF run_user_func_effects [OF ev ex]] show ?thesis by (simp add: eval_call_def)
  next
    case None
    with c obtain vs r1 where a: "eval_list ev args r = Inr (vs, r1)"
      by (auto simp: eval_call_def rbind_eq_Inr)
    have 1: "effects i r r1" using keepsD [OF ef.eval_list_keeps [OF ev] a] .
    have "effects i r1 r'"
    proof (cases "lib (prog_str (prog (script_at r1 i)) nm)")
      case (Some b)
      with c None a have "b ev i vs r1 = Inr (v, r')" by (simp add: eval_call_def)
      then show ?thesis using keepsD [OF lib_effects [where ev = ev, OF Some ev]] by blast
    next
      case None
      with c \<open>find_func _ nm = None\<close> a show ?thesis
        by (auto simp: eval_call_def intro!: effects_err)
    qed
    with 1 show ?thesis by (rule rtranclp_trans)
  qed
qed

lemma eval_body_effects:
  assumes ev: "\<And>e. keeps (effects i) (ev e)" and ex: "\<And>s. keeps (effects i) (ex s)"
  shows "keeps (effects i) (eval_body lib ev ex i e)"
proof -
  have comp: "keeps (effects i) (eval_component ev e)" for e
    unfolding eval_component_def by (intro ef.intros ev)
  note lst = ef.eval_list_keeps [OF ev] and cl = eval_call_effects [OF ev ex]
  have un: "keeps (effects i) (eval_unary ev i op a)" for op a
  proof -
    have "keeps (effects i) (eval_incdec i op a)"
      by (auto simp: keeps_def eval_incdec_def Let_def split: lval.splits svalue.splits
          intro!: set_cell_effects)
    moreover have "keeps (effects i) (\<lambda>r. rbind (ev a r) (\<lambda>(v, r). Inr (unary_value op v, r)))"
      by (intro ef.intros ev)
    ultimately show ?thesis unfolding eval_unary_def by (intro keeps_if)
  qed
  have po: "keeps (effects i) (eval_postfix i op a)" for op a
    by (auto simp: keeps_def eval_postfix_def Let_def split: lval.splits intro!: set_cell_effects)
  have bi: "keeps (effects i) (eval_binop ev op a b)" for op a b
    unfolding eval_binop_def by (intro ef.intros ev)
  have as: "keeps (effects i) (eval_assign ev i op a b)" for op a b
    unfolding keeps_def eval_assign_def Let_def
    by (auto simp: rbind_eq_Inr dest!: keepsD [OF ev] assign_lval_effects intro: rtranclp_trans)
  show ?thesis
  proof (cases e)
    case (E_STRING_LIT h k)
    then show ?thesis by (cases h) (auto simp: keeps_def eval_body_def rbind_eq_Inr)
  qed (auto simp: eval_body_def [abs_def] intro!: ef.intros ev comp lst cl un po bi as)
qed

lemma exec_body_effects:
  assumes ev: "\<And>e. keeps (effects i) (ev e)" and ex: "\<And>s. keeps (effects i) (ex s)"
  shows "keeps (effects i) (exec_body ev ex k i st)"
proof -
  have top: "keeps (effects i) (\<lambda>r. Inr (rc, upd_top g r))" for rc :: 'c and g
    by (auto simp: keeps_def intro: upd_top_effects)
  have pre: "keeps (effects i) (\<lambda>r. m (upd_top g r))" if "keeps (effects i) m" for m :: "'b act" and g
    using that rtranclp_trans [OF upd_top_effects [OF rtranclp.rtrancl_refl]] unfolding keeps_def by blast
  have blk: "keeps (effects i) (block_loop ex i all k ss)" for all ss
    by (intro ef.block_keeps ex upd_top_effects rtranclp.rtrancl_refl)
  have decl: "keeps (effects i) (exec_decl ev t nm e)" for t nm e
    unfolding exec_decl_def Let_def by (intro ef.bind_keeps keeps_if ef.return_keeps ev top)
  have ret: "keeps (effects i) (exec_return ev hv e)" for hv e
    unfolding exec_return_def [abs_def]
    by (intro keeps_if ef.return_keeps top ef.bind_keeps pre [OF ev])
  have chg: "keeps (effects i) (\<lambda>r. Inr (2, exec_statechg i nm r))" for nm
    by (auto simp: keeps_def intro: statechg_effects)
  have for_st: "keeps (effects i) (\<lambda>r. rbind (eval_list ev ini (upd_top frame_enter r)) (\<lambda>(vs, r).
      rbind (for_loop ev ex i c ps b loop_limit r) (\<lambda>(rc, r). Inr (0, upd_top frame_leave r))))"
    for ini c ps b
    using pre [OF ef.eval_list_keeps [OF ev]]
    by (rule ef.bind_keeps) (rule ef.bind_keeps [OF ef.for_keeps [OF ev ex] top])
  have blk_st: "keeps (effects i) (\<lambda>r. rbind (block_loop ex i ss k ss (upd_top frame_enter r))
      (\<lambda>(rc, r). Inr (0, upd_top frame_leave r)))" for ss
    using pre [OF blk] by (rule ef.bind_keeps) (rule top)
  have core: "keeps (effects i) (exec_switch ev ex k i st)"
    unfolding exec_switch_def [abs_def]
    by (cases st) (auto intro!: ef.intros ev ex decl ret chg blk_st for_st ef.while_keeps ef.do_keeps top)
  have hook: "effects i r (stmt_hook i l r)" for r l
    by (simp add: stmt_hook_def r_into_rtranclp ef_quiet)
  show ?thesis
    unfolding keeps_def exec_body_def
    by (auto split: if_splits intro: rtranclp_trans [OF hook keepsD [OF core]])
qed

lemma vm_effects: "keeps (effects i) (vm_eval lib n i e) \<and> keeps (effects i) (vm_exec lib n i st)"
proof (induction n arbitrary: e st)
  case 0
  show ?case by (simp add: keeps_def)
next
  case (Suc n)
  have "keeps (effects i) (eval_body lib (\<lambda>e r. vm_eval lib n i e r) (\<lambda>s r. vm_exec lib n i s r) i e)"
    "keeps (effects i) (exec_body (\<lambda>e r. vm_eval lib n i e r) (\<lambda>s r. vm_exec lib n i s r) n i st)"
    using Suc by (auto intro!: eval_body_effects exec_body_effects)
  then show ?case by (simp add: keeps_def)
qed

lemmas vm_eval_effects = vm_effects [THEN conjunct1, THEN keepsD]
  and vm_exec_effects = vm_effects [THEN conjunct2, THEN keepsD]

lemma vm_dispatch_effects:
  assumes "vm_dispatch lib n i ed args r = Inr r'"
  shows "effects i r r'"
proof -
  obtain rc r1 where
    x: "vm_exec lib n i (ed_body ed) (frame_push (bind_values (ed_params ed) args new_frame) r) = Inr (rc, r1)"
    and r': "r' = frame_pop r1"
    using assms by (auto simp: vm_dispatch_def rbind_eq_Inr)
  have "effects i r (frame_push (bind_values (ed_params ed) args new_frame) r)"
    by (intro frame_push_effects rtranclp.rtrancl_refl)
  also note vm_exec_effects [OF x]
  finally show ?thesis unfolding r' by (rule frame_pop_effects)
qed

end

interpretation el: effect_library builtins_lookup
  by unfold_locales (use lookup_effective in \<open>auto simp: effective_def\<close>)

end
