(* ===== verification/RunProps.thy ===== *)
theory RunProps
  imports RegionLoop Effects
begin

text \<open>
  What a run of the region preserves. The invariants of a script's own code follow by induction on
  \<open>effect\<close>; the relation \<open>world\<close> adds the steps of the main loop and of the commands, and every run
  is a sequence of them.
\<close>

subsection \<open>What a script's code preserves\<close>

text \<open>The fields of a region only the driver sets, and the ones that only grow.\<close>

definition fixed_fields :: "region \<Rightarrow> region \<Rightarrow> bool" where
  "fixed_fields r r' \<longleftrightarrow> max_steps r' = max_steps r \<and> command_lines r' = command_lines r \<and>
     next_command r' = next_command r \<and> n_scripts r' = n_scripts r \<and> host r' = host r \<and>
     wall_timeout r' = wall_timeout r \<and> virtual_now r' = virtual_now r \<and>
     (n_steps r' = n_steps r \<or> n_steps r' = max_steps r + 1)"

lemma quiet_fixed: "quiet r r' \<Longrightarrow> fixed_fields r r'"
  by (auto simp: quiet_def fixed_fields_def n_scripts_def)

lemma fixed_fields_refl [simp]: "fixed_fields r r"
  by (simp add: fixed_fields_def)

lemma fixed_fields_trans: "fixed_fields r r' \<Longrightarrow> fixed_fields r' r'' \<Longrightarrow> fixed_fields r r''"
  by (auto simp: fixed_fields_def)

lemma upd_script_len [simp]: "length (scripts (upd_script i f r)) = length (scripts r)"
    "wall_timeout (upd_script i f r) = wall_timeout r"
  by (simp_all add: upd_script_def)

lemma add_avatar_fixed: "fixed_fields r (snd (region_add_avatar u b nm r))"
  by (auto simp: region_add_avatar_def upd_avatar_def fixed_fields_def n_scripts_def split: option.split)

lemma effect_fixed: "effect i r r' \<Longrightarrow> fixed_fields r r'"
proof (induction rule: effect.induct)
  case (ef_account r u)
  then show ?case by (simp add: add_avatar_fixed)
next
  case (ef_quiet r r')
  then show ?case by (rule quiet_fixed)
qed (simp_all add: script_push_event_def pay_def upd_avatar_def chatlog_record_def dialog_open_def
    inbound_register_def Let_def emit_err_def fixed_fields_def n_scripts_def)

lemma effects_fixed: "effects i r r' \<Longrightarrow> fixed_fields r r'"
  by (induction rule: rtranclp_induct) (auto intro: effect_fixed fixed_fields_trans)

text \<open>The sum of all balances.\<close>

lemma effect_total: "effect i r r' \<Longrightarrow> total_money r' = total_money r"
proof (induction rule: effect.induct)
  case (ef_account r u)
  then show ?case by (intro opens_account_total add_avatar_zero) simp
next
  case (ef_pay s r d amt)
  then show ?case by (rule total_money_pay)
qed (simp_all add: total_money_def quiet_fields chatlog_record_def dialog_open_def inbound_register_def
    Let_def emit_err_def script_push_event_def)

lemma effects_total: "effects i r r' \<Longrightarrow> total_money r' = total_money r"
  by (induction rule: rtranclp_induct) (auto dest: effect_total)

text \<open>The keys of the avatars stay distinct, and nobody leaves.\<close>

definition keys_grow :: "region \<Rightarrow> region \<Rightarrow> bool" where
  "keys_grow r r' \<longleftrightarrow> (\<exists>new. av_keys r' = av_keys r @ new) \<and> (distinct (av_keys r) \<longrightarrow> distinct (av_keys r'))"

lemma keys_grow_same: "av_keys r' = av_keys r \<Longrightarrow> keys_grow r r'"
  by (simp add: keys_grow_def)

lemma keys_grow_trans: "keys_grow r r' \<Longrightarrow> keys_grow r' r'' \<Longrightarrow> keys_grow r r''"
  by (auto simp: keys_grow_def)

lemma effect_keys: "effect i r r' \<Longrightarrow> keys_grow r r'"
proof (induction rule: effect.induct)
  case (ef_account r u)
  then show ?case by (simp add: keys_grow_def av_keys_add_avatar)
next
  case (ef_pay s r d amt)
  then show ?case by (intro keys_grow_same) (simp add: pay_def av_keys_upd_avatar)
qed (rule keys_grow_same, simp add: av_keys_def quiet_fields chatlog_record_def dialog_open_def
    inbound_register_def Let_def emit_err_def script_push_event_def)+

lemma effects_keys: "effects i r r' \<Longrightarrow> keys_grow r r'"
  by (induction rule: rtranclp_induct) (auto intro: effect_keys keys_grow_trans keys_grow_same)

text \<open>Other scripts: only their queues grow.\<close>

definition queue_grows :: "script \<Rightarrow> script \<Rightarrow> bool" where
  "queue_grows s s' \<longleftrightarrow> (\<exists>es. s' = s\<lparr>evq := evq s @ es\<rparr>)"

lemma queue_grows_refl [simp]: "queue_grows s s"
  unfolding queue_grows_def by (rule exI [of _ "[]"]) simp

lemma queue_grows_trans: "queue_grows s s' \<Longrightarrow> queue_grows s' s'' \<Longrightarrow> queue_grows s s''"
  by (auto simp: queue_grows_def)

lemma queue_grows_enqueue: "queue_grows s (enqueue e s)"
  unfolding queue_grows_def enqueue_def by blast

lemma add_avatar_scripts [simp]: "scripts (snd (region_add_avatar u b nm r)) = scripts r"
  by (auto simp: region_add_avatar_def upd_avatar_def split: option.split)

lemma effect_others:
  "effect i r r' \<Longrightarrow> j \<noteq> i \<Longrightarrow> j < n_scripts r \<Longrightarrow> queue_grows (script_at r j) (script_at r' j)"
proof (induction rule: effect.induct)
  case (ef_push r k nm args)
  then show ?case
    by (cases "k = j") (simp_all add: script_push_event_def queue_grows_enqueue)
next
  case (ef_listen e r)
  then show ?case by (simp add: script_at_def upd_script_def nth_update_nth)
qed (simp_all add: quiet_fields chatlog_record_def dialog_open_def inbound_register_def pay_def
    upd_avatar_def Let_def emit_err_def script_at_def upd_script_def nth_update_nth)

lemma effects_others:
  assumes "effects i r r'" "j \<noteq> i" "j < n_scripts r"
  shows "queue_grows (script_at r j) (script_at r' j)"
  using assms(1)
proof (induction rule: rtranclp_induct)
  case (step r1 r2)
  have "j < n_scripts r1" using effects_fixed [OF step(1)] assms(3) by (simp add: fixed_fields_def)
  with step effect_others assms(2) show ?case by (blast intro: queue_grows_trans)
qed simp

text \<open>The current and the pending state of a script are states of its program, or -1 for none.\<close>

definition state_ok :: "script \<Rightarrow> bool" where
  "state_ok s \<longleftrightarrow> - 1 \<le> cur_state s \<and> cur_state s < int (length (p_states (prog s))) \<and>
     - 1 \<le> pending_state s \<and> pending_state s < int (length (p_states (prog s)))"

definition states_ok :: "region \<Rightarrow> bool" where
  "states_ok r \<longleftrightarrow> list_all state_ok (scripts r)"

text \<open>No script is added, and none changes its program, key or number.\<close>

definition same_script :: "script \<Rightarrow> script \<Rightarrow> bool" where
  "same_script s s' \<longleftrightarrow> prog s' = prog s \<and> uuid s' = uuid s \<and> link_num s' = link_num s \<and>
     (state_ok s \<longrightarrow> state_ok s')"

definition same_scripts :: "region \<Rightarrow> region \<Rightarrow> bool" where
  "same_scripts r r' \<longleftrightarrow> list_all2 same_script (scripts r) (scripts r')"

lemma same_script_refl [simp]: "same_script s s"
  by (simp add: same_script_def)

lemma same_scripts_eq: "scripts r' = scripts r \<Longrightarrow> same_scripts r r'"
  by (simp add: same_scripts_def list_all2_refl)

lemma same_scripts_trans: "same_scripts r r' \<Longrightarrow> same_scripts r' r'' \<Longrightarrow> same_scripts r r''"
  unfolding same_scripts_def by (rule list_all2_trans) (auto simp: same_script_def)

lemma same_scripts_upd:
  "(i < n_scripts r \<Longrightarrow> same_script (script_at r i) (f (script_at r i))) \<Longrightarrow> same_scripts r (upd_script i f r)"
  by (auto simp: same_scripts_def upd_script_def list_all2_conv_all_nth nth_update_nth script_at_def
      n_scripts_def)

lemma same_scripts_states: "same_scripts r r' \<Longrightarrow> states_ok r \<Longrightarrow> states_ok r'"
  by (simp add: same_scripts_def states_ok_def list_all2_conv_all_nth list_all_length same_script_def)

lemma same_scripts_at:
  "same_scripts r r' \<Longrightarrow> n_scripts r' = n_scripts r \<and>
     (i < n_scripts r \<longrightarrow> prog (script_at r' i) = prog (script_at r i) \<and> uuid (script_at r' i) = uuid (script_at r i))"
  by (auto simp: same_scripts_def n_scripts_def script_at_def same_script_def dest: list_all2_lengthD list_all2_nthD)

lemma effect_scripts: "effect i r r' \<Longrightarrow> same_scripts r r'"
proof (induction rule: effect.induct)
  case (ef_own f r)
  have "same_script s (f s)" for s
    using ef_own [of s] by (auto simp: same_script_def state_ok_def own_ok_def)
  then show ?case by (intro same_scripts_upd)
next
  case (ef_listen e r)
  have "same_scripts r (r\<lparr>next_handle := next_handle r + 1\<rparr>)" by (simp add: same_scripts_eq)
  also have "same_scripts \<dots> (upd_script i (\<lambda>s. s\<lparr>listens := e # listens s\<rparr>) \<dots>)"
    by (intro same_scripts_upd) (simp add: same_script_def state_ok_def)
  finally (same_scripts_trans) show ?case .
qed (auto simp: same_scripts_eq quiet_fields chatlog_record_def dialog_open_def inbound_register_def
    pay_def upd_avatar_def Let_def emit_err_def script_push_event_def enqueue_def
    same_script_def state_ok_def flush_events_def intro!: same_scripts_upd)

lemma effects_scripts: "effects i r r' \<Longrightarrow> same_scripts r r'"
  by (induction rule: rtranclp_induct) (auto intro: effect_scripts same_scripts_trans same_scripts_eq)

subsection \<open>The steps of a run\<close>

inductive world :: "region \<Rightarrow> region \<Rightarrow> bool" where
  w_effect: "effect i r r' \<Longrightarrow> world r r'"
| w_take: "evq (script_at r i) = e # es \<Longrightarrow> world r (upd_script i (\<lambda>s. s\<lparr>evq := es\<rparr>) r)"
| w_count: "world r (count_step r)"
| w_enter: "0 \<le> pending_state (script_at r i) \<Longrightarrow> world r (upd_script i enter_state r)"
| w_start: "world r (upd_script i start_state r)"
| w_clock: "world r (r\<lparr>virtual_now := x\<rparr>)"
| w_detect: "world r (push_detected i u nm face r)"
| w_close: "world r (dialog_close u r)"
| w_attach: "world r (upd_avatar k (\<lambda>a. a\<lparr>attached_object := Some u\<rparr>) r)"
| w_next: "world r (r\<lparr>next_command := Suc (next_command r)\<rparr>)"

abbreviation worlds :: "region \<Rightarrow> region \<Rightarrow> bool" where
  "worlds \<equiv> rtranclp world"

text \<open>What every step of a run preserves: the money in the region, the keys of the avatars, the scripts.\<close>

definition lawful :: "region \<Rightarrow> region \<Rightarrow> bool" where
  "lawful r r' \<longleftrightarrow> total_money r' = total_money r \<and> keys_grow r r' \<and> same_scripts r r'"

lemma lawful_trans: "lawful r r' \<Longrightarrow> lawful r' r'' \<Longrightarrow> lawful r r''"
  by (auto simp: lawful_def intro: keys_grow_trans same_scripts_trans)

lemma lawful_same:
  "avatars r' = avatars r \<Longrightarrow> same_scripts r r' \<Longrightarrow> lawful r r'"
  by (simp add: lawful_def total_money_def av_keys_def keys_grow_same)

lemma total_money_attach: "total_money (upd_avatar k (\<lambda>a. a\<lparr>attached_object := x\<rparr>) r) = total_money r"
  by (simp add: total_money_def upd_avatar_def map_update_nth_same)

lemma state_ok_start: "state_ok s \<Longrightarrow> state_ok (start_state s)"
proof -
  assume ok: "state_ok s"
  show ?thesis
  proof (cases "default_state (prog s)")
    case (Some k)
    with ok default_state_lt [OF Some] show ?thesis by (simp add: state_ok_def start_state_def)
  next
    case None
    with ok show ?thesis by (auto simp: state_ok_def start_state_def)
  qed
qed

lemma same_script_start: "same_script s (start_state s)"
  using state_ok_start [of s] by (simp add: same_script_def) (simp add: start_state_def)

lemma world_lawful: "world r r' \<Longrightarrow> lawful r r'"
proof (induction rule: world.induct)
  case (w_effect i r r')
  then show ?case by (simp add: lawful_def effect_total effect_keys effect_scripts)
next
  case (w_attach r k u)
  then show ?case
    by (auto simp: lawful_def total_money_attach av_keys_upd_avatar
        intro!: keys_grow_same same_scripts_eq) (simp add: upd_avatar_def)
next
  case (w_start r i)
  then show ?case
    by (intro lawful_same same_scripts_upd same_script_start) simp
qed (auto simp: same_scripts_eq same_script_def state_ok_def enter_state_def flush_events_def push_detected_def
    count_step_def dialog_close_def intro!: lawful_same same_scripts_upd)

lemma worlds_lawful: "worlds r r' \<Longrightarrow> lawful r r'"
  by (induction rule: rtranclp_induct)
    (auto intro: world_lawful lawful_trans lawful_same same_scripts_eq)

subsection \<open>Commands\<close>

lemma worlds_effects: "effects i r r' \<Longrightarrow> worlds r r'"
  by (induction rule: rtranclp_induct) (auto intro: w_effect rtranclp.rtrancl_into_rtrancl)

lemma then_world: "worlds r r' \<Longrightarrow> world r' r'' \<Longrightarrow> worlds r r''"
  by (rule rtranclp.rtrancl_into_rtrancl)

lemma world_then: "world r r' \<Longrightarrow> worlds r' r'' \<Longrightarrow> worlds r r''"
  by (rule converse_rtranclp_into_rtranclp)

text \<open>A relation between the states before and after that allows each change a command makes allows the
  whole command.\<close>

locale command_rel =
  fixes R :: "region \<Rightarrow> region \<Rightarrow> bool"
  assumes rel_refl: "R r r"
    and rel_trans: "R r r' \<Longrightarrow> R r' r'' \<Longrightarrow> R r r''"
    and rel_quiet: "quiet r r' \<Longrightarrow> R r r'"
    and rel_push: "R r (script_push_event i nm args r)"
    and rel_clock: "R r (r\<lparr>virtual_offset := x\<rparr>)"
    and rel_detect: "R r (push_detected i u nm face r)"
    and rel_close: "R r (dialog_close u r)"
    and rel_attach: "R r (upd_avatar k (\<lambda>a. a\<lparr>attached_object := Some u\<rparr>) r)"
    and rel_pay: "s < length (avatars r) \<Longrightarrow> d < length (avatars r) \<Longrightarrow> R r (pay s d amt r)"
    and rel_uuid: "R r (r\<lparr>uuid_counter := c, n_rand := b\<rparr>)"
    and rel_next: "R r (r\<lparr>next_command := Suc (next_command r)\<rparr>)"
begin

lemmas then_quiet = rel_trans [OF _ rel_quiet]
  and then_push = rel_trans [OF _ rel_push]

lemma then_evt:
  "R r r' \<Longrightarrow> R r (evt_info msg r')" "R r r' \<Longrightarrow> R r (evt_assertion what ok d r')"
  "R r r' \<Longrightarrow> R r (evt_money src dst amt ok r')" "R r r' \<Longrightarrow> R r (snapshot_dump r')"
  by (erule then_quiet, simp add: snapshot_dump_def)+

lemma rel_fold: "(\<And>x r. R r (f x r)) \<Longrightarrow> R r (fold f xs r)"
  by (induction xs arbitrary: r) (auto intro: rel_refl rel_trans)

lemma rel_pushes:
  "R r (push_touches i nms r)" "R r (region_broadcast_event nm args r)" "R r (push_listens hit args t r)"
  unfolding push_touches_def region_broadcast_event_def push_listens_def
  by (rule rel_fold; simp add: rel_push rel_refl)+

lemma rel_route: "R r (route_listen ch nm key msg r)"
  unfolding route_listen_def by (rule rel_fold) (rule rel_pushes)

lemmas cmd_intros = rel_refl then_evt then_push rel_pushes [THEN rel_trans [rotated]]
  rel_route [THEN rel_trans [rotated]] rel_clock [THEN rel_trans [rotated]] rel_detect [THEN rel_trans [rotated]]
  rel_close [THEN rel_trans [rotated]] rel_attach [THEN rel_trans [rotated]]

lemma cmd_money_from_rel: "R r (cmd_money_from p r)"
proof -
  have m: "R r (upd_avatar 0 (\<lambda>a. a\<lparr>balance := balance a + amt\<rparr>)
      (upd_avatar k (\<lambda>a. a\<lparr>balance := balance a - amt\<rparr>) r))" if "find_avatar_idx r w = Some k" for amt w k
  proof -
    have "k < length (avatars r)" using find_avatar_idx_Some [OF that] by simp
    then have "R r (pay k 0 amt r)" by (intro rel_pay) auto
    then show ?thesis unfolding pay_def .
  qed
  obtain who p1 amt where "next_tok p = (who, p1)"
    "(case fst (next_tok p1) of Some t \<Rightarrow> strtoll 10 t | None \<Rightarrow> 0) = amt" by fastforce
  then show ?thesis
    by (auto simp: cmd_money_from_def Let_def split: option.split
        intro!: cmd_intros m m [where amt = 0, simplified])
qed

lemma cmd_http_in_rel: "R r (cmd_http_in p r)"
  by (auto simp: cmd_http_in_def Let_def gen_uuid_def split: prod.split option.split intro!: cmd_intros rel_uuid)

lemma run_command_rel: "R r (run_command cmd p r)"
proof -
  have "R r (cmd_exit r)"
    unfolding cmd_exit_def
    by (rule rel_quiet) (auto simp: quiet_def intro!: exI [of _ "[]"] exI [of _ "dbg r"])
  moreover have "R r (cmd_wait p r)" "R r (cmd_touch p r)" "R r (cmd_touch_face p r)"
    "R r (cmd_touch_as p r)" "R r (cmd_listen p r)" "R r (cmd_im p r)"
    "R r (cmd_reply tag lbl p r)" "R r (cmd_attach p r)" "R r (cmd_detach r)"
    "R r (cmd_all tag nm p r)" "R r (cmd_assert_balance p r)" "R r (cmd_assert_hud p r)"
    "R r (cmd_assert_said p r)" "R r (cmd_assert_dialog p r)" for tag lbl nm
    by (auto simp: cmd_wait_def cmd_touch_def cmd_touch_face_def cmd_touch_as_def cmd_listen_def cmd_im_def
        cmd_reply_def cmd_attach_def cmd_detach_def cmd_all_def cmd_assert_balance_def cmd_assert_hud_def
        cmd_assert_said_def cmd_assert_dialog_def Let_def split: prod.split option.split intro!: cmd_intros)
  ultimately show ?thesis
    unfolding run_command_def by (auto intro!: cmd_money_from_rel cmd_http_in_rel cmd_intros)
qed

lemma commands_pump_rel: "commands_pump r = (b, r') \<Longrightarrow> R r r'"
proof -
  have "R r (run_command cmd p (r\<lparr>next_command := Suc (next_command r)\<rparr>))" for cmd p
    using rel_next run_command_rel by (rule rel_trans)
  then show "commands_pump r = (b, r') \<Longrightarrow> R r r'"
    by (auto simp: commands_pump_def Let_def split: if_splits prod.splits option.splits intro: rel_refl rel_next)
qed

end

lemmas worlds_push = then_world [OF _ w_effect [OF ef_push]]
  and worlds_quiet = then_world [OF _ w_effect [OF ef_quiet]]

interpretation cw: command_rel worlds
proof unfold_locales
  show "worlds r (r\<lparr>uuid_counter := c, n_rand := b\<rparr>)" for r c b
    using ef_counters [where i = 0 and r = r and c = c and b = b and a = "n_time r" and d = "n_curl r"] by (simp add: r_into_rtranclp w_effect)
qed (auto intro: rtranclp_trans r_into_rtranclp world.intros effect.intros)

lemmas commands_pump_worlds = cw.commands_pump_rel

subsection \<open>The loop\<close>

lemma timer_due_own: "own_ok s (s\<lparr>timer_due := x s\<rparr>)"
  by (simp add: own_ok_def)

lemma fire_timer_worlds: "fire_timer r = (b, r') \<Longrightarrow> worlds r r'"
proof -
  have "worlds r (upd_script i (\<lambda>s. s\<lparr>timer_due := d_add (timer_due s) (timer_interval s)\<rparr>)
      (script_push_event i ''timer'' [] (r\<lparr>virtual_now := x\<rparr>)))" for i x
    by (intro then_world [OF _ w_effect [OF ef_own]] worlds_push timer_due_own r_into_rtranclp w_clock)
  then show "fire_timer r = (b, r') \<Longrightarrow> worlds r r'"
    by (auto simp: fire_timer_def Let_def split: prod.splits option.splits intro: r_into_rtranclp w_clock)
qed

lemma dequeue_take:
  assumes "dequeue (script_at r i) = Some (e, s)"
  shows "\<exists>es. evq (script_at r i) = e # es \<and> upd_script i (\<lambda>_. s) r = upd_script i (\<lambda>s. s\<lparr>evq := es\<rparr>) r"
  using assms by (auto simp: dequeue_def upd_script_def update_nth_def script_at_def split: list.splits)

context effect_library
begin

lemma dispatch_effects: "dispatch_event lib n i ev r = Inr r' \<Longrightarrow> effects i r r'"
  by (auto simp: dispatch_event_def Let_def split: if_splits option.splits
      dest!: vm_dispatch_effects intro: rtranclp_trans [OF effects_evt(11) [OF rtranclp.rtrancl_refl]])

lemma init_globals_effects:
  "init_globals (\<lambda>e r. vm_eval lib n i e r) i k gs r = Inr r' \<Longrightarrow> effects i r r'"
proof (induction gs arbitrary: k r)
  case (Cons g gs)
  then obtain v r1 where
    1: "(if gv_init g = E_NULL then Inr (sv_zero (type_byte (gv_type g)), r) else vm_eval lib n i (gv_init g) r) = Inr (v, r1)"
    and 2: "init_globals (\<lambda>e r. vm_eval lib n i e r) i (Suc k) gs
       (upd_script i (\<lambda>s. s\<lparr>globals := (globals s)[k := v]\<rparr>) r1) = Inr r'"
    by (auto simp: rbind_eq_Inr simp del: if_split)
  have "effects i r r1" using 1 by (auto split: if_splits dest: vm_eval_effects)
  then show ?case using Cons.IH [OF 2] by (blast intro: rtranclp_trans set_global_effects)
qed simp

lemma init_scripts_worlds: "init_scripts lib n is r = Inr r' \<Longrightarrow> worlds r r'"
proof (induction "is" arbitrary: r)
  case (Cons i "is")
  then obtain r1 where 1: "init_script lib n i r = Inr r1" and 2: "init_scripts lib n is r1 = Inr r'"
    by (auto simp: rbind_eq_Inr)
  from 1 have "worlds r r1"
    by (auto simp: init_script_def rbind_eq_Inr dest!: init_globals_effects worlds_effects
        intro: worlds_push then_world [OF _ w_start])
  then show ?case using Cons.IH [OF 2] by (rule rtranclp_trans)
qed simp

lemma switch_state_worlds:
  assumes "switch_state lib n i r = Inr r'" "0 \<le> pending_state (script_at r i)"
  shows "worlds r r'"
proof -
  from assms(1) obtain r2 where "worlds (upd_script i enter_state r) r2" and r': "r' = script_push_event i ''state_entry'' [] r2"
    by (auto simp: switch_state_def Let_def rbind_eq_Inr split: if_splits option.splits
        dest!: vm_dispatch_effects worlds_effects)
  with w_enter [OF assms(2)] have "worlds r r2" by (blast intro: world_then)
  then show ?thesis unfolding r' by (rule worlds_push)
qed

lemma take_turn_worlds: "take_turn lib n i r = Inr (b, r') \<Longrightarrow> worlds r r'"
proof -
  assume t: "take_turn lib n i r = Inr (b, r')"
  show "worlds r r'"
  proof (cases "dequeue (script_at r i)")
    case None
    with t show ?thesis by (simp add: take_turn_def)
  next
    case (Some p)
    then obtain ev s where d: "dequeue (script_at r i) = Some (ev, s)" by (cases p) auto
    with t obtain r1 where 1: "dispatch_event lib n i ev (upd_script i (\<lambda>_. s) r) = Inr r1"
      and 2: "(if 0 \<le> pending_state (script_at r1 i) then switch_state lib n i (count_step r1)
        else Inr (count_step r1)) = Inr r'"
      by (auto simp: take_turn_def rbind_eq_Inr simp del: if_split)
    have "worlds r (upd_script i (\<lambda>_. s) r)"
      using dequeue_take [OF d] w_take by (metis r_into_rtranclp)
    also note worlds_effects [OF dispatch_effects [OF 1]]
    also have "worlds r1 (count_step r1)" by (intro r_into_rtranclp w_count)
    also have "worlds (count_step r1) r'"
      using 2 switch_state_worlds [of n i "count_step r1" r'] by (auto simp: count_step_def script_at_def split: if_splits)
    finally show ?thesis .
  qed
qed

lemma round_robin_worlds: "round_robin lib n is b r = Inr (b', r') \<Longrightarrow> worlds r r'"
proof (induction "is" arbitrary: b r)
  case (Cons i "is")
  then show ?case by (fastforce simp: rbind_eq_Inr dest: take_turn_worlds intro: rtranclp_trans)
qed simp

lemma run_turn_cases:
  assumes "run_turn lib n t r = Inr (go, r')"
  obtains (stop) "\<not> go" "r' = r" "0 < max_steps r \<and> max_steps r \<le> n_steps r \<or> h_expired (host r) t"
  | (moved) fired r1 where "\<not> (0 < max_steps r \<and> max_steps r \<le> n_steps r)" "go" "fire_timer r = (fired, r1)"
      "round_robin lib n [0 ..< n_scripts r1] fired r1 = Inr (True, r')"
  | (pumped) fired r1 r2 p r3 where "\<not> (0 < max_steps r \<and> max_steps r \<le> n_steps r)" "fire_timer r = (fired, r1)"
      "round_robin lib n [0 ..< n_scripts r1] fired r1 = Inr (False, r2)"
      "commands_pump r2 = (p, r3)" "go = p" "r' = (if p then count_step r3 else r3)"
proof -
  obtain fired r1 where f: "fire_timer r = (fired, r1)" by fastforce
  show ?thesis
  proof (cases "0 < max_steps r \<and> max_steps r \<le> n_steps r \<or> d_lt d_zero (wall_timeout r) \<and> h_expired (host r) t")
    case True
    with assms show ?thesis by (intro stop) (auto simp: run_turn_def split: if_splits)
  next
    case False
    with assms f obtain b r2 where rr: "round_robin lib n [0 ..< n_scripts r1] fired r1 = Inr (b, r2)"
      and e: "(if b then Inr (True, r2) else (case commands_pump r2 of (pumped, r) \<Rightarrow>
           Inr (if pumped then (True, count_step r) else (False, r)))) = (Inr (go, r') :: (bool \<times> region) res)"
      by (auto simp: run_turn_def rbind_eq_Inr simp del: if_split split: if_splits)
    show ?thesis
    proof (cases b)
      case True
      with e rr f False show ?thesis by (intro moved) auto
    next
      case nb: False
      obtain p r3 where p: "commands_pump r2 = (p, r3)" by fastforce
      with e rr f False nb show ?thesis by (intro pumped [OF _ f _ p]) (auto split: if_splits)
    qed
  qed
qed

lemma run_turn_worlds: "run_turn lib n t r = Inr (go, r') \<Longrightarrow> worlds r r'"
proof (erule run_turn_cases)
  fix fired r1 assume "fire_timer r = (fired, r1)" "round_robin lib n [0 ..< n_scripts r1] fired r1 = Inr (True, r')"
  then show "worlds r r'" by (blast intro: fire_timer_worlds round_robin_worlds rtranclp_trans)
next
  fix fired r1 r2 p r3
  assume "fire_timer r = (fired, r1)" "round_robin lib n [0 ..< n_scripts r1] fired r1 = Inr (False, r2)"
    "commands_pump r2 = (p, r3)" and r': "r' = (if p then count_step r3 else r3)"
  then have "worlds r r3"
    by (blast intro: fire_timer_worlds round_robin_worlds commands_pump_worlds rtranclp_trans)
  then show "worlds r r'" unfolding r' by (auto intro: then_world [OF _ w_count])
qed simp

lemma run_loop_worlds: "run_loop lib n k t r = Inr r' \<Longrightarrow> worlds r r'"
proof (induction k arbitrary: t r)
  case (Suc k)
  then show ?case by (auto simp: rbind_eq_Inr split: if_splits dest!: run_turn_worlds intro: rtranclp_trans)
qed simp

lemma pump_rest_worlds: "worlds r (pump_rest j r)"
proof (induction j arbitrary: r)
  case (Suc j)
  obtain b r1 where p: "commands_pump r = (b, r1)" by fastforce
  show ?case
    using commands_pump_worlds [OF p] Suc.IH [of "count_step r1"]
    by (cases b) (auto simp: p intro: rtranclp_trans then_world [OF _ w_count])
qed simp

lemma region_run_worlds:
  assumes "region_run lib n k r = Inr r'"
  shows "\<exists>r1. worlds (volume_load_economy r) r1 \<and> r' = volume_save_economy r1"
proof -
  from assms obtain r1 r2 where 1: "init_scripts lib n [0 ..< n_scripts r] (volume_load_economy r) = Inr r1"
    and 2: "run_loop lib n k 0 (if dbg_enabled (dbg r1) \<and> scripts r1 \<noteq> [] then dbg_handshake_pause 0 r1 else r1) = Inr r2"
    and r': "r' = volume_save_economy (pump_rest (length (command_lines r2) - next_command r2) r2)"
    by (auto simp: region_run_def rbind_eq_Inr simp del: if_split)
  have "worlds r1 (if dbg_enabled (dbg r1) \<and> scripts r1 \<noteq> [] then dbg_handshake_pause 0 r1 else r1)"
    by (auto intro: worlds_quiet [OF rtranclp.rtrancl_refl])
  with init_scripts_worlds [OF 1] run_loop_worlds [OF 2] pump_rest_worlds r' show ?thesis
    by (blast intro: rtranclp_trans)
qed

end

end
