(* ===== verification/VmProps.thy ===== *)
theory VmProps
  imports Builtins
begin

text \<open>
  What the interpreter guarantees with the library it is linked with: the stack discipline of
  expressions, calls and blocks, the meaning of assignment and of the short-circuit operators, that
  more fuel does not change a result, and that code without jumps and user functions ends.
\<close>

subsection \<open>Frames\<close>

text \<open>C5 Evaluating an expression, library calls included, leaves the callers' frames exactly as
  they were; the frame on top keeps its variables, scopes and control flags, so that only values
  change. No script is added or removed, none changes its program or key, and a pending state is
  one its program has.\<close>

theorem eval_keeps_frames:
  assumes "vm_eval builtins_lookup n i e r = Inr (v, r')"
  shows "tl (frames r') = tl (frames r) \<and> length (frames r') = length (frames r) \<and>
    (frames r \<noteq> [] \<longrightarrow> same_frame (hd (frames r)) (hd (frames r'))) \<and>
    n_scripts r' = n_scripts r \<and>
    (\<forall>j < n_scripts r. prog (script_at r' j) = prog (script_at r j) \<and>
       uuid (script_at r' j) = uuid (script_at r j) \<and>
       (pending_state (script_at r' j) = pending_state (script_at r j) \<or>
        0 \<le> pending_state (script_at r' j) \<and>
        pending_state (script_at r' j) < int (length (p_states (prog (script_at r j))))))"
proof -
  have s: "eval_shape r r'" using lib.vm_eval_shape [OF assms] .
  then have k: "keeps_scripts r r'" by (simp add: eval_shape_def)
  from s show ?thesis
    using keeps_scripts_n [OF k] keeps_scripts_at [OF k]
    by (auto simp: eval_shape_def keeps_script_def split: list.splits)
qed

text \<open>C9 A block is a scope: after it the frame on top has the variables it had before, in the same
  places, however the block was left (end, \<open>return\<close>, \<open>jump\<close> or \<open>state\<close>).\<close>

theorem block_restores_scope:
  assumes "vm_exec builtins_lookup n i (S_BLOCK l ss) r = Inr (rc, r')"
    and "frames r = f # fs" "scoped f"
  shows "\<exists>f'. frames r' = f' # fs \<and> frame_names f' = frame_names f \<and> scope_depth f' = scope_depth f"
proof -
  obtain k where n: "n = Suc k" using assms(1) by (cases n) auto
  let ?ev = "vm_eval builtins_lookup k i" and ?ex = "vm_exec builtins_lookup k i"
  show ?thesis
  proof (cases "top_returning r \<or> top_jumping r")
    case True
    then show ?thesis using assms n by (auto simp: exec_body_def)
  next
    case False
    let ?h = "stmt_hook i l r"
    have "\<exists>rc r1. block_loop ?ex i ss k ss (upd_top frame_enter ?h) = Inr (rc, r1) \<and> r' = upd_top frame_leave r1"
      using assms(1) False n by (auto simp: exec_body_def exec_switch_def rbind_eq_Inr)
    then obtain rc1 r1 where b: "block_loop ?ex i ss k ss (upd_top frame_enter ?h) = Inr (rc1, r1)"
      and r': "r' = upd_top frame_leave r1" by blast
    have q: "quiet r ?h" by (auto simp: stmt_hook_def)
    have m: "keeps exec_shape (block_loop ?ex i ss k ss)"
      using lib.shapes [of k i] by (intro xs.block_keeps) (auto intro!: exec_shape_upd_top simp: grows_def frame_names_def)
    show ?thesis
      using scope_shape(2) [OF m b, of f fs] assms(2,3) q r' by (simp add: quiet_fields)
  qed
qed

text \<open>C23 A user function runs in a frame of its own: once its arguments are evaluated, nothing its body
  does reaches a frame of the callers, and the stack afterwards is the stack before the body, values
  included.\<close>

theorem call_keeps_callers:
  assumes "run_user_func (vm_eval builtins_lookup n i) (vm_exec builtins_lookup n i) fd args r = Inr (v, r')"
  shows "\<exists>f r1. bind_args (vm_eval builtins_lookup n i) (fd_params fd) args new_frame r = Inr (f, r1) \<and>
    frames r' = frames r1"
proof -
  from assms obtain f r1 rc r2 where
    b: "bind_args (vm_eval builtins_lookup n i) (fd_params fd) args new_frame r = Inr (f, r1)" and
    x: "vm_exec builtins_lookup n i (fd_body fd) (frame_push f r1) = Inr (rc, r2)" and r': "r' = frame_pop r2"
    by (auto simp: run_user_func_def rbind_eq_Inr)
  have "keeps eval_shape (vm_eval builtins_lookup n i e)" for e using lib.shapes by blast
  from bind_args_shape [OF this b] have "scoped f" using grows_scoped [OF _ scoped_new_frame] by auto
  with lib.vm_exec_shape [OF x] have "tl (frames r2) = frames r1" by (auto simp: exec_shape_def)
  with b r' show ?thesis by auto
qed

subsection \<open>Fuel and termination\<close>

text \<open>Fuel only decides whether the run is seen to its end: a result reached with some fuel, a
  crash included, is the result with any larger amount.\<close>

theorem fuel_irrelevant:
  assumes "n \<le> m" "vm_exec builtins_lookup n i st r \<noteq> Inl OutOfFuel"
  shows "vm_exec builtins_lookup m i st r = vm_exec builtins_lookup n i st r"
  using lib.vm_le(2) assms by blast

text \<open>The library functions that need not return: \<open>llResetScript\<close> evaluates the initialisers again, and two
  JSON functions can loop for ever on a malformed array.\<close>

definition always_returns :: "string \<Rightarrow> bool" where
  "always_returns nm \<longleftrightarrow> nm \<noteq> ''llResetScript'' \<and> nm \<noteq> ''llJsonGetValue'' \<and> nm \<noteq> ''llJsonValueType''"

definition ends_table :: "(string \<times> builtin) list \<Rightarrow> bool" where
  "ends_table t \<longleftrightarrow> list_all (\<lambda>(nm, b). \<not> always_returns nm \<or>
     (\<forall>ev i a r. b ev i a r \<noteq> Inl OutOfFuel)) t"

lemma ends_shapes [simp]:
  "pure_bi f ev i a r \<noteq> Inl OutOfFuel" "read_bi g ev i a r \<noteq> Inl OutOfFuel"
  "step_bi h ev i a r \<noteq> Inl OutOfFuel"
  "stub v ev i a r \<noteq> Inl OutOfFuel" "stub_prim_set nm v ev i a r \<noteq> Inl OutOfFuel"
  "stub_agent_data nm v ev i a r \<noteq> Inl OutOfFuel" "stub_rez ev i a r \<noteq> Inl OutOfFuel"
  by (simp_all add: pure_bi_def read_bi_def step_bi_def stub_def stub_prim_set_def
      stub_agent_data_def stub_rez_def)

lemma ends_partial [simp]:
  "partial_bi bi_llDeleteSubString ev i a r \<noteq> Inl OutOfFuel"
  "partial_bi bi_llListReplaceList ev i a r \<noteq> Inl OutOfFuel"
  "partial_bi bi_llJsonSetValue ev i a r \<noteq> Inl OutOfFuel" "partial_bi bi_llJson2List ev i a r \<noteq> Inl OutOfFuel"
  by (auto simp: partial_bi_def bi_llDeleteSubString_def bi_llListReplaceList_def Let_def rbind_eq_Inl json_calls_end
      split: option.splits if_splits)

lemma not_always_returns:
  "always_returns ''llResetScript'' \<longleftrightarrow> False" "always_returns ''llJsonGetValue'' \<longleftrightarrow> False"
  "always_returns ''llJsonValueType'' \<longleftrightarrow> False"
  by (simp_all add: always_returns_def)

lemma four_components_ends: "four_components v \<noteq> Inl OutOfFuel"
  by (simp add: four_components_def split: svalue.split)

lemma http_params_ends: "http_params ps m t \<noteq> Inl OutOfFuel"
  by (induction ps m t rule: http_params.induct) (simp_all add: Let_def split: option.split)

lemma ends_raw [simp]:
  "bi_llSetPos ev i a r \<noteq> Inl OutOfFuel" "bi_llSetRot ev i a r \<noteq> Inl OutOfFuel"
  "bi_llHTTPRequest ev i a r \<noteq> Inl OutOfFuel"
  by (auto simp: bi_llSetPos_def bi_llSetRot_def bi_llHTTPRequest_def http_request_def real_http_get_def
      rbind_eq_Inl four_components_ends http_params_ends Let_def split: prod.splits if_splits)

lemma ends_tables:
  "ends_table io_table" "ends_table string_table" "ends_table list_table" "ends_table math_table"
  "ends_table object_table" "ends_table region_table" "ends_table lsd_table" "ends_table encoding_table"
  "ends_table json_table" "ends_table net_table" "ends_table (map (\<lambda>(nm, v). (nm, stub v)) world_constants)"
  unfolding ends_table_def
  by (simp_all only: list.pred_inject prod.case list.map append.simps ends_shapes ends_partial ends_raw not_always_returns simp_thms
      io_table_def string_table_def list_table_def math_table_def object_table_def region_table_def
      lsd_table_def encoding_table_def json_table_def net_table_def world_constants_def
      memory_constants_def url_constants_def)

lemma ends_stub_tables:
  "ends_table stubs_1" "ends_table stubs_2" "ends_table stubs_3" "ends_table stubs_4" "ends_table stubs_5"
  "ends_table stubs_6" "ends_table stubs_7" "ends_table stubs_8" "ends_table stubs_9"
  unfolding ends_table_def
  by (simp_all only: list.pred_inject prod.case ends_shapes simp_thms stubs_1_def stubs_2_def stubs_3_def
      stubs_4_def stubs_5_def stubs_6_def stubs_7_def stubs_8_def stubs_9_def)

lemma builtins_end: "always_returns nm \<Longrightarrow> total_lib builtins_lookup nm"
proof -
  assume nm: "always_returns nm"
  have app: "ends_table (s @ t) \<longleftrightarrow> ends_table s \<and> ends_table t" for s t by (simp add: ends_table_def)
  have "ends_table builtin_table"
    unfolding builtin_table_def stub_rows_a_def stub_rows_b_def app by (intro conjI ends_tables ends_stub_tables)
  then show ?thesis
    using nm by (auto simp: total_lib_def builtins_lookup_def ends_table_def list_all_iff dest!: map_of_SomeD)
qed

lemma plain_expr_mono: "\<forall>nm. t nm \<longrightarrow> t' nm \<Longrightarrow> plain_expr t p e \<Longrightarrow> plain_expr t' p e"
  by (induction e) (simp_all add: list_all_iff)

lemma plain_stmt_mono: "\<forall>nm. t nm \<longrightarrow> t' nm \<Longrightarrow> plain_stmt t p st \<Longrightarrow> plain_stmt t' p st"
  by (induction st) (simp_all add: list_all_iff plain_expr_mono)

text \<open>C12 Code without jumps that calls no user function and only library functions that always return
  (all but \<open>llResetScript\<close> and two JSON readers, which loop for ever on some malformed text) comes to an end:
  fuel above its size is always enough, whatever the loops do, for they stop after a million turns.
  It ends in a result or a crash, in every state in which the script runs the program.\<close>

theorem jump_free_code_ends:
  assumes "plain_stmt always_returns (prog (script_at r i)) st"
    and "i < n_scripts r" "\<not> top_jumping r" "stmt_size st < n"
  shows "vm_exec builtins_lookup n i st r \<noteq> Inl OutOfFuel"
proof -
  have "plain_stmt (total_lib builtins_lookup) (prog (script_at r i)) st"
    using builtins_end by (intro plain_stmt_mono [OF _ assms(1)]) blast
  then have "ends (running i (prog (script_at r i))) (vm_exec builtins_lookup n i st)"
    using assms(4) by (rule lib.stmt_ends)
  moreover have "running i (prog (script_at r i)) r"
    unfolding running_def using assms(2,3) by (intro conjI refl)
  ultimately show ?thesis by (rule ends_fuel)
qed

subsection \<open>Expressions\<close>

text \<open>\<open>&&\<close> and \<open>||\<close> evaluate their left operand first and the right one only when it decides: a
  false left side of \<open>&&\<close> gives 0 and a true left side of \<open>||\<close> gives 1, in the state the left side left,
  whatever the right side is; otherwise the result is the truth of the right side.\<close>

theorem short_circuit:
  assumes "vm_eval builtins_lookup n i a r = Inr (v, r1)" "opcode_of oc = OP_LAND \<or> opcode_of oc = OP_LOR"
  shows "vm_eval builtins_lookup (Suc n) i (E_BINARY h oc a b) r =
    (if sv_truthy v = (opcode_of oc = OP_LOR) then Inr (sv_of_bool (sv_truthy v), r1)
     else rbind (vm_eval builtins_lookup n i b r1) (\<lambda>(w, r2). Inr (sv_of_bool (sv_truthy w), r2)))"
  using assms by (auto simp: eval_body_def eval_binop_def sv_of_bool_def)

lemma frame_find_lt: "frame_find f nm = Some k \<Longrightarrow> k < length (locs f)"
proof -
  assume "frame_find f nm = Some k"
  then obtain m where m: "find_index (\<lambda>b. lb_name b = nm) (rev (locs f)) = Some m" "k = length (locs f) - Suc m"
    by (auto simp: frame_find_def)
  then have "m < length (locs f)" using find_index_lt [OF m(1)] by simp
  with m(2) show ?thesis by simp
qed

lemma frame_find_update:
  assumes "\<And>b. lb_name (g b) = lb_name b"
  shows "frame_find (f\<lparr>locs := update_nth k g (locs f)\<rparr>) nm = frame_find f nm"
proof -
  have "map (\<lambda>b. lb_name b = nm) (rev (update_nth k g (locs f))) = map (\<lambda>b. lb_name b = nm) (rev (locs f))"
    by (simp add: rev_map [symmetric] map_update_nth_same assms)
  then show ?thesis by (simp add: frame_find_def find_index_map [of "\<lambda>b. lb_name b = nm"])
qed

text \<open>A cell that a name resolves to is one that exists.\<close>

definition cell_ok :: "nat \<Rightarrow> cell \<Rightarrow> region \<Rightarrow> bool" where
  "cell_ok i c r \<longleftrightarrow> i < n_scripts r \<and> (case c of
     Loc k \<Rightarrow> frames r \<noteq> [] \<and> k < length (locs (hd (frames r)))
   | Glob k \<Rightarrow> k < length (globals (script_at r i)))"

lemma find_cell_ok:
  assumes "find_cell i nm r = Some c" "i < n_scripts r"
    and "length (globals (script_at r i)) = length (p_globals (prog (script_at r i)))"
  shows "cell_ok i c r"
  using assms
  by (auto simp: find_cell_def cell_ok_def find_global_idx_def split: option.splits list.splits dest: frame_find_lt)

lemma get_set_cell: "cell_ok i c r \<Longrightarrow> get_cell i c (set_cell i c v r) = v"
  by (cases c) (auto simp: cell_ok_def get_cell_def set_cell_def upd_top_def split: list.split)

lemma get_set_other: "d \<noteq> c \<Longrightarrow> cell_ok i c r \<Longrightarrow> get_cell i d (set_cell i c v r) = get_cell i d r"
  by (cases c; cases d)
    (auto simp: cell_ok_def get_cell_def set_cell_def upd_top_def script_at_def upd_script_def n_scripts_def
      split: list.split)

lemma global_set_cell:
  "cell_ok i c r \<Longrightarrow> find_global_idx (script_at (set_cell i c v r) i) nm = find_global_idx (script_at r i) nm"
  using keeps_scripts_at [of r "set_cell i c v r" i] eval_shape_set_cell [of r i c v]
  by (simp add: eval_shape_def cell_ok_def keeps_script_def find_global_idx_def)

lemma find_set_cell:
  assumes "cell_ok i c r"
  shows "find_cell i nm (set_cell i c v r) = find_cell i nm r"
proof (cases c)
  case (Loc k)
  obtain f fs where f: "frames r = f # fs" using assms Loc by (auto simp: cell_ok_def neq_Nil_conv)
  then have "frames (set_cell i c v r) = f\<lparr>locs := update_nth k (\<lambda>b. b\<lparr>lb_val := v\<rparr>) (locs f)\<rparr> # fs"
    using Loc by (simp add: set_cell_def upd_top_def)
  moreover have "frame_find (f\<lparr>locs := update_nth k (\<lambda>b. b\<lparr>lb_val := v\<rparr>) (locs f)\<rparr>) nm = frame_find f nm"
    by (rule frame_find_update) simp
  ultimately show ?thesis by (simp add: find_cell_def f global_set_cell [OF assms] split: option.split)
next
  case (Glob k)
  have "frames (set_cell i c v r) = frames r" using Glob by (simp add: set_cell_def)
  then show ?thesis by (simp add: find_cell_def global_set_cell [OF assms] split: option.split list.split)
qed

text \<open>C30 What is assigned to a variable is what the next read of it gives, converted to the type
  the variable holds (a void variable takes the type of the value); every other variable reads as
  before the store.\<close>

theorem assign_then_read:
  assumes "vm_eval builtins_lookup n i b r = Inr (v, r1)" "opcode_of oc = OP_ASSIGN"
    and "find_cell i nm r = Some c" "cell_ok i c r1" "find_cell i nm r1 = Some c"
  shows "\<exists>w r2. vm_eval builtins_lookup (Suc n) i (E_ASSIGN h oc (E_IDENT h' nm) b) r = Inr (w, r2) \<and>
    w = coerce v (assign_target_type (get_cell i c r1) v) \<and>
    vm_eval builtins_lookup (Suc n) i (E_IDENT h' nm) r2 = Inr (w, r2) \<and>
    (\<forall>nm' d. find_cell i nm' r1 = Some d \<longrightarrow> d \<noteq> c \<longrightarrow>
       vm_eval builtins_lookup (Suc n) i (E_IDENT h' nm') r2 = Inr (get_cell i d r1, r2))"
proof -
  let ?w = "coerce v (assign_target_type (get_cell i c r1) v)" and ?r2 = "set_cell i c (coerce v (assign_target_type (get_cell i c r1) v)) r1"
  have "vm_eval builtins_lookup (Suc n) i (E_ASSIGN h oc (E_IDENT h' nm) b) r = Inr (?w, ?r2)"
    using assms(1-3) by (simp add: eval_body_def eval_assign_def assign_lval_def Let_def)
  moreover have "vm_eval builtins_lookup (Suc n) i (E_IDENT h' nm) ?r2 = Inr (?w, ?r2)"
    using assms(4,5) by (simp add: eval_body_def eval_ident_def find_set_cell get_set_cell)
  moreover have "vm_eval builtins_lookup (Suc n) i (E_IDENT h' nm') ?r2 = Inr (get_cell i d r1, ?r2)"
    if "find_cell i nm' r1 = Some d" "d \<noteq> c" for nm' d
    using assms(4) that by (simp add: eval_body_def eval_ident_def find_set_cell get_set_other)
  ultimately show ?thesis by blast
qed

end
