(* ===== verification/LoopProps.thy ===== *)
theory LoopProps
  imports RunProps VmProps
begin

text \<open>
  The main loop: the step limit ends it, the earliest due timer fires first, a state change starts the
  new state with an empty queue; and the invariants of whole runs.
\<close>

subsection \<open>The step counter\<close>

text \<open>The counter never goes back, except that \<open>quit\<close> and \<open>EXIT\<close> set it behind the limit.\<close>

definition no_back :: "region \<Rightarrow> region \<Rightarrow> bool" where
  "no_back r r' \<longleftrightarrow> max_steps r' = max_steps r \<and> (n_steps r \<le> n_steps r' \<or> max_steps r < n_steps r')"

definition ticks :: "region \<Rightarrow> region \<Rightarrow> bool" where
  "ticks r r' \<longleftrightarrow> max_steps r' = max_steps r \<and> (n_steps r < n_steps r' \<or> max_steps r < n_steps r')"

lemma no_back_trans [trans]: "no_back r r' \<Longrightarrow> no_back r' r'' \<Longrightarrow> no_back r r''"
  and ticks_back [trans]: "ticks r r' \<Longrightarrow> no_back r' r'' \<Longrightarrow> ticks r r''"
  and back_ticks [trans]: "no_back r r' \<Longrightarrow> ticks r' r'' \<Longrightarrow> ticks r r''"
  by (auto simp: no_back_def ticks_def)

lemma no_back_refl [simp]: "no_back r r"
  by (simp add: no_back_def)

lemma ticks_count: "ticks r (count_step r)"
  by (simp add: ticks_def count_step_def)

lemma no_back_same: "max_steps r' = max_steps r \<Longrightarrow> n_steps r' = n_steps r \<Longrightarrow> no_back r r'"
  by (simp add: no_back_def)

lemma world_no_back: "world r r' \<Longrightarrow> no_back r r'"
proof (induction rule: world.induct)
  case (w_effect i r r')
  then show ?case by (auto simp: no_back_def fixed_fields_def dest: effect_fixed)
next
  case (w_count r)
  then show ?case by (simp add: no_back_def count_step_def)
qed (rule no_back_same; simp add: push_detected_def dialog_close_def upd_avatar_def)+

lemma worlds_no_back: "worlds r r' \<Longrightarrow> no_back r r'"
  by (induction rule: rtranclp_induct) (auto intro: world_no_back no_back_trans)

lemma effects_no_back: "effects i r r' \<Longrightarrow> no_back r r'"
  by (rule worlds_no_back [OF worlds_effects])

context effect_library
begin

lemma take_turn_ticks:
  assumes "take_turn lib n i r = Inr (b, r')"
  shows "if b then ticks r r' else r' = r \<and> evq (script_at r i) = []"
proof (cases "dequeue (script_at r i)")
  case None
  with assms show ?thesis by (auto simp: take_turn_def dequeue_def split: list.splits)
next
  case (Some p)
  then obtain ev s where d: "dequeue (script_at r i) = Some (ev, s)" by (cases p) auto
  with assms obtain r1 where b: b and 1: "dispatch_event lib n i ev (upd_script i (\<lambda>_. s) r) = Inr r1"
    and 2: "(if 0 \<le> pending_state (script_at r1 i) then switch_state lib n i (count_step r1)
      else Inr (count_step r1)) = Inr r'"
    by (auto simp: take_turn_def rbind_eq_Inr simp del: if_split)
  have "no_back r (upd_script i (\<lambda>_. s) r)" by (rule no_back_same) simp_all
  also note effects_no_back [OF dispatch_effects [OF 1]]
  also note ticks_count
  finally have t: "ticks r (count_step r1)" .
  have "no_back (count_step r1) r'"
    using 2 switch_state_worlds [of n i "count_step r1" r']
    by (auto simp: count_step_def script_at_def split: if_splits dest: worlds_no_back)
  with t b show ?thesis by (simp add: ticks_back)
qed

lemma round_robin_ticks:
  "round_robin lib n is b r = Inr (b', r') \<Longrightarrow>
     b' \<and> ticks r r' \<or> b' = b \<and> r' = r \<and> (\<forall>i \<in> set is. evq (script_at r i) = [])"
proof (induction "is" arbitrary: b r)
  case (Cons i "is")
  then obtain c r1 where 1: "take_turn lib n i r = Inr (c, r1)" and 2: "round_robin lib n is (b \<or> c) r1 = Inr (b', r')"
    by (auto simp: rbind_eq_Inr)
  show ?case
  proof (cases c)
    case True
    with take_turn_ticks [OF 1] have t: "ticks r r1" by simp
    have "no_back r1 r'" using worlds_no_back [OF round_robin_worlds [OF 2]] .
    moreover have b' using Cons.IH [OF 2] True by auto
    ultimately show ?thesis using t ticks_back by blast
  next
    case False
    with take_turn_ticks [OF 1] Cons.IH [OF 2] show ?thesis by auto
  qed
qed simp

end

lemma fold_earlier_range:
  "snd (fold (earlier_timer el r) is best) = None \<or> snd (fold (earlier_timer el r) is best) = snd best \<or>
     (\<exists>i \<in> set is. snd (fold (earlier_timer el r) is best) = Some i)"
proof (induction "is" arbitrary: best)
  case (Cons i "is")
  show ?case using Cons [of "earlier_timer el r i best"] by (auto simp: earlier_timer_def Let_def split: if_splits)
qed simp

lemma earliest_range: "snd (earliest_timer el r) = Some i \<Longrightarrow> i < n_scripts r"
  using fold_earlier_range [of el r "[0 ..< n_scripts r]" "(d_add el d_one, None)"]
  by (auto simp: earliest_timer_def)

lemma fire_timer_pushes:
  assumes "fire_timer r = (fired, r')"
  shows "no_back r r' \<and> n_scripts r' = n_scripts r \<and> (fired \<longrightarrow> (\<exists>i < n_scripts r. evq (script_at r' i) \<noteq> []))"
proof (cases "earliest_timer (virtual_offset r) r")
  case (Pair due k)
  show ?thesis
  proof (cases k)
    case None
    with Pair assms show ?thesis by (auto simp: fire_timer_def Let_def no_back_def n_scripts_def)
  next
    case (Some i)
    have "i < n_scripts r" using earliest_range [of "virtual_offset r" r i] Pair Some by simp
    have r': "fired" "r' = upd_script i (\<lambda>s. s\<lparr>timer_due := d_add (timer_due s) (timer_interval s)\<rparr>)
        (script_push_event i ''timer'' [] (r\<lparr>virtual_now := due\<rparr>))"
      using Pair Some assms by (auto simp: fire_timer_def Let_def)
    have "evq (script_at r' i) \<noteq> []"
      using \<open>i < n_scripts r\<close> by (simp add: r'(2) script_push_event_def enqueue_def n_scripts_def)
    with \<open>i < n_scripts r\<close> show ?thesis
      by (auto simp: r'(2) no_back_def script_push_event_def n_scripts_def)
  qed
qed

context effect_library
begin

lemma run_turn_ticks:
  assumes "run_turn lib n t r = Inr (True, r')"
  shows "ticks r r'"
  using assms
proof (cases rule: run_turn_cases)
  case (moved fired r1)
  from round_robin_ticks [OF moved(4)] fire_timer_pushes [OF moved(3)] show ?thesis
    by (auto intro: back_ticks)
next
  case (pumped fired r1 r2 p r3)
  from round_robin_ticks [OF pumped(3)] fire_timer_pushes [OF pumped(2)] have "no_back r r2" by auto
  also note worlds_no_back [OF commands_pump_worlds [OF pumped(4)]]
  finally show ?thesis using pumped(5,6) ticks_count back_ticks by auto
qed simp

lemma run_loop_limit:
  assumes "0 < max_steps r" "nat (max_steps r - n_steps r) < k"
  shows "run_loop lib n (k + d) t r = run_loop lib n k t r"
  using assms
proof (induction k arbitrary: t r)
  case (Suc k)
  show ?case
  proof (cases "run_turn lib n t r")
    case (Inr p)
    then obtain go r1 where p: "run_turn lib n t r = Inr (go, r1)" by (cases p) auto
    show ?thesis
    proof (cases go)
      case True
      then have "run_turn lib n t r = Inr (True, r1)" using p by simp
      from run_turn_ticks [OF this] have tk: "ticks r r1" .
      have "n_steps r < max_steps r" using p True by (auto elim!: run_turn_cases simp: Suc.prems(1) not_le)
      with tk Suc.prems have "nat (max_steps r1 - n_steps r1) < k" "0 < max_steps r1" by (auto simp: ticks_def)
      from Suc.IH [OF this(2,1)] p True show ?thesis by simp
    next
      case False
      with p show ?thesis by simp
    qed
  qed simp
qed simp

end

subsection \<open>Order of doubles\<close>

lemma smant_scale: "k \<le> j \<Longrightarrow> j \<le> e \<Longrightarrow> smant s m e k = smant s m e j * 2 ^ nat (j - k)"
  by (auto simp: smant_def nat_diff_distrib power_add [symmetric] mult.assoc intro!: arg_cong [where f = "\<lambda>x. 2 ^ x"])

lemma d_lt_scale:
  "k \<le> e \<Longrightarrow> k \<le> f \<Longrightarrow> d_lt (DFin s m e) (DFin t n f) \<longleftrightarrow> smant s m e k < smant t n f k"
  using smant_scale [of k "min e f" e s m] smant_scale [of k "min e f" f t n] by (simp add: Let_def)

lemma d_lt_trans: "d_lt x y \<Longrightarrow> d_lt y z \<Longrightarrow> d_lt x z"
proof (cases x; cases y; cases z)
  fix s m e t n f u p g
  assume x: "x = DFin s m e" and y: "y = DFin t n f" and z: "z = DFin u p g" and lt: "d_lt x y" "d_lt y z"
  define k where "k = min e (min f g)"
  have k: "k \<le> e" "k \<le> f" "k \<le> g" by (simp_all add: k_def)
  show "d_lt x z"
    using lt unfolding x y z d_lt_scale [OF k(1,2)] d_lt_scale [OF k(2,3)] d_lt_scale [OF k(1,3)] by simp
qed auto

lemma d_le_lt_trans: "d_le x y \<Longrightarrow> d_lt y z \<Longrightarrow> d_lt x z"
proof -
  have "d_eq x y \<Longrightarrow> d_lt y z \<Longrightarrow> d_lt x z"
  proof (cases x; cases y; cases z)
    fix s m e t n f u p g
    assume x: "x = DFin s m e" and y: "y = DFin t n f" and z: "z = DFin u p g" and a: "d_eq x y" "d_lt y z"
    define k where "k = min e (min f g)"
    have k: "k \<le> e" "k \<le> f" "k \<le> g" by (simp_all add: k_def)
    have "smant s m e k = smant t n f k"
      using a(1) smant_scale [of k "min e f" e s m] smant_scale [of k "min e f" f t n] k
      unfolding x y by (simp add: Let_def)
    with a(2) show "d_lt x z" unfolding x y z d_lt_scale [OF k(2,3)] d_lt_scale [OF k(1,3)] by simp
  qed auto
  then show "d_le x y \<Longrightarrow> d_lt y z \<Longrightarrow> d_lt x z" by (auto simp: d_le_def intro: d_lt_trans)
qed

subsection \<open>Timers\<close>

abbreviation timer_ready :: "double \<Rightarrow> region \<Rightarrow> nat \<Rightarrow> bool" where
  "timer_ready el r i \<equiv> d_lt d_zero (timer_interval (script_at r i)) \<and> d_le (timer_due (script_at r i)) el"

lemma fold_earlier_min:
  "let b = fold (earlier_timer el r) is best in
     (b = best \<or> d_lt (fst b) (fst best) \<and>
        (\<exists>i \<in> set is. timer_ready el r i \<and> b = (timer_due (script_at r i), Some i))) \<and>
     (\<forall>i \<in> set is. timer_ready el r i \<longrightarrow> \<not> d_lt (timer_due (script_at r i)) (fst b))"
proof (induction "is" arbitrary: best)
  case (Cons i "is")
  define b1 where "b1 = earlier_timer el r i best"
  define b where "b = fold (earlier_timer el r) is b1"
  have irr: "\<not> d_lt x x" for x by (cases x) auto
  have 1: "b1 = best \<and> (timer_ready el r i \<longrightarrow> \<not> d_lt (timer_due (script_at r i)) (fst best)) \<or>
      timer_ready el r i \<and> b1 = (timer_due (script_at r i), Some i) \<and> d_lt (fst b1) (fst best)"
    by (auto simp: b1_def earlier_timer_def Let_def)
  have 2: "b = b1 \<or> d_lt (fst b) (fst b1) \<and>
      (\<exists>i \<in> set is. timer_ready el r i \<and> b = (timer_due (script_at r i), Some i))"
    and 3: "\<forall>i \<in> set is. timer_ready el r i \<longrightarrow> \<not> d_lt (timer_due (script_at r i)) (fst b)"
    using Cons [of b1] unfolding Let_def b_def by blast+
  have 4: "timer_ready el r i \<longrightarrow> \<not> d_lt (timer_due (script_at r i)) (fst b)"
    using 1 2 irr d_lt_trans [of "timer_due (script_at r i)" "fst b" "fst b1"]
    by auto
  have "d_lt (fst b) (fst b1) \<Longrightarrow> d_lt (fst b1) (fst best) \<Longrightarrow> d_lt (fst b) (fst best)" by (rule d_lt_trans)
  with 1 2 have "b = best \<or> d_lt (fst b) (fst best) \<and>
      (\<exists>i \<in> set (i # is). timer_ready el r i \<and> b = (timer_due (script_at r i), Some i))"
    by auto
  with 3 4 show ?case unfolding Let_def by (simp add: b_def b1_def)
qed simp

lemma earliest_timer_min:
  assumes "earliest_timer el r = (due, k)" "d_lt el (d_add el d_one)"
  shows "if \<exists>i < n_scripts r. timer_ready el r i
    then \<exists>i < n_scripts r. k = Some i \<and> timer_ready el r i \<and> due = timer_due (script_at r i) \<and>
      (\<forall>j < n_scripts r. timer_ready el r j \<longrightarrow> \<not> d_lt (timer_due (script_at r j)) due)
    else k = None"
proof -
  have l: "timer_ready el r j \<Longrightarrow> d_lt (timer_due (script_at r j)) (d_add el d_one)" for j
    using assms(2) d_le_lt_trans by blast
  have "(due, k) = (d_add el d_one, None) \<or>
      (\<exists>i < n_scripts r. timer_ready el r i \<and> (due, k) = (timer_due (script_at r i), Some i))"
    and m: "\<forall>j < n_scripts r. timer_ready el r j \<longrightarrow> \<not> d_lt (timer_due (script_at r j)) due"
    using fold_earlier_min [of el r "[0 ..< n_scripts r]" "(d_add el d_one, None)"] assms(1)
    unfolding Let_def earliest_timer_def by auto
  then show ?thesis using l by auto
qed

text \<open>C13 When a timer is due, exactly one fires in a turn: one with the earliest due time. Its script
  gets a \<open>timer\<close> event behind its queue, its next due time is one interval later, and the clock is set to
  the time the timer was due; without a due timer only the clock moves. The virtual time must be small enough that one
  second more is a later time in a \<open>double\<close>: the search starts from there, and beyond it a due timer does not fire.\<close>

theorem earliest_timer_fires:
  assumes "fire_timer r = (fired, r')"
    and "d_lt (virtual_offset r) (d_add (virtual_offset r) d_one)"
  shows "if \<exists>i < n_scripts r. d_lt d_zero (timer_interval (script_at r i)) \<and>
        d_le (timer_due (script_at r i)) (virtual_offset r)
    then fired \<and> (\<exists>i < n_scripts r. d_lt d_zero (timer_interval (script_at r i)) \<and>
        d_le (timer_due (script_at r i)) (virtual_offset r) \<and>
        (\<forall>j < n_scripts r. d_lt d_zero (timer_interval (script_at r j)) \<and>
           d_le (timer_due (script_at r j)) (virtual_offset r) \<longrightarrow>
           \<not> d_lt (timer_due (script_at r j)) (timer_due (script_at r i))) \<and>
        virtual_now r' = timer_due (script_at r i) \<and>
        script_at r' i = (script_at r i)\<lparr>evq := evq (script_at r i) @ [\<lparr>ev_name = ''timer'', ev_args = []\<rparr>],
          timer_due := d_add (timer_due (script_at r i)) (timer_interval (script_at r i))\<rparr> \<and>
        (\<forall>j < n_scripts r. j \<noteq> i \<longrightarrow> script_at r' j = script_at r j))
    else \<not> fired \<and> r' = r\<lparr>virtual_now := virtual_offset r\<rparr>"
proof -
  obtain due k where e: "earliest_timer (virtual_offset r) r = (due, k)" by fastforce
  note m = earliest_timer_min [OF e assms(2)]
  show ?thesis
  proof (cases "\<exists>i < n_scripts r. timer_ready (virtual_offset r) r i")
    case True
    with m obtain i where i: "i < n_scripts r" "k = Some i" "timer_ready (virtual_offset r) r i"
      "due = timer_due (script_at r i)"
      "\<forall>j < n_scripts r. timer_ready (virtual_offset r) r j \<longrightarrow> \<not> d_lt (timer_due (script_at r j)) due"
      by auto
    have f: "fired" and r': "r' = upd_script i (\<lambda>s. s\<lparr>timer_due := d_add (timer_due s) (timer_interval s)\<rparr>)
        (script_push_event i ''timer'' [] (r\<lparr>virtual_now := due\<rparr>))"
      using assms(1) e i(2) by (auto simp: fire_timer_def Let_def)
    have [simp]: "script_at (r\<lparr>virtual_now := x\<rparr>) j = script_at r j" for x j
      by (simp add: script_at_def)
    have s: "script_at r' i = (script_at r i)\<lparr>evq := evq (script_at r i) @ [\<lparr>ev_name = ''timer'', ev_args = []\<rparr>],
          timer_due := d_add (timer_due (script_at r i)) (timer_interval (script_at r i))\<rparr>"
      "\<forall>j < n_scripts r. j \<noteq> i \<longrightarrow> script_at r' j = script_at r j" "virtual_now r' = due"
      using i(1) unfolding r' by (simp_all add: script_push_event_def enqueue_def n_scripts_def)
    show ?thesis
      unfolding if_P [OF True]
      by (intro conjI exI [of _ i]) (use f i(1,3) s i(5) in \<open>simp_all only: i(4)\<close>)
  next
    case False
    with m have "k = None" by simp
    with assms(1) e have "\<not> fired" "r' = r\<lparr>virtual_now := virtual_offset r\<rparr>"
      by (auto simp: fire_timer_def Let_def)
    with False show ?thesis by simp
  qed
qed

subsection \<open>Rounds and state changes\<close>

context effect_library
begin

lemma take_turn_cases:
  assumes "take_turn lib n i r = Inr (b, r')"
  obtains (idle) "\<not> b" "r' = r" "evq (script_at r i) = []"
  | (event) e es r1 where b "evq (script_at r i) = e # es"
      "dispatch_event lib n i e (upd_script i (\<lambda>s. s\<lparr>evq := es\<rparr>) r) = Inr r1"
      "(if 0 \<le> pending_state (script_at r1 i) then switch_state lib n i (count_step r1)
        else Inr (count_step r1)) = Inr r'"
proof (cases "dequeue (script_at r i)")
  case None
  with assms idle show ?thesis by (auto simp: take_turn_def dequeue_def split: list.splits)
next
  case (Some p)
  then obtain e s where d: "dequeue (script_at r i) = Some (e, s)" by (cases p) auto
  from dequeue_take [OF this] obtain es where es: "evq (script_at r i) = e # es"
    "upd_script i (\<lambda>_. s) r = upd_script i (\<lambda>s. s\<lparr>evq := es\<rparr>) r" by blast
  with assms d event show ?thesis
    by (auto simp: take_turn_def rbind_eq_Inr simp del: if_split)
qed

lemma switch_state_others:
  assumes "switch_state lib n i r = Inr r'" "j \<noteq> i" "j < n_scripts r"
  shows "queue_grows (script_at r j) (script_at r' j)"
proof -
  let ?r = "upd_script i enter_state r"
  from assms(1) obtain r2 where e: "effects i ?r r2" and r': "r' = script_push_event i ''state_entry'' [] r2"
    by (auto simp: switch_state_def Let_def rbind_eq_Inr split: if_splits option.splits dest!: vm_dispatch_effects)
  have "effects i ?r r'" unfolding r' by (rule then_effect [OF e ef_push])
  from effects_others [OF this assms(2)] assms(2,3) show ?thesis by (simp add: n_scripts_def)
qed

lemma take_turn_others:
  assumes "take_turn lib n i r = Inr (b, r')" "j \<noteq> i" "j < n_scripts r"
  shows "queue_grows (script_at r j) (script_at r' j)"
  using assms(1)
proof (cases rule: take_turn_cases)
  case (event e es r1)
  let ?r = "upd_script i (\<lambda>s. s\<lparr>evq := es\<rparr>) r"
  have d: "effects i ?r r1" using dispatch_effects [OF event(3)] .
  have "queue_grows (script_at r j) (script_at r1 j)"
    using effects_others [OF d assms(2)] assms(2,3) by (simp add: n_scripts_def)
  moreover have "j < n_scripts (count_step r1)" "script_at (count_step r1) j = script_at r1 j"
    using effects_fixed [OF d] assms(3) by (simp_all add: fixed_fields_def n_scripts_def count_step_def script_at_def)
  then have "queue_grows (script_at r1 j) (script_at r' j)"
    using event(4) switch_state_others [of n i "count_step r1" r' j] assms(2) by (auto split: if_splits)
  ultimately show ?thesis by (rule queue_grows_trans)
qed simp

lemma take_turn_n_scripts: "take_turn lib n i r = Inr (b, r') \<Longrightarrow> n_scripts r' = n_scripts r"
  using take_turn_worlds [of n i r b r'] worlds_lawful same_scripts_at by (simp add: lawful_def)

lemma round_robin_append:
  "round_robin lib n (xs @ ys) b r = rbind (round_robin lib n xs b r) (\<lambda>(b, r). round_robin lib n ys b r)"
proof (induction xs arbitrary: b r)
  case (Cons i xs)
  then show ?case by (cases "take_turn lib n i r") auto
qed simp

lemma round_robin_others:
  "round_robin lib n is b r = Inr (b', r') \<Longrightarrow> j \<notin> set is \<Longrightarrow> j < n_scripts r \<Longrightarrow>
     queue_grows (script_at r j) (script_at r' j) \<and> n_scripts r' = n_scripts r"
proof (induction "is" arbitrary: b r)
  case (Cons i "is")
  then obtain c r1 where 1: "take_turn lib n i r = Inr (c, r1)" and 2: "round_robin lib n is (b \<or> c) r1 = Inr (b', r')"
    by (auto simp: rbind_eq_Inr)
  have "queue_grows (script_at r j) (script_at r1 j)" using take_turn_others [OF 1] Cons.prems by simp
  then show ?case
    using Cons.IH [OF 2] Cons.prems(2,3) take_turn_n_scripts [OF 1] by (auto intro: queue_grows_trans)
qed simp

lemma round_robin_serves:
  assumes "round_robin lib n [0 ..< m] b r = Inr (b', r')" "j < m" "m \<le> n_scripts r"
    and "evq (script_at r j) = e # es"
  shows "\<exists>r1 new r2. script_at r1 j = (script_at r j)\<lparr>evq := e # es @ new\<rparr> \<and>
     dispatch_event lib n j e (upd_script j (\<lambda>s. s\<lparr>evq := es @ new\<rparr>) r1) = Inr r2 \<and> worlds r r1 \<and> worlds r2 r'"
proof -
  have u: "[0 ..< m] = [0 ..< j] @ j # [Suc j ..< m]"
    using assms(2) upt_add_eq_append [of 0 j "m - j"] upt_conv_Cons [of j m] by simp
  from assms(1) obtain b1 r1 c r3 where 1: "round_robin lib n [0 ..< j] b r = Inr (b1, r1)"
    and 2: "take_turn lib n j r1 = Inr (c, r3)"
    and 3: "round_robin lib n [Suc j ..< m] (b1 \<or> c) r3 = Inr (b', r')"
    unfolding u round_robin_append by (auto simp: rbind_eq_Inr)
  have "queue_grows (script_at r j) (script_at r1 j)"
    using round_robin_others [OF 1, of j] assms(2,3) by simp
  then obtain new where new: "script_at r1 j = (script_at r j)\<lparr>evq := e # es @ new\<rparr>"
    using assms(4) by (auto simp: queue_grows_def)
  from 2 show ?thesis
  proof (cases rule: take_turn_cases)
    case idle
    with new show ?thesis by simp
  next
    case (event e' es' r2)
    with new have d: "dispatch_event lib n j e (upd_script j (\<lambda>s. s\<lparr>evq := es @ new\<rparr>) r1) = Inr r2" by simp
    have "worlds r2 (count_step r2)" by (intro r_into_rtranclp w_count)
    also have "worlds (count_step r2) r3"
      using event(4) switch_state_worlds [of n j "count_step r2" r3]
      by (auto simp: count_step_def script_at_def split: if_splits)
    also note round_robin_worlds [OF 3]
    finally have "worlds r2 r'" .
    with new d round_robin_worlds [OF 1] show ?thesis by blast
  qed
qed

end

text \<open>C14 A state change takes effect before the next event: what was queued for the old state is
  dropped, the new state is current, no change is pending, and the script's next event is \<open>state_entry\<close>;
  a \<open>state_exit\<close> handler of the old state runs in between, when the new state is already current (the comment in
  \<open>region.c\<close> has it run before the switch), and its events come first. Globals, listens and
  the timer stay.\<close>

theorem state_change_flushes:
  assumes "take_turn builtins_lookup n i r = Inr (True, r')" "i < n_scripts r" "evq (script_at r i) = e # es"
    and "dispatch_event builtins_lookup n i e (upd_script i (\<lambda>s. s\<lparr>evq := es\<rparr>) r) = Inr r1"
    and "0 \<le> pending_state (script_at r1 i)"
  defines "entry \<equiv> \<lparr>ev_name = ''state_entry'', ev_args = []\<rparr>" and "s1 \<equiv> script_at r1 i"
  shows "case (if cur_state s1 < 0 then None else find_handler (prog s1) (cur_state s1) ''state_exit'') of
      None \<Rightarrow> script_at r' i = s1\<lparr>evq := [entry], cur_state := pending_state s1, pending_state := - 1\<rparr>
    | Some ed \<Rightarrow> \<exists>r2 r3. script_at r2 i = s1\<lparr>evq := [], cur_state := pending_state s1, pending_state := - 1\<rparr> \<and>
        vm_dispatch builtins_lookup n i ed [] r2 = Inr r3 \<and>
        script_at r' i = (script_at r3 i)\<lparr>evq := evq (script_at r3 i) @ [entry]\<rparr>"
proof -
  have n: "i < n_scripts r1"
    using effects_fixed [OF el.dispatch_effects [OF assms(4)]] assms(2) by (simp add: fixed_fields_def n_scripts_def)
  have s: "switch_state builtins_lookup n i (count_step r1) = Inr r'"
    using assms(1,3) by (cases rule: el.take_turn_cases) (use assms(3,4,5) in auto)
  let ?r2 = "upd_script i enter_state (count_step r1)"
  have at: "script_at (count_step r1) i = s1" "i < n_scripts (count_step r1)"
    using n by (simp_all add: s1_def count_step_def script_at_def n_scripts_def)
  then have e: "script_at ?r2 i = s1\<lparr>evq := [], cur_state := pending_state s1, pending_state := - 1\<rparr>"
    by (simp add: n_scripts_def enter_state_def flush_events_def)
  have p: "i < n_scripts x \<Longrightarrow> script_at (script_push_event i ''state_entry'' [] x) i =
      (script_at x i)\<lparr>evq := evq (script_at x i) @ [entry]\<rparr>" for x
    by (simp add: script_push_event_def enqueue_def entry_def n_scripts_def)
  show ?thesis
  proof (cases "if cur_state s1 < 0 then None else find_handler (prog s1) (cur_state s1) ''state_exit''")
    case None
    then have "r' = script_push_event i ''state_entry'' [] ?r2"
      using s at(1) by (auto simp: switch_state_def Let_def split: if_splits)
    with p [of ?r2] e at(2) None show ?thesis by (simp add: n_scripts_def)
  next
    case (Some ed)
    then obtain r3 where d: "vm_dispatch builtins_lookup n i ed [] ?r2 = Inr r3"
      and r': "r' = script_push_event i ''state_entry'' [] r3"
      using s at(1) by (auto simp: switch_state_def Let_def rbind_eq_Inr split: if_splits)
    have "i < n_scripts r3"
      using effects_fixed [OF el.vm_dispatch_effects [OF d]] at(2) by (simp add: fixed_fields_def n_scripts_def)
    show ?thesis
      unfolding r' Some option.case by (intro exI [of _ ?r2] exI [of _ r3] conjI e d p) fact
  qed
qed

text \<open>C15 No script is starved: in a round of the loop every script whose queue is not empty has its
  oldest event dispatched, whatever the scripts before it did in the same round; the only thing they
  did to the script is to append to its queue.\<close>

theorem round_serves_every_script:
  assumes "round_robin builtins_lookup n [0 ..< n_scripts r] b r = Inr (b', r')"
    and "j < n_scripts r" "evq (script_at r j) = e # es"
  shows "\<exists>r1 new r2. worlds r r1 \<and> script_at r1 j = (script_at r j)\<lparr>evq := e # es @ new\<rparr> \<and>
     dispatch_event builtins_lookup n j e (upd_script j (\<lambda>s. s\<lparr>evq := es @ new\<rparr>) r1) = Inr r2 \<and>
     worlds r2 r'"
  using el.round_robin_serves [OF assms(1,2) _ assms(3)] by auto

text \<open>C16 Scripts are isolated: whatever a handler of one script runs, every other script keeps its
  program, globals, state, listens, timer and the events it waits for; the handler can only append
  events to its queue.\<close>

theorem scripts_isolated:
  assumes "dispatch_event builtins_lookup n i ev r = Inr r'" "j \<noteq> i" "j < n_scripts r"
  shows "\<exists>new. script_at r' j = (script_at r j)\<lparr>evq := evq (script_at r j) @ new\<rparr>"
  using effects_others [OF el.dispatch_effects [OF assms(1)] assms(2,3)] by (simp add: queue_grows_def)

end
