(* ===== verification/RunEnds.thy ===== *)
theory RunEnds
  imports LoopProps
begin

text \<open>
  Whole runs: the step limit bounds the main loop, and a region whose scripts have no jumps, call no user
  function and only library functions that always return comes to an end.
\<close>

subsection \<open>Nothing outside the interpreter touches the frames\<close>

text \<open>The number of steps the loop takes: what is left of the limit, and the rest of the last round.\<close>

definition few_steps :: "int \<Rightarrow> region \<Rightarrow> region \<Rightarrow> bool" where
  "few_steps d r r' \<longleftrightarrow> max_steps r' = max_steps r \<and> n_scripts r' = n_scripts r \<and>
     n_steps r' \<le> max (n_steps r) (max_steps r + 1) + d"

lemma few_effects: "effects i r r' \<Longrightarrow> few_steps 0 r r'"
  using effects_fixed [of i r r'] by (auto simp: few_steps_def fixed_fields_def)

lemma few_trans: "few_steps d r r' \<Longrightarrow> few_steps e r' r'' \<Longrightarrow> 0 \<le> d \<Longrightarrow> few_steps (d + e) r r''"
  by (auto simp: few_steps_def)

lemma few_same: "max_steps r' = max_steps r \<Longrightarrow> n_scripts r' = n_scripts r \<Longrightarrow> n_steps r' = n_steps r \<Longrightarrow> few_steps 0 r r'"
  by (simp add: few_steps_def)

lemma few_count: "few_steps 1 r (count_step r)"
  by (simp add: few_steps_def count_step_def n_scripts_def)

text \<open>What a command or a fired timer leaves: no frame, and no step is counted, but \<open>EXIT\<close> and \<open>quit\<close> may set the counter behind the limit.\<close>

definition settled :: "region \<Rightarrow> region \<Rightarrow> bool" where
  "settled r r' \<longleftrightarrow> frames r' = frames r \<and> few_steps 0 r r'"

lemma settled_same:
  "frames r' = frames r \<Longrightarrow> max_steps r' = max_steps r \<Longrightarrow> scripts r' = scripts r \<Longrightarrow> n_steps r' = n_steps r \<Longrightarrow>
     settled r r'"
  by (simp add: settled_def few_steps_def n_scripts_def)

lemma settled_upd_script: "settled r (upd_script i f r)"
  by (simp add: settled_def few_steps_def n_scripts_def)

lemma settled_trans: "settled r r' \<Longrightarrow> settled r' r'' \<Longrightarrow> settled r r''"
  using few_trans [of 0 r r' 0 r''] by (simp add: settled_def)

interpretation cs: command_rel settled
proof unfold_locales
  show "settled r r'" if "quiet r r'" for r r'
    using quiet_fixed [OF that] that by (auto simp: settled_def few_steps_def fixed_fields_def quiet_fields(1,2))
qed (auto intro: settled_same settled_trans settled_upd_script
    simp: script_push_event_def push_detected_def dialog_close_def upd_avatar_def pay_def)

lemma commands_pump_frames: "commands_pump r = (b, r') \<Longrightarrow> frames r' = frames r"
  using cs.commands_pump_rel by (simp add: settled_def)

lemma step_frames [simp]: "frames (script_push_event i nm args r) = frames r" "frames (count_step r) = frames r"
  by (simp_all add: script_push_event_def count_step_def)

lemma fire_timer_settled: "fire_timer r = (b, r') \<Longrightarrow> settled r r'"
proof -
  have "settled r (r\<lparr>virtual_now := x\<rparr>)" for x by (rule settled_same) simp_all
  then have "settled r (upd_script i f (script_push_event i nm args (r\<lparr>virtual_now := x\<rparr>)))" for x i f nm args
    by (rule settled_trans [OF settled_trans [OF _ cs.rel_push] settled_upd_script])
  with \<open>\<And>x. settled r (r\<lparr>virtual_now := x\<rparr>)\<close> show "fire_timer r = (b, r') \<Longrightarrow> settled r r'"
    by (auto simp: fire_timer_def Let_def split: prod.splits option.splits)
qed

lemma fire_timer_frames: "fire_timer r = (b, r') \<Longrightarrow> frames r' = frames r"
  using fire_timer_settled by (simp add: settled_def)

lemma load_economy_same [simp]:
  "frames (volume_load_economy r) = frames r" "scripts (volume_load_economy r) = scripts r"
  "n_steps (volume_load_economy r) = n_steps r" "max_steps (volume_load_economy r) = max_steps r"
proof -
  have l: "frames (load_line l r) = frames r \<and> scripts (load_line l r) = scripts r \<and>
      n_steps (load_line l r) = n_steps r \<and> max_steps (load_line l r) = max_steps r" for l r
    by (auto simp: load_line_def Let_def upd_avatar_def region_add_avatar_def split: option.split)
  have "frames (fold (\<lambda>l. load_line (cstr l)) ls r) = frames r \<and> scripts (fold (\<lambda>l. load_line (cstr l)) ls r) = scripts r \<and>
      n_steps (fold (\<lambda>l. load_line (cstr l)) ls r) = n_steps r \<and>
      max_steps (fold (\<lambda>l. load_line (cstr l)) ls r) = max_steps r" for ls
    by (induction ls arbitrary: r) (simp_all add: l)
  then show "frames (volume_load_economy r) = frames r" "scripts (volume_load_economy r) = scripts r"
    "n_steps (volume_load_economy r) = n_steps r" "max_steps (volume_load_economy r) = max_steps r"
    by (simp_all add: volume_load_economy_def split: option.split)
qed

subsection \<open>Programs that end\<close>

text \<open>Every initialiser and handler of the program is free of jumps, user calls and the library functions outside
  \<open>t\<close>, and smaller than \<open>n\<close>.\<close>

definition plain_program :: "(string \<Rightarrow> bool) \<Rightarrow> nat \<Rightarrow> program \<Rightarrow> bool" where
  "plain_program t n p \<longleftrightarrow>
     list_all (\<lambda>g. gv_init g = E_NULL \<or> plain_expr t p (gv_init g) \<and> size (gv_init g) < n) (p_globals p) \<and>
     list_all (\<lambda>sd. list_all (\<lambda>ed. plain_stmt t p (ed_body ed) \<and> stmt_size (ed_body ed) < n) (sd_events sd))
       (p_states p)"

definition ready :: "(string \<Rightarrow> bool) \<Rightarrow> nat \<Rightarrow> region \<Rightarrow> bool" where
  "ready t n r \<longleftrightarrow> frames r = [] \<and> states_ok r \<and> (\<forall>i < n_scripts r. plain_program t n (prog (script_at r i)))"

lemma ready_worlds: "worlds r r' \<Longrightarrow> ready t n r \<Longrightarrow> frames r' = frames r \<Longrightarrow> ready t n r'"
  using worlds_lawful [of r r'] same_scripts_states [of r r'] same_scripts_at [of r r']
  by (auto simp: ready_def lawful_def)

lemma ready_steps:
  "ready t n r \<Longrightarrow> ready t n (upd_script i (\<lambda>s. s\<lparr>evq := es\<rparr>) r)" "ready t n r \<Longrightarrow> ready t n (count_step r)"
  by (auto simp: ready_def states_ok_def list_all_length state_ok_def n_scripts_def script_at_def upd_script_def
      nth_update_nth count_step_def)

lemma find_handler_in:
  "find_handler p st nm = Some ed \<Longrightarrow> nat st < length (p_states p) \<Longrightarrow> plain_program t n p \<Longrightarrow>
     plain_stmt t p (ed_body ed) \<and> stmt_size (ed_body ed) < n"
  by (fastforce simp: find_handler_def plain_program_def list_all_length list_all_iff find_Some_iff)

lemma ready_state: "ready t n r \<Longrightarrow> i < n_scripts r \<Longrightarrow> cur_state (script_at r i) < int (length (p_states (prog (script_at r i))))"
  by (auto simp: ready_def states_ok_def list_all_length state_ok_def n_scripts_def script_at_def)

lemma jumping_bind_values: "jumping (bind_values ps vs f) = jumping f"
  by (induction ps vs f rule: bind_values.induct) (simp_all add: frame_define_def)

locale plain_library = library_mono + effect_library
begin

abbreviation rdy :: "nat \<Rightarrow> region \<Rightarrow> bool" where "rdy \<equiv> ready (total_lib lib)"

lemma vm_dispatch_ends:
  assumes "plain_stmt (total_lib lib) (prog (script_at r i)) (ed_body ed)" "stmt_size (ed_body ed) < n"
    and "i < n_scripts r"
  shows "vm_dispatch lib n i ed args r \<noteq> Inl OutOfFuel"
proof -
  let ?r = "frame_push (bind_values (ed_params ed) args new_frame) r"
  have "running i (prog (script_at r i)) ?r"
    using assms(3) by (simp add: running_def frame_push_def top_jumping_def jumping_bind_values n_scripts_def
        script_at_def new_frame_def)
  from ends_fuel [OF stmt_ends [OF assms(1,2)] this] show ?thesis by (auto simp: vm_dispatch_def rbind_eq_Inl)
qed

lemma dispatch_frames: "dispatch_event lib n i ev r = Inr r' \<Longrightarrow> frames r' = frames r"
  by (auto simp: dispatch_event_def Let_def split: if_splits option.splits dest!: vm_dispatch_shape)

lemma dispatch_ends:
  assumes "rdy n r" "i < n_scripts r"
  shows "dispatch_event lib n i ev r \<noteq> Inl OutOfFuel"
proof (cases "cur_state (script_at r i) < 0")
  case False
  show ?thesis
  proof (cases "find_handler (prog (script_at r i)) (cur_state (script_at r i)) (ev_name ev)")
    case (Some ed)
    have "plain_stmt (total_lib lib) (prog (script_at r i)) (ed_body ed) \<and> stmt_size (ed_body ed) < n"
      using Some ready_state [OF assms] False assms by (intro find_handler_in) (auto simp: ready_def)
    then have "vm_dispatch lib n i ed (ev_args ev) (evt_event_dispatch i (ev_name ev) (length (ev_args ev)) r) \<noteq> Inl OutOfFuel"
      using assms(2) by (intro vm_dispatch_ends) (simp_all add: n_scripts_def script_at_def)
    with Some False show ?thesis by (simp add: dispatch_event_def Let_def)
  qed (use False in \<open>simp add: dispatch_event_def Let_def\<close>)
qed (simp add: dispatch_event_def Let_def)

lemma switch_state_ends:
  assumes "rdy n r" "i < n_scripts r"
  shows "switch_state lib n i r \<noteq> Inl OutOfFuel"
proof -
  let ?p = "prog (script_at r i)" and ?old = "cur_state (script_at r i)"
  have "vm_dispatch lib n i ed [] (upd_script i enter_state r) \<noteq> Inl OutOfFuel"
    if "find_handler ?p ?old ''state_exit'' = Some ed" "0 \<le> ?old" for ed
  proof -
    have "plain_stmt (total_lib lib) ?p (ed_body ed) \<and> stmt_size (ed_body ed) < n"
      using that ready_state [OF assms] assms by (intro find_handler_in [of ?p ?old]) (auto simp: ready_def)
    then show ?thesis using assms(2)
      by (intro vm_dispatch_ends) (auto simp: n_scripts_def enter_state_def flush_events_def)
  qed
  then show ?thesis
    by (auto simp: switch_state_def Let_def rbind_eq_Inl split: if_splits option.splits)
qed

lemma switch_state_frames: "switch_state lib n i r = Inr r' \<Longrightarrow> frames r' = frames r"
  by (auto simp: switch_state_def Let_def rbind_eq_Inr split: if_splits option.splits dest!: vm_dispatch_shape)

lemma take_turn_frames: "take_turn lib n i r = Inr (b, r') \<Longrightarrow> frames r' = frames r"
  by (erule take_turn_cases) (auto dest!: dispatch_frames switch_state_frames split: if_splits)

lemma take_turn_ends:
  assumes "rdy n r" "i < n_scripts r"
  shows "take_turn lib n i r \<noteq> Inl OutOfFuel"
proof (cases "dequeue (script_at r i)")
  case None
  then show ?thesis by (simp add: take_turn_def)
next
  case (Some p)
  then obtain e s where d: "dequeue (script_at r i) = Some (e, s)" by (cases p) auto
  from dequeue_take [OF this] obtain es where es: "evq (script_at r i) = e # es"
    and u: "upd_script i (\<lambda>_. s) r = upd_script i (\<lambda>s. s\<lparr>evq := es\<rparr>) r" by blast
  let ?r = "upd_script i (\<lambda>s. s\<lparr>evq := es\<rparr>) r"
  have 1: "rdy n ?r" "i < n_scripts ?r" using ready_steps(1) [OF assms(1)] assms(2) by (simp_all add: n_scripts_def)
  have "switch_state lib n i (count_step r1) \<noteq> Inl OutOfFuel" if "dispatch_event lib n i e ?r = Inr r1" for r1
  proof (rule switch_state_ends)
    show "rdy n (count_step r1)"
      using ready_worlds [OF worlds_effects [OF dispatch_effects [OF that]] 1(1) dispatch_frames [OF that]]
      by (rule ready_steps)
    show "i < n_scripts (count_step r1)"
      using effects_fixed [OF dispatch_effects [OF that]] 1(2) by (simp add: fixed_fields_def count_step_def n_scripts_def)
  qed
  then show ?thesis
    using dispatch_ends [OF 1, of e] unfolding take_turn_def d by (auto simp: u rbind_eq_Inl split: if_splits)
qed

lemma round_robin_frames: "round_robin lib n is b r = Inr (b', r') \<Longrightarrow> frames r' = frames r"
proof (induction "is" arbitrary: b r)
  case (Cons i "is")
  then show ?case by (fastforce simp: rbind_eq_Inr dest: take_turn_frames)
qed simp

lemma round_robin_ends: "rdy n r \<Longrightarrow> \<forall>i \<in> set is. i < n_scripts r \<Longrightarrow> round_robin lib n is b r \<noteq> Inl OutOfFuel"
proof (induction "is" arbitrary: b r)
  case (Cons i "is")
  have "round_robin lib n is (b \<or> c) r1 \<noteq> Inl OutOfFuel" if "take_turn lib n i r = Inr (c, r1)" for c r1
    using ready_worlds [OF take_turn_worlds [OF that] Cons.prems(1) take_turn_frames [OF that]] Cons.prems(2)
      take_turn_n_scripts [OF that] by (intro Cons.IH) auto
  then show ?case using take_turn_ends [OF Cons.prems(1)] Cons.prems(2) by (auto simp: rbind_eq_Inl)
qed simp

lemma run_turn_frames: "run_turn lib n t r = Inr (go, r') \<Longrightarrow> frames r' = frames r"
  by (erule run_turn_cases) (auto dest!: fire_timer_frames round_robin_frames commands_pump_frames split: if_splits)

lemma run_turn_ends:
  assumes "rdy n r"
  shows "run_turn lib n t r \<noteq> Inl OutOfFuel"
proof -
  obtain fired r1 where f: "fire_timer r = (fired, r1)" by fastforce
  have "rdy n r1" using ready_worlds [OF fire_timer_worlds [OF f] assms fire_timer_frames [OF f]] .
  then have "round_robin lib n [0 ..< n_scripts r1] fired r1 \<noteq> Inl OutOfFuel" by (rule round_robin_ends) simp
  then show ?thesis by (auto simp: run_turn_def f rbind_eq_Inl split: if_splits prod.splits)
qed

lemma run_turn_goes_on:
  assumes "run_turn lib n t r = Inr (True, r')" "0 < max_steps r" "nat (max_steps r - n_steps r) < Suc k"
  shows "0 < max_steps r' \<and> nat (max_steps r' - n_steps r') < k"
proof -
  have "n_steps r < max_steps r" using assms(1,2) by (auto elim!: run_turn_cases)
  with run_turn_ticks [OF assms(1)] assms(2,3) show ?thesis by (auto simp: ticks_def)
qed

lemma run_loop_ends:
  "rdy n r \<Longrightarrow> 0 < max_steps r \<Longrightarrow> nat (max_steps r - n_steps r) < k \<Longrightarrow> run_loop lib n k t r \<noteq> Inl OutOfFuel"
proof (induction k arbitrary: t r)
  case (Suc k)
  have "run_loop lib n k (Suc t) r1 \<noteq> Inl OutOfFuel" if "run_turn lib n t r = Inr (True, r1)" for r1
    using run_turn_goes_on [OF that Suc.prems(2,3)]
      ready_worlds [OF run_turn_worlds [OF that] Suc.prems(1) run_turn_frames [OF that]]
    by (intro Suc.IH) auto
  then show ?case using run_turn_ends [OF Suc.prems(1)] by (auto simp: rbind_eq_Inl split: if_splits)
qed simp

lemma init_globals_ends:
  assumes "list_all (\<lambda>g. gv_init g = E_NULL \<or> plain_expr (total_lib lib) p (gv_init g) \<and> size (gv_init g) < n) gs"
    and "running i p r"
  shows "init_globals (\<lambda>e r. vm_eval lib n i e r) i k gs r \<noteq> Inl OutOfFuel"
  using assms
proof (induction gs arbitrary: k r)
  case (Cons g gs)
  let ?m = "\<lambda>r. if gv_init g = E_NULL then Inr (sv_zero (type_byte (gv_type g)), r) else vm_eval lib n i (gv_init g) r"
  have m: "ends (running i p) ?m"
    using Cons.prems(1) by (cases "gv_init g = E_NULL") (auto intro: ends_return expr_ends)
  have "init_globals (\<lambda>e r. vm_eval lib n i e r) i (Suc k) gs (upd_script i (\<lambda>s. s\<lparr>globals := (globals s)[k := v]\<rparr>) r1)
      \<noteq> Inl OutOfFuel" if "?m r = Inr (v, r1)" for v r1
    using ends_state [OF m Cons.prems(2) that] Cons.prems(1)
    by (intro Cons.IH) (auto simp: running_def n_scripts_def top_jumping_def)
  then show ?case using ends_fuel [OF m Cons.prems(2)] by (auto simp: rbind_eq_Inl simp del: if_split)
qed simp

lemma init_globals_frames:
  "init_globals (\<lambda>e r. vm_eval lib n i e r) i k gs r = Inr r' \<Longrightarrow> frames r = [] \<Longrightarrow> frames r' = []"
proof (induction gs arbitrary: k r)
  case (Cons g gs)
  then obtain v r1 where
    1: "(if gv_init g = E_NULL then Inr (sv_zero (type_byte (gv_type g)), r) else vm_eval lib n i (gv_init g) r) = Inr (v, r1)"
    and 2: "init_globals (\<lambda>e r. vm_eval lib n i e r) i (Suc k) gs
       (upd_script i (\<lambda>s. s\<lparr>globals := (globals s)[k := v]\<rparr>) r1) = Inr r'"
    by (auto simp: rbind_eq_Inr simp del: if_split)
  have "frames r1 = []" using 1 Cons.prems(2) by (auto simp: eval_shape_def split: if_splits dest: vm_eval_shape)
  then show ?case using Cons.IH [OF 2] by simp
qed simp

lemma init_scripts_ends:
  "rdy n r \<Longrightarrow> \<forall>i \<in> set is. i < n_scripts r \<Longrightarrow> init_scripts lib n is r \<noteq> Inl OutOfFuel \<and>
     (\<forall>r'. init_scripts lib n is r = Inr r' \<longrightarrow> frames r' = [])"
proof (induction "is" arbitrary: r)
  case Nil
  then show ?case by (simp add: ready_def)
next
  case (Cons i "is")
  have p: "plain_program (total_lib lib) n (prog (script_at r i))" and fr: "frames r = []"
    using Cons.prems by (auto simp: ready_def)
  then have "init_globals (\<lambda>e r. vm_eval lib n i e r) i 0 (p_globals (prog (script_at r i))) r \<noteq> Inl OutOfFuel"
    using Cons.prems(2) by (intro init_globals_ends) (auto simp: plain_program_def running_def top_jumping_def)
  then have 1: "init_script lib n i r \<noteq> Inl OutOfFuel" by (auto simp: init_script_def rbind_eq_Inl)
  have "init_scripts lib n is r1 \<noteq> Inl OutOfFuel \<and> (\<forall>r'. init_scripts lib n is r1 = Inr r' \<longrightarrow> frames r' = [])"
    if i: "init_script lib n i r = Inr r1" for r1
  proof (rule Cons.IH)
    have w: "worlds r r1" using init_scripts_worlds [of n "[i]" r r1] i by simp
    have "frames r1 = []" using i fr by (auto simp: init_script_def rbind_eq_Inr dest: init_globals_frames)
    with ready_worlds [OF w Cons.prems(1)] fr show "rdy n r1" by simp
    show "\<forall>i \<in> set is. i < n_scripts r1"
      using worlds_lawful [OF w] same_scripts_at Cons.prems(2) by (auto simp: lawful_def)
  qed
  with 1 show ?case by (auto simp: rbind_eq_Inl rbind_eq_Inr)
qed

lemma switch_state_few: "switch_state lib n i r = Inr r' \<Longrightarrow> few_steps 0 r r'"
proof -
  have e: "few_steps 0 r (upd_script i enter_state r)" by (rule few_same) (simp_all add: n_scripts_def)
  have p: "few_steps 0 r' (script_push_event i nm args r')" for r' nm args
    by (rule few_same) (simp_all add: script_push_event_def n_scripts_def)
  have d: "few_steps 0 r r1" if "vm_dispatch lib n i ed [] (upd_script i enter_state r) = Inr r1" for ed r1
    using few_trans [OF e few_effects [OF vm_dispatch_effects [OF that]]] by simp
  assume "switch_state lib n i r = Inr r'"
  then show "few_steps 0 r r'"
    using few_trans [OF e p] few_trans [OF d p]
    by (auto simp: switch_state_def Let_def rbind_eq_Inr split: if_splits option.splits)
qed

lemma take_turn_few: "take_turn lib n i r = Inr (b, r') \<Longrightarrow> few_steps 1 r r'"
proof (erule take_turn_cases)
  fix e es r1
  let ?r = "upd_script i (\<lambda>s. s\<lparr>evq := es\<rparr>) r"
  assume d: "dispatch_event lib n i e ?r = Inr r1"
    and s: "(if 0 \<le> pending_state (script_at r1 i) then switch_state lib n i (count_step r1)
        else Inr (count_step r1)) = Inr r'"
  have "few_steps 0 r ?r" by (rule few_same) (simp_all add: n_scripts_def)
  from few_trans [OF this few_effects [OF dispatch_effects [OF d]]] have "few_steps 0 r r1" by simp
  from few_trans [OF this few_count] have c: "few_steps 1 r (count_step r1)" by simp
  with s few_trans [OF c switch_state_few] show "few_steps 1 r r'" by (auto split: if_splits)
qed (simp add: few_steps_def)

lemma round_robin_few: "round_robin lib n is b r = Inr (b', r') \<Longrightarrow> few_steps (int (length is)) r r'"
proof (induction "is" arbitrary: b r)
  case (Cons i "is")
  then obtain c r1 where 1: "take_turn lib n i r = Inr (c, r1)" and 2: "round_robin lib n is (b \<or> c) r1 = Inr (b', r')"
    by (auto simp: rbind_eq_Inr)
  from few_trans [OF take_turn_few [OF 1] Cons.IH [OF 2]] show ?case by simp
qed (simp add: few_steps_def)

lemma run_turn_few:
  assumes "run_turn lib n t r = Inr (go, r')"
  shows "few_steps (max 1 (int (n_scripts r))) r r'"
  using assms
proof (cases rule: run_turn_cases)
  case (moved fired r1)
  have f: "few_steps 0 r r1" using fire_timer_settled [OF moved(3)] by (simp add: settled_def)
  from few_trans [OF this round_robin_few [OF moved(4)]] f show ?thesis by (auto simp: few_steps_def)
next
  case (pumped fired r1 r2 p r3)
  with round_robin_ticks [OF pumped(3)] have "r2 = r1" by auto
  with pumped(2,4) have "settled r r3"
    using fire_timer_settled cs.commands_pump_rel settled_trans by blast
  then have "few_steps 0 r r3" by (simp add: settled_def)
  from this few_trans [OF this few_count] pumped(6) show ?thesis by (auto simp: few_steps_def split: if_splits)
qed (auto simp: few_steps_def)

lemma run_loop_few:
  assumes "run_loop lib n k t r = Inr r'" "0 < max_steps r" "n_steps r \<le> max_steps r"
  shows "max_steps r' = max_steps r \<and> n_steps r' \<le> max_steps r + 1 + max 1 (int (n_scripts r))"
  using assms
proof (induction k arbitrary: t r)
  case (Suc k)
  then obtain go r1 where 1: "run_turn lib n t r = Inr (go, r1)"
    and 2: "(if go then run_loop lib n k (Suc t) r1 else Inr r1) = Inr r'"
    by (auto simp: rbind_eq_Inr simp del: if_split)
  note few = run_turn_few [OF 1]
  show ?case
  proof (cases "go \<and> n_steps r1 \<le> max_steps r1")
    case True
    with Suc.IH [of "Suc t" r1] 2 few Suc.prems(2) show ?thesis by (auto simp: few_steps_def)
  next
    case False
    have "r' = r1"
    proof (cases go)
      case True
      with False 2 few Suc.prems(2) show ?thesis
        by (cases k) (auto simp: few_steps_def run_turn_def)
    qed (use 2 in simp)
    with few Suc.prems show ?thesis by (auto simp: few_steps_def)
  qed
qed simp

lemma region_run_split:
  obtains (init) e where "init_scripts lib n [0 ..< n_scripts r] (volume_load_economy r) = Inl e" "region_run lib n k r = Inl e"
  | (loop) r1 r2 where "init_scripts lib n [0 ..< n_scripts r] (volume_load_economy r) = Inr r1" "worlds r1 r2"
      "frames r2 = frames r1"
      "\<And>k. region_run lib n k r = rbind (run_loop lib n k 0 r2) (\<lambda>r.
         Inr (volume_save_economy (pump_rest (length (command_lines r) - next_command r) r)))"
proof (cases "init_scripts lib n [0 ..< n_scripts r] (volume_load_economy r)")
  case (Inl e)
  then show ?thesis by (intro init) (simp_all add: region_run_def)
next
  case (Inr r1)
  let ?r = "if dbg_enabled (dbg r1) \<and> scripts r1 \<noteq> [] then dbg_handshake_pause 0 r1 else r1"
  have "quiet r1 ?r" by simp
  then have "worlds r1 ?r" "frames ?r = frames r1"
    by (auto simp: quiet_fields intro: worlds_quiet simp del: if_split)
  with Inr show ?thesis by (intro loop [of r1 ?r]) (simp_all add: region_run_def)
qed

lemma init_steps:
  assumes "init_scripts lib n is (volume_load_economy r) = Inr r1" "worlds r1 r2" "n_steps r = 0"
  shows "max_steps r2 = max_steps r \<and> nat (max_steps r2 - n_steps r2) \<le> nat (max_steps r)"
  using worlds_no_back [OF init_scripts_worlds [OF assms(1)]] worlds_no_back [OF assms(2)] assms(3)
  by (auto simp: no_back_def)

lemma region_run_limit:
  assumes "0 < max_steps r" "n_steps r = 0" "nat (max_steps r) < k"
  shows "region_run lib n (k + d) r = region_run lib n k r"
proof (cases rule: region_run_split [of n r k])
  case (init e)
  then show ?thesis by (simp add: region_run_def)
next
  case (loop r1 r2)
  have "run_loop lib n (k + d) 0 r2 = run_loop lib n k 0 r2"
    using init_steps [OF loop(1,2) assms(2)] assms(1,3) by (intro run_loop_limit) auto
  then show ?thesis by (simp add: loop(4))
qed

lemma region_run_ends:
  assumes "rdy n r" "0 < max_steps r" "n_steps r = 0" "nat (max_steps r) < k"
  shows "region_run lib n k r \<noteq> Inl OutOfFuel"
proof -
  have l: "rdy n (volume_load_economy r)"
    using assms(1) by (simp add: ready_def states_ok_def n_scripts_def script_at_def)
  have s: "\<forall>i \<in> set [0 ..< n_scripts r]. i < n_scripts (volume_load_economy r)" by (simp add: n_scripts_def)
  note i = init_scripts_ends [OF l s]
  show ?thesis
  proof (cases rule: region_run_split [of n r k])
    case (init e)
    with i show ?thesis by auto
  next
    case (loop r1 r2)
    have "rdy n r2"
      using ready_worlds [OF rtranclp_trans [OF init_scripts_worlds [OF loop(1)] loop(2)] l] i loop(1,3) assms(1)
      by (simp add: ready_def)
    then have "run_loop lib n k 0 r2 \<noteq> Inl OutOfFuel"
      using init_steps [OF loop(1,2) assms(3)] assms(2,4) by (intro run_loop_ends) auto
    then show ?thesis by (auto simp: loop(4) rbind_eq_Inl)
  qed
qed

end

interpretation pl: plain_library builtins_lookup ..

subsection \<open>What every run guarantees\<close>

text \<open>C17 The step limit bounds the main loop: a loop of more turns than \<open>max_steps\<close> is the same run,
  whatever the scripts and the command file do, since every turn that goes on counts a step.\<close>

theorem step_limit_ends_loop:
  assumes "0 < max_steps r" "n_steps r = 0" "nat (max_steps r) < k"
  shows "region_run builtins_lookup n (k + d) r = region_run builtins_lookup n k r"
  using assms by (rule pl.region_run_limit)

lemma ready_plain:
  assumes "\<forall>i < n_scripts r. plain_program always_returns n (prog (script_at r i))" "states_ok r" "frames r = []"
  shows "ready (total_lib builtins_lookup) n r"
proof -
  have t: "\<forall>nm. always_returns nm \<longrightarrow> total_lib builtins_lookup nm" using builtins_end by blast
  have "plain_program (total_lib builtins_lookup) n p" if "plain_program always_returns n p" for p
    using that plain_expr_mono [OF t] plain_stmt_mono [OF t] unfolding plain_program_def list_all_iff by blast
  with assms show ?thesis by (simp add: ready_def)
qed

text \<open>The emulator comes to an end: when no initialiser and no handler has a jump, calls a user
  function or one of the three library functions that need not return, fuel above their sizes and one turn more than the step limit are enough
  for the whole run, loading, timers, state changes and commands included. It ends in a final region or
  a crash.\<close>

theorem plain_run_ends:
  assumes "\<forall>i < n_scripts r. plain_program always_returns n (prog (script_at r i))"
    and "states_ok r" "frames r = []" "0 < max_steps r" "n_steps r = 0" "nat (max_steps r) < k"
  shows "region_run builtins_lookup n k r \<noteq> Inl OutOfFuel"
  using ready_plain [OF assms(1-3)] assms(4-6) by (rule pl.region_run_ends)

text \<open>C18 The loop overruns its step limit, which it tests once per round, by a bounded number of steps: when it ends, the
  counter is at most the limit plus one, where \<open>EXIT\<close> and the debugger's \<open>quit\<close> set it, plus the steps of one round: one for
  each script, or one for a command.\<close>

theorem steps_bounded:
  assumes "run_loop builtins_lookup n k t r = Inr r'" "0 < max_steps r" "n_steps r \<le> max_steps r"
  shows "n_steps r' \<le> max_steps r + 1 + max 1 (int (n_scripts r))"
  using pl.run_loop_few [OF assms] by simp

text \<open>The final region is one the scripts, the commands and the loop lead to from the loaded economy.\<close>

lemma region_run_result:
  assumes "region_run builtins_lookup n k r = Inr r'"
  obtains r1 where "worlds (volume_load_economy r) r1" "scripts r' = scripts r1" "avatars r' = avatars r1"
proof -
  obtain r1 where w: "worlds (volume_load_economy r) r1" and r': "r' = volume_save_economy r1"
    using el.region_run_worlds [OF assms] by blast
  have "scripts r' = scripts r1" "avatars r' = avatars r1"
    by (simp_all add: r' volume_save_economy_def split: option.split)
  with w show thesis by (rule that)
qed

lemma region_run_states:
  assumes "region_run builtins_lookup n k r = Inr r'" "states_ok r"
  shows "states_ok r' \<and> map prog (scripts r') = map prog (scripts r)"
proof -
  obtain r1 where w: "worlds (volume_load_economy r) r1" and s: "scripts r' = scripts r1"
    using region_run_result [OF assms(1)] .
  have same: "same_scripts (volume_load_economy r) r1" using worlds_lawful [OF w] by (simp add: lawful_def)
  have "states_ok (volume_load_economy r)" using assms(2) by (simp add: states_ok_def)
  with same_scripts_states [OF same] have "states_ok r1" .
  moreover have "map prog (scripts r1) = map prog (scripts r)"
    using same by (auto simp: same_scripts_def same_script_def list_all2_conv_all_nth intro!: nth_equalityI)
  ultimately show ?thesis by (simp add: s states_ok_def)
qed

lemma region_run_keys:
  assumes "region_run builtins_lookup n k r = Inr r'"
  shows "total_money r' = total_money (volume_load_economy r) \<and> (distinct (av_keys r) \<longrightarrow> distinct (av_keys r'))"
proof -
  obtain r1 where w: "worlds (volume_load_economy r) r1" and "avatars r' = avatars r1"
    using region_run_result [OF assms] .
  then show ?thesis
    using worlds_lawful [OF w] distinct_load_economy [of r]
    by (auto simp: lawful_def total_money_def av_keys_def keys_grow_def)
qed

text \<open>C19 Money is conserved by a run once the economy file, which sets balances, has been loaded: after the run, the scripts'
  payments and the commands' included, the balances sum to what they did then, which is what they did at the start when there is
  no such file; and when no two avatars shared a key at the start, none do at the end.\<close>

theorem run_conserves_money:
  assumes "region_run builtins_lookup n k r = Inr r'"
  shows "total_money r' = total_money (volume_load_economy r) \<and>
    (vol r = None \<or> v_economy (the (vol r)) = None \<longrightarrow> total_money r' = total_money r) \<and>
    (distinct (av_keys r) \<longrightarrow> distinct (av_keys r'))"
  using region_run_keys [OF assms] by (auto simp: volume_load_economy_def split: option.splits)

text \<open>The state indices of a script always name states of its program: when they do at the start,
  as for a script just loaded, they do after every run, so that \<open>states[cur_state]\<close> is never read outside
  the array; and the run neither adds a script nor changes a program.\<close>

theorem run_keeps_states_valid:
  assumes "region_run builtins_lookup n k r = Inr r'"
    and "\<forall>s \<in> set (scripts r). - 1 \<le> cur_state s \<and> cur_state s < int (length (p_states (prog s))) \<and>
      - 1 \<le> pending_state s \<and> pending_state s < int (length (p_states (prog s)))"
  shows "map prog (scripts r') = map prog (scripts r) \<and>
    (\<forall>s \<in> set (scripts r'). - 1 \<le> cur_state s \<and> cur_state s < int (length (p_states (prog s))) \<and>
      - 1 \<le> pending_state s \<and> pending_state s < int (length (p_states (prog s))))"
  using region_run_states [OF assms(1)] assms(2) by (simp add: states_ok_def state_ok_def list_all_iff)

end
