(* ===== verification/DriverProps.thy ===== *)
theory DriverProps
  imports Driver RunEnds LoaderProps
begin

text \<open>
  The whole program: the options and the start-up build a region that meets the hypotheses of the theorems on
  runs, so what they promise holds for the program from its command line to its exit.
\<close>

subsection \<open>What the start-up leaves alone\<close>

text \<open>Before the scripts are loaded there are none; no handler runs and no step is counted; the keys of the avatars
  stay distinct.\<close>

definition booting :: "region \<Rightarrow> bool" where
  "booting r \<longleftrightarrow> scripts r = [] \<and> frames r = [] \<and> n_steps r = 0 \<and> distinct (av_keys r)"

lemma booting_init: "booting (region_init h env)"
  by (simp add: booting_def region_init_def av_keys_def)

lemma booting_same [intro?]:
  "booting r \<Longrightarrow> scripts r' = scripts r \<Longrightarrow> frames r' = frames r \<Longrightarrow> n_steps r' = n_steps r \<Longrightarrow>
     avatars r' = avatars r \<Longrightarrow> booting r'"
  by (simp add: booting_def av_keys_def)

lemma add_avatar_rest [simp]:
  "scripts (snd (region_add_avatar u b nm r)) = scripts r" "frames (snd (region_add_avatar u b nm r)) = frames r"
  "n_steps (snd (region_add_avatar u b nm r)) = n_steps r" "max_steps (snd (region_add_avatar u b nm r)) = max_steps r"
  by (auto simp: region_add_avatar_def upd_avatar_def split: option.split)

lemma set_owner_rest [simp]:
  "scripts (region_set_owner u nm r) = scripts r" "frames (region_set_owner u nm r) = frames r"
  "n_steps (region_set_owner u nm r) = n_steps r" "max_steps (region_set_owner u nm r) = max_steps r"
  by (auto simp: region_set_owner_def Let_def upd_avatar_def split: option.split)

lemma booting_add_avatar: "booting r \<Longrightarrow> booting (snd (region_add_avatar u b nm r))"
  by (simp add: booting_def distinct_add_avatar)

lemma booting_set_owner: "booting r \<Longrightarrow> booting (region_set_owner u nm r)"
  by (simp add: booting_def av_keys_set_owner distinct_add_avatar)

lemma booting_err_exit: "booting r \<Longrightarrow> booting (snd (err_exit msg r))"
  by (erule booting_same) (simp_all add: err_exit_def)

lemma booting_dbg_init: "booting r \<Longrightarrow> booting (dbg_init t r)"
  by (erule booting_same) (simp_all add: dbg_init_def)

lemma booting_set_volume: "booting r \<Longrightarrow> booting (region_set_volume v r)"
  by (erule booting_same) (simp_all add: region_set_volume_def)

lemma max_steps_set_volume [simp]: "max_steps (region_set_volume v r) = max_steps r"
  by (simp add: region_set_volume_def)

subsection \<open>The options\<close>

lemma booting_flag:
  assumes "booting (dr_region d)" "flag_option fs a d = Some d'"
  shows "booting (dr_region d') \<and> max_steps (dr_region d') = max_steps (dr_region d)"
  using assms by (auto simp: flag_option_def upd_region_def dbg_init_def booting_def av_keys_def split: if_splits)

lemma booting_value:
  assumes "booting (dr_region d)" "value_option a v d = Some d'"
  shows "booting (dr_region d') \<and> (a \<noteq> ''--steps'' \<longrightarrow> max_steps (dr_region d') = max_steps (dr_region d))"
proof -
  have n: "booting (r\<lparr>max_steps := x\<rparr>)" "booting (r\<lparr>wall_timeout := y\<rparr>)" if "booting r" for r x y
    using that by (auto simp: booting_def av_keys_def)
  show ?thesis
    using assms by (auto simp: value_option_def upd_region_def set_owner_arg_def add_avatar_arg_def n booting_add_avatar
        split: if_splits option.splits prod.splits)
qed

lemma parse_options_cases:
  assumes "parse_options fs p (a # as) d = y"
  obtains (rest) ps where "y = Inr (ps, d)" "set ps \<subseteq> set (a # as)"
  | (told) t where "y = Inl (0, emit t (dr_region d))"
  | (refused) msg where "y = Inl (err_exit msg (dr_region d))"
  | (flag) d1 where "flag_option fs a d = Some d1" "y = parse_options fs p as d1"
  | (valued) v as1 d1 where "as = v # as1" "value_option a v d = Some d1" "y = parse_options fs p as1 d1"
proof (cases "a = [] \<or> hd a \<noteq> CHR ''-'' \<or> a = ''-h'' \<or> a = ''--help'' \<or> a = ''--version'' \<or> a = ''--''")
  case True
  have "(\<exists>ps. y = Inr (ps, d) \<and> set ps \<subseteq> set (a # as)) \<or> (\<exists>t. y = Inl (0, emit t (dr_region d)))"
    using assms True unfolding parse_options.simps by (auto simp del: parse_options.simps split: if_split_asm)
  with rest told show thesis by blast
next
  case False
  then have y: "y = (case flag_option fs a d of Some d' \<Rightarrow> parse_options fs p as d'
     | None \<Rightarrow> (case map_of value_options a of
         None \<Rightarrow> Inl (err_exit (''unrecognised option '' @ [CHR 0x27] @ a @ [CHR 0x27] @ '' (try --help)'') (dr_region d))
       | Some what \<Rightarrow> (case as of
           [] \<Rightarrow> Inl (err_exit (a @ '' needs '' @ what) (dr_region d))
         | v # as' \<Rightarrow> (case value_option a v d of
             None \<Rightarrow> Inl (err_exit (a @ '' format is '' @ what) (dr_region d))
           | Some d' \<Rightarrow> parse_options fs p as' d'))))"
    using assms by simp
  show thesis
  proof (cases "flag_option fs a d")
    case None
    show thesis
    proof (cases "map_of value_options a")
      case (Some w)
      with None y refused valued show thesis by (cases as; cases "value_option a (hd as) d") auto
    qed (use None y refused in simp)
  qed (use y flag in simp)
qed

declare parse_options.simps(2) [simp del]

text \<open>The options leave a booting region, and without \<open>--steps\<close> its limit is the one it had; an exit among
  the options has the code 0 or 2.\<close>

lemma parse_options_booting:
  "booting (dr_region d) \<Longrightarrow> parse_options fs p as d = Inr (ps, d') \<Longrightarrow>
     booting (dr_region d') \<and> set ps \<subseteq> set as \<and>
     (''--steps'' \<notin> set as \<longrightarrow> max_steps (dr_region d') = max_steps (dr_region d))"
proof (induction as arbitrary: d rule: length_induct)
  case (1 as)
  show ?case
  proof (cases as)
    case (Cons a bs)
    from "1.prems"(2) [unfolded Cons] show ?thesis
    proof (cases rule: parse_options_cases)
      case (flag d1)
      with booting_flag [OF "1.prems"(1) flag(1)] "1.IH" [rule_format, of bs d1] Cons show ?thesis by auto
    next
      case (valued v as1 d1)
      with booting_value [OF "1.prems"(1) valued(2)] "1.IH" [rule_format, of as1 d1] Cons show ?thesis by auto
    qed (use 1 Cons in simp_all)
  qed (use 1 in simp)
qed

lemma parse_options_exit:
  "booting (dr_region d) \<Longrightarrow> parse_options fs p as d = Inl (c, r) \<Longrightarrow> booting r \<and> c \<in> {0, 2}"
proof (induction as arbitrary: d rule: length_induct)
  case (1 as)
  show ?case
  proof (cases as)
    case (Cons a bs)
    from "1.prems"(2) [unfolded Cons] show ?thesis
    proof (cases rule: parse_options_cases)
      case (told t)
      then show ?thesis using booting_same [OF "1.prems"(1), of r] by simp
    next
      case (refused msg)
      then show ?thesis using booting_err_exit [OF "1.prems"(1), of msg] by (simp add: err_exit_def)
    next
      case (flag d1)
      with booting_flag [OF "1.prems"(1) flag(1)] "1.IH" [rule_format, of bs d1] Cons show ?thesis by auto
    next
      case (valued v as1 d1)
      with booting_value [OF "1.prems"(1) valued(2)] "1.IH" [rule_format, of as1 d1] Cons show ?thesis by simp
    qed simp
  qed (use 1 in simp)
qed

subsection \<open>Start-up\<close>

lemma config_directive_rest:
  "config_directive w cur (fx, r) = (fx', r') \<Longrightarrow>
     scripts r' = scripts r \<and> frames r' = frames r \<and> n_steps r' = n_steps r \<and> max_steps r' = max_steps r"
  unfolding config_directive_def
  by (auto simp: Let_def region_add_group_def region_group_add_member_def upd_fixture_def new_fix_def
      split: if_splits prod.splits option.splits)

lemma config_line_rest:
  assumes "config_line l (fx, r) = (fx', r')" "booting r"
  shows "booting r' \<and> max_steps r' = max_steps r"
proof -
  consider "r' = r" | w cur where "config_directive w cur (fx, r) = (fx', r')"
    using assms(1) by (auto simp: config_line_def Let_def split: if_splits prod.splits option.splits)
  then show ?thesis
  proof cases
    case 2
    with config_directive_rest [OF 2] distinct_config_directive [OF 2] assms(2) show ?thesis by (simp add: booting_def)
  qed (use assms in simp)
qed

lemma config_load_rest:
  assumes "config_load buf path r = (ok, r')" "booting r"
  shows "booting r' \<and> max_steps r' = max_steps r"
proof -
  have f: "booting (snd (fold config_line ls (fx, r))) \<and> max_steps (snd (fold config_line ls (fx, r))) = max_steps r"
    if "booting r" for ls fx and r :: region
    using that
  proof (induction ls arbitrary: fx r)
    case (Cons l ls)
    obtain fx1 r1 where "config_line l (fx, r) = (fx1, r1)" by fastforce
    with Cons config_line_rest [OF this] show ?case by simp
  qed simp
  have "booting (emit_err t r)" for t using assms(2) by (rule booting_same) simp_all
  with f [OF assms(2)] assms(1) show ?thesis by (auto simp: config_load_def split: option.splits)
qed

lemma commands_load_rest:
  assumes "commands_load buf r = (n, r')" "booting r"
  shows "booting r' \<and> max_steps r' = max_steps r"
  using assms by (auto simp: commands_load_def Let_def booting_def av_keys_def split: option.splits)

text \<open>A stage of the start-up either exits, with code 0 or 2 and nothing run, or leaves what \<open>P\<close> says.\<close>

definition stage :: "('a \<Rightarrow> bool) \<Rightarrow> (int \<times> region) + 'a \<Rightarrow> bool" where
  "stage P x \<longleftrightarrow> (case x of Inl (c, r) \<Rightarrow> booting r \<and> c \<in> {0, 2} | Inr y \<Rightarrow> P y)"

lemma stage_simps [simp]: "stage P (Inl (c, r)) \<longleftrightarrow> booting r \<and> c \<in> {0, 2}" "stage P (Inr y) \<longleftrightarrow> P y"
  by (simp_all add: stage_def)

lemma stage_then: "stage P x \<Longrightarrow> (\<And>y. P y \<Longrightarrow> stage Q (f y)) \<Longrightarrow> stage Q (then_do x f)"
  by (cases x) (auto simp: stage_def)

lemma stage_err_exit [simp]: "booting r \<Longrightarrow> stage P (Inl (err_exit msg r))"
  using booting_err_exit [of r msg] by (simp add: err_exit_def)

lemma stage_fixtures: "booting r \<and> max_steps r = m \<Longrightarrow> stage (\<lambda>r. booting r \<and> max_steps r = m) (load_fixtures fs d r)"
  by (auto simp: load_fixtures_def booting_def av_keys_def split: option.split intro!: stage_err_exit)

lemma stage_config: "booting r \<and> max_steps r = m \<Longrightarrow> stage (\<lambda>r. booting r \<and> max_steps r = m) (load_config fs d r)"
  by (auto simp: load_config_def split: option.split prod.split dest: config_load_rest)

lemma stage_commands: "booting r \<and> max_steps r = m \<Longrightarrow> stage (\<lambda>r. booting r \<and> max_steps r = m) (load_commands fs d r)"
  by (auto simp: load_commands_def split: option.split prod.split dest: commands_load_rest intro!: stage_err_exit)

lemma booting_add_owner:
  "booting r \<Longrightarrow> booting (add_owner d r) \<and> max_steps (add_owner d r) = max_steps r"
  by (auto simp: add_owner_def Let_def booting_add_avatar booting_set_owner split: option.split)


text \<open>A script as \<open>region_load_script\<close> makes it from a file, named in \<open>ws\<close>, that loads.\<close>

definition from_file :: "files \<Rightarrow> string set \<Rightarrow> script \<Rightarrow> bool" where
  "from_file fs ws s \<longleftrightarrow> cur_state s = - 1 \<and> pending_state s = - 1 \<and> evq s = [] \<and>
     (\<exists>path \<in> ws. \<exists>bs. f_code fs path = Some bs \<and> program_load (f_junk fs) path bs = Inr (Some (prog s)))"

definition launched :: "files \<Rightarrow> string set \<Rightarrow> region \<Rightarrow> bool" where
  "launched fs ws r \<longleftrightarrow> (\<forall>s \<in> set (scripts r). from_file fs ws s) \<and> frames r = [] \<and> n_steps r = 0 \<and> distinct (av_keys r)"

lemma gen_uuid_rest:
  "gen_uuid r = (u, r') \<Longrightarrow> scripts r' = scripts r \<and> frames r' = frames r \<and> n_steps r' = n_steps r \<and>
     max_steps r' = max_steps r \<and> avatars r' = avatars r"
  by (auto simp: gen_uuid_def Let_def split: prod.splits if_splits)

lemma load_script_launched:
  assumes "region_load_script (f_junk fs) path (f_code fs path) r = Inr (ok, r')" "launched fs ws r" "path \<in> ws"
  shows "launched fs ws r' \<and> max_steps r' = max_steps r"
proof -
  obtain p where p: "(case f_code fs path of None \<Rightarrow> Inr None | Some bs \<Rightarrow> program_load (f_junk fs) path bs) = Inr p"
    and r': "(case p of
       None \<Rightarrow> Inr (False, emit_err (''slemu: cannot load '' @ [CHR 0x27] @ path @ [CHR 0x27, CHR 0x0A]) r)
     | Some p \<Rightarrow> (case gen_uuid r of (u, r1) \<Rightarrow>
         Inr (True, r1\<lparr>scripts := scripts r1 @ [new_script p u r1]\<rparr>))) = (Inr (ok, r') :: (bool \<times> region) res)"
    using assms(1) unfolding region_load_script_def rbind_eq_Inr by blast
  show ?thesis
  proof (cases p)
    case None
    with r' assms(2) show ?thesis by (auto simp: launched_def av_keys_def)
  next
    case (Some q)
    then obtain bs where "f_code fs path = Some bs" "program_load (f_junk fs) path bs = Inr (Some q)"
      using p by (auto split: option.splits)
    with assms(3) have "from_file fs ws (new_script q u r1)" for u r1 by (auto simp: from_file_def new_script_def)
    with Some r' assms(2) show ?thesis
      by (auto simp: launched_def av_keys_def split: prod.splits dest!: gen_uuid_rest)
  qed
qed

lemma rename_launched: "launched fs ws r \<Longrightarrow> launched fs ws (upd_script i (\<lambda>s. s\<lparr>name := nm\<rparr>) r)"
  by (fastforce simp: launched_def upd_script_def from_file_def av_keys_def all_set_conv_all_nth nth_update_nth)

lemma load_scripts_launched:
  "load_scripts fs nm paths r = Inr y \<Longrightarrow> launched fs ws r \<Longrightarrow> set paths \<subseteq> ws \<Longrightarrow>
     (case y of Inl (c, r') \<Rightarrow> c = 2 \<and> launched fs ws r' | Inr r' \<Rightarrow> launched fs ws r' \<and> max_steps r' = max_steps r)"
proof (induction paths arbitrary: r)
  case (Cons path paths)
  then obtain ok r1 where 1: "region_load_script (f_junk fs) path (f_code fs path) r = Inr (ok, r1)"
    and 2: "(if ok then load_scripts fs nm paths (upd_script (n_scripts r1 - 1) (\<lambda>s. s\<lparr>name := nm\<rparr>) r1)
       else Inr (Inl (2, r1))) = Inr y"
    by (auto simp: rbind_eq_Inr)
  from Cons.prems(3) have "path \<in> ws" by simp
  note l = load_script_launched [OF 1 Cons.prems(2) this]
  show ?case
  proof (cases ok)
    case True
    with Cons.IH [OF _ rename_launched] 2 l Cons.prems(3) show ?thesis by (auto split: sum.splits)
  qed (use 2 l in auto)
qed auto

lemma load_script_returns: "region_load_script (f_junk fs) path buf r \<noteq> Inl OutOfFuel"
  using program_load_total by (auto simp: region_load_script_def rbind_eq_Inl split: option.splits prod.splits)


lemma load_scripts_returns: "load_scripts fs nm paths r \<noteq> Inl OutOfFuel"
  by (induction paths arbitrary: r) (auto simp: rbind_eq_Inl load_script_returns)


subsection \<open>From the command line to the exit\<close>

lemma booting_driver: "booting (dr_region (start_driver (region_init h env)))"
  by (simp add: start_driver_def booting_init)

lemma set_up_stage:
  "stage (\<lambda>(paths, d, r). booting r \<and> set paths \<subseteq> set args \<and> (''--steps'' \<notin> set args \<longrightarrow> max_steps r = 100000))
     (set_up fs p args (region_init h env))"
  unfolding set_up_def
proof (rule stage_then)
  let ?d = "start_driver (region_init h env)"
  show "stage (\<lambda>(paths, d). booting (dr_region d) \<and> set paths \<subseteq> set args \<and>
      (''--steps'' \<notin> set args \<longrightarrow> max_steps (dr_region d) = 100000)) (parse_options fs p args ?d)"
  proof (cases "parse_options fs p args ?d")
    case (Inl a)
    with parse_options_exit [OF booting_driver] show ?thesis by (cases a) auto
  next
    case (Inr b)
    with parse_options_booting [OF booting_driver] show ?thesis
      by (cases b) (auto simp: start_driver_def region_init_def)
  qed
next
  fix y :: "string list \<times> driver"
  assume y: "case y of (paths, d) \<Rightarrow> booting (dr_region d) \<and> set paths \<subseteq> set args \<and>
      (''--steps'' \<notin> set args \<longrightarrow> max_steps (dr_region d) = 100000)"
  obtain paths d where yd: "y = (paths, d)" by (cases y)
  let ?m = "max_steps (dr_region d)" and ?r = "\<lambda>v. add_owner d (region_set_volume (Some v) (dr_region d))"
  let ?Q = "\<lambda>(paths, d, r). booting r \<and> set paths \<subseteq> set args \<and> (''--steps'' \<notin> set args \<longrightarrow> max_steps r = 100000)"
  have o: "booting (?r v) \<and> max_steps (?r v) = ?m" for v
  proof -
    have "booting (dr_region d)" using y yd by simp
    from booting_add_owner [OF booting_set_volume [OF this], of d] show ?thesis by simp
  qed
  have "stage ?Q (then_do (load_fixtures fs d (?r v)) (\<lambda>r. then_do (load_config fs d r) (\<lambda>r.
      then_do (load_commands fs d r) (\<lambda>r. Inr (paths, d, r)))))" for v
    by (rule stage_then [OF stage_fixtures [OF o]], rule stage_then [OF stage_config], assumption,
        rule stage_then [OF stage_commands], assumption) (use y yd in auto)
  then show "stage (\<lambda>(paths, d, r). booting r \<and> set paths \<subseteq> set args \<and> (''--steps'' \<notin> set args \<longrightarrow> max_steps r = 100000))
    (case y of (paths, d) \<Rightarrow>
      if paths = [] then Inl (err_exit ''no input scripts'' (dr_region d))
      else case f_volume fs (volume_path d) of
        None \<Rightarrow> Inl (err_exit (''cannot create/open volume '' @ [CHR 0x27] @ volume_path d @ [CHR 0x27]) (dr_region d))
      | Some v \<Rightarrow> then_do (load_fixtures fs d (add_owner d (region_set_volume (Some v) (dr_region d))))
          (\<lambda>r. then_do (load_config fs d r) (\<lambda>r.
          then_do (load_commands fs d r) (\<lambda>r. Inr (paths, d, r)))))"
    using y yd by (auto simp del: stage_simps split: option.split intro!: stage_err_exit)
qed

lemma set_up_done:
  assumes "set_up fs p args (region_init h env) = Inr (paths, d, r)"
  shows "booting r" "set paths \<subseteq> set args" "''--steps'' \<notin> set args \<Longrightarrow> max_steps r = 100000"
  using set_up_stage [of args fs p h env] assms by auto

lemma set_up_exit:
  assumes "set_up fs p args (region_init h env) = Inl (c, r)"
  shows "booting r \<and> c \<in> {0, 2}"
  using set_up_stage [of args fs p h env] assms by auto

lemma launched_booting: "booting r \<Longrightarrow> launched fs ws r"
  by (simp add: booting_def launched_def)

lemma launched_states: "launched fs ws r \<Longrightarrow> states_ok r"
  by (auto simp: launched_def from_file_def states_ok_def state_ok_def list_all_iff)


lemma main_cases:
  assumes "main lib n k fs p args (region_init h env) = y"
  obtains (exit) c r where "y = Inr (c, r)" "c \<in> {0, 2}" "launched fs (set args) r"
  | (crash) e where "y = Inl e" "e \<noteq> OutOfFuel"
  | (ran) r where "launched fs (set args) r" "''--steps'' \<notin> set args \<Longrightarrow> max_steps r = 100000"
      "y = rbind (region_run lib n k r) (\<lambda>r. Inr (0, dbg_notify_exit r))"
proof (cases "set_up fs p args (region_init h env)")
  case (Inl x)
  with set_up_exit [of fs p args h env "fst x" "snd x"] assms show thesis
    by (intro exit [of "fst x" "snd x"]) (auto simp: main_def launched_booting)
next
  case (Inr z)
  obtain paths d r where z: "z = (paths, d, r)" by (cases z)
  note s = set_up_done [OF Inr [unfolded z]]
  let ?l = "load_scripts fs (object_name d) paths r"
  show thesis
  proof (cases ?l)
    case (Inl e)
    with assms Inr z load_scripts_returns [of fs "object_name d" paths r] show thesis
      by (intro crash [of e]) (auto simp: main_def)
  next
    case l: (Inr x)
    note ls = load_scripts_launched [OF l launched_booting [OF s(1)] s(2)]
    show thesis
    proof (cases x)
      case (Inl q)
      with assms Inr z l ls show thesis by (intro exit [of "fst q" "snd q"]) (auto simp: main_def)
    next
      case (Inr r1)
      with assms \<open>set_up fs p args (region_init h env) = Inr z\<close> z l ls s(3) show thesis
        by (intro ran [of r1]) (auto simp: main_def)
    qed
  qed
qed

lemma notify_exit_same [simp]:
  "scripts (dbg_notify_exit r) = scripts r" "avatars (dbg_notify_exit r) = avatars r"
  by (simp_all add: dbg_notify_exit_def)

text \<open>C3 From the command line to the exit: whatever the arguments and the files hold, when the program exits its
  code is 0 or 2, and 0 also for a run that a budget has cut short, where the manual page has the code 1; no two avatars share a key, and every script it loaded runs the program of a bytecode file
  named on the command line, with its current and pending state indices within that program's states. With code
  2 nothing was run: no step is counted and no script has left its initial state.\<close>

theorem main_safe:
  assumes "main builtins_lookup n k fs p args (region_init h env) = Inr (code, r')"
  shows "code \<in> {0, 2} \<and> distinct (av_keys r') \<and>
    (\<forall>s \<in> set (scripts r').
       (\<exists>path \<in> set args. \<exists>bs. f_code fs path = Some bs \<and> program_load (f_junk fs) path bs = Inr (Some (prog s))) \<and>
       - 1 \<le> cur_state s \<and> cur_state s < int (length (p_states (prog s))) \<and>
       - 1 \<le> pending_state s \<and> pending_state s < int (length (p_states (prog s)))) \<and>
    (code = 2 \<longrightarrow> n_steps r' = 0 \<and> (\<forall>s \<in> set (scripts r'). cur_state s = - 1 \<and> evq s = []))"
  using assms
proof (cases rule: main_cases)
  case (exit c r)
  then show ?thesis by (auto simp: launched_def from_file_def)
next
  case (ran r)
  then obtain r1 where run: "region_run builtins_lookup n k r = Inr r1" and r': "code = 0" "r' = dbg_notify_exit r1"
    using ran(3) [symmetric] by (auto simp: rbind_eq_Inr)
  note st = region_run_states [OF run launched_states [OF ran(1)]] and ks = region_run_keys [OF run]
  have "\<exists>path \<in> set args. \<exists>bs. f_code fs path = Some bs \<and> program_load (f_junk fs) path bs = Inr (Some (prog s))"
    if "s \<in> set (scripts r1)" for s
  proof -
    have "prog s \<in> prog ` set (scripts r)" using that st by (metis imageI list.set_map)
    with ran(1) show ?thesis by (auto simp: launched_def from_file_def)
  qed
  with st ks ran(1) r' show ?thesis
    by (auto simp: launched_def av_keys_def states_ok_def state_ok_def list_all_iff)
qed simp

text \<open>C4 The whole program comes to an end: when no script file of the command line has jumps, user calls or the
  three library functions that need not return, and the default step limit is kept, the start-up, the run and
  the exit are over after at most one turn of the loop more than the limit, whatever the options, the other files and the
  standard input are.\<close>

theorem main_ends:
  assumes "\<forall>path \<in> set args. \<forall>bs q. f_code fs path = Some bs \<longrightarrow> program_load (f_junk fs) path bs = Inr (Some q) \<longrightarrow>
      plain_program always_returns n q"
    and "''--steps'' \<notin> set args" "100000 < k"
  shows "main builtins_lookup n k fs p args (region_init h env) \<noteq> Inl OutOfFuel"
proof -
  obtain y where y: "main builtins_lookup n k fs p args (region_init h env) = y" by simp
  then have "y \<noteq> Inl OutOfFuel"
  proof (cases rule: main_cases)
    case (ran r)
    have "\<forall>i < n_scripts r. plain_program always_returns n (prog (script_at r i))"
      using ran(1) assms(1) by (auto simp: launched_def from_file_def n_scripts_def script_at_def dest!: nth_mem)
    then have "ready (total_lib builtins_lookup) n r"
      using ran(1) launched_states by (intro ready_plain) (auto simp: launched_def)
    then have "region_run builtins_lookup n k r \<noteq> Inl OutOfFuel"
      using ran(1,2) assms(2,3) by (intro pl.region_run_ends) (auto simp: launched_def)
    then show ?thesis by (auto simp: ran(3) rbind_eq_Inl)
  qed auto
  with y show ?thesis by simp
qed

end
