(* ===== verification/Memory.thy ===== *)
theory Memory
  imports Ast
begin

text \<open>
  The C heap under the values and programs: blocks of memory by address, with \<open>malloc\<close>, \<open>realloc\<close>
  and \<open>free\<close> as \<open>util.c\<close> wraps them, C strings in blocks, and the growing string buffer
  \<open>JBuf\<close>. An access to an address without a block (the null pointer, freed memory) and a read of a byte or
  cell never written are the error \<open>BadMemory\<close>. Addresses are not handed out twice, so a use of freed
  memory always shows.
\<close>

type_synonym addr = nat
type_synonym size_t = "64 word"

subsection \<open>What the blocks hold\<close>

text \<open>A \<open>struct SValue\<close>: the members of the union, with pointers for strings and lists.\<close>

datatype cval = CVoid | CInt llong | CFloat double | CStr addr | CKey addr
  | CVector double double double | CRot double double double double | CList addr nat

text \<open>A \<open>struct Expr\<close> and a \<open>struct Stmt\<close> by kind.\<close>

datatype cexpr = CE_INT_LIT hdr llong | CE_FLOAT_LIT hdr double | CE_STRING_LIT hdr cint | CE_IDENT hdr cint
  | CE_VECTOR_LIT hdr addr addr addr addr | CE_ROT_LIT hdr addr addr addr addr
  | CE_LIST_LIT hdr addr nat | CE_CALL hdr cint addr nat | CE_MEMBER hdr addr byte | CE_CAST hdr byte addr
  | CE_UNARY hdr byte addr | CE_POSTFIX hdr byte addr | CE_BINARY hdr byte addr addr | CE_ASSIGN hdr byte addr addr

datatype cstmt = CS_EXPR cint addr | CS_DECL cint byte cint addr | CS_BLOCK cint addr nat | CS_IF cint addr addr addr
  | CS_WHILE cint addr addr | CS_DO cint addr addr | CS_FOR cint addr nat addr addr nat addr
  | CS_RETURN cint byte addr | CS_JUMP cint cint | CS_LABEL cint cint | CS_STATECHG cint cint | CS_EMPTY cint

record cglobal =
  cg_type :: byte
  cg_name :: cint
  cg_init :: addr

record cfunc =
  cf_name :: cint
  cf_line :: cint
  cf_ret :: byte
  cf_has_ret :: byte
  cf_n_params :: nat
  cf_params :: addr
  cf_body :: addr

record cevent =
  ce_name :: cint
  ce_line :: cint
  ce_n_params :: nat
  ce_params :: addr
  ce_body :: addr

record cstate =
  cs_name :: cint
  cs_line :: cint
  cs_is_default :: byte
  cs_n_events :: nat
  cs_events :: addr

record cprogram =
  cp_strings :: addr
  cp_n_strings :: nat
  cp_globals :: addr
  cp_n_globals :: nat
  cp_funcs :: addr
  cp_n_funcs :: nat
  cp_states :: addr
  cp_n_states :: nat
  cp_flags :: cint
  cp_path :: addr

text \<open>The owning members of the structures of a region: a queued event, a listen entry, an entry of
  \<open>detected\<close>, a script, an avatar, a fixture, a break- and a catchpoint. Their other members play no part in the release of
  memory and are left out.\<close>

record cdetected =
  cd_key :: addr
  cd_name :: addr
  cd_owner :: addr
  cd_pos :: cval

record cscript =
  sc_prog :: addr
  sc_prog_owned :: bool
  sc_globals :: addr
  sc_evq_head :: addr
  sc_listens :: addr
  sc_name :: addr
  sc_desc :: addr
  sc_uuid :: addr
  sc_perms_key :: addr
  sc_detected :: "cdetected list"

datatype block =
    Chars "char option list"  \<comment> \<open>\<open>None\<close>: never written\<close>
  | Vals "cval list"
  | Ptrs "addr list"
  | ExprB cexpr
  | StmtB cstmt
  | Params "param list"
  | Globals "cglobal list"
  | Funcs "cfunc list"
  | Events "cevent list"
  | States "cstate list"
  | ProgramB cprogram
  | EventB addr addr nat addr  \<comment> \<open>name, args, n_args, next\<close>
  | ListenB addr addr addr addr  \<comment> \<open>name_filter, id_filter, msg_filter, next\<close>
  | ScriptB cscript
  | Avatars "(addr \<times> addr) list"  \<comment> \<open>uuid, name\<close>
  | FixtureB addr addr addr  \<comment> \<open>match_url, body, next\<close>
  | FixturesB addr
  | VolumeB addr
  | PointB addr addr  \<comment> \<open>file or kind, next\<close>
  | Locals "(cint \<times> cval \<times> int) list"

record mem =
  blocks :: "addr \<Rightarrow> block option"
  brk :: addr

subsection \<open>Allocation\<close>

definition alloc :: "block \<Rightarrow> mem \<Rightarrow> addr \<times> mem" where
  "alloc b m = (brk m, m\<lparr>blocks := (blocks m)(brk m \<mapsto> b), brk := brk m + 1\<rparr>)"

definition read_block :: "addr \<Rightarrow> mem \<Rightarrow> block res" where
  "read_block p m = (case blocks m p of None \<Rightarrow> Inl BadMemory | Some b \<Rightarrow> Inr b)"

definition write_block :: "addr \<Rightarrow> block \<Rightarrow> mem \<Rightarrow> mem res" where
  "write_block p b m = (if blocks m p = None then Inl BadMemory else Inr (m\<lparr>blocks := (blocks m)(p \<mapsto> b)\<rparr>))"

text \<open>The memory without the blocks of a set of addresses.\<close>

definition without :: "addr set \<Rightarrow> mem \<Rightarrow> mem" where
  "without F m = m\<lparr>blocks := (\<lambda>a. if a \<in> F then None else blocks m a)\<rparr>"

definition free_ptr :: "addr \<Rightarrow> mem \<Rightarrow> mem res" where
  "free_ptr p m = (if p = 0 then Inr m else if blocks m p = None then Inl BadMemory else Inr (without {p} m))"

text \<open>The null pointer holds no block, and every block lies below \<open>brk\<close>.\<close>

definition heap_ok :: "mem \<Rightarrow> bool" where
  "heap_ok m \<longleftrightarrow> 0 < brk m \<and> (\<forall>a. blocks m a \<noteq> None \<longrightarrow> 0 < a \<and> a < brk m)"

subsection \<open>Strings\<close>

definition nul :: char where "nul = CHR 0x00"

definition chars :: "string \<Rightarrow> block" where
  "chars s = Chars (map Some s @ [Some nul])"

text \<open>Reading a C string up to its terminator.\<close>

fun scan :: "char option list \<Rightarrow> string res" where
  "scan [] = Inl BadMemory"
| "scan (None # cs) = Inl BadMemory"
| "scan (Some c # cs) = (if c = nul then Inr [] else rbind (scan cs) (\<lambda>s. Inr (c # s)))"

definition str_at :: "addr \<Rightarrow> mem \<Rightarrow> string res" where
  "str_at p m = rbind (read_block p m) (\<lambda>b. case b of Chars cs \<Rightarrow> scan cs | _ \<Rightarrow> Inl BadMemory)"

definition xstrdup :: "addr \<Rightarrow> mem \<Rightarrow> (addr \<times> mem) res" where
  "xstrdup p m = (if p = 0 then Inr (0, m) else rbind (str_at p m) (\<lambda>s. Inr (alloc (chars s) m)))"

text \<open>A copy of a literal, and of the first \<open>n\<close> bytes of a text.\<close>

definition dup_text :: "string \<Rightarrow> mem \<Rightarrow> addr \<times> mem" where
  "dup_text s m = alloc (chars s) m"

definition xstrndup :: "string \<Rightarrow> nat \<Rightarrow> mem \<Rightarrow> (addr \<times> mem) res" where
  "xstrndup s n m = (if n \<le> length s then Inr (alloc (chars (take n s)) m) else Inl BadMemory)"

text \<open>\<open>txt\<close>: what the format and its arguments make. \<open>vsnprintf\<close> fails when its length is no \<open>int\<close>.\<close>

definition xasprintf :: "string \<Rightarrow> mem \<Rightarrow> addr \<times> mem" where
  "xasprintf txt m = alloc (chars (if 2 ^ 31 \<le> length txt then [] else txt)) m"

subsection \<open>The string buffer\<close>

record jbuf =
  jb_buf :: addr
  jb_len :: size_t
  jb_cap :: size_t

definition jbuf_init :: jbuf where
  "jbuf_init = \<lparr>jb_buf = 0, jb_len = 0, jb_cap = 0\<rparr>"

definition jbuf_free :: "jbuf \<Rightarrow> mem \<Rightarrow> (jbuf \<times> mem) res" where
  "jbuf_free b m = rbind (free_ptr (jb_buf b) m) (\<lambda>m. Inr (jbuf_init, m))"

text \<open>The doubling loop, which need not end: once the product wraps to 0 it stays there.\<close>

partial_function (option) double_to :: "size_t \<Rightarrow> size_t \<Rightarrow> size_t option" where
  "double_to need nc = (if nc < need then double_to need (nc * 2) else Some nc)"

text \<open>\<open>xrealloc\<close> of a character array: the old contents, then bytes never written.\<close>

definition realloc_chars :: "addr \<Rightarrow> nat \<Rightarrow> mem \<Rightarrow> (addr \<times> mem) res" where
  "realloc_chars p n m =
    (if p = 0 then Inr (alloc (Chars (replicate n None)) m)
     else rbind (read_block p m) (\<lambda>b. case b of
         Chars cs \<Rightarrow> rbind (free_ptr p m) (\<lambda>m. Inr (alloc (Chars (take n (cs @ replicate n None))) m))
       | _ \<Rightarrow> Inl BadMemory))"

definition jbuf_reserve :: "jbuf \<Rightarrow> size_t \<Rightarrow> mem \<Rightarrow> (jbuf \<times> mem) res" where
  "jbuf_reserve b need m =
    (if jb_cap b < jb_len b + need + 1
     then case double_to (jb_len b + need + 1) (if jb_cap b \<noteq> 0 then jb_cap b * 2 else 64) of
         None \<Rightarrow> Inl OutOfFuel
       | Some nc \<Rightarrow> rbind (realloc_chars (jb_buf b) (unat nc) m) (\<lambda>(p, m).
           Inr (b\<lparr>jb_buf := p, jb_cap := nc\<rparr>, m))
     else Inr (b, m))"

text \<open>\<open>memcpy\<close> of a text to an offset of a character array, with a terminator behind it.\<close>

definition put_chars :: "addr \<Rightarrow> nat \<Rightarrow> string \<Rightarrow> mem \<Rightarrow> mem res" where
  "put_chars p i s m = rbind (read_block p m) (\<lambda>b. case b of
     Chars cs \<Rightarrow> (if i + length s < length cs
        then write_block p (Chars (take i cs @ map Some s @ [Some nul] @ drop (i + length s + 1) cs)) m
        else Inl BadMemory)
   | _ \<Rightarrow> Inl BadMemory)"

definition jbuf_appendn :: "jbuf \<Rightarrow> string \<Rightarrow> size_t \<Rightarrow> mem \<Rightarrow> (jbuf \<times> mem) res" where
  "jbuf_appendn b s n m = rbind (jbuf_reserve b n m) (\<lambda>(b, m).
     if unat n \<le> length s
     then rbind (put_chars (jb_buf b) (unat (jb_len b)) (take (unat n) s) m) (\<lambda>m. Inr (b\<lparr>jb_len := jb_len b + n\<rparr>, m))
     else Inl BadMemory)"

definition jbuf_append :: "jbuf \<Rightarrow> string \<Rightarrow> mem \<Rightarrow> (jbuf \<times> mem) res" where
  "jbuf_append b s m = jbuf_appendn b s (of_nat (length s)) m"

text \<open>A formatted text goes through 512 bytes of the stack, a longer one through a block of its own, and one whose
  length is no \<open>int\<close> is dropped.\<close>

definition jbuf_appendf :: "jbuf \<Rightarrow> string \<Rightarrow> mem \<Rightarrow> (jbuf \<times> mem) res" where
  "jbuf_appendf b txt m =
    (if 2 ^ 31 \<le> length txt then Inr (b, m)
     else if length txt < 512 then jbuf_appendn b txt (of_nat (length txt)) m
     else (case alloc (chars txt) m of (big, m) \<Rightarrow>
       rbind (str_at big m) (\<lambda>s. rbind (jbuf_appendn b s (of_nat (length txt)) m) (\<lambda>(b, m).
         rbind (free_ptr big m) (\<lambda>m. Inr (b, m))))))"

subsection \<open>Facts about the heap\<close>

lemma blocks_without [simp]: "blocks (without F m) a = (if a \<in> F then None else blocks m a)"
  by (simp add: without_def)

lemma brk_without [simp]: "brk (without F m) = brk m"
  by (simp add: without_def)

lemma without_empty [simp]: "without {} m = m"
  by (simp add: without_def)

lemma without_without [simp]: "without F (without G m) = without (G \<union> F) m"
  by (simp add: without_def fun_eq_iff)

lemma mem_eqI: "blocks m = blocks m' \<Longrightarrow> brk m = brk m' \<Longrightarrow> m = (m' :: mem)"
  by simp

lemma heap_ok_alloc: "heap_ok m \<Longrightarrow> heap_ok (snd (alloc b m))"
  by (auto simp: heap_ok_def alloc_def less_Suc_eq)

lemma heap_ok_fresh: "heap_ok m \<Longrightarrow> blocks m (brk m) = None"
  by (auto simp: heap_ok_def)

lemma heap_ok_null: "heap_ok m \<Longrightarrow> blocks m 0 = None"
  by (auto simp: heap_ok_def)

lemma heap_ok_without: "heap_ok m \<Longrightarrow> heap_ok (without F m)"
  by (auto simp: heap_ok_def)

lemma heap_ok_write: "heap_ok m \<Longrightarrow> blocks m p \<noteq> None \<Longrightarrow> heap_ok (m\<lparr>blocks := (blocks m)(p \<mapsto> b)\<rparr>)"
  by (auto simp: heap_ok_def)

text \<open>What an allocation, or a computation that only allocates, leaves alone.\<close>

definition extends :: "mem \<Rightarrow> mem \<Rightarrow> bool" where
  "extends m m' \<longleftrightarrow> heap_ok m' \<and> brk m \<le> brk m' \<and> (\<forall>a < brk m. blocks m' a = blocks m a)"

lemma extends_refl: "heap_ok m \<Longrightarrow> extends m m"
  by (simp add: extends_def)

lemma extends_trans: "extends m m' \<Longrightarrow> extends m' m'' \<Longrightarrow> extends m m''"
  by (auto simp: extends_def)

lemma extends_alloc:
  assumes "heap_ok m" "alloc b m = (p, m')"
  shows "extends m m'" "p = brk m" "brk m' = brk m + 1" "blocks m' p = Some b"
  using assms heap_ok_alloc [of m b] by (auto simp: extends_def alloc_def)

subsection \<open>Strings in memory\<close>

lemma scan_chars: "c_string s \<Longrightarrow> scan (map Some s @ Some nul # cs) = Inr s"
  by (induction s) (auto simp: c_string_def nul_def)

lemma str_at_chars: "blocks m p = Some (chars s) \<Longrightarrow> c_string s \<Longrightarrow> str_at p m = Inr s"
  by (simp add: str_at_def read_block_def chars_def scan_chars)

subsection \<open>The buffer holds a text\<close>

text \<open>\<open>jbuf_at m b s\<close>: the buffer has the text \<open>s\<close>, with a terminator behind it as soon as it has memory.\<close>

definition jbuf_at :: "mem \<Rightarrow> jbuf \<Rightarrow> string \<Rightarrow> bool" where
  "jbuf_at m b s \<longleftrightarrow> unat (jb_len b) = length s \<and>
     (if jb_buf b = 0 then jb_cap b = 0 \<and> s = []
      else \<exists>cs. blocks m (jb_buf b) = Some (Chars cs) \<and> length cs = unat (jb_cap b) \<and>
        (\<exists>rest. cs = map Some s @ Some nul # rest))"

lemma jbuf_at_init: "jbuf_at m jbuf_init []"
  by (simp add: jbuf_at_def jbuf_init_def)

lemma double_to_ends:
  "nc \<noteq> 0 \<Longrightarrow> unat nc < 2 ^ 63 \<Longrightarrow> unat need \<le> 2 ^ 62 \<Longrightarrow>
     \<exists>c. double_to need nc = Some c \<and> need \<le> c \<and> unat c < 2 ^ 63"
proof (induction "2 ^ 63 - unat nc" arbitrary: nc rule: less_induct)
  case less
  show ?case
  proof (cases "nc < need")
    case True
    then have n: "unat nc < 2 ^ 62" using less.prems(3) by (simp add: word_less_nat_alt)
    then have d: "unat (nc * 2) = unat nc * 2" by (simp add: unat_word_ariths(2))
    have "0 < unat nc" using less.prems(1) by (simp add: unat_gt_0)
    with d n have "\<exists>c. double_to need (nc * 2) = Some c \<and> need \<le> c \<and> unat c < 2 ^ 63"
      using less.prems by (intro less.hyps) (auto simp: unat_eq_zero [symmetric] simp del: unat_eq_zero)
    with True show ?thesis by (simp add: double_to.simps [of need nc])
  next
    case False
    then have "double_to need nc = Some nc" by (simp add: double_to.simps [of need nc])
    with False less.prems show ?thesis by auto
  qed
qed

text \<open>An operation on a buffer touches no block but that of the buffer, and leaves no other block behind.\<close>

definition only_buffer :: "jbuf \<Rightarrow> mem \<Rightarrow> jbuf \<Rightarrow> mem \<Rightarrow> bool" where
  "only_buffer b m b' m' \<longleftrightarrow> heap_ok m' \<and> brk m \<le> brk m' \<and> (jb_buf b' = jb_buf b \<or> brk m \<le> jb_buf b') \<and>
     (\<forall>a < brk m. a \<noteq> jb_buf b \<longrightarrow> blocks m' a = blocks m a) \<and> (\<forall>a \<noteq> jb_buf b'. brk m \<le> a \<longrightarrow> blocks m' a = None) \<and>
     (jb_buf b \<noteq> jb_buf b' \<longrightarrow> blocks m' (jb_buf b) = None)"

lemma only_bufferI:
  assumes "heap_ok m'" "brk m \<le> brk m'" "jb_buf b' = jb_buf b \<or> brk m \<le> jb_buf b'"
    and "\<And>a. a < brk m \<Longrightarrow> a \<noteq> jb_buf b \<Longrightarrow> blocks m' a = blocks m a"
    and "\<And>a. a \<noteq> jb_buf b' \<Longrightarrow> brk m \<le> a \<Longrightarrow> blocks m' a = None"
    and "jb_buf b \<noteq> jb_buf b' \<Longrightarrow> blocks m' (jb_buf b) = None"
  shows "only_buffer b m b' m'"
  using assms by (simp add: only_buffer_def)

lemma only_buffer_where: "only_buffer b m b' m' \<Longrightarrow> jb_buf b' = jb_buf b \<or> brk m \<le> jb_buf b'"
  and only_buffer_old: "only_buffer b m b' m' \<Longrightarrow> a < brk m \<Longrightarrow> a \<noteq> jb_buf b \<Longrightarrow> blocks m' a = blocks m a"
  and only_buffer_new: "only_buffer b m b' m' \<Longrightarrow> a \<noteq> jb_buf b' \<Longrightarrow> brk m \<le> a \<Longrightarrow> blocks m' a = None"
  and only_buffer_gone: "only_buffer b m b' m' \<Longrightarrow> jb_buf b \<noteq> jb_buf b' \<Longrightarrow> blocks m' (jb_buf b) = None"
  by (simp_all add: only_buffer_def)

text \<open>Room for \<open>n\<close> more bytes: the same text, a buffer with more than \<open>len + n\<close> bytes, and no other block
  is touched.\<close>

lemma reserve_room:
  assumes "jbuf_at m b s" "heap_ok m" "length s + unat n < 2 ^ 62" "c_string s"
  shows "\<exists>b' m' cs. jbuf_reserve b n m = Inr (b', m') \<and> jb_len b' = jb_len b \<and>
    jb_buf b' \<noteq> 0 \<and> blocks m' (jb_buf b') = Some (Chars (map Some s @ cs)) \<and> unat n < length cs \<and>
    length s + length cs = unat (jb_cap b') \<and> only_buffer b m b' m'"
proof -
  let ?need = "jb_len b + n + 1"
  have l: "unat (jb_len b) = length s" using assms(1) by (simp add: jbuf_at_def)
  have u: "unat ?need = length s + unat n + 1"
    using assms(3) l by (simp add: unat_word_ariths(1))
  show ?thesis
  proof (cases "jb_cap b < ?need")
    case False
    then have c: "length s + unat n + 1 \<le> unat (jb_cap b)" using u by (simp add: word_less_nat_alt)
    then have "jb_buf b \<noteq> 0" using assms(1) by (auto simp: jbuf_at_def split: if_splits)
    with assms(1) obtain rest where "blocks m (jb_buf b) = Some (Chars (map Some s @ Some nul # rest))"
      "length s + Suc (length rest) = unat (jb_cap b)"
      by (auto simp: jbuf_at_def)
    with False c \<open>jb_buf b \<noteq> 0\<close> assms(2) show ?thesis
      by (intro exI [of _ b] exI [of _ m] exI [of _ "Some nul # rest"]) (auto simp: jbuf_reserve_def only_buffer_def heap_ok_def)
  next
    case True
    let ?nc = "if jb_cap b \<noteq> 0 then jb_cap b * 2 else 64"
    have "unat (jb_cap b) < length s + unat n + 1" using True u by (simp add: word_less_nat_alt)
    then have "?nc \<noteq> 0 \<and> unat ?nc < 2 ^ 63"
    proof (cases "jb_cap b = 0")
      case False
      then have "0 < unat (jb_cap b)" by (simp add: unat_gt_0)
      moreover have "unat (jb_cap b * 2) = unat (jb_cap b) * 2"
        using \<open>unat (jb_cap b) < _\<close> assms(3) by (simp add: unat_word_ariths(2))
      ultimately show ?thesis
        using False \<open>unat (jb_cap b) < _\<close> assms(3) by (auto simp: unat_eq_zero [symmetric] simp del: unat_eq_zero)
    qed simp
    moreover have "unat ?need \<le> 2 ^ 62" using u assms(3) by simp
    ultimately obtain c where c: "double_to ?need ?nc = Some c" "?need \<le> c" using double_to_ends by blast
    then have room: "length s + unat n + 1 \<le> unat c" using u by (simp add: word_le_nat_alt)
    show ?thesis
    proof (cases "jb_buf b = 0")
      case null: True
      then have "s = []" using assms(1) by (simp add: jbuf_at_def)
      with True null c room assms(2) show ?thesis
        by (auto simp: jbuf_reserve_def realloc_chars_def alloc_def only_buffer_def heap_ok_def less_Suc_eq
            intro!: exI [of _ "replicate (unat c) None"])
    next
      case False
      with assms(1) obtain rest where b: "blocks m (jb_buf b) = Some (Chars (map Some s @ Some nul # rest))"
        by (auto simp: jbuf_at_def)
      let ?cs = "take (unat c - length s) (Some nul # rest @ replicate (unat c) None)"
      have t: "take (unat c) ((map Some s @ Some nul # rest) @ replicate (unat c) None) = map Some s @ ?cs"
        using room by simp
      have "jb_buf b < brk m" using b assms(2) by (auto simp: heap_ok_def)
      with True False b c room assms(2) t show ?thesis
        by (auto simp: jbuf_reserve_def realloc_chars_def read_block_def free_ptr_def alloc_def only_buffer_def heap_ok_def
            intro!: exI [of _ ?cs])
    qed
  qed
qed


text \<open>Appending refines \<open>@\<close> on texts.\<close>

lemma appendn_text:
  assumes "jbuf_at m b s" "heap_ok m" "unat n \<le> length t" "length s + unat n < 2 ^ 62" "c_string s"
  shows "\<exists>b' m'. jbuf_appendn b t n m = Inr (b', m') \<and> jbuf_at m' b' (s @ take (unat n) t) \<and> only_buffer b m b' m' \<and>
    jb_buf b' \<noteq> 0"
proof -
  obtain b1 m1 cs where r: "jbuf_reserve b n m = Inr (b1, m1)" "jb_len b1 = jb_len b"
    and b1: "jb_buf b1 \<noteq> 0" "blocks m1 (jb_buf b1) = Some (Chars (map Some s @ cs))"
    and n: "unat n < length cs" "length s + length cs = unat (jb_cap b1)" and o: "only_buffer b m b1 m1"
    using reserve_room [OF assms(1,2,4,5)] by blast
  let ?t = "take (unat n) t"
  let ?m = "m1\<lparr>blocks := (blocks m1)(jb_buf b1 \<mapsto> Chars (map Some (s @ ?t) @ Some nul # drop (unat n + 1) cs))\<rparr>"
  have l: "unat (jb_len b) = length s" using assms(1) by (simp add: jbuf_at_def)
  have "put_chars (jb_buf b1) (unat (jb_len b1)) ?t m1 = Inr ?m"
    using b1 n l r assms(3) by (simp add: put_chars_def read_block_def write_block_def)
  then have "jbuf_appendn b t n m = Inr (b1\<lparr>jb_len := jb_len b1 + n\<rparr>, ?m)"
    using r assms(3) by (simp add: jbuf_appendn_def)
  moreover have "jbuf_at ?m (b1\<lparr>jb_len := jb_len b1 + n\<rparr>) (s @ ?t)"
    using b1 n l r assms(3,4) by (auto simp: jbuf_at_def unat_word_ariths(1))
  moreover have "only_buffer b m (b1\<lparr>jb_len := jb_len b1 + n\<rparr>) ?m"
    using o b1 by (auto simp: only_buffer_def heap_ok_def)
  ultimately show ?thesis using b1(1) by auto
qed


lemma append_text:
  assumes "jbuf_at m b s" "heap_ok m" "length s + length t < 2 ^ 62" "c_string s"
  shows "\<exists>b' m'. jbuf_append b t m = Inr (b', m') \<and> jbuf_at m' b' (s @ t) \<and> only_buffer b m b' m' \<and> jb_buf b' \<noteq> 0"
proof -
  have u: "unat (of_nat (length t) :: size_t) = length t" using assms(3) by (simp add: unat_of_nat take_bit_nat_eq_self)
  then show ?thesis
    using appendn_text [OF assms(1,2), of "of_nat (length t)" t] assms(3,4) by (simp add: jbuf_append_def)
qed

lemma jbuf_at_frame:
  "jbuf_at m b s \<Longrightarrow> (jb_buf b \<noteq> 0 \<Longrightarrow> blocks m' (jb_buf b) = blocks m (jb_buf b)) \<Longrightarrow> jbuf_at m' b s"
  by (auto simp: jbuf_at_def split: if_splits)

lemma jbuf_at_below: "jbuf_at m b s \<Longrightarrow> heap_ok m \<Longrightarrow> jb_buf b < brk m"
  by (auto simp: jbuf_at_def heap_ok_def split: if_splits)

lemma appendf_text:
  assumes "jbuf_at m b s" "heap_ok m" "length s + length t < 2 ^ 62" "c_string s" "c_string t" "length t < 2 ^ 31"
  shows "\<exists>b' m'. jbuf_appendf b t m = Inr (b', m') \<and> jbuf_at m' b' (s @ t) \<and> only_buffer b m b' m' \<and> jb_buf b' \<noteq> 0"
proof (cases "length t < 512")
  case True
  with append_text [OF assms(1-4)] show ?thesis by (simp add: jbuf_appendf_def jbuf_append_def)
next
  case False
  obtain big m1 where a: "alloc (chars t) m = (big, m1)" by fastforce
  note e = extends_alloc [OF assms(2) a] and bl = jbuf_at_below [OF assms(1,2)]
  have "jbuf_at m1 b s" using assms(1) e bl by (intro jbuf_at_frame [OF assms(1)]) (auto simp: extends_def)
  then obtain b' m' where ap: "jbuf_append b t m1 = Inr (b', m')" "jbuf_at m' b' (s @ t)" and o: "only_buffer b m1 b' m'" "jb_buf b' \<noteq> 0"
    using append_text [of m1 b s t] e assms(3,4) by (auto simp: extends_def)
  have "jb_buf b' \<noteq> big" using only_buffer_where [OF o(1)] e bl by auto
  have "big < brk m1" "big \<noteq> jb_buf b" "big \<noteq> 0" using e bl assms(2) by (auto simp: heap_ok_def)
  with only_buffer_old [OF o(1), of big] e have "blocks m' big = Some (chars t)" by simp
  then have "jbuf_appendf b t m = Inr (b', without {big} m')"
    using False a e ap(1) assms(5,6) \<open>big \<noteq> 0\<close> by (simp add: jbuf_appendf_def jbuf_append_def str_at_chars free_ptr_def)
  moreover have "jbuf_at (without {big} m') b' (s @ t)"
    using ap(2) \<open>jb_buf b' \<noteq> big\<close> by (intro jbuf_at_frame [OF ap(2)]) simp
  moreover have "only_buffer b m b' (without {big} m')"
  proof (rule only_bufferI)
    show "blocks (without {big} m') a = blocks m a" if "a < brk m" "a \<noteq> jb_buf b" for a
      using only_buffer_old [OF o(1), of a] that e by (auto simp: extends_def)
    show "blocks (without {big} m') a = None" if "a \<noteq> jb_buf b'" "brk m \<le> a" for a
      using only_buffer_new [OF o(1), of a] that e by (cases "a = big") auto
  qed (use o e bl in \<open>auto simp: only_buffer_def heap_ok_without extends_def\<close>)
  ultimately show ?thesis using o(2) by auto
qed

lemma jbuf_free_all:
  "jbuf_at m b s \<Longrightarrow> heap_ok m \<Longrightarrow> jbuf_free b m = Inr (jbuf_init, without {jb_buf b} m)"
  by (auto simp: jbuf_at_def jbuf_free_def free_ptr_def heap_ok_null without_def fun_eq_iff split: if_splits)

lemma only_buffer_trans:
  "only_buffer b m b1 m1 \<Longrightarrow> only_buffer b1 m1 b2 m2 \<Longrightarrow> jb_buf b < brk m \<Longrightarrow> only_buffer b m b2 m2"
proof -
  assume 1: "only_buffer b m b1 m1" and 2: "only_buffer b1 m1 b2 m2" and b: "jb_buf b < brk m"
  note w1 = only_buffer_where [OF 1] and w2 = only_buffer_where [OF 2]
  have k: "brk m \<le> brk m1" using 1 by (simp add: only_buffer_def)
  have old: "blocks m2 a = blocks m1 a" if "a < brk m" "a \<noteq> jb_buf b1" for a
    using only_buffer_old [OF 2, of a] that k by simp
  show "only_buffer b m b2 m2"
  proof (rule only_bufferI)
    show "heap_ok m2" "brk m \<le> brk m2" using 2 k by (simp_all add: only_buffer_def)
    show "jb_buf b2 = jb_buf b \<or> brk m \<le> jb_buf b2" using w1 w2 k by auto
    show "blocks m2 a = blocks m a" if "a < brk m" "a \<noteq> jb_buf b" for a
      using that old [of a] only_buffer_old [OF 1 that] w1 by auto
    show "blocks m2 a = None" if a: "a \<noteq> jb_buf b2" "brk m \<le> a" for a
    proof (cases "brk m1 \<le> a")
      case True
      with only_buffer_new [OF 2 a(1)] show ?thesis by simp
    next
      case False
      with only_buffer_new [OF 1 _ a(2)] only_buffer_old [OF 2, of a] only_buffer_gone [OF 2] a(1) show ?thesis
        by (cases "a = jb_buf b1") auto
    qed
    show "blocks m2 (jb_buf b) = None" if "jb_buf b \<noteq> jb_buf b2"
      using that only_buffer_gone [OF 1] only_buffer_gone [OF 2] old [OF b] by (cases "jb_buf b = jb_buf b1") auto
  qed
qed


subsection \<open>Loops and releases\<close>

text \<open>A \<open>for\<close> loop over a state.\<close>

fun each :: "('a \<Rightarrow> 's \<Rightarrow> 's res) \<Rightarrow> 'a list \<Rightarrow> 's \<Rightarrow> 's res" where
  "each f [] s = Inr s"
| "each f (x # xs) s = rbind (f x s) (each f xs)"

definition agree :: "addr set \<Rightarrow> mem \<Rightarrow> mem \<Rightarrow> bool" where
  "agree F m m' \<longleftrightarrow> (\<forall>a \<in> F. blocks m' a = blocks m a)"

text \<open>In every memory that agrees with \<open>m\<close> on \<open>F\<close> the operation frees the blocks of \<open>F\<close>, each once, and
  nothing else.\<close>

definition frees :: "(mem \<Rightarrow> mem res) \<Rightarrow> addr set \<Rightarrow> mem \<Rightarrow> bool" where
  "frees f F m \<longleftrightarrow> (\<forall>m'. agree F m m' \<longrightarrow> f m' = Inr (without F m'))"

lemma agree_refl [simp]: "agree F m m"
  by (simp add: agree_def)

lemma agree_union [simp]: "agree (F \<union> G) m m' \<longleftrightarrow> agree F m m' \<and> agree G m m'"
  by (auto simp: agree_def)

lemma agree_insert [simp]: "agree (insert a F) m m' \<longleftrightarrow> blocks m' a = blocks m a \<and> agree F m m'"
  by (auto simp: agree_def)

lemma agree_empty [simp]: "agree {} m m'"
  by (simp add: agree_def)

lemma agree_trans: "agree F m m' \<Longrightarrow> agree F m' m'' \<Longrightarrow> agree F m m''"
  by (simp add: agree_def)

lemma agree_without: "agree F m m' \<Longrightarrow> F \<inter> G = {} \<Longrightarrow> agree F m (without G m')"
  by (auto simp: agree_def)

lemma freesD: "frees f F m \<Longrightarrow> agree F m m' \<Longrightarrow> f m' = Inr (without F m')"
  by (simp add: frees_def)

lemma frees_nothing: "frees Inr {} m"
  by (simp add: frees_def)

lemma frees_null: "frees (free_ptr 0) {} m"
  by (simp add: frees_def free_ptr_def)

lemma frees_ptr: "blocks m p \<noteq> None \<Longrightarrow> p \<noteq> 0 \<Longrightarrow> frees (free_ptr p) {p} m"
  by (auto simp: frees_def free_ptr_def)

lemma frees_seq:
  assumes "frees f F m" "frees g G m" "F \<inter> G = {}"
  shows "frees (\<lambda>m. rbind (f m) g) (F \<union> G) m"
  using assms agree_without [of G m _ F] unfolding frees_def by (auto simp: Int_commute)

lemma frees_read:
  assumes "blocks m p = Some b" "p \<in> F" "frees (h b) F m"
  shows "frees (\<lambda>m. rbind (read_block p m) (\<lambda>b. h b m)) F m"
  using assms by (auto simp: frees_def read_block_def agree_def)

text \<open>Footprints that share no address.\<close>

fun apart :: "addr set list \<Rightarrow> bool" where
  "apart [] = True"
| "apart (F # Fs) = (F \<inter> \<Union> (set Fs) = {} \<and> apart Fs)"

lemma frees_each:
  assumes "list_all2 (\<lambda>x F. frees (f x) F m) xs Fs" "apart Fs"
  shows "frees (each f xs) (\<Union> (set Fs)) m"
  using assms
proof (induction xs Fs rule: list_all2_induct)
  case (Cons x xs F Fs)
  moreover have "(\<lambda>m. rbind (f x m) (each f xs)) = each f (x # xs)" by (simp add: fun_eq_iff)
  ultimately show ?case using frees_seq [OF Cons.hyps(1) Cons.IH] by simp
qed (simp add: frees_def)

subsection \<open>The life of a buffer\<close>

fun append_all :: "string list \<Rightarrow> jbuf \<Rightarrow> mem \<Rightarrow> (jbuf \<times> mem) res" where
  "append_all [] b m = Inr (b, m)"
| "append_all (t # ts) b m = rbind (jbuf_appendf b t m) (\<lambda>(b, m). append_all ts b m)"

lemma append_all_text:
  "jbuf_at m b s \<Longrightarrow> heap_ok m \<Longrightarrow> c_string s \<Longrightarrow> \<forall>t \<in> set ts. c_string t \<and> length t < 2 ^ 31 \<Longrightarrow>
     length s + length (concat ts) < 2 ^ 62 \<Longrightarrow>
     \<exists>b' m'. append_all ts b m = Inr (b', m') \<and> jbuf_at m' b' (s @ concat ts) \<and> only_buffer b m b' m' \<and>
       (ts \<noteq> [] \<longrightarrow> jb_buf b' \<noteq> 0)"
proof (induction ts arbitrary: b m s)
  case Nil
  then have "only_buffer b m b m" by (auto simp: only_buffer_def heap_ok_def)
  with Nil show ?case by simp
next
  case (Cons t ts)
  then obtain b1 m1 where 1: "jbuf_appendf b t m = Inr (b1, m1)" "jbuf_at m1 b1 (s @ t)" "only_buffer b m b1 m1" "jb_buf b1 \<noteq> 0"
    using appendf_text [OF Cons.prems(1,2), of t] by auto
  then obtain b2 m2 where 2: "append_all ts b1 m1 = Inr (b2, m2)" "jbuf_at m2 b2 ((s @ t) @ concat ts)" "only_buffer b1 m1 b2 m2"
    "ts \<noteq> [] \<longrightarrow> jb_buf b2 \<noteq> 0"
    using Cons.IH [OF 1(2)] Cons.prems by (auto simp: only_buffer_def c_string_def)
  from 1 2 only_buffer_trans [OF 1(3) 2(3) jbuf_at_below [OF Cons.prems(1,2)]] show ?case by (cases ts) auto
qed

text \<open>C26 Building a text in a \<open>JBuf\<close> by any sequence of formatted appends, short or longer than the 512 bytes on the
  stack: every doubling loop ends, nothing is written outside the buffer, the buffer then holds the texts one
  after the other as a C string, and freeing it gives the memory back as it was.\<close>

theorem jbuf_lifecycle:
  assumes "heap_ok m" "\<forall>t \<in> set ts. c_string t \<and> length t < 2 ^ 31" "length (concat ts) < 2 ^ 62"
  shows "\<exists>b m'. append_all ts jbuf_init m = Inr (b, m') \<and>
    (jb_buf b \<noteq> 0 \<longrightarrow> str_at (jb_buf b) m' = Inr (concat ts)) \<and> (ts \<noteq> [] \<longrightarrow> jb_buf b \<noteq> 0) \<and>
    (\<exists>m''. jbuf_free b m' = Inr (jbuf_init, m'') \<and> blocks m'' = blocks m)"
proof -
  obtain b m' where r: "append_all ts jbuf_init m = Inr (b, m')" "jbuf_at m' b (concat ts)" "only_buffer jbuf_init m b m'"
    and n: "ts \<noteq> [] \<longrightarrow> jb_buf b \<noteq> 0"
    using append_all_text [OF jbuf_at_init assms(1), of ts] assms(2,3) by (auto simp: c_string_def)
  have h: "heap_ok m'" using r(3) by (simp add: only_buffer_def)
  have "str_at (jb_buf b) m' = Inr (concat ts)" if "jb_buf b \<noteq> 0"
    using r(2) that assms(2) by (auto simp: jbuf_at_def str_at_def read_block_def scan_chars c_string_def)
  moreover have "blocks (without {jb_buf b} m') = blocks m"
  proof
    fix a
    show "blocks (without {jb_buf b} m') a = blocks m a"
    proof (cases "a < brk m")
      case True
      then show ?thesis
        using only_buffer_old [OF r(3) True] only_buffer_where [OF r(3)] heap_ok_null [OF assms(1)]
          heap_ok_null [OF h] by (cases "a = 0") (auto simp: jbuf_init_def)
    next
      case False
      then have "blocks m a = None" using assms(1) by (auto simp: heap_ok_def)
      with False only_buffer_new [OF r(3), of a] show ?thesis by auto
    qed
  qed
  ultimately show ?thesis using r(1) n jbuf_free_all [OF r(2) h] by blast
qed

end
