(* ===== verification/ValueMem.thy ===== *)
theory ValueMem
  imports Memory
begin

text \<open>
  The memory operations of \<open>value.c\<close>: making, copying, freeing and printing values and growing lists, on the
  heap of \<open>Memory\<close>. A value in memory owns its string or its array of cells. Copies are deep and share
  nothing with the original, freeing gives back exactly what a value owns; so the interpreter's model, in which values
  are plain HOL values and copying and freeing leave no trace, is what the C code computes.
\<close>

subsection \<open>Making values\<close>

definition sv_void :: cval where "sv_void = CVoid"
definition sv_int :: "llong \<Rightarrow> cval" where "sv_int x = CInt x"
definition sv_float :: "double \<Rightarrow> cval" where "sv_float f = CFloat f"
definition sv_vec :: "double \<Rightarrow> double \<Rightarrow> double \<Rightarrow> cval" where "sv_vec x y z = CVector x y z"
definition sv_rot :: "double \<Rightarrow> double \<Rightarrow> double \<Rightarrow> double \<Rightarrow> cval" where "sv_rot x y z s = CRot x y z s"
definition sv_list_empty :: cval where "sv_list_empty = CList 0 0"

text \<open>\<open>None\<close> is the null pointer.\<close>

definition sv_string :: "string option \<Rightarrow> mem \<Rightarrow> cval \<times> mem" where
  "sv_string s m = (case dup_text (case s of Some t \<Rightarrow> t | None \<Rightarrow> []) m of (p, m) \<Rightarrow> (CStr p, m))"

definition sv_key :: "string option \<Rightarrow> mem \<Rightarrow> cval \<times> mem" where
  "sv_key s m = (case dup_text (case s of Some t \<Rightarrow> t | None \<Rightarrow> null_key) m of (p, m) \<Rightarrow> (CKey p, m))"

definition sv_stringn :: "string \<Rightarrow> nat \<Rightarrow> mem \<Rightarrow> (cval \<times> mem) res" where
  "sv_stringn s n m = rbind (xstrndup s n m) (\<lambda>(p, m). Inr (CStr p, m))"

subsection \<open>Cells of an array\<close>

definition get_val :: "addr \<Rightarrow> nat \<Rightarrow> mem \<Rightarrow> cval res" where
  "get_val p i m = rbind (read_block p m) (\<lambda>b. case b of
     Vals cs \<Rightarrow> if i < length cs then Inr (cs ! i) else Inl BadMemory | _ \<Rightarrow> Inl BadMemory)"

definition put_val :: "addr \<Rightarrow> nat \<Rightarrow> cval \<Rightarrow> mem \<Rightarrow> mem res" where
  "put_val p i c m = rbind (read_block p m) (\<lambda>b. case b of
     Vals cs \<Rightarrow> if i < length cs then write_block p (Vals (cs[i := c])) m else Inl BadMemory | _ \<Rightarrow> Inl BadMemory)"

text \<open>\<open>xrealloc\<close> of an array of cells; the new cells are void here and are written before they are read.\<close>

definition realloc_vals :: "addr \<Rightarrow> nat \<Rightarrow> mem \<Rightarrow> (addr \<times> mem) res" where
  "realloc_vals p n m =
    (if p = 0 then Inr (alloc (Vals (replicate n CVoid)) m)
     else rbind (read_block p m) (\<lambda>b. case b of
         Vals cs \<Rightarrow> rbind (free_ptr p m) (\<lambda>m. Inr (alloc (Vals (take n (cs @ replicate n CVoid))) m))
       | _ \<Rightarrow> Inl BadMemory))"

text \<open>The list becomes the owner of the new value.\<close>

fun sv_list_push :: "cval \<Rightarrow> cval \<Rightarrow> mem \<Rightarrow> (cval \<times> mem) res" where
  "sv_list_push (CList p n) v m = rbind (realloc_vals p (n + 1) m) (\<lambda>(q, m).
     rbind (put_val q n v m) (\<lambda>m. Inr (CList q (n + 1), m)))"
| "sv_list_push _ v m = Inl BadMemory"

subsection \<open>Freeing, copying, printing\<close>

text \<open>The number bounds the nesting of lists; any number above the size of the value is enough.\<close>

fun sv_free :: "nat \<Rightarrow> cval \<Rightarrow> mem \<Rightarrow> (cval \<times> mem) res" where
  "sv_free 0 c m = Inl OutOfFuel"
| "sv_free (Suc n) (CStr p) m = rbind (free_ptr p m) (\<lambda>m. Inr (CVoid, m))"
| "sv_free (Suc n) (CKey p) m = rbind (free_ptr p m) (\<lambda>m. Inr (CVoid, m))"
| "sv_free (Suc n) (CList p k) m =
     rbind (each (\<lambda>i m. rbind (get_val p i m) (\<lambda>c. rbind (sv_free n c m) (\<lambda>(c, m). put_val p i c m))) [0 ..< k] m) (\<lambda>m.
     rbind (free_ptr p m) (\<lambda>m. Inr (CVoid, m)))"
| "sv_free (Suc n) _ m = Inr (CVoid, m)"

text \<open>\<open>xstrdup(s ? s : d)\<close>.\<close>

definition dup_or :: "string \<Rightarrow> addr \<Rightarrow> mem \<Rightarrow> (addr \<times> mem) res" where
  "dup_or d p m = (if p = 0 then Inr (dup_text d m) else xstrdup p m)"

fun sv_copy :: "nat \<Rightarrow> cval \<Rightarrow> mem \<Rightarrow> (cval \<times> mem) res" where
  "sv_copy 0 c m = Inl OutOfFuel"
| "sv_copy (Suc n) (CStr p) m = rbind (dup_or [] p m) (\<lambda>(q, m). Inr (CStr q, m))"
| "sv_copy (Suc n) (CKey p) m = rbind (dup_or [] p m) (\<lambda>(q, m). Inr (CKey q, m))"
| "sv_copy (Suc n) (CList p k) m =
    (if 0 < k
     then (case alloc (Vals (replicate k CVoid)) m of (q, m) \<Rightarrow>
       rbind (each (\<lambda>i m. rbind (get_val p i m) (\<lambda>c. rbind (sv_copy n c m) (\<lambda>(c, m). put_val q i c m))) [0 ..< k] m) (\<lambda>m.
         Inr (CList q k, m)))
     else Inr (CList 0 k, m))"
| "sv_copy (Suc n) c m = Inr (c, m)"

text \<open>The text of a value as a new block; that of a list is put together in a \<open>JBuf\<close>.\<close>

fun to_text :: "nat \<Rightarrow> cval \<Rightarrow> mem \<Rightarrow> (addr \<times> mem) res" where
  "to_text 0 c m = Inl OutOfFuel"
| "to_text (Suc n) (CInt i) m = Inr (xasprintf (show_ll i) m)"
| "to_text (Suc n) (CFloat f) m = Inr (xasprintf (show_fixed 6 f) m)"
| "to_text (Suc n) (CStr p) m = dup_or [] p m"
| "to_text (Suc n) (CKey p) m = dup_or null_key p m"
| "to_text (Suc n) (CVector x y z) m = Inr (xasprintf (sv_to_string (SVector x y z)) m)"
| "to_text (Suc n) (CRot x y z s) m = Inr (xasprintf (sv_to_string (SRot x y z s)) m)"
| "to_text (Suc n) (CList p k) m =
     rbind (each (\<lambda>i (b, m). rbind (get_val p i m) (\<lambda>c. rbind (to_text n c m) (\<lambda>(t, m). rbind (str_at t m) (\<lambda>s.
         rbind (jbuf_append b s m) (\<lambda>(b, m). rbind (free_ptr t m) (\<lambda>m. Inr (b, m))))))) [0 ..< k] (jbuf_init, m)) (\<lambda>(b, m).
     if jb_buf b \<noteq> 0 then Inr (jb_buf b, m) else rbind (jbuf_free b (snd (dup_text [] m))) (\<lambda>(b, m'). Inr (fst (dup_text [] m), m')))"
| "to_text (Suc n) CVoid m = Inr (dup_text [] m)"

subsection \<open>Values in memory\<close>

text \<open>\<open>value_at m c v F\<close>: the cell \<open>c\<close> holds the value \<open>v\<close> and owns the blocks at \<open>F\<close>, no block twice.\<close>

inductive value_at :: "mem \<Rightarrow> cval \<Rightarrow> svalue \<Rightarrow> addr set \<Rightarrow> bool"
  and values_at :: "mem \<Rightarrow> cval list \<Rightarrow> svalue list \<Rightarrow> addr set \<Rightarrow> bool"
  for m :: mem where
  at_void: "value_at m CVoid SVoid {}"
| at_int: "value_at m (CInt i) (SInt i) {}"
| at_float: "value_at m (CFloat f) (SFloat f) {}"
| at_string: "blocks m p = Some (chars s) \<Longrightarrow> c_string s \<Longrightarrow> p \<noteq> 0 \<Longrightarrow> value_at m (CStr p) (SString s) {p}"
| at_key: "blocks m p = Some (chars s) \<Longrightarrow> c_string s \<Longrightarrow> p \<noteq> 0 \<Longrightarrow> value_at m (CKey p) (SKey s) {p}"
| at_vector: "value_at m (CVector x y z) (SVector x y z) {}"
| at_rot: "value_at m (CRot x y z s) (SRot x y z s) {}"
| at_nil: "value_at m (CList 0 0) (SList []) {}"
| at_list: "blocks m p = Some (Vals cs) \<Longrightarrow> p \<noteq> 0 \<Longrightarrow> cs \<noteq> [] \<Longrightarrow> values_at m cs vs F \<Longrightarrow> p \<notin> F \<Longrightarrow>
     value_at m (CList p (length cs)) (SList vs) (insert p F)"
| at_end: "values_at m [] [] {}"
| at_cons: "value_at m c v F \<Longrightarrow> values_at m cs vs G \<Longrightarrow> F \<inter> G = {} \<Longrightarrow> values_at m (c # cs) (v # vs) (F \<union> G)"

inductive_cases value_list_cases: "value_at m c (SList vs) F"
inductive_cases values_cons_cases: "values_at m cs (v # vs) F"

lemmas value_at_intros = value_at_values_at.intros
lemmas value_at_induct = value_at_values_at.inducts

lemma value_at_frame:
  "value_at m c v F \<Longrightarrow> agree F m m' \<Longrightarrow> value_at m' c v F"
  "values_at m cs vs F \<Longrightarrow> agree F m m' \<Longrightarrow> values_at m' cs vs F"
  by (induction rule: value_at_induct) (auto intro: value_at_intros)

lemma value_at_owned:
  "value_at m c v F \<Longrightarrow> a \<in> F \<Longrightarrow> blocks m a \<noteq> None"
  "values_at m cs vs F \<Longrightarrow> a \<in> F \<Longrightarrow> blocks m a \<noteq> None"
  by (induction rule: value_at_induct) auto

lemma values_at_length: "values_at m cs vs F \<Longrightarrow> length cs = length vs"
  by (induction cs arbitrary: vs F) (auto elim: values_at.cases)

text \<open>Owners of separate blocks, one after the other.\<close>

lemma values_at_append:
  "values_at m cs vs F \<Longrightarrow> values_at m ds ws G \<Longrightarrow> F \<inter> G = {} \<Longrightarrow> values_at m (cs @ ds) (vs @ ws) (F \<union> G)"
proof (induction cs arbitrary: vs F)
  case Nil
  then show ?case by (auto elim: values_at.cases)
next
  case (Cons c cs)
  from Cons.prems(1) obtain v vs' F1 F2 where v: "vs = v # vs'" "F = F1 \<union> F2" "value_at m c v F1" "values_at m cs vs' F2"
      "F1 \<inter> F2 = {}"
    by (auto elim: values_at.cases)
  have "values_at m (c # (cs @ ds)) (v # (vs' @ ws)) (F1 \<union> (F2 \<union> G))"
    using v Cons.IH [OF v(4) Cons.prems(2)] Cons.prems(3) by (intro at_cons) auto
  with v show ?case by (simp add: Un_assoc)
qed


subsection \<open>Freeing gives back what a value owns\<close>

definition set_block :: "addr \<Rightarrow> block \<Rightarrow> mem \<Rightarrow> mem" where
  "set_block p b m = m\<lparr>blocks := (blocks m)(p \<mapsto> b)\<rparr>"

lemma set_block_simps [simp]:
  "blocks (set_block p b m) a = (if a = p then Some b else blocks m a)" "brk (set_block p b m) = brk m"
  by (simp_all add: set_block_def)

lemma set_block_same [simp]: "set_block p b (set_block p b' m) = set_block p b m"
  by (simp add: set_block_def)

lemma without_set_block: "p \<notin> F \<Longrightarrow> without F (set_block p b m) = set_block p b (without F m)"
  by (auto simp: set_block_def without_def fun_eq_iff)

lemma without_set_block_in [simp]: "p \<in> F \<Longrightarrow> without F (set_block p b m) = without F m"
  by (auto simp: set_block_def without_def fun_eq_iff)

lemma agree_set_block: "p \<notin> F \<Longrightarrow> agree F m (set_block p b m') \<longleftrightarrow> agree F m m'"
  by (auto simp: agree_def)

lemma get_val_at: "blocks m p = Some (Vals cs) \<Longrightarrow> i < length cs \<Longrightarrow> get_val p i m = Inr (cs ! i)"
  by (simp add: get_val_def read_block_def)

lemma put_val_at: "blocks m p = Some (Vals cs) \<Longrightarrow> i < length cs \<Longrightarrow> put_val p i c m = Inr (set_block p (Vals (cs[i := c])) m)"
  by (simp add: put_val_def read_block_def write_block_def set_block_def)

lemma upt_length_Cons: "[i ..< i + length (x # xs)] = i # [Suc i ..< Suc i + length xs]"
  by (simp add: upt_rec [of i] Suc_le_eq)

lemma size_element: "size (SList vs) < Suc n \<Longrightarrow> v \<in> set vs \<Longrightarrow> size v < n"
  using size_list_estimation' [of v vs "size v" size] by simp

lemma free_value:
  "value_at m c v F \<Longrightarrow> (\<And>n m'. size v < n \<Longrightarrow> agree F m m' \<Longrightarrow> sv_free n c m' = Inr (CVoid, without F m'))"
  "values_at m cs vs F \<Longrightarrow> (\<And>n m' p pre. \<forall>v \<in> set vs. size v < n \<Longrightarrow> agree F m m' \<Longrightarrow> p \<notin> F \<Longrightarrow>
     blocks m' p = Some (Vals (pre @ cs)) \<Longrightarrow>
     each (\<lambda>i m. rbind (get_val p i m) (\<lambda>c. rbind (sv_free n c m) (\<lambda>(c, m). put_val p i c m)))
       [length pre ..< length pre + length cs] m' =
     Inr (set_block p (Vals (pre @ replicate (length cs) CVoid)) (without F m')))"
proof (induction rule: value_at_induct)
  case (at_string p s)
  then show ?case by (cases n) (simp_all add: free_ptr_def)
next
  case (at_key p s)
  then show ?case by (cases n) (simp_all add: free_ptr_def)
next
  case (at_list p cs vs F)
  obtain n' where n: "n = Suc n'" using at_list(7) by (cases n) auto
  have "\<forall>v \<in> set vs. size v < n'" using at_list(7) size_element n by blast
  from at_list(3) [OF this, of m' p "[]"] at_list(1,4,5,6,8)
  show ?case by (simp add: n free_ptr_def insert_commute)
next
  case at_end
  then show ?case by (auto simp: set_block_def fun_upd_idem)
next
  case (at_cons c v F cs vs G)
  let ?m = "set_block p (Vals ((pre @ [CVoid]) @ cs)) (without F m')"
  have 1: "sv_free n c m' = Inr (CVoid, without F m')" using at_cons(2) at_cons(6,7) by simp
  have b: "blocks (without F m') p = Some (Vals (pre @ c # cs))" using at_cons(8,9) by simp
  have "agree G m ?m" using at_cons(5,7,8) by (simp add: agree_set_block agree_without Int_commute)
  then have 2: "each (\<lambda>i m. rbind (get_val p i m) (\<lambda>c. rbind (sv_free n c m) (\<lambda>(c, m). put_val p i c m)))
       [length (pre @ [CVoid]) ..< length (pre @ [CVoid]) + length cs] ?m =
     Inr (set_block p (Vals ((pre @ [CVoid]) @ replicate (length cs) CVoid)) (without G ?m))"
    using at_cons(6,8) by (intro at_cons(4)) auto
  have "without G ?m = set_block p (Vals ((pre @ [CVoid]) @ cs)) (without (F \<union> G) m')"
    using at_cons(8) by (simp add: without_set_block)
  with 2 show ?case
    unfolding upt_length_Cons using get_val_at [OF at_cons(9), of "length pre"] 1 put_val_at [OF b, of "length pre" CVoid] by simp
next
  case at_nil
  then show ?case by (cases n) (simp_all add: free_ptr_def)
qed (auto elim: less_natE)


subsection \<open>Copies are deep and separate\<close>

text \<open>Everything but the block \<open>q\<close> is as before or new.\<close>

definition extends_but :: "addr \<Rightarrow> mem \<Rightarrow> mem \<Rightarrow> bool" where
  "extends_but q m m' \<longleftrightarrow> heap_ok m' \<and> brk m \<le> brk m' \<and> (\<forall>a < brk m. a \<noteq> q \<longrightarrow> blocks m' a = blocks m a)"

lemma heap_ok_above: "heap_ok m \<Longrightarrow> brk m \<le> a \<Longrightarrow> blocks m a = None"
  by (meson heap_ok_def not_le)

lemma heap_ok_set_block: "heap_ok m \<Longrightarrow> blocks m p \<noteq> None \<Longrightarrow> heap_ok (set_block p b m)"
  by (auto simp: heap_ok_def)

lemma owned_below:
  "value_at m c v F \<Longrightarrow> agree F m m' \<Longrightarrow> heap_ok m' \<Longrightarrow> a \<in> F \<Longrightarrow> a < brk m'"
  "values_at m cs vs F \<Longrightarrow> agree F m m' \<Longrightarrow> heap_ok m' \<Longrightarrow> a \<in> F \<Longrightarrow> a < brk m'"
  using value_at_owned by (auto simp: agree_def heap_ok_def)

lemma copy_string:
  assumes "blocks m p = Some (chars s)" "c_string s" "p \<noteq> 0" "heap_ok m"
  shows "\<exists>q m'. dup_or d p m = Inr (q, m') \<and> extends m m' \<and> q = brk m \<and> brk m' = Suc q \<and> blocks m' q = Some (chars s) \<and> q \<noteq> 0"
proof -
  obtain q m' where a: "alloc (chars s) m = (q, m')" by fastforce
  with extends_alloc [OF assms(4) a] assms show ?thesis
    by (auto simp: dup_or_def xstrdup_def str_at_chars heap_ok_def)
qed

lemma copy_value:
  "value_at m c v F \<Longrightarrow> (\<And>n m'. size v < n \<Longrightarrow> agree F m m' \<Longrightarrow> heap_ok m' \<Longrightarrow>
     \<exists>d m''. sv_copy n c m' = Inr (d, m'') \<and> value_at m'' d v {brk m' ..< brk m''} \<and> extends m' m'')"
  "values_at m cs vs F \<Longrightarrow> (\<And>n m' p q pre dst. \<forall>v \<in> set vs. size v < n \<Longrightarrow> agree F m m' \<Longrightarrow> heap_ok m' \<Longrightarrow>
     p \<notin> F \<Longrightarrow> q \<notin> F \<Longrightarrow> p \<noteq> q \<Longrightarrow> blocks m' p = Some (Vals (pre @ cs)) \<Longrightarrow>
     blocks m' q = Some (Vals (dst @ replicate (length cs) CVoid)) \<Longrightarrow> length dst = length pre \<Longrightarrow>
     \<exists>ds m''. each (\<lambda>i m. rbind (get_val p i m) (\<lambda>c. rbind (sv_copy n c m) (\<lambda>(c, m). put_val q i c m)))
         [length pre ..< length pre + length cs] m' = Inr m'' \<and>
       blocks m'' q = Some (Vals (dst @ ds)) \<and> length ds = length cs \<and>
       values_at m'' ds vs {brk m' ..< brk m''} \<and> extends_but q m' m'')"
proof (induction rule: value_at_induct)
  case (at_string p s)
  from at_string copy_string [of m' p s "[]"] obtain q m'' where
    "dup_or [] p m' = Inr (q, m'')" "extends m' m''" "q = brk m'" "brk m'' = Suc q" "blocks m'' q = Some (chars s)" "q \<noteq> 0"
    by auto
  moreover have "{q ..< Suc q} = {q}" by auto
  ultimately show ?case using at_string value_at_values_at.at_string [of m'' q s] by (cases n) auto
next
  case (at_key p s)
  from at_key copy_string [of m' p s "[]"] obtain q m'' where
    "dup_or [] p m' = Inr (q, m'')" "extends m' m''" "q = brk m'" "brk m'' = Suc q" "blocks m'' q = Some (chars s)" "q \<noteq> 0"
    by auto
  moreover have "{q ..< Suc q} = {q}" by auto
  ultimately show ?case using at_key value_at_values_at.at_key [of m'' q s] by (cases n) auto
next
  case (at_list p cs vs F)
  obtain n' where n: "n = Suc n'" using at_list(7) by (cases n) auto
  have sz: "\<forall>v \<in> set vs. size v < n'" using at_list(7) size_element n by blast
  obtain q m1 where a: "alloc (Vals (replicate (length cs) CVoid)) m' = (q, m1)" by fastforce
  note al = extends_alloc [OF at_list(9) a]
  have below: "a < brk m'" if "a \<in> insert p F" for a
    using that at_list(1,8,9) owned_below(2) [OF at_list(2) _ at_list(9)] by (auto simp: heap_ok_def)
  then have q: "q \<notin> F" "p \<noteq> q" using al(2) by auto
  have "agree F m m1" "blocks m1 p = Some (Vals cs)"
    using at_list(1,8) al(1) below by (auto simp: agree_def extends_def)
  then obtain ds m2 where
    e: "each (\<lambda>i m. rbind (get_val p i m) (\<lambda>c. rbind (sv_copy n' c m) (\<lambda>(c, m). put_val q i c m))) [0 ..< length cs] m1 = Inr m2"
    and ds: "blocks m2 q = Some (Vals ds)" "length ds = length cs" "values_at m2 ds vs {brk m1 ..< brk m2}" "extends_but q m1 m2"
    using at_list(3) [OF sz, of m1 p q "[]" "[]"] al at_list(6) q by (auto simp: extends_def)
  have "q \<noteq> 0" "q < brk m1" using al(2,3) at_list(9) by (auto simp: heap_ok_def)
  then have "insert q {brk m1 ..< brk m2} = {brk m' ..< brk m2}" "q \<notin> {brk m1 ..< brk m2}"
    using al(2,3) ds(4) by (auto simp: extends_but_def)
  moreover have "ds \<noteq> []" using ds(2) at_list(5) by auto
  ultimately have "value_at m2 (CList q (length cs)) (SList vs) {brk m' ..< brk m2}"
    using value_at_values_at.at_list [OF ds(1) \<open>q \<noteq> 0\<close> _ ds(3)] ds(2) by simp
  moreover have "extends m' m2" using al(1,2) ds(4) by (auto simp: extends_def extends_but_def)
  ultimately show ?case using e a at_list(5) by (simp add: n)
next
  case at_end
  then show ?case by (auto simp: extends_but_def intro: value_at_values_at.at_end)
next
  case (at_cons c v F cs vs G)
  have sz: "size v < n" and ag: "agree F m m'" "agree G m m'" using at_cons(6,7) by auto
  obtain d m1 where 1: "sv_copy n c m' = Inr (d, m1)" "value_at m1 d v {brk m' ..< brk m1}" "extends m' m1"
    using at_cons(2) [OF sz ag(1) at_cons(8)] by blast
  have pq: "p < brk m'" "q < brk m'" using at_cons(8,12,13) by (auto simp: heap_ok_def)
  then have b1: "blocks m1 p = Some (Vals (pre @ c # cs))" "blocks m1 q = Some (Vals (dst @ CVoid # replicate (length cs) CVoid))"
    using 1(3) at_cons(12,13) by (simp_all add: extends_def)
  let ?m = "set_block q (Vals ((dst @ [d]) @ replicate (length cs) CVoid)) m1"
  have "(dst @ CVoid # replicate (length cs) CVoid)[length pre := d] = (dst @ [d]) @ replicate (length cs) CVoid"
    using at_cons(14) by (simp flip: at_cons(14))
  then have st: "put_val q (length pre) d m1 = Inr ?m"
    using put_val_at [OF b1(2), of "length pre" d] at_cons(14) by simp
  have "heap_ok ?m" using 1(3) b1(2) by (auto simp: extends_def intro: heap_ok_set_block)
  moreover have "agree G m ?m"
    using ag(2) at_cons(10) owned_below(2) [OF at_cons(3) ag(2) at_cons(8)] 1(3) by (auto simp: agree_def extends_def)
  ultimately obtain ds m2 where
    e: "each (\<lambda>i m. rbind (get_val p i m) (\<lambda>c. rbind (sv_copy n c m) (\<lambda>(c, m). put_val q i c m)))
         [length (pre @ [c]) ..< length (pre @ [c]) + length cs] ?m = Inr m2"
    and ds: "blocks m2 q = Some (Vals ((dst @ [d]) @ ds))" "length ds = length cs"
      "values_at m2 ds vs {brk ?m ..< brk m2}" "extends_but q ?m m2"
    using at_cons(4) [of n ?m p q "pre @ [c]" "dst @ [d]"] at_cons(6,9-11,14) b1(1) by auto
  have "value_at m2 d v {brk m' ..< brk m1}"
    using pq ds(4) by (intro value_at_frame(1) [OF 1(2)]) (auto simp: agree_def extends_but_def)
  moreover have "{brk m' ..< brk m1} \<union> {brk ?m ..< brk m2} = {brk m' ..< brk m2}"
    using 1(3) ds(4) by (auto simp: extends_def extends_but_def)
  ultimately have "values_at m2 (d # ds) (v # vs) {brk m' ..< brk m2}"
    using value_at_values_at.at_cons [OF _ ds(3), of d v "{brk m' ..< brk m1}"] by auto
  moreover have "extends_but q m' m2" using 1(3) ds(4) by (auto simp: extends_def extends_but_def)
  moreover have "each (\<lambda>i m. rbind (get_val p i m) (\<lambda>c. rbind (sv_copy n c m) (\<lambda>(c, m). put_val q i c m)))
       [length pre ..< length pre + length (c # cs)] m' = Inr m2"
    unfolding upt_length_Cons
    using e 1(1) get_val_at [OF at_cons(12), of "length pre"] st by (simp del: upt_Suc)
  ultimately show ?case using ds(1,2) by (intro exI [of _ "d # ds"] exI [of _ m2]) simp
qed (auto elim!: less_natE intro: extends_refl value_at_intros simp: )


text \<open>C24 A copy of a value holds the same value in blocks of its own, all of them new, and no other block is
  touched: freeing the copy gives the memory back as it was, freeing the original leaves the copy whole. So whoever
  owns a value may free or overwrite it without a trace in any other value.\<close>

theorem sv_copy_separate:
  assumes "value_at m c v F" "heap_ok m" "size v < n"
  shows "\<exists>d m'. sv_copy n c m = Inr (d, m') \<and> value_at m' c v F \<and>
    (\<exists>G. value_at m' d v G \<and> F \<inter> G = {} \<and> (\<forall>a. a \<notin> G \<longrightarrow> blocks m' a = blocks m a)) \<and>
    (\<exists>m''. sv_free n d m' = Inr (CVoid, m'') \<and> blocks m'' = blocks m) \<and>
    (\<exists>m'' G. sv_free n c m' = Inr (CVoid, m'') \<and> value_at m'' d v G \<and> (\<forall>a \<in> F. blocks m'' a = None))"
proof -
  obtain d m' where c: "sv_copy n c m = Inr (d, m')" and d: "value_at m' d v {brk m ..< brk m'}" and e: "extends m m'"
    using copy_value(1) [OF assms(1,3) agree_refl assms(2)] by blast
  let ?G = "{brk m ..< brk m'}"
  have below: "\<forall>a \<in> F. a < brk m" using owned_below(1) [OF assms(1) agree_refl assms(2)] by blast
  then have disj: "F \<inter> ?G = {}" by auto
  have o: "value_at m' c v F" using e below by (intro value_at_frame(1) [OF assms(1)]) (auto simp: agree_def extends_def)
  have same: "blocks m' a = blocks m a" if "a \<notin> ?G" for a
  proof (cases "a < brk m")
    case False
    with that have "brk m' \<le> a" by simp
    with False e assms(2) show ?thesis by (simp add: heap_ok_above extends_def)
  qed (use e in \<open>simp add: extends_def\<close>)
  have "blocks m a = None" if "a \<in> ?G" for a using that assms(2) by (auto simp: heap_ok_def)
  then have "blocks (without ?G m') = blocks m" using same by (auto simp: fun_eq_iff)
  then have f1: "\<exists>m''. sv_free n d m' = Inr (CVoid, m'') \<and> blocks m'' = blocks m"
    using free_value(1) [OF d assms(3) agree_refl] by blast
  have "value_at (without F m') d v ?G" using disj by (intro value_at_frame(1) [OF d]) (auto simp: agree_def)
  then have f2: "\<exists>m'' G. sv_free n c m' = Inr (CVoid, m'') \<and> value_at m'' d v G \<and> (\<forall>a \<in> F. blocks m'' a = None)"
    using free_value(1) [OF o assms(3) agree_refl] by (intro exI [of _ "without F m'"] exI [of _ ?G]) auto
  from c o d disj same f1 f2 show ?thesis by blast
qed

subsection \<open>Growing a list\<close>

lemma realloc_vals_list:
  assumes "value_at m (CList p k) (SList vs) F" "heap_ok m"
  shows "\<exists>q m' cs G. realloc_vals p (k + 1) m = Inr (q, m') \<and> heap_ok m' \<and> q = brk m \<and> length cs = k \<and>
    blocks m' q = Some (Vals (cs @ [CVoid])) \<and> values_at m' cs vs G \<and> G \<subseteq> F \<and> (\<forall>a \<in> F - G. blocks m' a = None) \<and>
    (\<forall>a. a \<notin> F \<longrightarrow> a \<noteq> q \<longrightarrow> blocks m' a = blocks m a) \<and> brk m \<le> brk m'"
proof -
  from assms(1) consider "p = 0" "k = 0" "vs = []" "F = {}"
    | cs F' where "blocks m p = Some (Vals cs)" "p \<noteq> 0" "values_at m cs vs F'" "p \<notin> F'" "k = length cs" "F = insert p F'"
    by (auto elim: value_list_cases)
  then show ?thesis
  proof cases
    case 1
    obtain q m' where a: "alloc (Vals (replicate 1 CVoid)) m = (q, m')" by fastforce
    from extends_alloc [OF assms(2) a] have "heap_ok m'" "q = brk m" "blocks m' q = Some (Vals [CVoid])" "brk m \<le> brk m'"
      by (auto simp: extends_def)
    moreover have "blocks m' b = blocks m b" if "b \<noteq> q" for b using a that by (auto simp: alloc_def)
    ultimately show ?thesis using 1 a
      by (intro exI [of _ q] exI [of _ m'] exI [of _ "[]"] exI [of _ "{}"])
        (auto simp: realloc_vals_def intro: value_at_values_at.at_end)
  next
    case (2 cs F')
    let ?m = "without {p} m"
    obtain q m' where a: "alloc (Vals (cs @ [CVoid])) ?m = (q, m')" by fastforce
    note al = extends_alloc [OF heap_ok_without [OF assms(2)] a]
    have fr: "values_at m' cs vs F'"
      using 2(4) al(1) owned_below(2) [OF 2(3) agree_refl assms(2)]
      by (intro value_at_frame(2) [OF 2(3)]) (auto simp: agree_def extends_def)
    have "p < brk m" using 2(1) assms(2) by (auto simp: heap_ok_def)
    have o: "blocks m' b = blocks m b" if "b \<noteq> p" "b \<noteq> q" for b using a that by (auto simp: alloc_def)
    have g: "blocks m' p = None" using al(1) \<open>p < brk m\<close> by (auto simp: extends_def)
    have "realloc_vals p (k + 1) m = Inr (q, m')"
      using 2 a by (simp add: realloc_vals_def read_block_def free_ptr_def)
    with 2(5,6) al fr o g show ?thesis
      by (intro exI [of _ q] exI [of _ m'] exI [of _ cs] exI [of _ F']) (auto simp: extends_def)
  qed
qed

text \<open>Pushing onto a list in memory appends the value; the list owns what the value owned, and no block is lost
  or shared.\<close>

lemma push_value:
  assumes "value_at m (CList p k) (SList vs) F" "value_at m c v G" "F \<inter> G = {}" "heap_ok m"
  shows "\<exists>l m' H. sv_list_push (CList p k) c m = Inr (l, m') \<and> heap_ok m' \<and> value_at m' l (SList (vs @ [v])) H \<and>
    (\<forall>a. a \<notin> F \<union> H \<longrightarrow> blocks m' a = blocks m a) \<and> (\<forall>a \<in> F - H. blocks m' a = None) \<and> H \<subseteq> F \<union> G \<union> {brk m ..}"
proof -
  obtain q m1 cs F' where r: "realloc_vals p (k + 1) m = Inr (q, m1)" "heap_ok m1" "q = brk m" "length cs = k"
    "blocks m1 q = Some (Vals (cs @ [CVoid]))" and vs: "values_at m1 cs vs F'" "F' \<subseteq> F"
    and gone: "\<forall>a \<in> F - F'. blocks m1 a = None" and same: "\<forall>a. a \<notin> F \<longrightarrow> a \<noteq> q \<longrightarrow> blocks m1 a = blocks m a"
    using realloc_vals_list [OF assms(1,4)] by blast
  let ?m = "set_block q (Vals (cs @ [c])) m1"
  have q: "q \<notin> F" "q \<notin> G" "q \<noteq> 0"
    using r(3) owned_below(1) [OF assms(1) agree_refl assms(4)] owned_below(1) [OF assms(2) agree_refl assms(4)] assms(4)
    by (auto simp: heap_ok_def)
  have "values_at ?m cs vs F'" using q vs(2) by (intro value_at_frame(2) [OF vs(1)]) (auto simp: agree_def)
  moreover have "value_at ?m c v G"
    using q same assms(3) by (intro value_at_frame(1) [OF assms(2)]) (auto simp: agree_def)
  then have "values_at ?m [c] [v] (G \<union> {})" by (intro value_at_values_at.at_cons value_at_values_at.at_end) simp_all
  ultimately have "values_at ?m (cs @ [c]) (vs @ [v]) (F' \<union> (G \<union> {}))"
    using vs(2) assms(3) by (intro values_at_append) auto
  then have "value_at ?m (CList q (length (cs @ [c]))) (SList (vs @ [v])) (insert q (F' \<union> G))"
    using q vs(2) by (intro value_at_values_at.at_list) auto
  moreover have "sv_list_push (CList p k) c m = Inr (CList q (length (cs @ [c])), ?m)"
    using r put_val_at [OF r(5), of k c] by (simp add: list_update_append)
  moreover have "heap_ok ?m" using r(2,5) by (intro heap_ok_set_block) simp_all
  ultimately show ?thesis
    using same gone q r(3) vs(2) by (intro exI [of _ "CList q (length (cs @ [c]))"] exI [of _ ?m] exI [of _ "insert q (F' \<union> G)"]) auto
qed


subsection \<open>The text of a value\<close>

lemma value_text_c_string:
  "value_at m c v F \<Longrightarrow> c_string (sv_to_string v)"
  "values_at m cs vs F \<Longrightarrow> c_string (concat (map sv_to_string vs))"
proof (induction rule: value_at_induct)
  case (at_int i)
  have "c_string (show_ll i)" by (simp add: show_ll_def)
  then show ?case by simp
next
  case (at_vector x y z)
  have "c_string (show_fixed 5 w)" for w by simp
  then show ?case by (simp add: c_string_def)
next
  case (at_rot x y z s)
  have "c_string (show_fixed 5 w)" for w by simp
  then show ?case by (simp add: c_string_def)
next
  case (at_cons c v F cs vs G)
  then show ?case by (simp add: c_string_def)
qed (simp_all add: c_string_def [of "[]"])

text \<open>A block that only carries a text to a buffer leaves no trace once it is freed.\<close>

lemma only_buffer_temp:
  assumes "heap_ok m" "\<forall>a. a \<noteq> q \<longrightarrow> blocks m1 a = blocks m a" "brk m \<le> q" "q < brk m1" "brk m \<le> brk m1"
    and "only_buffer b m1 b1 m2" "jb_buf b < brk m"
  shows "jb_buf b1 \<noteq> q" "blocks m2 q = blocks m1 q" "only_buffer b m b1 (without {q} m2)"
proof -
  show n: "jb_buf b1 \<noteq> q" using only_buffer_where [OF assms(6)] assms(3,4,7) by auto
  show "blocks m2 q = blocks m1 q" using only_buffer_old [OF assms(6), of q] assms(3,4,7) by auto
  show "only_buffer b m b1 (without {q} m2)"
  proof (rule only_bufferI)
    show "heap_ok (without {q} m2)" "brk m \<le> brk (without {q} m2)"
      using assms(5,6) by (auto simp: only_buffer_def heap_ok_without)
    show "jb_buf b1 = jb_buf b \<or> brk m \<le> jb_buf b1" using only_buffer_where [OF assms(6)] assms(5) by auto
    show "blocks (without {q} m2) a = blocks m a" if "a < brk m" "a \<noteq> jb_buf b" for a
      using only_buffer_old [OF assms(6), of a] that assms(2,3,5) by auto
    show "blocks (without {q} m2) a = None" if a: "a \<noteq> jb_buf b1" "brk m \<le> a" for a
    proof (cases "brk m1 \<le> a")
      case False
      have "a \<noteq> jb_buf b" using a assms(7) by auto
      then show ?thesis using only_buffer_old [OF assms(6), of a] False assms(1,2) a(2) by (auto simp: heap_ok_above)
    qed (use only_buffer_new [OF assms(6) a(1)] in simp)
    show "blocks (without {q} m2) (jb_buf b) = None" if "jb_buf b \<noteq> jb_buf b1"
      using only_buffer_gone [OF assms(6) that] by simp
  qed
qed

lemma dup_text_new:
  assumes "heap_ok m" "c_string s" "dup_text s m = (q, m')"
  shows "brk m \<le> q" "q < brk m'" "heap_ok m'" "q \<noteq> 0" "str_at q m' = Inr s" "\<forall>a. a \<noteq> q \<longrightarrow> blocks m' a = blocks m a"
    "blocks m' q \<noteq> None"
proof -
  have a: "alloc (chars s) m = (q, m')" using assms(3) by (simp add: dup_text_def)
  note al = extends_alloc [OF assms(1) a]
  show "brk m \<le> q" "q < brk m'" "heap_ok m'" "q \<noteq> 0" "str_at q m' = Inr s" "blocks m' q \<noteq> None"
    using al assms(1,2) by (auto simp: extends_def heap_ok_def str_at_chars)
  show "\<forall>a. a \<noteq> q \<longrightarrow> blocks m' a = blocks m a" using a by (auto simp: alloc_def)
qed

definition new_text :: "mem \<Rightarrow> string \<Rightarrow> addr \<times> mem \<Rightarrow> bool" where
  "new_text m s x \<longleftrightarrow> (case x of (q, m') \<Rightarrow> brk m \<le> q \<and> q < brk m' \<and> heap_ok m' \<and> q \<noteq> 0 \<and> str_at q m' = Inr s \<and>
     blocks m' q \<noteq> None \<and> (\<forall>a. a \<noteq> q \<longrightarrow> blocks m' a = blocks m a))"

lemma new_text_dup: "heap_ok m \<Longrightarrow> c_string s \<Longrightarrow> new_text m s (dup_text s m)"
  using dup_text_new [of m s "fst (dup_text s m)" "snd (dup_text s m)"] by (simp add: new_text_def split_beta)

lemma new_text_dup_or:
  "heap_ok m \<Longrightarrow> c_string s \<Longrightarrow> blocks m p = Some (chars s) \<Longrightarrow> p \<noteq> 0 \<Longrightarrow> \<exists>x. dup_or d p m = Inr x \<and> new_text m s x"
  using new_text_dup [of m s] by (simp add: dup_or_def xstrdup_def str_at_chars dup_text_def)

lemma buffer_text:
  assumes "heap_ok m" "jbuf_at m' b s" "only_buffer jbuf_init m b m'" "jb_buf b \<noteq> 0" "c_string s"
  shows "new_text m s (jb_buf b, m')"
proof -
  have h: "heap_ok m'" using assms(3) by (simp add: only_buffer_def)
  have q: "brk m \<le> jb_buf b" using only_buffer_where [OF assms(3)] assms(4) by (simp add: jbuf_init_def)
  obtain rest where c: "blocks m' (jb_buf b) = Some (Chars (map Some s @ Some nul # rest))"
    using assms(2,4) by (auto simp: jbuf_at_def)
  have "blocks m' a = blocks m a" if "a \<noteq> jb_buf b" for a
  proof (cases "a < brk m")
    case True
    then show ?thesis
      using only_buffer_old [OF assms(3) True] heap_ok_null [OF assms(1)] heap_ok_null [OF h]
      by (cases "a = 0") (auto simp: jbuf_init_def)
  next
    case False
    then show ?thesis using only_buffer_new [OF assms(3) that] heap_ok_above [OF assms(1)] by simp
  qed
  with h q c jbuf_at_below [OF assms(2) h] assms(4,5) show ?thesis
    by (simp add: new_text_def str_at_def read_block_def scan_chars)
qed

lemma text_value:
  "value_at m c v F \<Longrightarrow> (\<And>n m'. size v < n \<Longrightarrow> agree F m m' \<Longrightarrow> heap_ok m' \<Longrightarrow> length (sv_to_string v) < 2 ^ 31 \<Longrightarrow>
     \<exists>x. to_text n c m' = Inr x \<and> new_text m' (sv_to_string v) x)"
  "values_at m cs vs F \<Longrightarrow> (\<And>n m' p pre b s. \<forall>v \<in> set vs. size v < n \<Longrightarrow> agree F m m' \<Longrightarrow> heap_ok m' \<Longrightarrow>
     blocks m' p = Some (Vals (pre @ cs)) \<Longrightarrow> jb_buf b \<notin> insert p F \<Longrightarrow> jbuf_at m' b s \<Longrightarrow> c_string s \<Longrightarrow>
     length s + length (concat (map sv_to_string vs)) < 2 ^ 31 \<Longrightarrow>
     \<exists>b' m''. each (\<lambda>i (b, m). rbind (get_val p i m) (\<lambda>c. rbind (to_text n c m) (\<lambda>(t, m). rbind (str_at t m) (\<lambda>s.
         rbind (jbuf_append b s m) (\<lambda>(b, m). rbind (free_ptr t m) (\<lambda>m. Inr (b, m)))))))
         [length pre ..< length pre + length cs] (b, m') = Inr (b', m'') \<and>
       jbuf_at m'' b' (s @ concat (map sv_to_string vs)) \<and> only_buffer b m' b' m'' \<and> (cs \<noteq> [] \<longrightarrow> jb_buf b' \<noteq> 0))"
proof (induction rule: value_at_induct)
  case (at_void n m')
  then show ?case using new_text_dup [of m' "[]"] by (cases n) (auto simp: c_string_def)
next
  case (at_string p s)
  then show ?case using new_text_dup_or [of m' s p "[]"] by (cases n) auto
next
  case (at_key p s)
  then show ?case using new_text_dup_or [of m' s p null_key] by (cases n) auto
next
  case (at_int i)
  then show ?case using new_text_dup [of m' "show_ll i"] by (cases n) (auto simp: xasprintf_def dup_text_def show_ll_def)
next
  case (at_float f)
  then show ?case using new_text_dup [of m' "show_fixed 6 f"] by (cases n) (auto simp: xasprintf_def dup_text_def)
next
  case (at_vector x y z)
  then show ?case
    using new_text_dup [OF _ value_text_c_string(1) [OF value_at_values_at.at_vector], of m' x y z]
    by (cases n) (auto simp: xasprintf_def dup_text_def)
next
  case (at_rot x y z s)
  then show ?case
    using new_text_dup [OF _ value_text_c_string(1) [OF value_at_values_at.at_rot], of m' x y z s]
    by (cases n) (auto simp: xasprintf_def dup_text_def)
next
  case at_nil
  have "dup_text [] m' = (fst (dup_text [] m'), snd (dup_text [] m'))" by simp
  with at_nil new_text_dup [of m' "[]"] show ?case
    by (cases n) (auto simp: jbuf_init_def jbuf_free_def free_ptr_def c_string_def)
next
  case (at_list p cs vs F)
  obtain n' where n: "n = Suc n'" using at_list(7) by (cases n) auto
  have sz: "\<forall>v \<in> set vs. size v < n'" using at_list(7) size_element n by blast
  have z: "jb_buf jbuf_init \<notin> insert p F"
    using at_list(4,8,9) heap_ok_null [OF at_list(9)] value_at_owned(2) [OF at_list(2), of 0]
    by (auto simp: jbuf_init_def agree_def)
  obtain b' m2 where e: "each (\<lambda>i (b, m). rbind (get_val p i m) (\<lambda>c. rbind (to_text n' c m) (\<lambda>(t, m). rbind (str_at t m) (\<lambda>s.
         rbind (jbuf_append b s m) (\<lambda>(b, m). rbind (free_ptr t m) (\<lambda>m. Inr (b, m)))))))
         [0 ..< length cs] (jbuf_init, m') = Inr (b', m2)"
    and b: "jbuf_at m2 b' (concat (map sv_to_string vs))" "only_buffer jbuf_init m' b' m2" "jb_buf b' \<noteq> 0"
    using at_list(3) [OF sz, of m' p "[]" jbuf_init "[]"] at_list(1,5,8-10) z jbuf_at_init by (auto simp: c_string_def)
  have "new_text m' (concat (map sv_to_string vs)) (jb_buf b', m2)"
    using buffer_text [OF at_list(9) b value_text_c_string(2) [OF at_list(2)]] .
  with e b(3) show ?case by (simp add: n)
next
  case at_end
  then show ?case by (auto simp: only_buffer_def heap_ok_above)
next
  case (at_cons c v F cs vs G)
  have sz: "size v < n" and ag: "agree F m m'" "agree G m m'" using at_cons(6,7) by auto
  have len: "length (sv_to_string v) < 2 ^ 31" using at_cons(13) by simp
  obtain t m1 where t: "to_text n c m' = Inr (t, m1)" "new_text m' (sv_to_string v) (t, m1)"
    using at_cons(2) [OF sz ag(1) at_cons(8) len] by auto
  have bl: "jb_buf b < brk m'" using jbuf_at_below [OF at_cons(11,8)] .
  have "t \<noteq> jb_buf b" using t(2) bl by (auto simp: new_text_def)
  then have "jbuf_at m1 b s" using t(2) by (intro jbuf_at_frame [OF at_cons(11)]) (auto simp: new_text_def)
  then obtain b1 m2 where ap: "jbuf_append b (sv_to_string v) m1 = Inr (b1, m2)" "jbuf_at m2 b1 (s @ sv_to_string v)"
      "only_buffer b m1 b1 m2" "jb_buf b1 \<noteq> 0"
    using append_text [of m1 b s "sv_to_string v"] t(2) at_cons(12,13) by (auto simp: new_text_def)
  note tmp = only_buffer_temp [OF at_cons(8) _ _ _ _ ap(3) bl, of t]
  let ?m = "without {t} m2"
  have w: "jb_buf b1 \<noteq> t" "blocks m2 t = blocks m1 t" "only_buffer b m' b1 ?m"
    using tmp t(2) ap(3) by (auto simp: new_text_def)
  have p: "p < brk m'" using at_cons(8,9) by (auto simp: heap_ok_def)
  have bp: "blocks ?m a = blocks m' a" if "a \<in> insert p G" for a
  proof (rule only_buffer_old [OF w(3)])
    show "a < brk m'" "a \<noteq> jb_buf b"
      using that p at_cons(10) owned_below(2) [OF at_cons(3) ag(2) at_cons(8)] by auto
  qed
  have nb: "jb_buf b1 \<notin> insert p G"
    using only_buffer_where [OF w(3)] at_cons(10) p owned_below(2) [OF at_cons(3) ag(2) at_cons(8)] by fastforce
  obtain b' m'' where e: "each (\<lambda>i (b, m). rbind (get_val p i m) (\<lambda>c. rbind (to_text n c m) (\<lambda>(t, m). rbind (str_at t m) (\<lambda>s.
         rbind (jbuf_append b s m) (\<lambda>(b, m). rbind (free_ptr t m) (\<lambda>m. Inr (b, m)))))))
         [length (pre @ [c]) ..< length (pre @ [c]) + length cs] (b1, ?m) = Inr (b', m'')"
    and b': "jbuf_at m'' b' ((s @ sv_to_string v) @ concat (map sv_to_string vs))" "only_buffer b1 ?m b' m''"
      "cs \<noteq> [] \<longrightarrow> jb_buf b' \<noteq> 0"
  proof -
    have "agree G m ?m" using ag(2) bp by (simp add: agree_def)
    moreover have "heap_ok ?m" using w(3) by (simp add: only_buffer_def)
    moreover have "blocks ?m p = Some (Vals ((pre @ [c]) @ cs))" using bp [of p] at_cons(9) by simp
    moreover have "jbuf_at ?m b1 (s @ sv_to_string v)" using w(1) by (intro jbuf_at_frame [OF ap(2)]) simp
    moreover have "c_string (s @ sv_to_string v)"
      using at_cons(12) value_text_c_string(1) [OF at_cons(1)] by (simp add: c_string_def)
    ultimately show ?thesis
      using at_cons(4) [of n ?m p "pre @ [c]" b1 "s @ sv_to_string v"] at_cons(6,13) nb that by auto
  qed
  have "rbind (get_val p (length pre) m') (\<lambda>c. rbind (to_text n c m') (\<lambda>(t, m). rbind (str_at t m) (\<lambda>s.
         rbind (jbuf_append b s m) (\<lambda>(b, m). rbind (free_ptr t m) (\<lambda>m. Inr (b, m)))))) = Inr (b1, ?m)"
    using get_val_at [OF at_cons(9), of "length pre"] t ap(1) w(2) by (auto simp: new_text_def free_ptr_def)
  then have "each (\<lambda>i (b, m). rbind (get_val p i m) (\<lambda>c. rbind (to_text n c m) (\<lambda>(t, m). rbind (str_at t m) (\<lambda>s.
         rbind (jbuf_append b s m) (\<lambda>(b, m). rbind (free_ptr t m) (\<lambda>m. Inr (b, m)))))))
         [length pre ..< length pre + length (c # cs)] (b, m') = Inr (b', m'')"
    unfolding upt_length_Cons using e by (simp del: upt_Suc)
  moreover have "only_buffer b m' b' m''" using only_buffer_trans [OF w(3) b'(2) bl] .
  moreover have "jb_buf b' \<noteq> 0" using b'(3) e ap(4) by (cases cs) auto
  ultimately show ?case using b'(1) by (intro exI [of _ b'] exI [of _ m'']) simp
qed


text \<open>C25 \<open>sv_to_string\<close> on the heap refines the function on values: for a value in memory whose text is shorter
  than 2^31 bytes it returns, the result is a C string with exactly that text in a new block, and all the
  buffers and texts of the elements are gone: nothing else has changed, and freeing the result gives the memory back
  as it was.\<close>

theorem to_text_refines:
  assumes "value_at m c v F" "heap_ok m" "size v < n" "length (sv_to_string v) < 2 ^ 31"
  shows "\<exists>p m'. to_text n c m = Inr (p, m') \<and> str_at p m' = Inr (sv_to_string v) \<and>
    (\<forall>a. a \<noteq> p \<longrightarrow> blocks m' a = blocks m a) \<and> (\<exists>m''. free_ptr p m' = Inr m'' \<and> blocks m'' = blocks m)"
proof -
  obtain p m' where r: "to_text n c m = Inr (p, m')" and t: "new_text m (sv_to_string v) (p, m')"
    using text_value(1) [OF assms(1,3) agree_refl assms(2,4)] by auto
  have "blocks m p = None" using t assms(2) by (simp add: new_text_def heap_ok_above)
  then have "blocks (without {p} m') = blocks m" using t by (auto simp: new_text_def fun_eq_iff)
  moreover have "free_ptr p m' = Inr (without {p} m')" using t by (auto simp: new_text_def free_ptr_def)
  ultimately show ?thesis using r t by (auto simp: new_text_def)
qed

end
