(* ===== verification/ProgramMem.thy ===== *)
theory ProgramMem
  imports ValueMem VmFuel
begin

text \<open>
  Releasing programs: \<open>free_expr\<close>, \<open>free_stmt\<close> and \<open>program_free\<close> of \<open>loader.c\<close> on the heap. A
  node owns its children and its arrays of pointers; the lemmas show that freeing the root frees exactly the blocks
  of the tree, each once. Lengths of arrays are the mathematical ones: the C \<open>int\<close>s hold them below 2^31.
\<close>

subsection \<open>Arrays of structures\<close>

definition as_ptrs :: "block \<Rightarrow> addr list option" where
  "as_ptrs b = (case b of Ptrs xs \<Rightarrow> Some xs | _ \<Rightarrow> None)"

definition as_globals :: "block \<Rightarrow> cglobal list option" where
  "as_globals b = (case b of Globals xs \<Rightarrow> Some xs | _ \<Rightarrow> None)"

definition as_funcs :: "block \<Rightarrow> cfunc list option" where
  "as_funcs b = (case b of Funcs xs \<Rightarrow> Some xs | _ \<Rightarrow> None)"

definition as_events :: "block \<Rightarrow> cevent list option" where
  "as_events b = (case b of Events xs \<Rightarrow> Some xs | _ \<Rightarrow> None)"

definition as_states :: "block \<Rightarrow> cstate list option" where
  "as_states b = (case b of States xs \<Rightarrow> Some xs | _ \<Rightarrow> None)"

text \<open>\<open>q[i]\<close>.\<close>

definition item_at :: "(block \<Rightarrow> 'a list option) \<Rightarrow> addr \<Rightarrow> nat \<Rightarrow> mem \<Rightarrow> 'a res" where
  "item_at as q i m = rbind (read_block q m) (\<lambda>b. case as b of
     Some xs \<Rightarrow> if i < length xs then Inr (xs ! i) else Inl BadMemory | None \<Rightarrow> Inl BadMemory)"

text \<open>\<open>for (i = 0; i < n; i++) f(q[i]);\<close> and then \<open>free(q)\<close>.\<close>

definition each_item :: "(block \<Rightarrow> 'a list option) \<Rightarrow> ('a \<Rightarrow> mem \<Rightarrow> mem res) \<Rightarrow> addr \<Rightarrow> nat \<Rightarrow> mem \<Rightarrow> mem res" where
  "each_item as f q n = each (\<lambda>i m. rbind (item_at as q i m) (\<lambda>x. f x m)) [0 ..< n]"

definition andthen :: "('s \<Rightarrow> 's res) \<Rightarrow> ('s \<Rightarrow> 's res) \<Rightarrow> 's \<Rightarrow> 's res" where
  "andthen f g s = rbind (f s) g"

definition free_array :: "(block \<Rightarrow> 'a list option) \<Rightarrow> ('a \<Rightarrow> mem \<Rightarrow> mem res) \<Rightarrow> addr \<Rightarrow> nat \<Rightarrow> mem \<Rightarrow> mem res" where
  "free_array as f q n = andthen (each_item as f q n) (free_ptr q)"

subsection \<open>Expressions and statements\<close>

text \<open>What is freed below a node; \<open>fe\<close> is the recursive call.\<close>

fun free_below :: "(addr \<Rightarrow> mem \<Rightarrow> mem res) \<Rightarrow> cexpr \<Rightarrow> mem \<Rightarrow> mem res" where
  "free_below fe (CE_VECTOR_LIT h x y z w) = each fe [x, y, z, w]"
| "free_below fe (CE_ROT_LIT h x y z w) = each fe [x, y, z, w]"
| "free_below fe (CE_LIST_LIT h q n) = free_array as_ptrs fe q n"
| "free_below fe (CE_CALL h i q n) = free_array as_ptrs fe q n"
| "free_below fe (CE_MEMBER h b x) = fe b"
| "free_below fe (CE_CAST h t e) = fe e"
| "free_below fe (CE_UNARY h op e) = fe e"
| "free_below fe (CE_POSTFIX h op e) = fe e"
| "free_below fe (CE_BINARY h op l r) = each fe [l, r]"
| "free_below fe (CE_ASSIGN h op l r) = each fe [l, r]"
| "free_below fe _ = Inr"

text \<open>The number bounds the depth of the tree; any number above its size is enough.\<close>

fun free_expr :: "nat \<Rightarrow> addr \<Rightarrow> mem \<Rightarrow> mem res" where
  "free_expr 0 p m = Inl OutOfFuel"
| "free_expr (Suc n) p m =
    (if p = 0 then Inr m
     else rbind (read_block p m) (\<lambda>b. case b of
         ExprB e \<Rightarrow> andthen (free_below (\<lambda>p. free_expr n p) e) (free_ptr p) m | _ \<Rightarrow> Inl BadMemory))"

fun free_stmt_below :: "(addr \<Rightarrow> mem \<Rightarrow> mem res) \<Rightarrow> (addr \<Rightarrow> mem \<Rightarrow> mem res) \<Rightarrow> cstmt \<Rightarrow> mem \<Rightarrow> mem res" where
  "free_stmt_below fe fs (CS_EXPR l e) = fe e"
| "free_stmt_below fe fs (CS_DECL l t i e) = fe e"
| "free_stmt_below fe fs (CS_BLOCK l q n) = free_array as_ptrs fs q n"
| "free_stmt_below fe fs (CS_IF l c t e) = andthen (fe c) (andthen (fs t) (fs e))"
| "free_stmt_below fe fs (CS_WHILE l c b) = andthen (fe c) (fs b)"
| "free_stmt_below fe fs (CS_DO l b c) = andthen (fs b) (fe c)"
| "free_stmt_below fe fs (CS_FOR l q n c q' n' b) =
     andthen (free_array as_ptrs fe q n) (andthen (fe c) (andthen (free_array as_ptrs fe q' n') (fs b)))"
| "free_stmt_below fe fs (CS_RETURN l hv e) = fe e"
| "free_stmt_below fe fs _ = Inr"

fun free_stmt :: "nat \<Rightarrow> addr \<Rightarrow> mem \<Rightarrow> mem res" where
  "free_stmt 0 p m = Inl OutOfFuel"
| "free_stmt (Suc n) p m =
    (if p = 0 then Inr m
     else rbind (read_block p m) (\<lambda>b. case b of
         StmtB s \<Rightarrow> andthen (free_stmt_below (free_expr n) (\<lambda>p. free_stmt n p) s) (free_ptr p) m | _ \<Rightarrow> Inl BadMemory))"

subsection \<open>Programs\<close>

definition zero_program :: cprogram where
  "zero_program = \<lparr>cp_strings = 0, cp_n_strings = 0, cp_globals = 0, cp_n_globals = 0, cp_funcs = 0, cp_n_funcs = 0,
     cp_states = 0, cp_n_states = 0, cp_flags = 0, cp_path = 0\<rparr>"

definition program_at_ptr :: "addr \<Rightarrow> mem \<Rightarrow> cprogram res" where
  "program_at_ptr p m = rbind (read_block p m) (\<lambda>b. case b of ProgramB cp \<Rightarrow> Inr cp | _ \<Rightarrow> Inl BadMemory)"

definition if_set :: "bool \<Rightarrow> (mem \<Rightarrow> mem res) \<Rightarrow> mem \<Rightarrow> mem res" where
  "if_set c f = (if c then f else Inr)"

text \<open>The four tables and the path, in the order of the code.\<close>

definition free_tables :: "nat \<Rightarrow> cprogram \<Rightarrow> mem \<Rightarrow> mem res" where
  "free_tables n cp =
     andthen (if_set (cp_globals cp \<noteq> 0) (free_array as_globals (\<lambda>g. free_expr n (cg_init g)) (cp_globals cp) (cp_n_globals cp)))
     (andthen (if_set (cp_funcs cp \<noteq> 0) (free_array as_funcs
        (\<lambda>f. andthen (free_ptr (cf_params f)) (free_stmt n (cf_body f))) (cp_funcs cp) (cp_n_funcs cp)))
     (andthen (if_set (cp_states cp \<noteq> 0) (free_array as_states
        (\<lambda>s. free_array as_events (\<lambda>e. andthen (free_ptr (ce_params e)) (free_stmt n (ce_body e))) (cs_events s) (cs_n_events s))
        (cp_states cp) (cp_n_states cp)))
     (andthen (if_set (cp_strings cp \<noteq> 0) (free_array as_ptrs free_ptr (cp_strings cp) (cp_n_strings cp)))
     (free_ptr (cp_path cp)))))"

definition program_free :: "nat \<Rightarrow> addr \<Rightarrow> mem \<Rightarrow> mem res" where
  "program_free n p m = (if p = 0 then Inr m
     else rbind (program_at_ptr p m) (\<lambda>cp. rbind (free_tables n cp m) (write_block p (ProgramB zero_program))))"


subsection \<open>Releasing in sequence\<close>

lemma frees_andthen: "frees f F m \<Longrightarrow> frees g G m \<Longrightarrow> F \<inter> G = {} \<Longrightarrow> frees (andthen f g) (F \<union> G) m"
  using frees_seq [of f F m g G] by (simp add: frees_def andthen_def)

text \<open>Each element has blocks of its own to free.\<close>

definition frees_all :: "('a \<Rightarrow> mem \<Rightarrow> mem res) \<Rightarrow> 'a list \<Rightarrow> addr set \<Rightarrow> mem \<Rightarrow> bool" where
  "frees_all f xs F m \<longleftrightarrow> (\<exists>Fs. list_all2 (\<lambda>x F. frees (f x) F m) xs Fs \<and> apart Fs \<and> F = \<Union> (set Fs))"

lemma frees_all_Nil: "frees_all f [] {} m"
  by (simp add: frees_all_def)

lemma frees_all_Cons:
  assumes "frees (f x) F m" "frees_all f xs G m" "F \<inter> G = {}"
  shows "frees_all f (x # xs) (F \<union> G) m"
proof -
  obtain Gs where "list_all2 (\<lambda>x F. frees (f x) F m) xs Gs" "apart Gs" "G = \<Union> (set Gs)"
    using assms(2) by (auto simp: frees_all_def)
  with assms(1,3) show ?thesis unfolding frees_all_def by (intro exI [of _ "F # Gs"]) auto
qed

lemma frees_all_each: "frees_all f xs F m \<Longrightarrow> frees (each f xs) F m"
  using frees_each by (auto simp: frees_all_def)

text \<open>A null pointer for no elements, a block of the elements otherwise.\<close>

definition array_at :: "('a list \<Rightarrow> block) \<Rightarrow> mem \<Rightarrow> addr \<Rightarrow> 'a list \<Rightarrow> addr set \<Rightarrow> bool" where
  "array_at mk m q xs A \<longleftrightarrow> (if xs = [] then q = 0 \<and> A = {} else q \<noteq> 0 \<and> blocks m q = Some (mk xs) \<and> A = {q})"

text \<open>What the loops rely on: the accessor reads what the constructor of the block stores.\<close>

locale struct_array =
  fixes as :: "block \<Rightarrow> 'a list option" and mk :: "'a list \<Rightarrow> block"
  assumes as_mk: "as (mk xs) = Some xs"
begin

lemma item: "blocks m q = Some (mk xs) \<Longrightarrow> i < length xs \<Longrightarrow> item_at as q i m = Inr (xs ! i)"
  by (simp add: item_at_def read_block_def as_mk)

lemma each_from:
  assumes "list_all2 (\<lambda>x F. frees (f x) F m) ys Gs" "apart Gs"
    and "agree (\<Union> (set Gs)) m m'" "q \<notin> \<Union> (set Gs)" "blocks m' q = Some (mk (pre @ ys))"
  shows "each (\<lambda>i m. rbind (item_at as q i m) (\<lambda>x. f x m)) [length pre ..< length pre + length ys] m' =
    Inr (without (\<Union> (set Gs)) m')"
  using assms
proof (induction ys Gs arbitrary: m' pre rule: list_all2_induct)
  case (Cons y ys G Gs)
  have 1: "f y m' = Inr (without G m')" using freesD [OF Cons.hyps(1)] Cons.prems(2) by simp
  have "agree (\<Union> (set Gs)) m (without G m')"
    using Cons.prems(1,2) by (intro agree_without) auto
  then have "each (\<lambda>i m. rbind (item_at as q i m) (\<lambda>x. f x m))
      [length (pre @ [y]) ..< length (pre @ [y]) + length ys] (without G m') = Inr (without (\<Union> (set Gs)) (without G m'))"
    using Cons.prems by (intro Cons.IH) auto
  then show ?case
    unfolding upt_length_Cons using item [OF Cons.prems(4), of "length pre"] 1 by (simp del: upt_Suc)
qed simp

lemma frees_array:
  assumes "array_at mk m q xs A" "frees_all f xs F m" "A \<inter> F = {}"
  shows "frees (free_array as f q (length xs)) (A \<union> F) m"
  unfolding frees_def
proof (intro allI impI)
  fix m'
  assume ag: "agree (A \<union> F) m m'"
  obtain Fs where Fs: "list_all2 (\<lambda>x F. frees (f x) F m) xs Fs" "apart Fs" "F = \<Union> (set Fs)"
    using assms(2) by (auto simp: frees_all_def)
  show "free_array as f q (length xs) m' = Inr (without (A \<union> F) m')"
  proof (cases "xs = []")
    case True
    then show ?thesis using assms(1) Fs by (simp add: array_at_def free_array_def each_item_def andthen_def free_ptr_def)
  next
    case False
    then have q: "q \<noteq> 0" "blocks m' q = Some (mk xs)" "A = {q}" using assms(1) ag by (auto simp: array_at_def agree_def)
    have "each_item as f q (length xs) m' = Inr (without F m')"
      using each_from [OF Fs(1,2), of m' q "[]"] Fs(3) ag q assms(3) by (simp add: each_item_def)
    then show ?thesis using q assms(3) by (simp add: free_array_def andthen_def free_ptr_def)
  qed
qed

end

interpretation ptrs: struct_array as_ptrs Ptrs
  by unfold_locales (simp add: as_ptrs_def)

interpretation gvs: struct_array as_globals Globals
  by unfold_locales (simp add: as_globals_def)

interpretation fns: struct_array as_funcs Funcs
  by unfold_locales (simp add: as_funcs_def)

interpretation evs: struct_array as_events Events
  by unfold_locales (simp add: as_events_def)

interpretation sts: struct_array as_states States
  by unfold_locales (simp add: as_states_def)


subsection \<open>Trees in memory\<close>

text \<open>\<open>expr_at m p e F\<close>: the pointer leads to the expression, whose nodes and arrays are the blocks at \<open>F\<close>.\<close>

inductive expr_at :: "mem \<Rightarrow> addr \<Rightarrow> expr \<Rightarrow> addr set \<Rightarrow> bool"
  and exprs_at :: "mem \<Rightarrow> addr list \<Rightarrow> expr list \<Rightarrow> addr set \<Rightarrow> bool"
  for m :: mem where
  x_null: "expr_at m 0 E_NULL {}"
| x_int: "blocks m p = Some (ExprB (CE_INT_LIT h i)) \<Longrightarrow> p \<noteq> 0 \<Longrightarrow> expr_at m p (E_INT_LIT h i) {p}"
| x_float: "blocks m p = Some (ExprB (CE_FLOAT_LIT h d)) \<Longrightarrow> p \<noteq> 0 \<Longrightarrow> expr_at m p (E_FLOAT_LIT h d) {p}"
| x_string: "blocks m p = Some (ExprB (CE_STRING_LIT h k)) \<Longrightarrow> p \<noteq> 0 \<Longrightarrow> expr_at m p (E_STRING_LIT h k) {p}"
| x_ident: "blocks m p = Some (ExprB (CE_IDENT h k)) \<Longrightarrow> p \<noteq> 0 \<Longrightarrow> expr_at m p (E_IDENT h k) {p}"
| x_vector: "blocks m p = Some (ExprB (CE_VECTOR_LIT h a b c 0)) \<Longrightarrow> p \<noteq> 0 \<Longrightarrow>
     exprs_at m [a, b, c, 0] [x, y, z, E_NULL] F \<Longrightarrow> p \<notin> F \<Longrightarrow> expr_at m p (E_VECTOR_LIT h x y z) (insert p F)"
| x_rot: "blocks m p = Some (ExprB (CE_ROT_LIT h a b c d)) \<Longrightarrow> p \<noteq> 0 \<Longrightarrow>
     exprs_at m [a, b, c, d] [x, y, z, w] F \<Longrightarrow> p \<notin> F \<Longrightarrow> expr_at m p (E_ROT_LIT h x y z w) (insert p F)"
| x_list: "blocks m p = Some (ExprB (CE_LIST_LIT h q (length ps))) \<Longrightarrow> p \<noteq> 0 \<Longrightarrow> array_at Ptrs m q ps A \<Longrightarrow>
     exprs_at m ps es F \<Longrightarrow> A \<inter> F = {} \<Longrightarrow> p \<notin> A \<union> F \<Longrightarrow> expr_at m p (E_LIST_LIT h es) (insert p (A \<union> F))"
| x_call: "blocks m p = Some (ExprB (CE_CALL h k q (length ps))) \<Longrightarrow> p \<noteq> 0 \<Longrightarrow> array_at Ptrs m q ps A \<Longrightarrow>
     exprs_at m ps es F \<Longrightarrow> A \<inter> F = {} \<Longrightarrow> p \<notin> A \<union> F \<Longrightarrow> expr_at m p (E_CALL h k es) (insert p (A \<union> F))"
| x_member: "blocks m p = Some (ExprB (CE_MEMBER h a k)) \<Longrightarrow> p \<noteq> 0 \<Longrightarrow> expr_at m a x F \<Longrightarrow> p \<notin> F \<Longrightarrow>
     expr_at m p (E_MEMBER h x k) (insert p F)"
| x_cast: "blocks m p = Some (ExprB (CE_CAST h t a)) \<Longrightarrow> p \<noteq> 0 \<Longrightarrow> expr_at m a x F \<Longrightarrow> p \<notin> F \<Longrightarrow>
     expr_at m p (E_CAST h t x) (insert p F)"
| x_unary: "blocks m p = Some (ExprB (CE_UNARY h t a)) \<Longrightarrow> p \<noteq> 0 \<Longrightarrow> expr_at m a x F \<Longrightarrow> p \<notin> F \<Longrightarrow>
     expr_at m p (E_UNARY h t x) (insert p F)"
| x_postfix: "blocks m p = Some (ExprB (CE_POSTFIX h t a)) \<Longrightarrow> p \<noteq> 0 \<Longrightarrow> expr_at m a x F \<Longrightarrow> p \<notin> F \<Longrightarrow>
     expr_at m p (E_POSTFIX h t x) (insert p F)"
| x_binary: "blocks m p = Some (ExprB (CE_BINARY h t a b)) \<Longrightarrow> p \<noteq> 0 \<Longrightarrow> exprs_at m [a, b] [x, y] F \<Longrightarrow> p \<notin> F \<Longrightarrow>
     expr_at m p (E_BINARY h t x y) (insert p F)"
| x_assign: "blocks m p = Some (ExprB (CE_ASSIGN h t a b)) \<Longrightarrow> p \<noteq> 0 \<Longrightarrow> exprs_at m [a, b] [x, y] F \<Longrightarrow> p \<notin> F \<Longrightarrow>
     expr_at m p (E_ASSIGN h t x y) (insert p F)"
| xs_nil: "exprs_at m [] [] {}"
| xs_cons: "expr_at m p e F \<Longrightarrow> exprs_at m ps es G \<Longrightarrow> F \<inter> G = {} \<Longrightarrow> exprs_at m (p # ps) (e # es) (F \<union> G)"

lemma frees_expr_node:
  assumes "blocks m p = Some (ExprB e)" "p \<noteq> 0" "frees (free_below (free_expr n) e) F m" "p \<notin> F"
  shows "frees (free_expr (Suc n) p) (insert p F) m"
  unfolding frees_def
proof (intro allI impI)
  fix m'
  assume ag: "agree (insert p F) m m'"
  then have "free_below (free_expr n) e m' = Inr (without F m')" using freesD [OF assms(3)] by simp
  with ag assms(1,2,4) show "free_expr (Suc n) p m' = Inr (without (insert p F) m')"
    by (simp add: read_block_def andthen_def free_ptr_def)
qed

lemma frees_null_expr: "0 < n \<Longrightarrow> frees (free_expr n 0) {} m"
  by (cases n) (simp_all add: frees_def)

declare free_expr.simps(2) [simp del]

lemma frees_each_all: "frees_all f xs F m \<Longrightarrow> frees (each f xs) F m"
  using frees_each by (auto simp: frees_all_def)

lemma size_expr_element: "size_list size es < n \<Longrightarrow> e \<in> set es \<Longrightarrow> size e < n"
  using size_list_estimation' [of e es "size e" size] by simp

lemma frees_expr:
  "expr_at m p e F \<Longrightarrow> (\<And>n. size e < n \<Longrightarrow> frees (free_expr n p) F m)"
  "exprs_at m ps es F \<Longrightarrow> (\<And>n. \<forall>e \<in> set es. size e < n \<Longrightarrow> frees_all (free_expr n) ps F m)"
proof (induction rule: expr_at_exprs_at.inducts)
  case (x_null n)
  then show ?case by (intro frees_null_expr) simp
next
  case (x_list p h q ps A es F)
  obtain n' where n: "n = Suc n'" using x_list.prems by (cases n) auto
  have "\<forall>e \<in> set es. size e < n'" using x_list.prems size_expr_element [of es] by (simp add: n)
  from ptrs.frees_array [OF x_list(2) x_list(4) [OF this] x_list(6)] x_list(1,5,7)
  show ?case unfolding n by (intro frees_expr_node) auto
next
  case (x_call p h k q ps A es F)
  obtain n' where n: "n = Suc n'" using x_call.prems by (cases n) auto
  have "\<forall>e \<in> set es. size e < n'" using x_call.prems size_expr_element [of es] by (simp add: n)
  from ptrs.frees_array [OF x_call(2) x_call(4) [OF this] x_call(6)] x_call(1,5,7)
  show ?case unfolding n by (intro frees_expr_node) auto
next
  case xs_nil
  show ?case by (rule frees_all_Nil)
next
  case (xs_cons p e F ps es G)
  then show ?case by (intro frees_all_Cons) auto
qed (auto simp: elim!: less_natE intro!: frees_expr_node frees_each_all frees_nothing)


inductive stmt_at :: "mem \<Rightarrow> addr \<Rightarrow> stmt \<Rightarrow> addr set \<Rightarrow> bool"
  and stmts_at :: "mem \<Rightarrow> addr list \<Rightarrow> stmt list \<Rightarrow> addr set \<Rightarrow> bool"
  for m :: mem where
  s_null: "stmt_at m 0 S_NULL {}"
| s_expr: "blocks m p = Some (StmtB (CS_EXPR l a)) \<Longrightarrow> p \<noteq> 0 \<Longrightarrow> expr_at m a e F \<Longrightarrow> p \<notin> F \<Longrightarrow>
     stmt_at m p (S_EXPR l e) (insert p F)"
| s_decl: "blocks m p = Some (StmtB (CS_DECL l t k a)) \<Longrightarrow> p \<noteq> 0 \<Longrightarrow> expr_at m a e F \<Longrightarrow> p \<notin> F \<Longrightarrow>
     stmt_at m p (S_DECL l t k e) (insert p F)"
| s_block: "blocks m p = Some (StmtB (CS_BLOCK l q (length ps))) \<Longrightarrow> p \<noteq> 0 \<Longrightarrow> array_at Ptrs m q ps A \<Longrightarrow>
     stmts_at m ps ss F \<Longrightarrow> A \<inter> F = {} \<Longrightarrow> p \<notin> A \<union> F \<Longrightarrow> stmt_at m p (S_BLOCK l ss) (insert p (A \<union> F))"
| s_if: "blocks m p = Some (StmtB (CS_IF l a b c)) \<Longrightarrow> p \<noteq> 0 \<Longrightarrow> expr_at m a e F \<Longrightarrow> stmt_at m b t G \<Longrightarrow>
     stmt_at m c u H \<Longrightarrow> apart [F, G, H] \<Longrightarrow> p \<notin> F \<union> G \<union> H \<Longrightarrow> stmt_at m p (S_IF l e t u) (insert p (F \<union> (G \<union> H)))"
| s_while: "blocks m p = Some (StmtB (CS_WHILE l a b)) \<Longrightarrow> p \<noteq> 0 \<Longrightarrow> expr_at m a e F \<Longrightarrow> stmt_at m b t G \<Longrightarrow>
     F \<inter> G = {} \<Longrightarrow> p \<notin> F \<union> G \<Longrightarrow> stmt_at m p (S_WHILE l e t) (insert p (F \<union> G))"
| s_do: "blocks m p = Some (StmtB (CS_DO l b a)) \<Longrightarrow> p \<noteq> 0 \<Longrightarrow> stmt_at m b t G \<Longrightarrow> expr_at m a e F \<Longrightarrow>
     G \<inter> F = {} \<Longrightarrow> p \<notin> G \<union> F \<Longrightarrow> stmt_at m p (S_DO l t e) (insert p (G \<union> F))"
| s_for: "blocks m p = Some (StmtB (CS_FOR l q (length ps) a q' (length ps') b)) \<Longrightarrow> p \<noteq> 0 \<Longrightarrow>
     array_at Ptrs m q ps A \<Longrightarrow> exprs_at m ps es F \<Longrightarrow> expr_at m a e G \<Longrightarrow> array_at Ptrs m q' ps' A' \<Longrightarrow>
     exprs_at m ps' es' F' \<Longrightarrow> stmt_at m b t H \<Longrightarrow> apart [A, F, G, A', F', H] \<Longrightarrow> p \<notin> A \<union> F \<union> G \<union> A' \<union> F' \<union> H \<Longrightarrow>
     stmt_at m p (S_FOR l es e es' t) (insert p ((A \<union> F) \<union> (G \<union> ((A' \<union> F') \<union> H))))"
| s_return: "blocks m p = Some (StmtB (CS_RETURN l hv a)) \<Longrightarrow> p \<noteq> 0 \<Longrightarrow> expr_at m a e F \<Longrightarrow> p \<notin> F \<Longrightarrow>
     stmt_at m p (S_RETURN l hv e) (insert p F)"
| s_jump: "blocks m p = Some (StmtB (CS_JUMP l k)) \<Longrightarrow> p \<noteq> 0 \<Longrightarrow> stmt_at m p (S_JUMP l k) {p}"
| s_label: "blocks m p = Some (StmtB (CS_LABEL l k)) \<Longrightarrow> p \<noteq> 0 \<Longrightarrow> stmt_at m p (S_LABEL l k) {p}"
| s_statechg: "blocks m p = Some (StmtB (CS_STATECHG l k)) \<Longrightarrow> p \<noteq> 0 \<Longrightarrow> stmt_at m p (S_STATECHG l k) {p}"
| s_empty: "blocks m p = Some (StmtB (CS_EMPTY l)) \<Longrightarrow> p \<noteq> 0 \<Longrightarrow> stmt_at m p (S_EMPTY l) {p}"
| ss_nil: "stmts_at m [] [] {}"
| ss_cons: "stmt_at m p s F \<Longrightarrow> stmts_at m ps ss G \<Longrightarrow> F \<inter> G = {} \<Longrightarrow> stmts_at m (p # ps) (s # ss) (F \<union> G)"

lemma frees_stmt_node:
  assumes "blocks m p = Some (StmtB s)" "p \<noteq> 0" "frees (free_stmt_below (free_expr n) (free_stmt n) s) F m" "p \<notin> F"
  shows "frees (free_stmt (Suc n) p) (insert p F) m"
  unfolding frees_def
proof (intro allI impI)
  fix m'
  assume ag: "agree (insert p F) m m'"
  then have "free_stmt_below (free_expr n) (free_stmt n) s m' = Inr (without F m')" using freesD [OF assms(3)] by simp
  with ag assms(1,2,4) show "free_stmt (Suc n) p m' = Inr (without (insert p F) m')"
    by (simp add: read_block_def andthen_def free_ptr_def)
qed

lemma frees_null_stmt: "0 < n \<Longrightarrow> frees (free_stmt n 0) {} m"
  by (cases n) (simp_all add: frees_def)

declare free_stmt.simps(2) [simp del]

lemma stmt_size_pos: "0 < stmt_size s"
  by (cases s) simp_all

lemma size_stmt_element: "sum_list (map stmt_size ss) < n \<Longrightarrow> s \<in> set ss \<Longrightarrow> stmt_size s < n"
  using member_le_sum_list [of "stmt_size s" "map stmt_size ss"] by simp

lemma frees_array_exprs:
  "array_at Ptrs m q ps A \<Longrightarrow> exprs_at m ps es F \<Longrightarrow> A \<inter> F = {} \<Longrightarrow> size_list size es < n \<Longrightarrow>
     frees (free_array as_ptrs (free_expr n) q (length ps)) (A \<union> F) m"
  by (intro ptrs.frees_array frees_expr(2)) (auto dest: size_expr_element)

lemma frees_stmt:
  "stmt_at m p s F \<Longrightarrow> (\<And>n. stmt_size s < n \<Longrightarrow> frees (free_stmt n p) F m)"
  "stmts_at m ps ss F \<Longrightarrow> (\<And>n. \<forall>s \<in> set ss. stmt_size s < n \<Longrightarrow> frees_all (free_stmt n) ps F m)"
proof (induction rule: stmt_at_stmts_at.inducts)
  case (s_null n)
  then show ?case by (intro frees_null_stmt) simp
next
  case (s_block p l q ps A ss F)
  obtain n' where n: "n = Suc n'" using s_block.prems by (cases n) auto
  have "\<forall>s \<in> set ss. stmt_size s < n'" using s_block.prems size_stmt_element [of ss] by (simp add: n)
  from ptrs.frees_array [OF s_block(2) s_block(4) [OF this] s_block(6)] s_block(1,5,7)
  show ?case unfolding n by (intro frees_stmt_node) auto
next
  case (s_for p l q ps a q' ps' b A es F e G A' es' F' t H)
  obtain n' where n: "n = Suc n'" using s_for.prems by (cases n) auto
  have sz: "size_list size es < n'" "size e < n'" "size_list size es' < n'" "stmt_size t < n'"
    using s_for.prems stmt_size_pos [of t] by (simp_all add: n)
  have d: "A \<inter> F = {}" "A' \<inter> F' = {}" "(A' \<union> F') \<inter> H = {}" "G \<inter> ((A' \<union> F') \<union> H) = {}"
      "(A \<union> F) \<inter> (G \<union> ((A' \<union> F') \<union> H)) = {}"
    using s_for(10) by auto
  show ?case unfolding n
  proof (rule frees_stmt_node [OF s_for(1) s_for(9)])
    show "frees (free_stmt_below (free_expr n') (free_stmt n') (CS_FOR l q (length ps) a q' (length ps') b))
        ((A \<union> F) \<union> (G \<union> ((A' \<union> F') \<union> H))) m"
      unfolding free_stmt_below.simps
      by (intro frees_andthen frees_array_exprs [OF s_for(2,3) d(1) sz(1)] frees_array_exprs [OF s_for(5,6) d(2) sz(3)]
          frees_expr(1) [OF s_for(4) sz(2)] s_for(8) [OF sz(4)] d(3-5))
  qed (use s_for(11) in auto)
next
  case ss_nil
  show ?case by (rule frees_all_Nil)
next
  case (ss_cons p s F ps ss G)
  then show ?case by (intro frees_all_Cons) auto
qed (auto elim!: less_natE intro!: frees_stmt_node frees_expr(1) frees_andthen frees_nothing)


subsection \<open>Programs in memory\<close>

inductive all_at :: "('a \<Rightarrow> 'b \<Rightarrow> addr set \<Rightarrow> bool) \<Rightarrow> 'a list \<Rightarrow> 'b list \<Rightarrow> addr set \<Rightarrow> bool" for R where
  all_nil: "all_at R [] [] {}"
| all_cons: "R x y F \<Longrightarrow> all_at R xs ys G \<Longrightarrow> F \<inter> G = {} \<Longrightarrow> all_at R (x # xs) (y # ys) (F \<union> G)"

definition string_at :: "mem \<Rightarrow> addr \<Rightarrow> string \<Rightarrow> addr set \<Rightarrow> bool" where
  "string_at m p s F \<longleftrightarrow> p \<noteq> 0 \<and> blocks m p = Some (chars s) \<and> F = {p}"

definition global_at :: "mem \<Rightarrow> cglobal \<Rightarrow> global_var \<Rightarrow> addr set \<Rightarrow> bool" where
  "global_at m g gv F \<longleftrightarrow> cg_type g = gv_type gv \<and> cg_name g = gv_name gv \<and> expr_at m (cg_init g) (gv_init gv) F"

definition func_at :: "mem \<Rightarrow> cfunc \<Rightarrow> func_decl \<Rightarrow> addr set \<Rightarrow> bool" where
  "func_at m f fd F \<longleftrightarrow> cf_name f = fd_name fd \<and> cf_line f = fd_line fd \<and> cf_ret f = fd_ret fd \<and>
     cf_has_ret f = fd_has_ret fd \<and> cf_n_params f = length (fd_params fd) \<and>
     (\<exists>A G. array_at Params m (cf_params f) (fd_params fd) A \<and> stmt_at m (cf_body f) (fd_body fd) G \<and> A \<inter> G = {} \<and> F = A \<union> G)"

definition event_at :: "mem \<Rightarrow> cevent \<Rightarrow> event_decl \<Rightarrow> addr set \<Rightarrow> bool" where
  "event_at m e ed F \<longleftrightarrow> ce_name e = ed_name ed \<and> ce_line e = ed_line ed \<and> ce_n_params e = length (ed_params ed) \<and>
     (\<exists>A G. array_at Params m (ce_params e) (ed_params ed) A \<and> stmt_at m (ce_body e) (ed_body ed) G \<and> A \<inter> G = {} \<and> F = A \<union> G)"

text \<open>An array of structures with what its elements own.\<close>

definition table_at ::
    "('a list \<Rightarrow> block) \<Rightarrow> ('a \<Rightarrow> 'b \<Rightarrow> addr set \<Rightarrow> bool) \<Rightarrow> mem \<Rightarrow> addr \<Rightarrow> nat \<Rightarrow> 'b list \<Rightarrow> addr set \<Rightarrow> bool" where
  "table_at mk R m q n ys F \<longleftrightarrow>
     (\<exists>xs A G. length xs = n \<and> array_at mk m q xs A \<and> all_at R xs ys G \<and> A \<inter> G = {} \<and> F = A \<union> G)"

definition state_at :: "mem \<Rightarrow> cstate \<Rightarrow> state_decl \<Rightarrow> addr set \<Rightarrow> bool" where
  "state_at m s sd F \<longleftrightarrow> cs_name s = sd_name sd \<and> cs_line s = sd_line sd \<and> cs_is_default s = sd_is_default sd \<and>
     table_at Events (event_at m) m (cs_events s) (cs_n_events s) (sd_events sd) F"

definition tables_at :: "mem \<Rightarrow> cprogram \<Rightarrow> program \<Rightarrow> addr set \<Rightarrow> bool" where
  "tables_at m cp p F \<longleftrightarrow> cp_flags cp = p_flags p \<and>
     (\<exists>G1 G2 G3 G4 G5. table_at Globals (global_at m) m (cp_globals cp) (cp_n_globals cp) (p_globals p) G1 \<and>
        table_at Funcs (func_at m) m (cp_funcs cp) (cp_n_funcs cp) (p_funcs p) G2 \<and>
        table_at States (state_at m) m (cp_states cp) (cp_n_states cp) (p_states p) G3 \<and>
        table_at Ptrs (string_at m) m (cp_strings cp) (cp_n_strings cp) (p_strings p) G4 \<and>
        string_at m (cp_path cp) (p_path p) G5 \<and> apart [G1, G2, G3, G4, G5] \<and> F = G1 \<union> (G2 \<union> (G3 \<union> (G4 \<union> G5))))"

definition program_at :: "mem \<Rightarrow> addr \<Rightarrow> program \<Rightarrow> addr set \<Rightarrow> bool" where
  "program_at m p pg F \<longleftrightarrow> p \<noteq> 0 \<and> p \<notin> F \<and> (\<exists>cp. blocks m p = Some (ProgramB cp) \<and> tables_at m cp pg F)"

text \<open>All expressions and statements of the program are smaller than \<open>n\<close>.\<close>

definition trees_below :: "nat \<Rightarrow> program \<Rightarrow> bool" where
  "trees_below n p \<longleftrightarrow> (\<forall>g \<in> set (p_globals p). size (gv_init g) < n) \<and>
     (\<forall>f \<in> set (p_funcs p). stmt_size (fd_body f) < n) \<and>
     (\<forall>s \<in> set (p_states p). \<forall>e \<in> set (sd_events s). stmt_size (ed_body e) < n)"

lemma all_at_frees:
  "all_at R xs ys F \<Longrightarrow> (\<And>x y G. y \<in> set ys \<Longrightarrow> R x y G \<Longrightarrow> frees (f x) G m) \<Longrightarrow> frees_all f xs F m"
  by (induction rule: all_at.induct) (auto intro!: frees_all_Nil frees_all_Cons)

lemma frees_params: "array_at Params m q ps A \<Longrightarrow> frees (free_ptr q) A m"
  by (auto simp: array_at_def intro: frees_null frees_ptr split: if_splits)

lemma frees_string: "string_at m p s F \<Longrightarrow> frees (free_ptr p) F m"
  by (auto simp: string_at_def intro: frees_ptr)

context struct_array
begin

lemma frees_table:
  assumes "table_at mk R m q n ys F" "\<And>x y G. y \<in> set ys \<Longrightarrow> R x y G \<Longrightarrow> frees (f x) G m"
  shows "frees (free_array as f q n) F m"
  using assms frees_array all_at_frees unfolding table_at_def by blast

lemma frees_table_set:
  assumes "table_at mk R m q n ys F" "\<And>x y G. y \<in> set ys \<Longrightarrow> R x y G \<Longrightarrow> frees (f x) G m"
  shows "frees (if_set (q \<noteq> 0) (free_array as f q n)) F m"
proof (cases "q = 0")
  case True
  then have "F = {}" using assms(1) by (auto simp: table_at_def array_at_def elim: all_at.cases split: if_splits)
  with True show ?thesis by (simp add: if_set_def frees_nothing)
qed (simp add: if_set_def frees_table [OF assms])

end

lemma frees_func: "func_at m f fd F \<Longrightarrow> stmt_size (fd_body fd) < n \<Longrightarrow>
    frees (andthen (free_ptr (cf_params f)) (free_stmt n (cf_body f))) F m"
  by (auto simp: func_at_def intro!: frees_andthen frees_params frees_stmt(1))

lemma frees_event: "event_at m e ed F \<Longrightarrow> stmt_size (ed_body ed) < n \<Longrightarrow>
    frees (andthen (free_ptr (ce_params e)) (free_stmt n (ce_body e))) F m"
  by (auto simp: event_at_def intro!: frees_andthen frees_params frees_stmt(1))

lemma frees_state:
  assumes "state_at m s sd F" "\<forall>e \<in> set (sd_events sd). stmt_size (ed_body e) < n"
  shows "frees (free_array as_events (\<lambda>e. andthen (free_ptr (ce_params e)) (free_stmt n (ce_body e))) (cs_events s) (cs_n_events s)) F m"
  using assms by (intro evs.frees_table [of "event_at m"]) (auto simp: state_at_def intro: frees_event)

lemma frees_tables:
  assumes "tables_at m cp pg F" "trees_below n pg"
  shows "frees (free_tables n cp) F m"
proof -
  from assms(1) obtain G1 G2 G3 G4 G5 where
    t: "table_at Globals (global_at m) m (cp_globals cp) (cp_n_globals cp) (p_globals pg) G1"
      "table_at Funcs (func_at m) m (cp_funcs cp) (cp_n_funcs cp) (p_funcs pg) G2"
      "table_at States (state_at m) m (cp_states cp) (cp_n_states cp) (p_states pg) G3"
      "table_at Ptrs (string_at m) m (cp_strings cp) (cp_n_strings cp) (p_strings pg) G4"
      "string_at m (cp_path cp) (p_path pg) G5"
    and d: "apart [G1, G2, G3, G4, G5]" "F = G1 \<union> (G2 \<union> (G3 \<union> (G4 \<union> G5)))"
    unfolding tables_at_def by blast
  have b: "\<And>g. g \<in> set (p_globals pg) \<Longrightarrow> size (gv_init g) < n" "\<And>f. f \<in> set (p_funcs pg) \<Longrightarrow> stmt_size (fd_body f) < n"
    "\<And>s. s \<in> set (p_states pg) \<Longrightarrow> \<forall>e \<in> set (sd_events s). stmt_size (ed_body e) < n"
    using assms(2) by (auto simp: trees_below_def)
  have i: "G1 \<inter> (G2 \<union> (G3 \<union> (G4 \<union> G5))) = {}" "G2 \<inter> (G3 \<union> (G4 \<union> G5)) = {}" "G3 \<inter> (G4 \<union> G5) = {}" "G4 \<inter> G5 = {}"
    using d(1) by auto
  show ?thesis unfolding free_tables_def d(2)
    by (intro frees_andthen i gvs.frees_table_set [OF t(1)] fns.frees_table_set [OF t(2)] sts.frees_table_set [OF t(3)]
        ptrs.frees_table_set [OF t(4)] frees_string [OF t(5)])
      (auto simp: global_at_def intro: frees_expr(1) frees_func frees_state [OF _ b(3)] frees_string b(1,2))
qed

lemma program_free_at:
  assumes "program_at m p pg F" "trees_below n pg" "agree (insert p F) m m'"
  shows "program_free n p m' = Inr (set_block p (ProgramB zero_program) (without F m'))"
proof -
  obtain cp where cp: "p \<noteq> 0" "p \<notin> F" "blocks m p = Some (ProgramB cp)" "tables_at m cp pg F"
    using assms(1) by (auto simp: program_at_def)
  then have "free_tables n cp m' = Inr (without F m')"
    using freesD [OF frees_tables [OF cp(4) assms(2)]] assms(3) by simp
  with cp assms(3) show ?thesis
    by (simp add: program_free_def program_at_ptr_def read_block_def write_block_def set_block_def)
qed

text \<open>C27 \<open>program_free\<close> and the \<open>free\<close> of the structure give back every block of a loaded program, the string
  pool, the tables, the parameter lists and all trees, each exactly once, and no other block: no leak, no double
  free and no use of freed memory, whatever the shape of the program.\<close>

theorem program_free_exact:
  assumes "program_at m p pg F" "trees_below n pg"
  shows "\<exists>m'. rbind (program_free n p m) (free_ptr p) = Inr m' \<and>
    (\<forall>a. blocks m' a = (if a \<in> insert p F then None else blocks m a))"
proof -
  have "p \<noteq> 0" using assms(1) by (simp add: program_at_def)
  then have "rbind (program_free n p m) (free_ptr p) = Inr (without (insert p F) m)"
    using program_free_at [OF assms agree_refl] by (simp add: free_ptr_def)
  then show ?thesis by simp
qed

end
