(* ===== verification/RegionMem.thy ===== *)
theory RegionMem
  imports ProgramMem
begin

text \<open>
  Releasing frames, scripts and the region on the heap: \<open>frame_free\<close> of \<open>vm.c\<close>, \<open>script_free\<close> and \<open>region_free\<close> of
  \<open>region.c\<close>, \<open>http_fixture_free\<close>, \<open>volume_close\<close> and \<open>dbg_free\<close>. A frame gives back all its values; but
  \<open>script_free\<close> reads the program it has just freed, so the clean-up at the end of every run with a
  global variable uses freed memory.
\<close>

subsection \<open>Values in arrays\<close>

text \<open>\<open>for (i = 0; i < k; i++) sv_free(&p[i]);\<close>.\<close>

definition free_cells :: "nat \<Rightarrow> addr \<Rightarrow> nat \<Rightarrow> mem \<Rightarrow> mem res" where
  "free_cells n p k = each (\<lambda>i m. rbind (get_val p i m) (\<lambda>c. rbind (sv_free n c m) (\<lambda>(c, m). put_val p i c m))) [0 ..< k]"

definition free_value_of :: "nat \<Rightarrow> cval \<Rightarrow> mem \<Rightarrow> mem res" where
  "free_value_of n c m = rbind (sv_free n c m) (\<lambda>(c, m). Inr m)"

subsection \<open>Frames\<close>

record cframe =
  fr_locs :: addr
  fr_n_locs :: nat
  fr_ret_val :: cval

definition local_at :: "addr \<Rightarrow> nat \<Rightarrow> mem \<Rightarrow> cval res" where
  "local_at p i m = rbind (read_block p m) (\<lambda>b. case b of
     Locals ls \<Rightarrow> if i < length ls then Inr (fst (snd (ls ! i))) else Inl BadMemory | _ \<Rightarrow> Inl BadMemory)"

definition set_local :: "addr \<Rightarrow> nat \<Rightarrow> cval \<Rightarrow> mem \<Rightarrow> mem res" where
  "set_local p i c m = rbind (read_block p m) (\<lambda>b. case b of
     Locals ls \<Rightarrow> if i < length ls then write_block p (Locals (ls[i := (fst (ls ! i), c, snd (snd (ls ! i)))])) m
       else Inl BadMemory
   | _ \<Rightarrow> Inl BadMemory)"

definition frame_free :: "nat \<Rightarrow> cframe \<Rightarrow> mem \<Rightarrow> mem res" where
  "frame_free n f =
     andthen (each (\<lambda>i m. rbind (local_at (fr_locs f) i m) (\<lambda>c. rbind (sv_free n c m) (\<lambda>(c, m). set_local (fr_locs f) i c m)))
        [0 ..< fr_n_locs f])
     (andthen (free_ptr (fr_locs f)) (free_value_of n (fr_ret_val f)))"

subsection \<open>Linked lists\<close>

text \<open>\<open>while (p) { next = p->next; ...; free(p); p = next; }\<close>: \<open>body\<close> gives the next pointer of a node and what
  is done with the node before it is freed. The first number bounds the length of the list.\<close>

fun free_chain :: "nat \<Rightarrow> (block \<Rightarrow> (addr \<times> (mem \<Rightarrow> mem res)) option) \<Rightarrow> addr \<Rightarrow> mem \<Rightarrow> mem res" where
  "free_chain 0 body p m = Inl OutOfFuel"
| "free_chain (Suc k) body p m =
    (if p = 0 then Inr m
     else rbind (read_block p m) (\<lambda>b. case body b of
         None \<Rightarrow> Inl BadMemory
       | Some (nx, f) \<Rightarrow> rbind (andthen f (free_ptr p) m) (free_chain k body nx)))"

definition event_node :: "nat \<Rightarrow> block \<Rightarrow> (addr \<times> (mem \<Rightarrow> mem res)) option" where
  "event_node n b = (case b of
     EventB nm args k nx \<Rightarrow> Some (nx, andthen (free_cells n args k) (andthen (free_ptr args) (free_ptr nm)))
   | _ \<Rightarrow> None)"

definition listen_node :: "block \<Rightarrow> (addr \<times> (mem \<Rightarrow> mem res)) option" where
  "listen_node b = (case b of ListenB a i t nx \<Rightarrow> Some (nx, each free_ptr [a, i, t]) | _ \<Rightarrow> None)"

definition fixture_node :: "block \<Rightarrow> (addr \<times> (mem \<Rightarrow> mem res)) option" where
  "fixture_node b = (case b of FixtureB u t nx \<Rightarrow> Some (nx, each free_ptr [u, t]) | _ \<Rightarrow> None)"

text \<open>A break- or catchpoint.\<close>

definition point_node :: "block \<Rightarrow> (addr \<times> (mem \<Rightarrow> mem res)) option" where
  "point_node b = (case b of PointB t nx \<Rightarrow> Some (nx, free_ptr t) | _ \<Rightarrow> None)"

definition http_fixture_free :: "nat \<Rightarrow> addr \<Rightarrow> mem \<Rightarrow> mem res" where
  "http_fixture_free k p m = (if p = 0 then Inr m
     else rbind (read_block p m) (\<lambda>b. case b of
         FixturesB h \<Rightarrow> andthen (free_chain k fixture_node h) (free_ptr p) m | _ \<Rightarrow> Inl BadMemory))"

definition volume_close :: "addr \<Rightarrow> mem \<Rightarrow> mem res" where
  "volume_close p m = (if p = 0 then Inr m
     else rbind (read_block p m) (\<lambda>b. case b of
         VolumeB path \<Rightarrow> andthen (free_ptr path) (free_ptr p) m | _ \<Rightarrow> Inl BadMemory))"

definition dbg_free :: "nat \<Rightarrow> addr \<Rightarrow> addr \<Rightarrow> mem \<Rightarrow> mem res" where
  "dbg_free k b c = andthen (free_chain k point_node b) (free_chain k point_node c)"

subsection \<open>Scripts and the region\<close>

text \<open>\<open>for (i = 0; s->globals && i < (s->prog ? s->prog->n_globals : 0); i++) sv_free(&s->globals[i]);\<close>.\<close>

fun free_globals :: "nat \<Rightarrow> nat \<Rightarrow> cscript \<Rightarrow> nat \<Rightarrow> mem \<Rightarrow> mem res" where
  "free_globals 0 n s i m = Inl OutOfFuel"
| "free_globals (Suc k) n s i m =
    (if sc_globals s = 0 then Inr m
     else rbind (if sc_prog s = 0 then Inr 0 else rbind (program_at_ptr (sc_prog s) m) (\<lambda>cp. Inr (cp_n_globals cp))) (\<lambda>bound.
       if i < bound
       then rbind (get_val (sc_globals s) i m) (\<lambda>c. rbind (sv_free n c m) (\<lambda>(c, m).
         rbind (put_val (sc_globals s) i c m) (free_globals k n s (i + 1))))
       else Inr m))"

definition free_detected :: "nat \<Rightarrow> cdetected \<Rightarrow> mem \<Rightarrow> mem res" where
  "free_detected n d = andthen (each free_ptr [cd_key d, cd_name d, cd_owner d]) (free_value_of n (cd_pos d))"

definition script_free :: "nat \<Rightarrow> nat \<Rightarrow> addr \<Rightarrow> mem \<Rightarrow> mem res" where
  "script_free k n p m = (if p = 0 then Inr m
     else rbind (read_block p m) (\<lambda>b. case b of
         ScriptB s \<Rightarrow>
           andthen (if_set (sc_prog_owned s \<and> sc_prog s \<noteq> 0) (andthen (program_free n (sc_prog s)) (free_ptr (sc_prog s))))
           (andthen (free_globals k n s 0)
           (andthen (free_ptr (sc_globals s))
           (andthen (free_chain k (event_node n) (sc_evq_head s))
           (andthen (free_chain k listen_node (sc_listens s))
           (andthen (each free_ptr [sc_name s, sc_desc s, sc_uuid s, sc_perms_key s])
           (andthen (each (free_detected n) (sc_detected s))
           (free_ptr p))))))) m
       | _ \<Rightarrow> Inl BadMemory))"

record cregion =
  rg_scripts :: addr
  rg_n_scripts :: nat
  rg_avatars :: addr
  rg_n_avatars :: nat
  rg_volume :: addr
  rg_http_fix :: addr

definition as_avatars :: "block \<Rightarrow> (addr \<times> addr) list option" where
  "as_avatars b = (case b of Avatars xs \<Rightarrow> Some xs | _ \<Rightarrow> None)"

interpretation avs: struct_array as_avatars Avatars
  by unfold_locales (simp add: as_avatars_def)

definition region_free :: "nat \<Rightarrow> nat \<Rightarrow> cregion \<Rightarrow> mem \<Rightarrow> mem res" where
  "region_free k n r =
     andthen (free_array as_ptrs (script_free k n) (rg_scripts r) (rg_n_scripts r))
     (andthen (free_array as_avatars (\<lambda>(u, nm). andthen (free_ptr u) (free_ptr nm)) (rg_avatars r) (rg_n_avatars r))
     (andthen (volume_close (rg_volume r)) (http_fixture_free k (rg_http_fix r))))"

subsection \<open>What is released\<close>

text \<open>A list in memory: of each node, \<open>f\<close> frees \<open>G\<close> and the node itself is one more block.\<close>

inductive chain_at :: "(block \<Rightarrow> (addr \<times> (mem \<Rightarrow> mem res)) option) \<Rightarrow> mem \<Rightarrow> addr \<Rightarrow> nat \<Rightarrow> addr set \<Rightarrow> bool"
  for body and m where
  chain_end: "chain_at body m 0 0 {}"
| chain_node: "blocks m p = Some b \<Longrightarrow> p \<noteq> 0 \<Longrightarrow> body b = Some (nx, f) \<Longrightarrow> frees f G m \<Longrightarrow> p \<notin> G \<Longrightarrow>
     chain_at body m nx k F \<Longrightarrow> insert p G \<inter> F = {} \<Longrightarrow> chain_at body m p (Suc k) (insert p G \<union> F)"

lemma chain_frees: "chain_at body m p k F \<Longrightarrow> k < n \<Longrightarrow> frees (free_chain n body p) F m"
proof (induction arbitrary: n rule: chain_at.induct)
  case chain_end
  then show ?case by (cases n) (simp_all add: frees_def)
next
  case (chain_node p b nx f G k F)
  obtain n' where n: "n = Suc n'" "k < n'" using chain_node.prems by (cases n) auto
  show ?case unfolding frees_def
  proof (intro allI impI)
    fix m'
    assume ag: "agree (insert p G \<union> F) m m'"
    have "f m' = Inr (without G m')" using freesD [OF chain_node(4)] ag by simp
    then have 1: "andthen f (free_ptr p) m' = Inr (without (insert p G) m')"
      using ag chain_node(1,2,5) by (simp add: andthen_def free_ptr_def)
    have "free_chain n' body nx (without (insert p G) m') = Inr (without F (without (insert p G) m'))"
      using ag chain_node(7) by (intro freesD [OF chain_node.IH [OF n(2)]] agree_without) auto
    with 1 ag chain_node(1-3) show "free_chain n body p m' = Inr (without (insert p G \<union> F) m')"
      by (simp add: n(1) read_block_def)
  qed
qed


lemma get_local: "blocks m p = Some (Locals ls) \<Longrightarrow> i < length ls \<Longrightarrow> local_at p i m = Inr (fst (snd (ls ! i)))"
  by (simp add: local_at_def read_block_def)

lemma put_local:
  "blocks m p = Some (Locals ls) \<Longrightarrow> i < length ls \<Longrightarrow>
     set_local p i c m = Inr (set_block p (Locals (ls[i := (fst (ls ! i), c, snd (snd (ls ! i)))])) m)"
  by (simp add: set_local_def read_block_def write_block_def set_block_def)

lemma free_locals:
  assumes "values_at m (map (fst \<circ> snd) ls) vs F" "\<forall>v \<in> set vs. size v < n"
    and "agree F m m'" "p \<notin> F" "blocks m' p = Some (Locals (pre @ ls))"
  shows "\<exists>pre'. each (\<lambda>i m. rbind (local_at p i m) (\<lambda>c. rbind (sv_free n c m) (\<lambda>(c, m). set_local p i c m)))
      [length pre ..< length pre + length ls] m' = Inr (set_block p (Locals pre') (without F m'))"
  using assms
proof (induction ls arbitrary: vs F m' pre)
  case Nil
  then have "F = {}" by (auto elim: values_at.cases)
  with Nil.prems(5) have "set_block p (Locals pre) (without F m') = m'" by (simp add: set_block_def fun_upd_idem)
  then show ?case by (intro exI [of _ pre]) simp
next
  case (Cons l ls)
  from Cons.prems(1) obtain v vs' G H where v: "vs = v # vs'" "F = G \<union> H" "value_at m (fst (snd l)) v G"
      "values_at m (map (fst \<circ> snd) ls) vs' H" "G \<inter> H = {}"
    by (auto simp: comp_def elim: values_at.cases)
  let ?l = "(fst l, CVoid, snd (snd l))"
  let ?m = "set_block p (Locals ((pre @ [?l]) @ ls)) (without G m')"
  have 1: "sv_free n (fst (snd l)) m' = Inr (CVoid, without G m')"
    using free_value(1) [OF v(3)] v(1,2) Cons.prems(2,3) by simp
  have b: "blocks (without G m') p = Some (Locals (pre @ l # ls))" using Cons.prems(4,5) v(2) by simp
  have "agree H m ?m" using Cons.prems(3,4) v(2,5) by (simp add: agree_set_block agree_without Int_commute)
  then obtain pre' where 2: "each (\<lambda>i m. rbind (local_at p i m) (\<lambda>c. rbind (sv_free n c m) (\<lambda>(c, m). set_local p i c m)))
      [length (pre @ [?l]) ..< length (pre @ [?l]) + length ls] ?m = Inr (set_block p (Locals pre') (without H ?m))"
    using Cons.IH [OF v(4), of ?m "pre @ [?l]"] Cons.prems(2,4) v(1,2) by auto
  have "without H ?m = set_block p (Locals ((pre @ [?l]) @ ls)) (without F m')"
    using Cons.prems(4) v(2) by (simp add: without_set_block)
  with 2 show ?case
    unfolding upt_length_Cons
    using get_local [OF Cons.prems(5), of "length pre"] 1 put_local [OF b, of "length pre" CVoid]
    by (intro exI [of _ pre']) (simp del: upt_Suc)
qed

text \<open>C28 Leaving a function or a handler gives back all the memory of its frame: the text and list values of every
  local variable, the array of the variables and the value returned, each block once and nothing else.\<close>

theorem frame_free_exact:
  assumes "fr_locs f \<noteq> 0" "blocks m (fr_locs f) = Some (Locals ls)" "fr_n_locs f = length ls"
    and "values_at m (map (fst \<circ> snd) ls) vs F" "value_at m (fr_ret_val f) v G"
    and "fr_locs f \<notin> F \<union> G" "F \<inter> G = {}" "\<forall>w \<in> set (v # vs). size w < n"
  shows "\<exists>m'. frame_free n f m = Inr m' \<and> (\<forall>a. blocks m' a = (if a \<in> insert (fr_locs f) (F \<union> G) then None else blocks m a))"
proof -
  obtain pre' where l: "each (\<lambda>i m. rbind (local_at (fr_locs f) i m) (\<lambda>c. rbind (sv_free n c m)
      (\<lambda>(c, m). set_local (fr_locs f) i c m))) [0 ..< length ls] m = Inr (set_block (fr_locs f) (Locals pre') (without F m))"
    using free_locals [OF assms(4), of n m "fr_locs f" "[]"] assms(2,6,8) by auto
  let ?m = "without (insert (fr_locs f) F) m"
  have "sv_free n (fr_ret_val f) ?m = Inr (CVoid, without G ?m)"
    using assms(6-8) by (intro free_value(1) [OF assms(5)]) (auto intro!: agree_without)
  then have "frame_free n f m = Inr (without G ?m)"
    using l assms(1,3) by (simp add: frame_free_def andthen_def free_ptr_def free_value_of_def insert_commute)
  then show ?thesis by (auto simp: without_def)
qed

lemma frees_optional: "p = 0 \<and> F = {} \<or> p \<noteq> 0 \<and> blocks m p \<noteq> None \<and> F = {p} \<Longrightarrow> frees (free_ptr p) F m"
  by (auto intro: frees_null frees_ptr)

text \<open>C29 Releasing a script whose program has global variables uses freed memory: the loop over the globals takes its bound
  from the program that was freed just before. So the clean-up at the end of a run always does when the
  first script loaded has a global variable.\<close>

theorem script_free_uses_freed:
  assumes "blocks m s = Some (ScriptB sc)" "s \<noteq> 0" "sc_prog_owned sc" "sc_globals sc \<noteq> 0"
    and "program_at m (sc_prog sc) pg F" "trees_below n pg" "0 < k"
  shows "script_free k n s m = Inl BadMemory \<and>
    (\<forall>r ps. rg_scripts r \<noteq> 0 \<longrightarrow> blocks m (rg_scripts r) = Some (Ptrs (s # ps)) \<longrightarrow> 0 < rg_n_scripts r \<longrightarrow>
       region_free k n r m = Inl BadMemory)"
proof -
  have p: "sc_prog sc \<noteq> 0" using assms(5) by (simp add: program_at_def)
  obtain k' where k: "k = Suc k'" using assms(7) by (cases k) auto
  let ?m = "without (insert (sc_prog sc) F) m"
  have "program_free n (sc_prog sc) m = Inr (set_block (sc_prog sc) (ProgramB zero_program) (without F m))"
    using program_free_at [OF assms(5,6) agree_refl] .
  then have "andthen (program_free n (sc_prog sc)) (free_ptr (sc_prog sc)) m = Inr ?m"
    using p by (simp add: andthen_def free_ptr_def)
  moreover have "free_globals k n sc 0 ?m = Inl BadMemory"
    using p assms(4) by (simp add: k program_at_ptr_def read_block_def)
  ultimately have s: "script_free k n s m = Inl BadMemory"
    using assms(1-3) p by (simp add: script_free_def read_block_def if_set_def andthen_def)
  have "region_free k n r m = Inl BadMemory"
    if "rg_scripts r \<noteq> 0" "blocks m (rg_scripts r) = Some (Ptrs (s # ps))" "0 < rg_n_scripts r" for r ps
  proof -
    have "[0 ..< rg_n_scripts r] = 0 # [1 ..< rg_n_scripts r]" using that(3) by (simp add: upt_rec)
    with ptrs.item [OF that(2), of 0] s show ?thesis
      by (simp add: region_free_def free_array_def each_item_def andthen_def)
  qed
  with s show ?thesis by blast
qed

end
