(* ===== verification/Typing.thy ===== *)
theory Typing
  imports VmProps
begin

text \<open>
  A type system for the expressions without calls, and its soundness for the interpreter: a typed
  expression gives a value of its type and leaves every variable with the type it had. The one operator whose type
  depends on the values is integer division: by zero it gives the float 0.0, which an assignment then
  stores in an integer variable. A division is typed only for a divisor that is a literal other than 0.
\<close>

subsection \<open>Types of operators\<close>

definition numeric :: "svtype \<Rightarrow> bool" where
  "numeric t \<longleftrightarrow> t = SV_INTEGER \<or> t = SV_FLOAT"

definition textual :: "svtype \<Rightarrow> bool" where
  "textual t \<longleftrightarrow> t = SV_STRING \<or> t = SV_KEY"

definition num_join :: "svtype \<Rightarrow> svtype \<Rightarrow> svtype option" where
  "num_join t u = (if numeric t \<and> numeric u then Some (if t = SV_FLOAT \<or> u = SV_FLOAT then SV_FLOAT else SV_INTEGER)
     else None)"

text \<open>The type of a binary operation, \<open>None\<close> where the operator is not meant for the operands.\<close>

definition plus_type :: "svtype \<Rightarrow> svtype \<Rightarrow> svtype option" where
  "plus_type t u = (if textual t \<and> textual u then Some SV_STRING
     else if t = SV_LIST \<or> u = SV_LIST then Some SV_LIST
     else if t = u \<and> (t = SV_VECTOR \<or> t = SV_ROTATION) then Some t
     else num_join t u)"

definition minus_type :: "svtype \<Rightarrow> svtype \<Rightarrow> svtype option" where
  "minus_type t u = (if t = u \<and> (t = SV_VECTOR \<or> t = SV_ROTATION) then Some t else num_join t u)"

definition star_type :: "svtype \<Rightarrow> svtype \<Rightarrow> svtype option" where
  "star_type t u = (if t = SV_VECTOR \<and> u = SV_VECTOR then Some SV_FLOAT
     else if t = SV_VECTOR \<and> (numeric u \<or> u = SV_ROTATION) \<or> numeric t \<and> u = SV_VECTOR then Some SV_VECTOR
     else if t = SV_ROTATION \<and> u = SV_ROTATION then Some SV_ROTATION
     else num_join t u)"

text \<open>Integer by integer is left out: its type depends on the divisor.\<close>

definition slash_type :: "svtype \<Rightarrow> svtype \<Rightarrow> svtype option" where
  "slash_type t u = (if t = SV_VECTOR \<and> numeric u then Some SV_VECTOR
     else if num_join t u = Some SV_FLOAT then Some SV_FLOAT else None)"

definition binary_type :: "opcode \<Rightarrow> svtype \<Rightarrow> svtype \<Rightarrow> svtype option" where
  "binary_type op t u = (case op of
     OP_PLUS \<Rightarrow> plus_type t u | OP_MINUS \<Rightarrow> minus_type t u | OP_STAR \<Rightarrow> star_type t u | OP_SLASH \<Rightarrow> slash_type t u
   | OP_PERCENT \<Rightarrow> (if t = SV_VECTOR \<and> u = SV_VECTOR then Some SV_VECTOR
       else if t = SV_INTEGER \<and> u = SV_INTEGER then Some SV_INTEGER else None)
   | OP_AND \<Rightarrow> Some SV_INTEGER | OP_OR \<Rightarrow> Some SV_INTEGER | OP_XOR \<Rightarrow> Some SV_INTEGER
   | OP_SHL \<Rightarrow> Some SV_INTEGER | OP_SHR \<Rightarrow> Some SV_INTEGER | OP_LAND \<Rightarrow> Some SV_INTEGER | OP_LOR \<Rightarrow> Some SV_INTEGER
   | OP_EQ \<Rightarrow> Some SV_INTEGER | OP_NEQ \<Rightarrow> Some SV_INTEGER | OP_LT \<Rightarrow> Some SV_INTEGER | OP_GT \<Rightarrow> Some SV_INTEGER
   | OP_LE \<Rightarrow> Some SV_INTEGER | OP_GE \<Rightarrow> Some SV_INTEGER
   | _ \<Rightarrow> None)"

lemma type_eqs [simp]:
  "sv_type v = SV_INTEGER \<longleftrightarrow> (\<exists>i. v = SInt i)" "sv_type v = SV_FLOAT \<longleftrightarrow> (\<exists>f. v = SFloat f)"
  "sv_type v = SV_STRING \<longleftrightarrow> (\<exists>s. v = SString s)" "sv_type v = SV_KEY \<longleftrightarrow> (\<exists>s. v = SKey s)"
  "sv_type v = SV_VECTOR \<longleftrightarrow> (\<exists>x y z. v = SVector x y z)" "sv_type v = SV_ROTATION \<longleftrightarrow> (\<exists>x y z s. v = SRot x y z s)"
  "sv_type v = SV_LIST \<longleftrightarrow> (\<exists>l. v = SList l)" "sv_type v = SV_VOID \<longleftrightarrow> v = SVoid"
  by (cases v; simp)+

lemma type_of_bool [simp]: "sv_type (sv_of_bool b) = SV_INTEGER"
  by (simp add: sv_of_bool_def)

lemma num_join_type:
  "num_join (sv_type v) (sv_type w) = Some t \<Longrightarrow> is_num v \<and> is_num w \<and> sv_type (arith ff fi v w) = t"
  by (auto simp: num_join_def numeric_def arith_def is_num_def split: if_splits)

lemma plus_type_sound: "plus_type (sv_type v) (sv_type w) = Some t \<Longrightarrow> sv_type (op_plus v w) = t"
  by (cases v; cases w) (auto simp: plus_type_def op_plus_def textual_def is_list_def num_join_def numeric_def arith_def is_num_def)

lemma minus_type_sound: "minus_type (sv_type v) (sv_type w) = Some t \<Longrightarrow> sv_type (op_minus v w) = t"
  by (cases v; cases w) (auto simp: minus_type_def op_minus_def num_join_def numeric_def arith_def is_num_def)

lemma star_type_sound: "star_type (sv_type v) (sv_type w) = Some t \<Longrightarrow> sv_type (op_star v w) = t"
  by (cases v; cases w)
    (auto simp: star_type_def op_star_def num_join_def numeric_def arith_def is_num_def vec_scale_def quat_mul_def)

lemma slash_type_sound:
  "slash_type (sv_type v) (sv_type w) = Some t \<Longrightarrow> op_slash v w = Inr x \<Longrightarrow> sv_type x = t"
  by (cases v; cases w)
    (auto simp: slash_type_def op_slash_def num_join_def numeric_def is_num_def split: if_splits)

lemma percent_type_sound:
  "binary_type OP_PERCENT (sv_type v) (sv_type w) = Some t \<Longrightarrow> op_percent v w = Inr x \<Longrightarrow> sv_type x = t"
  by (cases v; cases w) (auto simp: binary_type_def op_percent_def split: if_splits)

lemma compare_type [simp]: "\<exists>i. op_compare fd fl fs v w = SInt i"
  by (auto simp: op_compare_def sv_of_bool_def split: option.split)

lemma binary_type_sound:
  assumes "binary_type op (sv_type v) (sv_type w) = Some t" "eval_binary op v w = Inr x"
  shows "sv_type x = t"
proof (cases op)
  case OP_PERCENT
  with assms show ?thesis by (auto simp: eval_binary_def intro: percent_type_sound)
qed (use assms in \<open>auto simp: eval_binary_def binary_type_def int_op_def sv_of_bool_def split: prod.splits
       intro: plus_type_sound minus_type_sound star_type_sound slash_type_sound\<close>)

text \<open>Dividing an integer by zero gives a float, so that \<open>x = x / 0\<close> makes an integer variable a float.\<close>

lemma integer_by_zero: "\<exists>f. eval_binary OP_SLASH (SInt i) (SInt 0) = Inr (SFloat f)"
  by (simp add: eval_binary_def op_slash_def is_num_def)


subsection \<open>Typed expressions\<close>

text \<open>The types of the names: whether a name is a variable, and the type it has.\<close>

type_synonym tenv = "cint \<Rightarrow> bool \<times> svtype"

text \<open>What a variable of type \<open>t\<close> takes: its type, and what the implicit conversions make of it.\<close>

definition takes :: "svtype \<Rightarrow> svtype \<Rightarrow> bool" where
  "takes t u \<longleftrightarrow> t \<noteq> SV_VOID \<and> (u = t \<or> (t, u) \<in> {(SV_FLOAT, SV_INTEGER), (SV_KEY, SV_STRING), (SV_STRING, SV_KEY)})"

text \<open>What a call of a function of the program gives: its result is not converted.\<close>

definition fn_type :: "func_decl \<Rightarrow> svtype" where
  "fn_type fd = (if fd_has_ret fd = 0 then SV_VOID else type_byte (fd_ret fd))"

definition proper :: "svtype \<Rightarrow> bool" where
  "proper t \<longleftrightarrow> t \<in> {SV_INTEGER, SV_FLOAT, SV_STRING, SV_KEY, SV_VECTOR, SV_ROTATION, SV_LIST}"

lemma takes_coerce: "takes t (sv_type v) \<Longrightarrow> sv_type (coerce v t) = t"
  by (cases v) (auto simp: takes_def simp del: type_eqs)

lemma bump_type: "numeric (sv_type v) \<Longrightarrow> sv_type (bump op v) = sv_type v"
  by (auto simp: numeric_def bump_def)

lemma cast_type: "proper t \<Longrightarrow> sv_type (do_cast v t) = t"
  by (rule do_cast_type) (auto simp: proper_def)

lemma axis_type: "sv_type (set_vec_axis m f x y z) = SV_VECTOR" "sv_type (assign_axis m f v) = sv_type v"
  by (auto simp: set_vec_axis_def assign_axis_def split: svalue.split)

inductive typed ::
    "(string \<Rightarrow> svtype option) \<Rightarrow> program \<Rightarrow> (cint \<Rightarrow> func_decl option) \<Rightarrow> tenv \<Rightarrow> expr \<Rightarrow> svtype \<Rightarrow> bool"
  for S p F and T :: tenv where
  t_int: "typed S p F T (E_INT_LIT h v) SV_INTEGER"
| t_float: "typed S p F T (E_FLOAT_LIT h v) SV_FLOAT"
| t_text: "type_byte ty = t \<Longrightarrow> textual t \<Longrightarrow> typed S p F T (E_STRING_LIT (ty, l) k) t"
| t_ident: "T nm = (b, t) \<Longrightarrow> typed S p F T (E_IDENT h nm) t"
| t_vector: "typed S p F T x a \<Longrightarrow> typed S p F T y b \<Longrightarrow> typed S p F T z c \<Longrightarrow> numeric a \<Longrightarrow> numeric b \<Longrightarrow> numeric c \<Longrightarrow>
     typed S p F T (E_VECTOR_LIT h x y z) SV_VECTOR"
| t_rot: "typed S p F T x a \<Longrightarrow> typed S p F T y b \<Longrightarrow> typed S p F T z c \<Longrightarrow> typed S p F T w d \<Longrightarrow>
     numeric a \<Longrightarrow> numeric b \<Longrightarrow> numeric c \<Longrightarrow> numeric d \<Longrightarrow> typed S p F T (E_ROT_LIT h x y z w) SV_ROTATION"
| t_list: "\<forall>e \<in> set es. \<exists>t. typed S p F T e t \<Longrightarrow> typed S p F T (E_LIST_LIT h es) SV_LIST"
| t_member: "typed S p F T b t \<Longrightarrow> t = SV_VECTOR \<or> t = SV_ROTATION \<Longrightarrow> typed S p F T (E_MEMBER h b m) SV_FLOAT"
| t_cast: "typed S p F T e u \<Longrightarrow> type_byte ty = t \<Longrightarrow> proper t \<Longrightarrow> typed S p F T (E_CAST h ty e) t"
| t_minus: "typed S p F T e t \<Longrightarrow> opcode_of op = OP_MINUS \<Longrightarrow> numeric t \<or> t = SV_VECTOR \<or> t = SV_ROTATION \<Longrightarrow>
     typed S p F T (E_UNARY h op e) t"
| t_not: "typed S p F T e t \<Longrightarrow> opcode_of op = OP_NOT \<or> opcode_of op = OP_TILDE \<Longrightarrow> typed S p F T (E_UNARY h op e) SV_INTEGER"
| t_prefix: "T nm = (True, t) \<Longrightarrow> numeric t \<Longrightarrow> opcode_of op = OP_INC \<or> opcode_of op = OP_DEC \<Longrightarrow>
     typed S p F T (E_UNARY h op (E_IDENT h' nm)) t"
| t_prefix_member: "T nm = (True, SV_VECTOR) \<Longrightarrow> opcode_of op = OP_INC \<or> opcode_of op = OP_DEC \<Longrightarrow>
     typed S p F T (E_UNARY h op (E_MEMBER h'' (E_IDENT h' nm) m)) SV_FLOAT"
| t_postfix: "T nm = (True, t) \<Longrightarrow> numeric t \<Longrightarrow> typed S p F T (E_POSTFIX h op (E_IDENT h' nm)) t"
| t_binary: "typed S p F T x t \<Longrightarrow> typed S p F T y u \<Longrightarrow> binary_type (opcode_of op) t u = Some v \<Longrightarrow> typed S p F T (E_BINARY h op x y) v"
| t_divide: "typed S p F T x SV_INTEGER \<Longrightarrow> opcode_of op = OP_SLASH \<Longrightarrow> j \<noteq> 0 \<Longrightarrow> typed S p F T (E_BINARY h op x (E_INT_LIT h' j)) SV_INTEGER"
| t_assign: "T nm = (True, t) \<Longrightarrow> typed S p F T y u \<Longrightarrow> takes t u \<Longrightarrow> opcode_of op = OP_ASSIGN \<Longrightarrow>
     typed S p F T (E_ASSIGN h op (E_IDENT h' nm) y) t"
| t_compound: "T nm = (True, t) \<Longrightarrow> typed S p F T y u \<Longrightarrow> binary_type (compound_op (opcode_of op)) t u = Some v \<Longrightarrow> takes t v \<Longrightarrow>
     opcode_of op \<noteq> OP_ASSIGN \<Longrightarrow> typed S p F T (E_ASSIGN h op (E_IDENT h' nm) y) t"
| t_assign_member: "T nm = (True, t) \<Longrightarrow> t = SV_VECTOR \<or> t = SV_ROTATION \<Longrightarrow> typed S p F T y u \<Longrightarrow> numeric u \<Longrightarrow>
     opcode_of op = OP_ASSIGN \<Longrightarrow> typed S p F T (E_ASSIGN h op (E_MEMBER h'' (E_IDENT h' nm) m) y) SV_FLOAT"
| t_library: "find_func p nm = None \<Longrightarrow> S (prog_str p nm) = Some t \<Longrightarrow> \<forall>e \<in> set es. \<exists>u. typed S p F T e u \<Longrightarrow>
     typed S p F T (E_CALL h nm es) t"
| t_function: "F nm = Some fd \<Longrightarrow>
     list_all2 (\<lambda>pm e. \<exists>u. takes (type_byte (pm_type pm)) u \<and> typed S p F T e u) (fd_params fd) es \<Longrightarrow>
     typed S p F T (E_CALL h nm es) (fn_type fd)"

subsection \<open>Typed statements\<close>

text \<open>A statement takes the types of the names to those behind it. \<open>ret\<close> is the type a function returns; in a handler
  it is \<open>None\<close>, and there the state may be changed. There are no jumps.\<close>

inductive typed_stmt ::
    "(string \<Rightarrow> svtype option) \<Rightarrow> program \<Rightarrow> (cint \<Rightarrow> func_decl option) \<Rightarrow> svtype option \<Rightarrow> tenv \<Rightarrow> stmt \<Rightarrow> tenv \<Rightarrow> bool"
  and typed_stmts ::
    "(string \<Rightarrow> svtype option) \<Rightarrow> program \<Rightarrow> (cint \<Rightarrow> func_decl option) \<Rightarrow> svtype option \<Rightarrow> tenv \<Rightarrow> stmt list \<Rightarrow> tenv \<Rightarrow> bool"
  for S p F ret where
  s_null: "typed_stmt S p F ret T S_NULL T"
| s_empty: "typed_stmt S p F ret T (S_EMPTY l) T"
| s_label: "typed_stmt S p F ret T (S_LABEL l nm) T"
| s_expr: "typed S p F T e t \<Longrightarrow> typed_stmt S p F ret T (S_EXPR l e) T"
| s_decl: "e = E_NULL \<or> (\<exists>u. typed S p F T e u \<and> takes (type_byte t) u) \<Longrightarrow> proper (type_byte t) \<Longrightarrow>
     typed_stmt S p F ret T (S_DECL l t nm e) (T(nm := (True, type_byte t)))"
| s_block: "typed_stmts S p F ret T ss T' \<Longrightarrow> typed_stmt S p F ret T (S_BLOCK l ss) T"
| s_if: "typed S p F T c t \<Longrightarrow> typed_stmt S p F ret T a T \<Longrightarrow> typed_stmt S p F ret T b T \<Longrightarrow>
     typed_stmt S p F ret T (S_IF l c a b) T"
| s_while: "typed S p F T c t \<Longrightarrow> typed_stmt S p F ret T b T \<Longrightarrow> typed_stmt S p F ret T (S_WHILE l c b) T"
| s_do: "typed S p F T c t \<Longrightarrow> typed_stmt S p F ret T b T \<Longrightarrow> typed_stmt S p F ret T (S_DO l b c) T"
| s_for: "\<forall>e \<in> set ini. \<exists>t. typed S p F T e t \<Longrightarrow> c = E_NULL \<or> (\<exists>t. typed S p F T c t) \<Longrightarrow>
     \<forall>e \<in> set ps. \<exists>t. typed S p F T e t \<Longrightarrow> typed_stmt S p F ret T b T \<Longrightarrow> typed_stmt S p F ret T (S_FOR l ini c ps b) T"
| s_return: "hv = 0 \<Longrightarrow> ret = None \<or> ret = Some SV_VOID \<Longrightarrow> typed_stmt S p F ret T (S_RETURN l hv e) T"
| s_give: "hv \<noteq> 0 \<Longrightarrow> ret = Some t \<Longrightarrow> typed S p F T e t \<Longrightarrow> typed_stmt S p F ret T (S_RETURN l hv e) T"
| s_state: "ret = None \<Longrightarrow> typed_stmt S p F ret T (S_STATECHG l nm) T"
| s_nil: "typed_stmts S p F ret T [] T"
| s_cons: "typed_stmt S p F ret T s T1 \<Longrightarrow> typed_stmts S p F ret T1 ss T2 \<Longrightarrow> typed_stmts S p F ret T (s # ss) T2"

text \<open>Every path returns a value.\<close>

fun gives :: "stmt \<Rightarrow> bool" where
  "gives (S_RETURN l hv e) \<longleftrightarrow> hv \<noteq> 0"
| "gives (S_BLOCK l ss) \<longleftrightarrow> (\<exists>s \<in> set ss. gives s)"
| "gives (S_IF l c a b) \<longleftrightarrow> gives a \<and> gives b"
| "gives _ \<longleftrightarrow> False"

subsection \<open>Typed programs\<close>

text \<open>The types of the names in a function or handler: its parameters in front of the global variables, whose types
  are \<open>G\<close>, in front of the constants. The last of several bindings of a name counts.\<close>

definition global_env :: "program \<Rightarrow> svtype list \<Rightarrow> tenv" where
  "global_env p G nm = (case find_index (\<lambda>g. gv_name g = nm) (p_globals p) of
     Some k \<Rightarrow> (True, G ! k) | None \<Rightarrow> (False, sv_type (builtins_const (prog_str p nm))))"

definition add_names :: "(cint \<times> svtype) list \<Rightarrow> tenv \<Rightarrow> tenv" where
  "add_names = fold (\<lambda>(nm, t) T. T(nm := (True, t)))"

definition declared :: "program \<Rightarrow> svtype list" where
  "declared p = map (\<lambda>g. type_byte (gv_type g)) (p_globals p)"

definition param_types :: "param list \<Rightarrow> (cint \<times> svtype) list" where
  "param_types ps = map (\<lambda>pm. (pm_name pm, type_byte (pm_type pm))) ps"

definition typed_fun :: "(string \<Rightarrow> svtype option) \<Rightarrow> program \<Rightarrow> func_decl \<Rightarrow> bool" where
  "typed_fun S p fd \<longleftrightarrow>
     (\<exists>T. typed_stmt S p (find_func p) (Some (fn_type fd))
        (add_names (param_types (fd_params fd)) (global_env p (declared p))) (fd_body fd) T) \<and>
     (fn_type fd = SV_VOID \<or> gives (fd_body fd))"

definition typed_handler :: "(string \<Rightarrow> svtype option) \<Rightarrow> program \<Rightarrow> event_decl \<Rightarrow> bool" where
  "typed_handler S p ed \<longleftrightarrow>
     (\<exists>T. typed_stmt S p (find_func p) None (add_names (param_types (ed_params ed)) (global_env p (declared p))) (ed_body ed) T)"

text \<open>The types \<open>ts\<close> the global variables start with: that of the initialiser, for it is not converted to the declared
  type, and the declared type without one. The later variables are still void when an initialiser is evaluated, and it
  calls no function of the program.\<close>

definition typed_init :: "(string \<Rightarrow> svtype option) \<Rightarrow> program \<Rightarrow> svtype list \<Rightarrow> nat \<Rightarrow> bool" where
  "typed_init S p ts k \<longleftrightarrow> (let g = p_globals p ! k in
     if gv_init g = E_NULL then ts ! k = type_byte (gv_type g) \<and> proper (ts ! k)
     else typed S p (\<lambda>_. None) (global_env p (take k ts @ replicate (length (p_globals p) - k) SV_VOID)) (gv_init g) (ts ! k))"

text \<open>In a typed program the initialisers have the declared types.\<close>

definition typed_program :: "(string \<Rightarrow> svtype option) \<Rightarrow> program \<Rightarrow> bool" where
  "typed_program S p \<longleftrightarrow> (\<forall>fd \<in> set (p_funcs p). typed_fun S p fd) \<and>
     (\<forall>sd \<in> set (p_states p). \<forall>ed \<in> set (sd_events sd). typed_handler S p ed) \<and>
     (\<forall>k < length (p_globals p). typed_init S p (declared p) k)"

end
