(* ===== verification/TypeSound.thy ===== *)
theory TypeSound
  imports Typing "HOL-Library.Sublist"
begin

text \<open>
  Soundness of the types of \<open>Typing\<close> for the interpreter, by induction on its fuel: an expression gives a value of its
  type, and evaluation, calls included, keeps the types of all variables; a statement leaves the variables
  with the types its typing says; so a handler leaves the global variables with their declared types.
\<close>

subsection \<open>The types in a state\<close>

definition locals_of :: "frame \<Rightarrow> (cint \<times> svtype) list" where
  "locals_of f = map (\<lambda>b. (lb_name b, sv_type (lb_val b))) (locs f)"

definition top_locals :: "region \<Rightarrow> (cint \<times> svtype) list" where
  "top_locals r = (case frames r of [] \<Rightarrow> [] | f # fs \<Rightarrow> locals_of f)"

definition global_types :: "nat \<Rightarrow> region \<Rightarrow> svtype list" where
  "global_types i r = map sv_type (globals (script_at r i))"

definition plain_top :: "region \<Rightarrow> bool" where
  "plain_top r \<longleftrightarrow> (case frames r of [] \<Rightarrow> True
     | f # fs \<Rightarrow> \<not> returning f \<and> \<not> jumping f \<and> ret_val f = SVoid \<and> scoped f)"

text \<open>Script \<open>i\<close> runs the program \<open>p\<close>, is not about to leave the code it runs, and its names have the types \<open>T\<close>,
  its global variables the types \<open>G\<close>.\<close>

definition at_work :: "program \<Rightarrow> nat \<Rightarrow> svtype list \<Rightarrow> tenv \<Rightarrow> region \<Rightarrow> bool" where
  "at_work p i G T r \<longleftrightarrow> i < n_scripts r \<and> prog (script_at r i) = p \<and> global_types i r = G \<and>
     length G = length (p_globals p) \<and> T = add_names (top_locals r) (global_env p G) \<and>
     pending_state (script_at r i) < 0 \<and> plain_top r"

text \<open>What evaluation may do: values change, their types do not.\<close>

definition same_types :: "nat \<Rightarrow> region \<Rightarrow> region \<Rightarrow> bool" where
  "same_types i r r' \<longleftrightarrow> eval_shape r r' \<and> top_locals r' = top_locals r \<and> global_types i r' = global_types i r \<and>
     (pending_state (script_at r i) < 0 \<longrightarrow> pending_state (script_at r' i) < 0)"

interpretation st: step_rel "same_types i" for i
  by unfold_locales (auto simp: same_types_def intro: es.step_trans)

lemma at_work_same:
  assumes "at_work p i G T r" "same_types i r r'"
  shows "at_work p i G T r'"
proof -
  have e: "eval_shape r r'" using assms(2) by (simp add: same_types_def)
  then have k: "keeps_script (script_at r i) (script_at r' i)" "n_scripts r' = n_scripts r"
    using assms(1) keeps_scripts_at keeps_scripts_n by (auto simp: eval_shape_def at_work_def)
  have "plain_top r'"
    using e assms(1)
    by (auto simp: eval_shape_def at_work_def plain_top_def same_frame_def scoped_def split: list.splits)
  with assms k show ?thesis by (auto simp: at_work_def same_types_def keeps_script_def)
qed

subsection \<open>Names\<close>

lemma add_names_append: "add_names (xs @ ys) T = add_names ys (add_names xs T)"
  by (simp add: add_names_def)

lemma add_names_snoc: "add_names (xs @ [(nm, t)]) T = (add_names xs T)(nm := (True, t))"
  by (simp add: add_names_def)

lemma find_index_rev_snoc:
  "find_index P (rev (xs @ [x])) = (if P x then Some 0 else map_option Suc (find_index P (rev xs)))"
  by simp

lemma add_names_frame:
  "add_names (map (\<lambda>b. (lb_name b, sv_type (lb_val b))) bs) T nm =
     (case map_option (\<lambda>k. length bs - Suc k) (find_index (\<lambda>b. lb_name b = nm) (rev bs)) of
        Some k \<Rightarrow> (True, sv_type (lb_val (bs ! k))) | None \<Rightarrow> T nm)"
proof (induction bs rule: rev_induct)
  case (snoc b bs)
  show ?case
  proof (cases "find_index (\<lambda>b. lb_name b = nm) (rev bs)")
    case (Some k)
    then have "k < length bs" using find_index_lt [OF Some] by simp
    with Some snoc show ?thesis
      by (auto simp: add_names_snoc nth_append Suc_diff_Suc)
  qed (use snoc in \<open>auto simp: add_names_snoc\<close>)
qed (simp add: add_names_def)

lemma name_types:
  assumes "at_work p i G T r"
  shows "case find_cell i nm r of
     Some c \<Rightarrow> cell_ok i c r \<and> T nm = (True, sv_type (get_cell i c r))
   | None \<Rightarrow> T nm = (False, sv_type (builtins_const (prog_str p nm)))"
proof -
  note w = assms [unfolded at_work_def]
  have len: "length (globals (script_at r i)) = length (p_globals p)"
    using w by (auto simp: global_types_def dest!: arg_cong [of "map _ _" _ length])
  have g: "case map_option Glob (find_global_idx (script_at r i) nm) of
       Some c \<Rightarrow> cell_ok i c r \<and> global_env p G nm = (True, sv_type (get_cell i c r))
     | None \<Rightarrow> global_env p G nm = (False, sv_type (builtins_const (prog_str p nm)))"
    using w len find_index_lt [of "\<lambda>g. gv_name g = nm" "p_globals p"]
    by (auto simp: find_global_idx_def global_env_def cell_ok_def get_cell_def global_types_def split: option.split)
  show ?thesis
  proof (cases "frames r")
    case Nil
    then have "T = global_env p G" using w by (simp add: top_locals_def add_names_def)
    with g Nil show ?thesis by (simp add: find_cell_def split: option.splits)
  next
    case (Cons f fs)
    then have T: "T nm = (case frame_find f nm of Some k \<Rightarrow> (True, sv_type (lb_val (locs f ! k))) | None \<Rightarrow> global_env p G nm)"
      using w add_names_frame [of "locs f" "global_env p G" nm] by (simp add: top_locals_def locals_of_def frame_find_def)
    show ?thesis
    proof (cases "frame_find f nm")
      case None
      with g T Cons show ?thesis by (simp add: find_cell_def split: option.splits)
    next
      case (Some k)
      with T Cons w frame_find_lt [OF Some] show ?thesis by (simp add: find_cell_def cell_ok_def get_cell_def)
    qed
  qed
qed

lemma typed_ident: "at_work p i G T r \<Longrightarrow> T nm = (b, t) \<Longrightarrow> sv_type (eval_ident i nm r) = t"
  using name_types [of p i G T r nm] by (auto simp: eval_ident_def at_work_def split: option.splits)

lemma typed_variable:
  assumes "at_work p i G T r" "T nm = (True, t)"
  obtains c where "find_cell i nm r = Some c" "cell_ok i c r" "sv_type (get_cell i c r) = t"
  using name_types [OF assms(1), of nm] assms(2) by (auto split: option.splits)

lemma same_names:
  assumes "frame_names f' = frame_names f"
  shows "frame_find f' nm = frame_find f nm"
proof -
  have l: "length (locs f') = length (locs f)" using assms by (auto simp: frame_names_def dest: map_eq_imp_length_eq)
  have "map (\<lambda>b. lb_name b = nm) (locs f') = map (\<lambda>b. lb_name b = nm) (locs f)"
    using arg_cong [OF assms, of "map (\<lambda>(n, d). n = nm)"] by (simp add: frame_names_def comp_def)
  then show ?thesis
    using l by (simp add: frame_find_def find_index_map [of "\<lambda>b. lb_name b = nm"] rev_map [symmetric])
qed

lemma same_find_cell:
  assumes "at_work p i G T r" "same_types i r r'"
  shows "find_cell i nm r' = find_cell i nm r"
proof -
  have p: "prog (script_at r' i) = prog (script_at r i)"
    using assms(1) at_work_same [OF assms] by (simp add: at_work_def)
  have e: "eval_shape r r'" using assms(2) by (simp add: same_types_def)
  show ?thesis
  proof (cases "frames r")
    case Nil
    with e p show ?thesis by (simp add: find_cell_def find_global_idx_def eval_shape_def)
  next
    case (Cons f fs)
    with e obtain f' where f: "frames r' = f' # fs" "frame_names f' = frame_names f"
      by (auto simp: eval_shape_def same_frame_def)
    with p Cons same_names [OF f(2)] show ?thesis by (simp add: find_cell_def find_global_idx_def split: option.split)
  qed
qed

text \<open>A store of a value of the type the cell has.\<close>

lemma same_set_cell:
  assumes "cell_ok i c r" "sv_type v = sv_type (get_cell i c r)"
  shows "same_types i r (set_cell i c v r)"
proof -
  have e: "eval_shape r (set_cell i c v r)" by blast
  have u: "map sv_type (xs[k := v]) = map sv_type xs" if "k < length xs" "sv_type v = sv_type (xs ! k)" for xs k
    using that by (simp add: map_update) (metis length_map list_update_id nth_map)
  show ?thesis
  proof (cases c)
    case (Glob k)
    with assms e show ?thesis
      by (auto simp: same_types_def set_cell_def top_locals_def global_types_def script_at_def upd_script_def n_scripts_def
          cell_ok_def get_cell_def u nth_update_nth)
  next
    case (Loc k)
    then obtain f fs where f: "frames r = f # fs" "k < length (locs f)" using assms(1) by (auto simp: cell_ok_def neq_Nil_conv)
    have "locals_of (f\<lparr>locs := update_nth k (\<lambda>b. b\<lparr>lb_val := v\<rparr>) (locs f)\<rparr>) = locals_of f"
      using assms(2) Loc f by (auto simp: locals_of_def get_cell_def intro!: nth_equalityI simp: nth_update_nth)
    with Loc f e show ?thesis
      by (simp add: same_types_def set_cell_def top_locals_def global_types_def upd_top_def script_at_def)
  qed
qed

subsection \<open>Expressions\<close>

definition yields :: "nat \<Rightarrow> svtype \<Rightarrow> region \<Rightarrow> svalue \<times> region \<Rightarrow> bool" where
  "yields i t r x \<longleftrightarrow> sv_type (fst x) = t \<and> same_types i r (snd x)"

text \<open>From every state with these types, a result has the type \<open>t\<close>.\<close>

definition sound :: "evaluator \<Rightarrow> program \<Rightarrow> nat \<Rightarrow> svtype list \<Rightarrow> tenv \<Rightarrow> expr \<Rightarrow> svtype \<Rightarrow> bool" where
  "sound ev p i G T e t \<longleftrightarrow> (\<forall>r x. at_work p i G T r \<longrightarrow> ev e r = Inr x \<longrightarrow> yields i t r x)"

lemma soundD: "sound ev p i G T e t \<Longrightarrow> at_work p i G T r \<Longrightarrow> ev e r = Inr (v, r') \<Longrightarrow> sv_type v = t \<and> same_types i r r'"
  by (auto simp: sound_def yields_def simp del: type_eqs)

lemma soundD_work:
  "sound ev p i G T e t \<Longrightarrow> at_work p i G T r \<Longrightarrow> ev e r = Inr (v, r') \<Longrightarrow>
     sv_type v = t \<and> same_types i r r' \<and> at_work p i G T r'"
  using at_work_same by (blast dest: soundD)

lemma yieldsI: "sv_type v = t \<Longrightarrow> same_types i r r' \<Longrightarrow> yields i t r (v, r')"
  by (simp add: yields_def)

lemma yields_after: "same_types i r r' \<Longrightarrow> yields i t r' x \<Longrightarrow> yields i t r x"
  using st.step_trans by (auto simp: yields_def)

lemma component_sound:
  "sound ev p i G T e t \<Longrightarrow> at_work p i G T r \<Longrightarrow> eval_component ev e r = Inr (f, r') \<Longrightarrow>
     same_types i r r' \<and> at_work p i G T r'"
  by (auto simp: eval_component_def rbind_eq_Inr dest!: soundD_work)

lemma eval_list_sound:
  "\<forall>e \<in> set es. \<exists>t. sound ev p i G T e t \<Longrightarrow> at_work p i G T r \<Longrightarrow> eval_list ev es r = Inr (vs, r') \<Longrightarrow>
     same_types i r r' \<and> at_work p i G T r'"
proof (induction es arbitrary: vs r)
  case (Cons e es)
  then obtain v r1 ws t where 1: "sound ev p i G T e t" "ev e r = Inr (v, r1)" "eval_list ev es r1 = Inr (ws, r')"
    by (auto simp: rbind_eq_Inr)
  from soundD_work [OF 1(1) Cons.prems(2) 1(2)] have k: "same_types i r r1" "at_work p i G T r1" by simp_all
  with Cons.IH [OF _ k(2) 1(3)] Cons.prems(1) show ?case by (auto intro: st.step_trans)
qed auto

lemma incdec_sound:
  assumes "at_work p i G T r" "T nm = (True, t)"
  shows "numeric t \<Longrightarrow> eval_incdec i op (E_IDENT h nm) r = Inr x \<Longrightarrow> yields i t r x"
    and "t = SV_VECTOR \<Longrightarrow> eval_incdec i op (E_MEMBER h' (E_IDENT h nm) m) r = Inr x \<Longrightarrow> yields i SV_FLOAT r x"
    and "numeric t \<Longrightarrow> eval_postfix i op (E_IDENT h nm) r = Inr x \<Longrightarrow> yields i t r x"
proof -
  obtain c where c: "find_cell i nm r = Some c" "cell_ok i c r" "sv_type (get_cell i c r) = t"
    using typed_variable [OF assms] .
  show "yields i t r x" if "numeric t" "eval_incdec i op (E_IDENT h nm) r = Inr x"
    using that c bump_type [of "get_cell i c r" op] same_set_cell [OF c(2)]
    by (auto simp: eval_incdec_def yields_def Let_def simp del: type_eqs)
  show "yields i t r x" if "numeric t" "eval_postfix i op (E_IDENT h nm) r = Inr x"
    using that c bump_type [of "get_cell i c r" op] same_set_cell [OF c(2)]
    by (auto simp: eval_postfix_def yields_def Let_def simp del: type_eqs)
  show "yields i SV_FLOAT r x" if v: "t = SV_VECTOR" and e: "eval_incdec i op (E_MEMBER h' (E_IDENT h nm) m) r = Inr x"
  proof -
    obtain a b d where g: "get_cell i c r = SVector a b d" using c(3) v by (cases "get_cell i c r") auto
    then show ?thesis
      using e c(1) same_set_cell [OF c(2), of "set_vec_axis m f a b d" for f] axis_type(1)
      by (auto simp: eval_incdec_def yields_def Let_def simp del: type_eqs)
  qed
qed

lemma assign_sound:
  assumes "at_work p i G T r" "T nm = (True, t)"
  shows "takes t (sv_type v) \<Longrightarrow> find_cell i nm r0 = find_cell i nm r \<Longrightarrow>
      yields i t r (assign_lval i (resolve_lvalue i (E_IDENT h nm) r0) v r)"
    and "t = SV_VECTOR \<or> t = SV_ROTATION \<Longrightarrow> numeric (sv_type v) \<Longrightarrow> find_cell i nm r0 = find_cell i nm r \<Longrightarrow>
      yields i SV_FLOAT r (assign_lval i (resolve_lvalue i (E_MEMBER h' (E_IDENT h nm) m) r0) v r)"
proof -
  obtain c where c: "find_cell i nm r = Some c" "cell_ok i c r" "sv_type (get_cell i c r) = t"
    using typed_variable [OF assms] .
  show "yields i t r (assign_lval i (resolve_lvalue i (E_IDENT h nm) r0) v r)"
    if "takes t (sv_type v)" "find_cell i nm r0 = find_cell i nm r"
  proof -
    have "assign_target_type (get_cell i c r) v = t" using that(1) c(3) by (auto simp: assign_target_type_def takes_def)
    then show ?thesis
      using that c takes_coerce [OF that(1)] same_set_cell [OF c(2), of "coerce v t"]
      by (simp add: assign_lval_def yields_def Let_def del: type_eqs)
  qed
  show "yields i SV_FLOAT r (assign_lval i (resolve_lvalue i (E_MEMBER h' (E_IDENT h nm) m) r0) v r)"
    if "t = SV_VECTOR \<or> t = SV_ROTATION" "numeric (sv_type v)" "find_cell i nm r0 = find_cell i nm r"
  proof -
    have "sv_type (coerce v SV_FLOAT) = SV_FLOAT" using that(2) by (auto simp: numeric_def)
    then show ?thesis
      using that(1,3) c same_set_cell [OF c(2) axis_type(2)]
      by (auto simp: assign_lval_def yields_def Let_def simp del: type_eqs)
  qed
qed

text \<open>The second operand is evaluated in the state the first one leaves.\<close>

lemma binary_sound:
  assumes "sound ev p i G T a t" "sound ev p i G T b u"
    and op: "\<And>v w x. sv_type v = t \<Longrightarrow> sv_type w = u \<Longrightarrow> op \<noteq> OP_LAND \<Longrightarrow> op \<noteq> OP_LOR \<Longrightarrow>
      eval_binary op v w = Inr x \<Longrightarrow> sv_type x = s"
    and logic: "op = OP_LAND \<or> op = OP_LOR \<Longrightarrow> s = SV_INTEGER"
    and r: "at_work p i G T r" "eval_binop ev op a b r = Inr x"
  shows "yields i s r x"
proof -
  obtain v r1 where a: "ev a r = Inr (v, r1)" using r(2) by (auto simp: eval_binop_def rbind_eq_Inr)
  note 1 = soundD_work [OF assms(1) r(1) a]
  show ?thesis
  proof (cases "op = OP_LAND \<and> \<not> sv_truthy v \<or> op = OP_LOR \<and> sv_truthy v")
    case True
    with r(2) a logic 1 show ?thesis by (auto simp: eval_binop_def intro!: yieldsI)
  next
    case False
    then have f: "rbind (ev b r1) (\<lambda>(w, r). if op = OP_LAND \<or> op = OP_LOR then Inr (sv_of_bool (sv_truthy w), r)
        else rbind (eval_binary op v w) (\<lambda>x. Inr (x, r))) = Inr x"
      using r(2) a by (simp add: eval_binop_def split: if_split_asm)
    then obtain w r2 where b: "ev b r1 = Inr (w, r2)" by (cases "ev b r1") auto
    have x: "(if op = OP_LAND \<or> op = OP_LOR then Inr (sv_of_bool (sv_truthy w), r2)
        else rbind (eval_binary op v w) (\<lambda>x. Inr (x, r2))) = Inr x"
      using f unfolding b by simp
    from 1 have k: "at_work p i G T r1" by simp
    note 2 = soundD [OF assms(2) k b]
    have k2: "same_types i r r2" using 1 2 st.step_trans by blast
    show ?thesis
    proof (cases "op = OP_LAND \<or> op = OP_LOR")
      case True
      then have "x = (sv_of_bool (sv_truthy w), r2)" using x by auto
      with logic [OF True] k2 show ?thesis by (auto simp: sv_of_bool_def intro!: yieldsI)
    next
      case False
      then have "rbind (eval_binary op v w) (\<lambda>x. Inr (x, r2)) = Inr x" using x by auto
      then obtain y where y: "eval_binary op v w = Inr y" "x = (y, r2)" by (cases "eval_binary op v w") auto
      have "sv_type y = s" using 1 2 False by (intro op [OF _ _ _ _ y(1)]) auto
      with k2 show ?thesis unfolding y(2) by (intro yieldsI)
    qed
  qed
qed

lemma unary_type:
  "numeric (sv_type v) \<or> sv_type v = SV_VECTOR \<or> sv_type v = SV_ROTATION \<Longrightarrow> sv_type (unary_value OP_MINUS v) = sv_type v"
  "op = OP_NOT \<or> op = OP_TILDE \<Longrightarrow> sv_type (unary_value op v) = SV_INTEGER"
  by (auto simp: numeric_def unary_value_def sv_of_bool_def)

subsection \<open>The library\<close>

text \<open>What a typed call of a library function relies on: the function exists, its result has the type of its signature, and it
  leaves the variables of the script alone.\<close>

locale typed_library = library +
  fixes S :: "string \<Rightarrow> svtype option"
  assumes lib_typed: "S nm = Some t \<Longrightarrow> \<exists>b. lib nm = Some b \<and>
    (\<forall>ev i vs r v r'. i < n_scripts r \<longrightarrow> b ev i vs r = Inr (v, r') \<longrightarrow> sv_type v = t \<and> same_types i r r')"
begin

lemma library_sound:
  assumes "find_func p nm = None" "S (prog_str p nm) = Some t" "\<forall>e \<in> set es. \<exists>u. sound ev p i G T e u"
    and "at_work p i G T r" "eval_call lib ev ex i nm es r = Inr x"
  shows "yields i t r x"
proof -
  obtain b where b: "lib (prog_str p nm) = Some b"
    and s: "\<And>ev i vs r v r'. i < n_scripts r \<Longrightarrow> b ev i vs r = Inr (v, r') \<Longrightarrow> sv_type v = t \<and> same_types i r r'"
    using lib_typed [OF assms(2)] by blast
  have p: "prog (script_at r i) = p" using assms(4) by (simp add: at_work_def)
  then obtain vs r1 where a: "eval_list ev es r = Inr (vs, r1)"
    using assms(1,5) by (auto simp: eval_call_def rbind_eq_Inr)
  then have w: "same_types i r r1" "at_work p i G T r1" using eval_list_sound [OF assms(3,4)] by auto
  then have "b ev i vs r1 = Inr x" using assms(1,5) a b p by (simp add: eval_call_def at_work_def)
  with s [of i r1 ev vs "fst x" "snd x"] w(2) have "sv_type (fst x) = t" "same_types i r1 (snd x)"
    by (simp_all add: at_work_def del: type_eqs)
  with w(1) show ?thesis using st.step_trans by (auto simp: yields_def)
qed

lemma body_sound:
  assumes ev: "\<And>e t. typed S p F T e t \<Longrightarrow> sound ev p i G T e t"
    and lit: "\<And>h j r x. ev (E_INT_LIT h j) r = Inr x \<Longrightarrow> x = (SInt j, r)"
    and fn: "\<And>nm fd es r x. F nm = Some fd \<Longrightarrow>
      list_all2 (\<lambda>pm e. \<exists>u. takes (type_byte (pm_type pm)) u \<and> typed S p F T e u) (fd_params fd) es \<Longrightarrow>
      at_work p i G T r \<Longrightarrow> eval_call lib ev ex i nm es r = Inr x \<Longrightarrow> yields i (fn_type fd) r x"
    and ty: "typed S p F T e t" and r: "at_work p i G T r" and e: "eval_body lib ev ex i e r = Inr w"
  shows "yields i t r w"
  using ty
proof cases
  case (t_vector x a y b z c h)
  with e obtain f1 f2 f3 r1 r2 r3 where
    e': "eval_component ev x r = Inr (f1, r1)" "eval_component ev y r1 = Inr (f2, r2)" "eval_component ev z r2 = Inr (f3, r3)"
    and w: "w = (SVector f1 f2 f3, r3)"
    by (auto simp: eval_body_def rbind_eq_Inr)
  note 1 = component_sound [OF ev [OF t_vector(3)] r e'(1)]
  note 2 = component_sound [OF ev [OF t_vector(4)] _ e'(2)]
  note 3 = component_sound [OF ev [OF t_vector(5)] _ e'(3)]
  from 1 2 3 have "same_types i r r3" using st.step_trans by blast
  then show ?thesis unfolding w t_vector(2) by (intro yieldsI) simp_all
next
  case (t_rot x a y b z c u d h)
  with e obtain f1 f2 f3 f4 r1 r2 r3 r4 where
    e': "eval_component ev x r = Inr (f1, r1)" "eval_component ev y r1 = Inr (f2, r2)" "eval_component ev z r2 = Inr (f3, r3)"
      "eval_component ev u r3 = Inr (f4, r4)"
    and w: "w = (SRot f1 f2 f3 f4, r4)"
    by (auto simp: eval_body_def rbind_eq_Inr)
  note 1 = component_sound [OF ev [OF t_rot(3)] r e'(1)]
  note 2 = component_sound [OF ev [OF t_rot(4)] _ e'(2)]
  note 3 = component_sound [OF ev [OF t_rot(5)] _ e'(3)]
  note 4 = component_sound [OF ev [OF t_rot(6)] _ e'(4)]
  from 1 2 3 4 have "same_types i r r4" using st.step_trans by blast
  then show ?thesis unfolding w t_rot(2) by (intro yieldsI) simp_all
next
  case (t_list es h)
  then have "\<forall>e \<in> set es. \<exists>t. sound ev p i G T e t" using ev by blast
  from eval_list_sound [OF this r] show ?thesis
    using e t_list(1,2) by (auto simp: eval_body_def rbind_eq_Inr intro!: yieldsI)
next
  case (t_cast e' u ty h)
  with e obtain v r1 where "ev e' r = Inr (v, r1)" "w = (do_cast v (type_byte ty), r1)"
    by (auto simp: eval_body_def rbind_eq_Inr)
  with soundD [OF ev [OF t_cast(2)] r] cast_type [OF t_cast(4)] show ?thesis
    unfolding t_cast(3) [symmetric] by (simp add: yields_def del: type_eqs)
next
  case (t_minus e' op h)
  with e obtain v r1 where "ev e' r = Inr (v, r1)" "w = (unary_value OP_MINUS v, r1)"
    by (auto simp: eval_body_def eval_unary_def rbind_eq_Inr)
  with soundD [OF ev [OF t_minus(2)] r] unary_type(1) [of v] t_minus(4) show ?thesis
    by (simp add: yields_def del: type_eqs)
next
  case (t_not e' u op h)
  with e obtain v r1 where "ev e' r = Inr (v, r1)" "w = (unary_value (opcode_of op) v, r1)"
    by (auto simp: eval_body_def eval_unary_def rbind_eq_Inr)
  with soundD [OF ev [OF t_not(3)] r] unary_type(2) [OF t_not(4)] show ?thesis
    unfolding t_not(2) by (simp add: yields_def del: type_eqs)
next
  case (t_prefix nm op h h')
  with e incdec_sound(1) [OF r t_prefix(2,3)] show ?thesis by (auto simp: eval_body_def eval_unary_def)
next
  case (t_prefix_member nm op h h'' h' m)
  with e incdec_sound(2) [OF r t_prefix_member(3)] show ?thesis by (auto simp: eval_body_def eval_unary_def)
next
  case (t_postfix nm h op h')
  with e incdec_sound(3) [OF r t_postfix(2,3)] show ?thesis by (auto simp: eval_body_def)
next
  case (t_binary x a y b op h)
  show ?thesis
  proof (rule binary_sound [OF ev [OF t_binary(2)] ev [OF t_binary(3)] _ _ r])
    show "eval_binop ev (opcode_of op) x y r = Inr w" using e t_binary(1) by (simp add: eval_body_def)
    show "sv_type z = t" if "sv_type v = a" "sv_type u = b" "eval_binary (opcode_of op) v u = Inr z" for v u z
      by (rule binary_type_sound [OF _ that(3)]) (use that(1,2) t_binary(4) in \<open>simp del: type_eqs\<close>)
    show "t = SV_INTEGER" if "opcode_of op = OP_LAND \<or> opcode_of op = OP_LOR"
      using that t_binary(4) by (auto simp: binary_type_def)
  qed
next
  case (t_divide x op j h h')
  with e have b: "eval_binop ev OP_SLASH x (E_INT_LIT h' j) r = Inr w" by (simp add: eval_body_def)
  then obtain v r1 y where x: "ev x r = Inr (v, r1)" and y: "ev (E_INT_LIT h' j) r1 = Inr y"
    by (auto simp: eval_binop_def rbind_eq_Inr)
  from soundD [OF ev [OF t_divide(3)] r x] obtain k where k: "v = SInt k" "same_types i r r1" by auto
  from b x k(1) y lit [OF y] have "rbind (eval_binary OP_SLASH (SInt k) (SInt j)) (\<lambda>x. Inr (x, r1)) = Inr w"
    by (simp add: eval_binop_def)
  with t_divide(2,5) k(2) show ?thesis
    by (auto simp: eval_binary_def op_slash_def is_num_def split: if_splits intro!: yieldsI)
next
  case (t_assign nm y u op h h')
  with e obtain v r1 where y: "ev y r = Inr (v, r1)" and w: "w = assign_lval i (resolve_lvalue i (E_IDENT h' nm) r) v r1"
    by (auto simp: eval_body_def eval_assign_def rbind_eq_Inr Let_def simp del: resolve_lvalue.simps)
  note 1 = soundD_work [OF ev [OF t_assign(3)] r y]
  then have f: "find_cell i nm r = find_cell i nm r1" using same_find_cell [OF r, of r1 nm] by simp
  from 1 have "yields i t r1 w"
    unfolding w using t_assign(4) f by (intro assign_sound(1) [where T = T]) (auto simp: t_assign(2) simp del: type_eqs)
  with 1 show ?thesis using yields_after by blast
next
  case (t_compound nm y u op v h h')
  let ?lv = "resolve_lvalue i (E_IDENT h' nm) r" and ?op = "compound_op (opcode_of op)"
  from e t_compound obtain b r1 x where y: "ev y r = Inr (b, r1)" and x: "eval_binary ?op (lval_value i ?lv r1) b = Inr x"
    and w: "w = assign_lval i ?lv x r1"
    by (auto simp: eval_body_def eval_assign_def rbind_eq_Inr Let_def simp del: resolve_lvalue.simps)
  note 1 = soundD_work [OF ev [OF t_compound(3)] r y]
  then have k: "at_work p i G T r1" "find_cell i nm r = find_cell i nm r1" using same_find_cell [OF r, of r1 nm] by simp_all
  obtain c where "find_cell i nm r1 = Some c" "sv_type (get_cell i c r1) = t"
    using typed_variable [OF k(1) t_compound(2)] .
  then have "sv_type (lval_value i ?lv r1) = t" using k(2) by (simp add: lval_value_def del: type_eqs)
  then have "sv_type x = v" using t_compound(4) 1 x by (intro binary_type_sound) auto
  then have "yields i t r1 w"
    unfolding w using t_compound(5) k by (intro assign_sound(1) [where T = T]) (auto simp: t_compound(2))
  with 1 show ?thesis using yields_after by blast
next
  case (t_assign_member nm a y u op h h'' h' m)
  with e obtain v r1 where y: "ev y r = Inr (v, r1)"
    and w: "w = assign_lval i (resolve_lvalue i (E_MEMBER h'' (E_IDENT h' nm) m) r) v r1"
    by (auto simp: eval_body_def eval_assign_def rbind_eq_Inr Let_def simp del: resolve_lvalue.simps)
  note 1 = soundD_work [OF ev [OF t_assign_member(5)] r y]
  then have f: "find_cell i nm r = find_cell i nm r1" using same_find_cell [OF r, of r1 nm] by simp
  from 1 have "yields i SV_FLOAT r1 w"
    unfolding w using t_assign_member(4,6) f by (intro assign_sound(2) [where T = T]) (auto simp: t_assign_member(3))
  with 1 show ?thesis unfolding t_assign_member(2) using yields_after by blast
next
  case (t_library nm es h)
  have "\<forall>e \<in> set es. \<exists>u. sound ev p i G T e u" using t_library(4) ev by blast
  from library_sound [OF t_library(2,3) this r] show ?thesis using e t_library(1) by (simp add: eval_body_def)
next
  case (t_function nm fd es h)
  with e fn [OF t_function(3,4) r] show ?thesis by (simp add: eval_body_def)
next
  case (t_member b u h m)
  with e obtain v r1 where "ev b r = Inr (v, r1)" "w = (SFloat (member_value v m), r1)"
    by (auto simp: eval_body_def rbind_eq_Inr)
  with soundD [OF ev [OF t_member(3)] r] t_member(2) show ?thesis by (simp add: yields_def)
next
  case (t_ident nm b h)
  with e have "w = (eval_ident i nm r, r)" by (simp add: eval_body_def)
  with typed_ident [OF r t_ident(2)] show ?thesis by (simp add: yields_def del: type_eqs)
next
  case (t_text ty l k)
  with e show ?thesis
    by (auto simp: eval_body_def string_lit_def textual_def rbind_eq_Inr yields_def split: if_splits)
qed (use e in \<open>auto simp: eval_body_def yields_def\<close>)

end

subsection \<open>Statements\<close>

text \<open>What a statement typed with \<open>T\<close> leaves: the variables there were, with their types, and new ones; either the names then
  have the types \<open>T\<close>, or the code is left: by a return, with a value of the type \<open>ret\<close> in a function, or, in a
  handler, by a change of state.\<close>

definition left :: "nat \<Rightarrow> svtype option \<Rightarrow> region \<Rightarrow> bool" where
  "left i ret r \<longleftrightarrow> (case ret of
     None \<Rightarrow> top_returning r \<or> 0 \<le> pending_state (script_at r i)
   | Some t \<Rightarrow> top_returning r \<and> sv_type (ret_val (hd (frames r))) = t \<and> pending_state (script_at r i) < 0)"

definition after :: "program \<Rightarrow> nat \<Rightarrow> svtype list \<Rightarrow> svtype option \<Rightarrow> tenv \<Rightarrow> region \<Rightarrow> region \<Rightarrow> bool" where
  "after p i G ret T r r' \<longleftrightarrow> exec_shape r r' \<and> prefix (top_locals r) (top_locals r') \<and> global_types i r' = G \<and>
     frames r' \<noteq> [] \<and> \<not> top_jumping r' \<and> (at_work p i G T r' \<or> left i ret r')"

definition sound_stmt :: "executor \<Rightarrow> program \<Rightarrow> nat \<Rightarrow> svtype list \<Rightarrow> svtype option \<Rightarrow> tenv \<Rightarrow> stmt \<Rightarrow> tenv \<Rightarrow> bool" where
  "sound_stmt ex p i G ret T s T' \<longleftrightarrow> (\<forall>r rc r'. at_work p i G T r \<longrightarrow> frames r \<noteq> [] \<longrightarrow> ex s r = Inr (rc, r') \<longrightarrow>
     after p i G ret T' r r' \<and> (ret \<noteq> None \<longrightarrow> gives s \<longrightarrow> top_returning r'))"

lemma sound_stmtD:
  "sound_stmt ex p i G ret T s T' \<Longrightarrow> at_work p i G T r \<Longrightarrow> frames r \<noteq> [] \<Longrightarrow> ex s r = Inr (rc, r') \<Longrightarrow>
     after p i G ret T' r r' \<and> (ret \<noteq> None \<longrightarrow> gives s \<longrightarrow> top_returning r')"
  by (simp add: sound_stmt_def)

lemma after_refl: "at_work p i G T r \<Longrightarrow> frames r \<noteq> [] \<Longrightarrow> after p i G ret T r r"
  by (auto simp: after_def at_work_def plain_top_def top_jumping_def split: list.splits)

lemma after_trans: "after p i G ret T r r1 \<Longrightarrow> after p i G ret T' r1 r2 \<Longrightarrow> after p i G ret T' r r2"
  using xs.step_trans prefix_order.trans by (auto simp: after_def)

lemma after_eval:
  assumes "at_work p i G T r" "frames r \<noteq> []" "same_types i r r'"
  shows "after p i G ret T r r'" "at_work p i G T r'" "frames r' \<noteq> []"
proof -
  show w: "at_work p i G T r'" using assms(1,3) by (rule at_work_same)
  have e: "eval_shape r r'" using assms(3) by (simp add: same_types_def)
  then show f: "frames r' \<noteq> []" using assms(2) by (auto simp: eval_shape_def neq_Nil_conv)
  have "after p i G ret T r' r'" using w f by (rule after_refl)
  with assms(3) eval_exec_shape [OF e] show "after p i G ret T r r'" by (auto simp: after_def same_types_def)
qed

lemma after_eval_step:
  "at_work p i G T r \<Longrightarrow> frames r \<noteq> [] \<Longrightarrow> same_types i r r1 \<Longrightarrow> after p i G ret T' r1 r2 \<Longrightarrow> after p i G ret T' r r2"
  using after_eval(1) after_trans by blast

lemma at_work_free: "at_work p i G T r \<Longrightarrow> \<not> must_stop i r" "at_work p i G T r \<Longrightarrow> \<not> top_returning r"
  by (auto simp: at_work_def must_stop_def plain_top_def top_returning_def top_jumping_def split: list.splits)

lemma left_stops: "left i ret r \<Longrightarrow> must_stop i r"
  by (auto simp: left_def must_stop_def split: option.splits)

lemma left_block: "left i ret r \<Longrightarrow> top_returning r \<or> 0 \<le> pending_state (script_at r i)"
  by (auto simp: left_def split: option.splits)

lemma after_left: "after p i G ret T r r' \<Longrightarrow> \<not> at_work p i G T r' \<Longrightarrow> after p i G ret T' r r'"
  by (auto simp: after_def)

lemma same_types_data: "scripts r' = scripts r \<Longrightarrow> frames r' = frames r \<Longrightarrow> same_types i r r'"
  by (simp add: same_types_def eval_shape_same top_locals_def global_types_def script_at_def)

text \<open>Loops: the condition and the steps are evaluated only while the code is not left.\<close>

lemma while_sound:
  assumes "sound ev p i G T c t" "sound_stmt ex p i G ret T b T"
  shows "at_work p i G T r \<Longrightarrow> frames r \<noteq> [] \<Longrightarrow> while_loop ev ex i c b k r = Inr (rc, r') \<Longrightarrow> after p i G ret T r r'"
proof (induction k arbitrary: r)
  case 0
  then show ?case using after_refl by simp
next
  case (Suc k)
  then obtain v r1 where c: "ev c r = Inr (v, r1)" by (auto simp: rbind_eq_Inr)
  have 1: "same_types i r r1" using soundD [OF assms(1) Suc.prems(1) c] by simp
  note a1 = after_eval [OF Suc.prems(1,2) 1]
  show ?case
  proof (cases "sv_truthy v")
    case False
    with Suc.prems(3) c a1(1) show ?thesis by simp
  next
    case True
    then obtain rc2 r2 where b: "ex b r1 = Inr (rc2, r2)" using Suc.prems(3) c by (auto simp: rbind_eq_Inr)
    have 2: "after p i G ret T r1 r2" using sound_stmtD [OF assms(2) a1(2,3) b] by simp
    show ?thesis
    proof (cases "at_work p i G T r2")
      case w: True
      have "while_loop ev ex i c b k r2 = Inr (rc, r')" using Suc.prems(3) c True b at_work_free(1) [OF w] by simp
      then have "after p i G ret T r2 r'" using Suc.IH [OF w] 2 by (simp add: after_def)
      with a1(1) 2 show ?thesis using after_trans by blast
    next
      case False
      then have "must_stop i r2" using 2 left_stops by (auto simp: after_def)
      with Suc.prems(3) c True b a1(1) 2 show ?thesis using after_trans by fastforce
    qed
  qed
qed

lemma do_sound:
  assumes "sound ev p i G T c t" "sound_stmt ex p i G ret T b T"
  shows "at_work p i G T r \<Longrightarrow> frames r \<noteq> [] \<Longrightarrow> do_loop ev ex i c b k r = Inr (rc, r') \<Longrightarrow> after p i G ret T r r'"
proof (induction k arbitrary: r)
  case 0
  then show ?case using after_refl by simp
next
  case (Suc k)
  then obtain rc1 r1 where b: "ex b r = Inr (rc1, r1)" by (auto simp: rbind_eq_Inr)
  have 1: "after p i G ret T r r1" using sound_stmtD [OF assms(2) Suc.prems(1,2) b] by simp
  show ?case
  proof (cases "at_work p i G T r1")
    case True
    then have f: "frames r1 \<noteq> []" "\<not> must_stop i r1" using 1 at_work_free by (auto simp: after_def)
    then obtain v r2 where c: "ev c r1 = Inr (v, r2)" using Suc.prems(3) b by (auto simp: rbind_eq_Inr)
    have 2: "same_types i r1 r2" using soundD [OF assms(1) True c] by simp
    note a2 = after_eval [OF True f(1) 2]
    show ?thesis
    proof (cases "sv_truthy v")
      case False
      with Suc.prems(3) b c f after_trans [OF 1 a2(1)] show ?thesis by simp
    next
      case t: True
      then have "do_loop ev ex i c b k r2 = Inr (rc, r')" using Suc.prems(3) b c f by simp
      then show ?thesis using Suc.IH [OF a2(2,3)] after_trans [OF 1 a2(1)] after_trans by blast
    qed
  next
    case False
    then have "must_stop i r1" using 1 left_stops by (auto simp: after_def)
    with Suc.prems(3) b 1 show ?thesis by simp
  qed
qed

lemma for_sound:
  assumes "c = E_NULL \<or> (\<exists>t. sound ev p i G T c t)" "\<forall>e \<in> set ps. \<exists>t. sound ev p i G T e t" "sound_stmt ex p i G ret T b T"
  shows "at_work p i G T r \<Longrightarrow> frames r \<noteq> [] \<Longrightarrow> for_loop ev ex i c ps b k r = Inr (rc, r') \<Longrightarrow> after p i G ret T r r'"
proof (induction k arbitrary: r)
  case 0
  then show ?case using after_refl by simp
next
  case (Suc k)
  then obtain v r1 where c: "(if c = E_NULL then Inr (SInt 1, r) else ev c r) = Inr (v, r1)" by (auto simp: rbind_eq_Inr)
  have 1: "same_types i r r1" using assms(1) c soundD [OF _ Suc.prems(1)] by (auto split: if_splits)
  note a1 = after_eval [OF Suc.prems(1,2) 1]
  show ?case
  proof (cases "sv_truthy v")
    case False
    with Suc.prems(3) c a1(1) show ?thesis by simp
  next
    case True
    then obtain rc2 r2 where b: "ex b r1 = Inr (rc2, r2)" using Suc.prems(3) c by (auto simp: rbind_eq_Inr)
    have 2: "after p i G ret T r1 r2" using sound_stmtD [OF assms(3) a1(2,3) b] by simp
    show ?thesis
    proof (cases "at_work p i G T r2")
      case w: True
      have f: "frames r2 \<noteq> []" using 2 by (simp add: after_def)
      obtain vs r3 where e: "eval_list ev ps r2 = Inr (vs, r3)" and l: "for_loop ev ex i c ps b k r3 = Inr (rc, r')"
        using Suc.prems(3) c True b at_work_free(1) [OF w] by (auto simp: rbind_eq_Inr)
      have 3: "same_types i r2 r3" using eval_list_sound [OF assms(2) w e] by simp
      note a3 = after_eval [OF w f 3]
      show ?thesis using after_trans [OF after_trans [OF after_trans [OF a1(1) 2] a3(1)] Suc.IH [OF a3(2,3) l]] .
    next
      case False
      then have "must_stop i r2" using 2 left_stops by (auto simp: after_def)
      with Suc.prems(3) c True b a1(1) 2 show ?thesis using after_trans by fastforce
    qed
  qed
qed

text \<open>The statements of a block.\<close>

lemma stmts_sound:
  "typed_stmts S p F ret T ss T' \<Longrightarrow> (\<And>T s T'. typed_stmt S p F ret T s T' \<Longrightarrow> sound_stmt ex p i G ret T s T') \<Longrightarrow>
     at_work p i G T r \<Longrightarrow> frames r \<noteq> [] \<Longrightarrow> block_loop ex i all k ss r = Inr (rc, r') \<Longrightarrow>
     after p i G ret T' r r' \<and> (ret \<noteq> None \<longrightarrow> (\<exists>s \<in> set ss. gives s) \<longrightarrow> top_returning r')"
proof (induction ss arbitrary: T r)
  case Nil
  from Nil.prems(1) have "T' = T" by cases
  with Nil after_refl show ?case by simp
next
  case (Cons s ss)
  from Cons.prems(1) obtain T1 where t: "typed_stmt S p F ret T s T1" "typed_stmts S p F ret T1 ss T'" by cases
  obtain rc1 r1 where x: "ex s r = Inr (rc1, r1)" using Cons.prems(5) by (auto simp: rbind_eq_Inr)
  have 1: "after p i G ret T1 r r1" and g: "ret \<noteq> None \<longrightarrow> gives s \<longrightarrow> top_returning r1"
    using sound_stmtD [OF Cons.prems(2) [OF t(1)] Cons.prems(3,4) x] by simp_all
  show ?case
  proof (cases "at_work p i G T1 r1")
    case True
    then have l: "block_loop ex i all k ss r1 = Inr (rc, r')" and f: "frames r1 \<noteq> []"
      using Cons.prems(5) x 1 by (auto simp: after_def at_work_def plain_top_def top_returning_def split: list.splits)
    from Cons.IH [OF t(2) Cons.prems(2) True f l] after_trans [OF 1] at_work_free(2) [OF True] g
    show ?thesis by auto
  next
    case False
    then have lf: "left i ret r1" using 1 by (simp add: after_def)
    then have r: "r' = r1" using Cons.prems(5) x left_block [OF lf] by (auto split: if_splits)
    have "ret \<noteq> None \<longrightarrow> top_returning r1" using lf by (auto simp: left_def split: option.splits)
    with 1 False r after_left show ?thesis by (auto simp: after_def)
  qed
qed

text \<open>A scope: the names made in it go, those from outside keep their types.\<close>

lemma dropWhile_prefix: "prefix (rev (dropWhile P (rev xs))) xs"
  by (metis rev_append rev_rev_ident prefixI takeWhile_dropWhile_id)

lemma enter_work:
  assumes "at_work p i G T r" "frames r \<noteq> []"
  shows "at_work p i G T (upd_top frame_enter r)" "frames (upd_top frame_enter r) \<noteq> []"
  using assms
  by (auto simp: at_work_def upd_top_def n_scripts_def script_at_def global_types_def top_locals_def locals_of_def
      plain_top_def frame_enter_def scoped_def frame_names_def split: list.splits prod.splits)

lemma scope_after:
  assumes w: "at_work p i G T r" "frames r \<noteq> []" and a: "after p i G ret T' (upd_top frame_enter r) r1"
  shows "after p i G ret T r (upd_top frame_leave r1)" "top_returning (upd_top frame_leave r1) = top_returning r1"
proof -
  obtain f fs where f: "frames r = f # fs" using w(2) by (auto simp: neq_Nil_conv)
  have sc: "scoped f" using w(1) f by (simp add: at_work_def plain_top_def)
  have e: "frames (upd_top frame_enter r) = frame_enter f # fs" using f by (simp add: upd_top_def)
  have "scoped (frame_enter f)" using sc by (auto simp: scoped_def frame_enter_def frame_names_def split: prod.splits)
  then obtain g where g: "frames r1 = g # fs" "grows (frame_enter f) g" and ks: "keeps_scripts (upd_top frame_enter r) r1"
    using a e by (auto simp: after_def exec_shape_def)
  let ?r = "upd_top frame_leave r1"
  have fr: "frames ?r = frame_leave g # fs" and sr: "scripts ?r = scripts r1" using g(1) by (simp_all add: upd_top_def)
  note names = leave_enter [OF sc g(2)]
  have gl: "grows f (frame_leave g)" using names by (simp add: grows_def)
  have "scripts (upd_top frame_enter r) = scripts r" using f by (simp add: upd_top_def)
  then have x: "exec_shape r ?r" using ks f fr sr gl by (simp add: exec_shape_def keeps_scripts_def)
  have flags: "returning (frame_leave g) = returning g" "jumping (frame_leave g) = jumping g" "ret_val (frame_leave g) = ret_val g"
    by (simp_all add: frame_leave_def Let_def)
  then show tr: "top_returning ?r = top_returning r1" using fr g(1) by (simp add: top_returning_def)
  have p1: "prefix (locals_of f) (locals_of g)"
    using a e g(1) by (simp add: after_def top_locals_def locals_of_def frame_enter_def)
  have p2: "prefix (locals_of (frame_leave g)) (locals_of g)"
    unfolding locals_of_def by (intro map_mono_prefix) (simp add: frame_leave_def Let_def dropWhile_prefix)
  have "length (locals_of (frame_leave g)) = length (locals_of f)"
    using arg_cong [OF names(1), of length] by (simp add: locals_of_def frame_names_def)
  with p1 p2 have l: "locals_of (frame_leave g) = locals_of f"
    by (metis prefix_length_prefix prefix_order.antisym order_refl)
  then have tl: "top_locals ?r = top_locals r" using f fr by (simp add: top_locals_def)
  have gt: "global_types i ?r = G" using a sr by (simp add: after_def global_types_def script_at_def)
  have nj: "\<not> top_jumping ?r" using a fr g(1) flags by (simp add: after_def top_jumping_def)
  have "at_work p i G T ?r" if "at_work p i G T' r1"
    using that w(1) tl gt sr fr g(1) flags names sc
    by (simp add: at_work_def n_scripts_def script_at_def plain_top_def scoped_def)
  moreover have "left i ret ?r" if "left i ret r1"
    using that tr fr g(1) flags sr by (simp add: left_def script_at_def split: option.splits)
  ultimately show "after p i G ret T r ?r" using a x tl gt nj fr by (auto simp: after_def)
qed

lemma sv_zero_type: "proper t \<Longrightarrow> sv_type (sv_zero t) = t"
  by (auto simp: proper_def)

lemma define_work:
  assumes "at_work p i G T r" "frames r \<noteq> []"
  shows "at_work p i G (T(nm := (True, sv_type w))) (upd_top (frame_define nm w) r)"
    "after p i G ret (T(nm := (True, sv_type w))) r (upd_top (frame_define nm w) r)"
proof -
  obtain f fs where f: "frames r = f # fs" using assms(2) by (auto simp: neq_Nil_conv)
  let ?r = "upd_top (frame_define nm w) r"
  have fr: "frames ?r = frame_define nm w f # fs" and sr: "scripts ?r = scripts r" using f by (simp_all add: upd_top_def)
  have l: "top_locals ?r = top_locals r @ [(nm, sv_type w)]"
    using f fr by (simp add: top_locals_def locals_of_def frame_define_def)
  have "scoped (frame_define nm w f)"
    using assms(1) f grows_scoped [OF grows_define] by (simp add: at_work_def plain_top_def)
  then have "plain_top ?r" using assms(1) f fr by (simp add: at_work_def plain_top_def frame_define_def)
  then show w: "at_work p i G (T(nm := (True, sv_type w))) ?r"
    using assms(1) sr l by (simp add: at_work_def n_scripts_def script_at_def global_types_def add_names_snoc)
  have "exec_shape r ?r" using grows_define by (intro exec_shape_upd_top)
  then show "after p i G ret (T(nm := (True, sv_type w))) r ?r"
    using w l fr after_refl [OF w] by (simp add: after_def)
qed

lemma decl_sound:
  assumes "e = E_NULL \<or> (\<exists>u. sound ev p i G T e u \<and> takes (type_byte t) u)" "proper (type_byte t)"
    and w: "at_work p i G T r" "frames r \<noteq> []" and x: "exec_decl ev t nm e r = Inr (rc, r')"
  shows "after p i G ret (T(nm := (True, type_byte t))) r r'"
proof -
  obtain v r1 where e: "(if e = E_NULL then Inr (SVoid, r) else ev e r) = Inr (v, r1)"
    and r': "r' = upd_top (frame_define nm (if sv_type v = SV_VOID then sv_zero (type_byte t) else coerce v (type_byte t))) r1"
    using x by (auto simp: exec_decl_def rbind_eq_Inr Let_def simp del: type_eqs)
  have v: "same_types i r r1 \<and> (sv_type v = SV_VOID \<or> takes (type_byte t) (sv_type v))"
    using assms(1) e soundD [OF _ w(1)] by (auto split: if_splits simp del: type_eqs)
  then have "sv_type (if sv_type v = SV_VOID then sv_zero (type_byte t) else coerce v (type_byte t)) = type_byte t"
    using sv_zero_type [OF assms(2)] takes_coerce by (auto simp del: type_eqs)
  with after_eval [OF w, of r1] v define_work(2) [where r = r1] show ?thesis
    unfolding r' using after_trans by metis
qed

lemma return_after:
  assumes w: "at_work p i G T r" "frames r \<noteq> []"
    and "ret = None \<or> ret = Some (sv_type v)"
  shows "after p i G ret T' r (upd_top (\<lambda>f. f\<lparr>ret_val := v, returning := True\<rparr>) r)"
    "top_returning (upd_top (\<lambda>f. f\<lparr>ret_val := v, returning := True\<rparr>) r)"
proof -
  obtain f fs where f: "frames r = f # fs" using w(2) by (auto simp: neq_Nil_conv)
  let ?r = "upd_top (\<lambda>f. f\<lparr>ret_val := v, returning := True\<rparr>) r"
  have fr: "frames ?r = f\<lparr>ret_val := v, returning := True\<rparr> # fs" and sr: "scripts ?r = scripts r"
    using f by (simp_all add: upd_top_def)
  show "top_returning ?r" using fr by (simp add: top_returning_def)
  have "exec_shape r ?r" by (intro exec_shape_upd_top) (simp add: grows_def frame_names_def)
  with w assms(3) f fr sr show "after p i G ret T' r ?r"
    by (auto simp: after_def at_work_def plain_top_def top_locals_def locals_of_def global_types_def script_at_def
        top_jumping_def left_def top_returning_def)
qed

lemma return_sound:
  assumes "hv = 0 \<and> (ret = None \<or> ret = Some SV_VOID) \<or> hv \<noteq> 0 \<and> (\<exists>t. ret = Some t \<and> sound ev p i G T e t)"
    and w: "at_work p i G T r" "frames r \<noteq> []" and x: "exec_return ev hv e r = Inr (rc, r')"
  shows "after p i G ret T' r r' \<and> top_returning r'"
proof -
  obtain f fs where f: "frames r = f # fs" "ret_val f = SVoid"
    using w by (auto simp: neq_Nil_conv at_work_def plain_top_def)
  then have same: "upd_top (\<lambda>f. f\<lparr>ret_val := SVoid\<rparr>) r = r" by (simp add: upd_top_def)
  show ?thesis
  proof (cases "hv = 0")
    case True
    then have "r' = upd_top (\<lambda>f. f\<lparr>ret_val := SVoid, returning := True\<rparr>) r"
      using x f by (auto simp: exec_return_def upd_top_def)
    with return_after [OF w, of ret SVoid] True assms(1) show ?thesis by auto
  next
    case False
    then obtain t where t: "ret = Some t" "sound ev p i G T e t" using assms(1) by auto
    obtain v r1 where e: "ev e r = Inr (v, r1)" and r': "r' = upd_top (\<lambda>f. f\<lparr>ret_val := v, returning := True\<rparr>) r1"
      using x False f(1) same by (auto simp: exec_return_def rbind_eq_Inr)
    from soundD [OF t(2) w(1) e] have v: "sv_type v = t" "same_types i r r1" by simp_all
    note a = after_eval [OF w v(2)]
    show ?thesis
      using return_after [OF a(2,3), of ret v] after_trans [OF a(1)] t(1) v(1) unfolding r' by blast
  qed
qed

lemma statechg_sound:
  assumes w: "at_work p i G T r" "frames r \<noteq> []"
  shows "after p i G None T r (exec_statechg i nm r)"
proof (cases "find_state (prog (script_at r i)) (prog_str (prog (script_at r i)) nm)")
  case None
  then show ?thesis using after_refl [OF w] by (simp add: exec_statechg_def Let_def)
next
  case (Some k)
  let ?r = "upd_script i (\<lambda>s. s\<lparr>pending_state := int k\<rparr>) r"
  have r: "exec_statechg i nm r = ?r" using Some by (simp add: exec_statechg_def Let_def)
  have x: "exec_shape r ?r" using eval_exec_shape [OF keeps_statechg [of r i nm]] r by simp
  have i: "i < length (scripts r)" using w(1) by (simp add: at_work_def n_scripts_def)
  then have s: "script_at ?r i = (script_at r i)\<lparr>pending_state := int k\<rparr>"
    by (simp add: script_at_def upd_script_def nth_update_nth)
  have "\<not> top_jumping ?r" using w by (auto simp: at_work_def plain_top_def top_jumping_def split: list.splits)
  with w x s show ?thesis
    unfolding r by (auto simp: after_def at_work_def global_types_def top_locals_def left_def)
qed

lemma hook_same: "same_types i r (stmt_hook j l r)"
proof (cases "dbg_enabled (dbg r) \<and> 0 < sint l")
  case True
  then have "quiet r (stmt_hook j l r)" by (simp add: stmt_hook_def)
  then show ?thesis by (intro same_types_data) (simp_all add: quiet_fields)
qed (auto simp: stmt_hook_def)

lemma stmt_sound:
  assumes ev: "\<And>T e t. typed S p F T e t \<Longrightarrow> sound ev p i G T e t"
    and ex: "\<And>T s T'. typed_stmt S p F ret T s T' \<Longrightarrow> sound_stmt ex p i G ret T s T'"
    and ty: "typed_stmt S p F ret T s T'" and w: "at_work p i G T r" "frames r \<noteq> []"
    and x: "exec_switch ev ex k i s r = Inr (rc, r')"
  shows "after p i G ret T' r r' \<and> (ret \<noteq> None \<longrightarrow> gives s \<longrightarrow> top_returning r')"
  using ty
proof cases
  case (s_expr e t l)
  with x obtain v where e: "ev e r = Inr (v, r')" by (auto simp: exec_switch_def rbind_eq_Inr)
  then have "same_types i r r'" using soundD [OF ev [OF s_expr(3)] w(1) e] by simp
  then show ?thesis using after_eval(1) [OF w] s_expr by simp
next
  case (s_decl e t nm l)
  then have "e = E_NULL \<or> (\<exists>u. sound ev p i G T e u \<and> takes (type_byte t) u)" using ev by blast
  from decl_sound [OF this s_decl(4) w] x s_decl(1,2) show ?thesis by (simp add: exec_switch_def)
next
  case (s_block ss T1 l)
  with x obtain rc1 r1 where b: "block_loop ex i ss k ss (upd_top frame_enter r) = Inr (rc1, r1)"
    and r': "r' = upd_top frame_leave r1"
    by (auto simp: exec_switch_def rbind_eq_Inr)
  note en = enter_work [OF w]
  from stmts_sound [OF s_block(3) ex en b] have a: "after p i G ret T1 (upd_top frame_enter r) r1"
    and g: "ret \<noteq> None \<longrightarrow> (\<exists>s \<in> set ss. gives s) \<longrightarrow> top_returning r1" by blast+
  show ?thesis using scope_after [OF w a] g s_block(1,2) unfolding r' by simp
next
  case (s_if c t a b l)
  with x obtain v r1 where c: "ev c r = Inr (v, r1)" by (auto simp: exec_switch_def rbind_eq_Inr)
  have "same_types i r r1" using soundD [OF ev [OF s_if(3)] w(1) c] by simp
  note a1 = after_eval [OF w this]
  show ?thesis
  proof (cases "sv_truthy v")
    case True
    with x c s_if(1) obtain rc1 where "ex a r1 = Inr (rc1, r')" by (auto simp: exec_switch_def rbind_eq_Inr)
    from sound_stmtD [OF ex [OF s_if(4)] a1(2,3) this] after_trans [OF a1(1)] s_if(1,2) show ?thesis by auto
  next
    case False
    show ?thesis
    proof (cases "b = S_NULL")
      case True
      with x c s_if(1) False have "r' = r1" by (simp add: exec_switch_def)
      with a1(1) s_if(1,2) True show ?thesis by simp
    next
      case b: False
      with x c s_if(1) False obtain rc1 where "ex b r1 = Inr (rc1, r')" by (auto simp: exec_switch_def rbind_eq_Inr)
      from sound_stmtD [OF ex [OF s_if(5)] a1(2,3) this] after_trans [OF a1(1)] s_if(1,2) show ?thesis by auto
    qed
  qed
next
  case (s_while c t b l)
  with x while_sound [OF ev [OF s_while(3)] ex [OF s_while(4)] w] show ?thesis by (simp add: exec_switch_def)
next
  case (s_do c t b l)
  with x do_sound [OF ev [OF s_do(3)] ex [OF s_do(4)] w] show ?thesis by (simp add: exec_switch_def)
next
  case (s_for ini c ps b l)
  with x obtain vs r1 rc1 r2 where i: "eval_list ev ini (upd_top frame_enter r) = Inr (vs, r1)"
    and l: "for_loop ev ex i c ps b loop_limit r1 = Inr (rc1, r2)" and r': "r' = upd_top frame_leave r2"
    by (auto simp: exec_switch_def rbind_eq_Inr)
  have t: "\<forall>e \<in> set ini. \<exists>t. sound ev p i G T e t" "c = E_NULL \<or> (\<exists>t. sound ev p i G T c t)"
    "\<forall>e \<in> set ps. \<exists>t. sound ev p i G T e t"
    using s_for ev by blast+
  note en = enter_work [OF w]
  have "same_types i (upd_top frame_enter r) r1" using eval_list_sound [OF t(1) en(1) i] by simp
  note a1 = after_eval [OF en this]
  have "after p i G ret T (upd_top frame_enter r) r2"
    using after_trans [OF a1(1) for_sound [OF t(2,3) ex [OF s_for(6)] a1(2,3) l]] .
  from scope_after(1) [OF w this] show ?thesis using s_for(1,2) unfolding r' by simp
next
  case (s_return hv l e)
  with x return_sound [OF _ w, of hv ret ev e rc r' T'] show ?thesis by (simp add: exec_switch_def)
next
  case (s_give hv t e l)
  with x return_sound [OF _ w, of hv ret ev e rc r' T'] ev [OF s_give(5)] show ?thesis by (auto simp: exec_switch_def)
next
  case (s_state l nm)
  with x statechg_sound [OF w, of nm] show ?thesis by (auto simp: exec_switch_def)
qed (use x after_refl [OF w] in \<open>auto simp: exec_switch_def\<close>)

subsection \<open>Calls\<close>

lemma bind_args_sound:
  assumes ev: "\<And>e t. typed S p F T e t \<Longrightarrow> sound ev p i G T e t"
  shows "list_all2 (\<lambda>pm e. \<exists>u. takes (type_byte (pm_type pm)) u \<and> typed S p F T e u) ps es \<Longrightarrow> at_work p i G T r \<Longrightarrow>
    bind_args ev ps es f r = Inr (f', r') \<Longrightarrow>
    same_types i r r' \<and> locals_of f' = locals_of f @ param_types ps \<and> returning f' = returning f \<and> jumping f' = jumping f \<and>
    ret_val f' = ret_val f"
proof (induction ps arbitrary: es f r)
  case (Cons pm ps)
  from Cons.prems(1) obtain e es' u where es: "es = e # es'" and t: "takes (type_byte (pm_type pm)) u" "typed S p F T e u"
    and rest: "list_all2 (\<lambda>pm e. \<exists>u. takes (type_byte (pm_type pm)) u \<and> typed S p F T e u) ps es'"
    by (auto simp: list_all2_Cons1)
  obtain v r1 where e: "ev e r = Inr (v, r1)"
    and b: "bind_args ev ps es' (frame_define (pm_name pm) (coerce v (type_byte (pm_type pm))) f) r1 = Inr (f', r')"
    using Cons.prems(3) es by (auto simp: rbind_eq_Inr)
  from soundD_work [OF ev [OF t(2)] Cons.prems(2) e] have 1: "sv_type v = u" "same_types i r r1" "at_work p i G T r1" by simp_all
  have "sv_type (coerce v (type_byte (pm_type pm))) = type_byte (pm_type pm)" using t(1) 1(1) takes_coerce by simp
  with Cons.IH [OF rest 1(3) b] 1(2) show ?case
    by (auto simp: frame_define_def locals_of_def param_types_def intro: st.step_trans simp del: type_eqs)
qed (auto simp: param_types_def)

lemma push_work:
  assumes "i < n_scripts r" "prog (script_at r i) = p" "global_types i r = G" "length G = length (p_globals p)"
    and "pending_state (script_at r i) < 0"
    and "locals_of f = ls" "\<not> returning f" "\<not> jumping f" "ret_val f = SVoid" "scoped f"
  shows "at_work p i G (add_names ls (global_env p G)) (frame_push f r)"
  using assms by (simp add: at_work_def n_scripts_def script_at_def global_types_def top_locals_def plain_top_def)

text \<open>The context of a piece of code: no function at all, or those of the program, all typed, with the global variables as
  declared.\<close>

definition callable :: "(string \<Rightarrow> svtype option) \<Rightarrow> program \<Rightarrow> (cint \<Rightarrow> func_decl option) \<Rightarrow> svtype list \<Rightarrow> bool" where
  "callable S p F G \<longleftrightarrow> F = (\<lambda>_. None) \<or> F = find_func p \<and> (\<forall>fd \<in> set (p_funcs p). typed_fun S p fd) \<and> G = declared p"

context typed_library
begin

lemma call_sound:
  assumes n: "\<And>F ret G T e t. callable S p F G \<Longrightarrow> typed S p F T e t \<Longrightarrow> sound (vm_eval lib n i) p i G T e t"
    "\<And>F ret G T s T'. callable S p F G \<Longrightarrow> typed_stmt S p F ret T s T' \<Longrightarrow> sound_stmt (vm_exec lib n i) p i G ret T s T'"
    and F: "callable S p F G" "F nm = Some fd"
    and args: "list_all2 (\<lambda>pm e. \<exists>u. takes (type_byte (pm_type pm)) u \<and> typed S p F T e u) (fd_params fd) es"
    and w: "at_work p i G T r" and e: "eval_call lib (vm_eval lib n i) (vm_exec lib n i) i nm es r = Inr x"
  shows "yields i (fn_type fd) r x"
proof -
  have f: "find_func p nm = Some fd" "typed_fun S p fd" "G = declared p" and F': "F = find_func p"
    using F by (auto simp: callable_def find_func_def find_Some_iff)
  let ?t = "fn_type fd" and ?T = "add_names (param_types (fd_params fd)) (global_env p G)"
  obtain T' where ty: "typed_stmt S p F (Some ?t) ?T (fd_body fd) T'" and g: "?t = SV_VOID \<or> gives (fd_body fd)"
    using f(2,3) F' by (auto simp: typed_fun_def)
  have u: "run_user_func (vm_eval lib n i) (vm_exec lib n i) fd es r = Inr x"
    using e w f(1) by (simp add: eval_call_def at_work_def)
  then obtain f' r1 rc r2 where b: "bind_args (vm_eval lib n i) (fd_params fd) es new_frame r = Inr (f', r1)"
    and b2: "vm_exec lib n i (fd_body fd) (frame_push f' r1) = Inr (rc, r2)"
    and x: "x = (ret_val (hd (frames r2)), frame_pop r2)"
    by (auto simp: run_user_func_def rbind_eq_Inr)
  note ba = bind_args_sound [OF n(1) [OF F(1)] args w b]
  have w1: "at_work p i G T r1" using at_work_same [OF w] ba by blast
  have ek: "keeps eval_shape (vm_eval lib n i e)" for e using shapes by blast
  have sc: "scoped f'" using bind_args_shape [OF ek b] grows_scoped [OF _ scoped_new_frame] by auto
  have w2: "at_work p i G ?T (frame_push f' r1)"
    using ba sc w1 by (intro push_work) (simp_all add: at_work_def new_frame_def locals_of_def)
  have "frames (frame_push f' r1) \<noteq> []" by simp
  from sound_stmtD [OF n(2) [OF F(1) ty] w2 this b2] have a: "after p i G (Some ?t) T' (frame_push f' r1) r2"
    and gv: "gives (fd_body fd) \<longrightarrow> top_returning r2" by simp_all
  obtain f2 where f2: "frames r2 = f2 # frames r1" using a sc by (auto simp: after_def exec_shape_def)
  have tv: "sv_type (fst x) = ?t"
  proof (cases "at_work p i G T' r2")
    case True
    then have "\<not> top_returning r2" by (rule at_work_free)
    with g gv have "?t = SV_VOID" by auto
    moreover have "ret_val f2 = SVoid" using True f2 by (simp add: at_work_def plain_top_def)
    ultimately show ?thesis by (simp add: x f2)
  next
    case False
    with a x show ?thesis by (simp add: after_def left_def)
  qed
  have ex: "keeps exec_shape (vm_exec lib n i s)" for s using shapes by blast
  have es: "eval_shape r (frame_pop r2)" using keepsD [OF run_user_func_shape [OF ek ex] u [unfolded x]] .
  have "pending_state (script_at r2 i) < 0" using a by (auto simp: after_def left_def at_work_def)
  moreover have "top_locals (frame_pop r2) = top_locals r"
    using f2 ba by (simp add: top_locals_def same_types_def)
  moreover have "global_types i (frame_pop r2) = global_types i r"
    using a w by (simp add: after_def at_work_def global_types_def script_at_def)
  ultimately have "same_types i r (frame_pop r2)" using es by (simp add: same_types_def script_at_def)
  with tv show ?thesis by (simp add: yields_def x)
qed

lemma types_sound:
  "(\<forall>F G T e t. callable S p F G \<longrightarrow> typed S p F T e t \<longrightarrow> sound (vm_eval lib n i) p i G T e t) \<and>
   (\<forall>F G ret T s T'. callable S p F G \<longrightarrow> typed_stmt S p F ret T s T' \<longrightarrow> sound_stmt (vm_exec lib n i) p i G ret T s T')"
proof (induction n)
  case 0
  show ?case by (simp add: sound_def sound_stmt_def)
next
  case (Suc n)
  note ih = Suc [THEN conjunct1, rule_format] and ihs = Suc [THEN conjunct2, rule_format]
  have lit: "x = (SInt j, r)" if "vm_eval lib n i (E_INT_LIT h j) r = Inr x" for h j r x
    using that by (cases n) (simp_all add: eval_body_def)
  have "sound (vm_eval lib (Suc n) i) p i G T e t" if F: "callable S p F G" and t: "typed S p F T e t" for F G T e t
    unfolding sound_def
  proof (intro allI impI)
    fix r x
    assume w: "at_work p i G T r" and e: "vm_eval lib (Suc n) i e r = Inr x"
    from e have "eval_body lib (vm_eval lib n i) (vm_exec lib n i) i e r = Inr x" by simp
    from body_sound [OF ih [OF F] lit call_sound [OF ih ihs F] t w this] show "yields i t r x" .
  qed
  moreover have "sound_stmt (vm_exec lib (Suc n) i) p i G ret T s T'"
    if F: "callable S p F G" and t: "typed_stmt S p F ret T s T'" for F G ret T s T'
    unfolding sound_stmt_def
  proof (intro allI impI)
    fix r rc r'
    assume w: "at_work p i G T r" "frames r \<noteq> []" and e: "vm_exec lib (Suc n) i s r = Inr (rc, r')"
    show "after p i G ret T' r r' \<and> (ret \<noteq> None \<longrightarrow> gives s \<longrightarrow> top_returning r')"
    proof (cases "s = S_NULL")
      case True
      from t have "T' = T" unfolding True by cases
      with e True after_refl [OF w] show ?thesis by (simp add: exec_body_def)
    next
      case False
      let ?r = "stmt_hook i (stmt_line s) r"
      have "\<not> top_returning r \<and> \<not> top_jumping r" using at_work_free [OF w(1)] by (simp add: must_stop_def)
      with e False have x: "exec_switch (vm_eval lib n i) (vm_exec lib n i) n i s ?r = Inr (rc, r')"
        by (simp add: exec_body_def)
      note a = after_eval [OF w hook_same [of i r i "stmt_line s"]]
      from stmt_sound [OF ih [OF F] ihs [OF F] t a(2,3) x] after_trans [OF a(1)] show ?thesis by blast
    qed
  qed
  ultimately show ?case by blast
qed

text \<open>A handler with fitting arguments leaves the global variables with their declared types.\<close>

lemma handler_sound:
  assumes "typed_handler S p ed" "\<forall>fd \<in> set (p_funcs p). typed_fun S p fd"
    and r: "i < n_scripts r" "prog (script_at r i) = p" "global_types i r = declared p" "pending_state (script_at r i) < 0"
    and "list_all2 (\<lambda>pm v. takes (type_byte (pm_type pm)) (sv_type v)) (ed_params ed) args"
    and d: "vm_dispatch lib n i ed args r = Inr r'"
  shows "global_types i r' = declared p"
proof -
  have b: "locals_of (bind_values ps vs f) = locals_of f @ param_types ps \<and> returning (bind_values ps vs f) = returning f \<and>
      jumping (bind_values ps vs f) = jumping f \<and> ret_val (bind_values ps vs f) = ret_val f \<and> grows f (bind_values ps vs f)"
    if "list_all2 (\<lambda>pm v. takes (type_byte (pm_type pm)) (sv_type v)) ps vs" for ps vs f
    using that
  proof (induction ps vs arbitrary: f rule: list_all2_induct)
    case (Cons pm ps v vs)
    have "grows f (frame_define nm w f)" for nm w by (rule grows_define)
    with Cons takes_coerce [OF Cons.hyps(1)] show ?case
      by (auto simp: frame_define_def locals_of_def param_types_def intro: grows_trans simp del: type_eqs)
  qed (simp add: param_types_def)
  let ?f = "bind_values (ed_params ed) args new_frame" and ?T = "add_names (param_types (ed_params ed)) (global_env p (declared p))"
  obtain T' where ty: "typed_stmt S p (find_func p) None ?T (ed_body ed) T'" using assms(1) by (auto simp: typed_handler_def)
  obtain rc r1 where x: "vm_exec lib n i (ed_body ed) (frame_push ?f r) = Inr (rc, r1)" and r': "r' = frame_pop r1"
    using d by (auto simp: vm_dispatch_def rbind_eq_Inr)
  note bf = b [OF assms(7), of new_frame]
  have "at_work p i (declared p) ?T (frame_push ?f r)"
    using r bf grows_scoped [OF _ scoped_new_frame]
    by (intro push_work) (simp_all add: new_frame_def locals_of_def declared_def)
  moreover have "callable S p (find_func p) (declared p)" using assms(2) by (simp add: callable_def)
  ultimately have "after p i (declared p) None T' (frame_push ?f r) r1"
    using sound_stmtD [OF types_sound [THEN conjunct2, rule_format, OF _ ty] _ _ x] by simp
  then show ?thesis unfolding r' by (simp add: after_def global_types_def script_at_def)
qed

end

end
