(* ===== verification/TypeLib.thy ===== *)
theory TypeLib
  imports TypeSound RegionLoop
begin

text \<open>
  The types on the emulator's own library: signatures for the functions on chat, text, lists and
  numbers, and with them the soundness of types for expressions, for the initialisation of a script and for its handlers.
\<close>

subsection \<open>Steps that keep the types\<close>

lemma types_then: "same_types i r r' \<Longrightarrow> same_types i r' r'' \<Longrightarrow> same_types i r r''"
  by (rule st.step_trans)

lemma types_data: "same_types i r r' \<Longrightarrow> scripts r'' = scripts r' \<Longrightarrow> frames r'' = frames r' \<Longrightarrow> same_types i r r''"
  by (rule types_then [OF _ same_types_data])

lemma types_upd:
  assumes "same_types i r r'"
    and f: "\<And>s. keeps_script s (f s)" "\<And>s. globals (f s) = globals s" "\<And>s. pending_state (f s) = pending_state s"
  shows "same_types i r (upd_script j f r')"
proof (rule types_then [OF assms(1)])
  have "eval_shape r' (upd_script j f r')" using f(1) by (rule eval_shape_upd_script)
  moreover have "script_at (upd_script j f r') i = (if j = i \<and> i < n_scripts r' then f (script_at r' i) else script_at r' i)"
    by (auto simp: script_at_def upd_script_def n_scripts_def) (simp add: update_nth_def)
  then have "globals (script_at (upd_script j f r') i) = globals (script_at r' i)"
    "pending_state (script_at (upd_script j f r') i) = pending_state (script_at r' i)"
    using f(2,3) by simp_all
  ultimately show "same_types i r' (upd_script j f r')"
    by (simp add: same_types_def top_locals_def global_types_def)
qed

lemma types_push: "same_types i r r' \<Longrightarrow> same_types i r (script_push_event j nm args r')"
  unfolding script_push_event_def by (rule types_upd) (simp_all add: enqueue_def keeps_script_def)

lemma types_quiet: "same_types i r r' \<Longrightarrow> quiet r' r'' \<Longrightarrow> same_types i r r''"
  by (rule types_data) (simp_all add: quiet_fields)

lemmas types_evt = quiet_evt [THEN types_quiet [rotated]]

lemma types_fold: "same_types i r r' \<Longrightarrow> (\<And>x r. same_types i r (f x r)) \<Longrightarrow> same_types i r (fold f xs r')"
proof (induction xs arbitrary: r')
  case (Cons x xs)
  then show ?case using types_then [OF Cons.prems(1), of "f x r'"] by simp
qed simp

lemma types_fields:
  "same_types i r r' \<Longrightarrow> same_types i r (chatlog_record k ch msg r')"
  "same_types i r r' \<Longrightarrow> same_types i r (dialog_open j dst msg bs ch tb r')"
  "same_types i r r' \<Longrightarrow> same_types i r (r'\<lparr>n_rand := a\<rparr>)"
  by (erule types_data; simp add: chatlog_record_def dialog_open_def)+

lemma types_listens: "same_types i r r' \<Longrightarrow> same_types i r (push_listens hit args t r')"
  unfolding push_listens_def by (rule types_fold) (auto intro: types_push)

lemma types_say: "same_types i r (say_on kind j ch msg r)"
  unfolding say_on_def route_listen_def
  by (intro types_fold types_fields types_evt st.step_refl types_listens)

lemma types_shuffle: "fold (shuffle_step st) ks (xs, r) = (ys, r') \<Longrightarrow> same_types i r r'"
proof (induction ks arbitrary: xs r)
  case (Cons k ks)
  obtain zs r1 where 1: "shuffle_step st k (xs, r) = (zs, r1)" by (cases "shuffle_step st k (xs, r)")
  then have "same_types i r r1" by (auto simp: shuffle_step_def intro: same_types_data)
  with Cons 1 show ?case using types_then by auto
qed simp

subsection \<open>Signatures\<close>

text \<open>A function whose results have the type \<open>t\<close>, if there is one, and that leaves the variables alone.\<close>

definition gives_type :: "builtin \<Rightarrow> svtype option \<Rightarrow> bool" where
  "gives_type b t \<longleftrightarrow> (\<forall>u. t = Some u \<longrightarrow> (\<forall>ev i a r v r'. b ev i a r = Inr (v, r') \<longrightarrow> sv_type v = u \<and> same_types i r r'))"

lemma gives_none [simp]: "gives_type b None"
  by (simp add: gives_type_def)

lemma gives_pure: "(\<And>a. sv_type (f a) = t) \<Longrightarrow> gives_type (pure_bi f) (Some t)"
  by (auto simp: gives_type_def pure_bi_def simp del: type_eqs)

lemma gives_partial: "(\<And>a v. f a = Inr v \<Longrightarrow> sv_type v = t) \<Longrightarrow> gives_type (partial_bi f) (Some t)"
  by (auto simp: gives_type_def partial_bi_def rbind_eq_Inr simp del: type_eqs)

lemma gives_read: "(\<And>i a r. sv_type (f i a r) = t) \<Longrightarrow> gives_type (read_bi f) (Some t)"
  by (auto simp: gives_type_def read_bi_def simp del: type_eqs)

lemma gives_step:
  assumes "\<And>i a r. sv_type (fst (f i a r)) = t" "\<And>i a r. same_types i r (snd (f i a r))"
  shows "gives_type (step_bi f) (Some t)"
  unfolding gives_type_def
proof (intro allI impI)
  fix u ev i a r v r' assume "Some t = Some u" "step_bi f ev i a r = Inr (v, r')"
  then have "t = u" "f i a r = (v, r')" by (simp_all add: step_bi_def)
  with assms(1) [of i a r] assms(2) [of i r a] show "sv_type v = u \<and> same_types i r r'" by simp
qed

definition io_types :: "svtype option list" where
  "io_types = replicate 11 (Some SV_VOID)"

definition string_types :: "svtype option list" where
  "string_types = map Some [SV_INTEGER, SV_INTEGER, SV_STRING, SV_STRING, SV_STRING, SV_STRING, SV_STRING, SV_STRING,
     SV_STRING, SV_INTEGER]"

text \<open>Inserting into and replacing in what is no list give it back, so these two have no signature.\<close>

definition list_types :: "svtype option list" where
  "list_types = map Some [SV_INTEGER, SV_STRING, SV_INTEGER, SV_FLOAT, SV_KEY, SV_VECTOR, SV_ROTATION, SV_LIST, SV_INTEGER] @
     [None, None] @
     map Some [SV_LIST, SV_LIST, SV_STRING, SV_STRING, SV_LIST, SV_LIST, SV_LIST, SV_LIST]"

definition math_types :: "svtype option list" where
  "math_types = map Some [SV_INTEGER, SV_FLOAT, SV_INTEGER, SV_INTEGER, SV_INTEGER, SV_FLOAT, SV_FLOAT, SV_FLOAT, SV_FLOAT,
     SV_FLOAT, SV_FLOAT, SV_FLOAT, SV_FLOAT, SV_FLOAT, SV_FLOAT, SV_FLOAT, SV_FLOAT, SV_VECTOR, SV_FLOAT]"

definition typed_rows :: "(string \<times> builtin) list" where
  "typed_rows = io_table @ string_table @ list_table @ math_table"

definition ll_type :: "string \<Rightarrow> svtype option" where
  "ll_type nm = (case map_of (zip (map fst typed_rows) (io_types @ string_types @ list_types @ math_types)) nm of
     Some t \<Rightarrow> t | None \<Rightarrow> None)"

definition row_types :: "(string \<times> builtin) list \<Rightarrow> svtype option list \<Rightarrow> bool" where
  "row_types t ts \<longleftrightarrow> list_all2 (\<lambda>(nm, b) u. gives_type b u) t ts"

lemma row_types_append: "row_types t ts \<Longrightarrow> row_types t' ts' \<Longrightarrow> row_types (t @ t') (ts @ ts')"
  unfolding row_types_def by (rule list_all2_appendI)

lemma item_type: "t \<in> {SV_STRING, SV_INTEGER, SV_FLOAT, SV_KEY, SV_VECTOR, SV_ROTATION} \<Longrightarrow> sv_type (item_as t v) = t"
  by (auto simp: item_as_def)

lemma list_at_type: "t \<in> {SV_STRING, SV_INTEGER, SV_FLOAT, SV_KEY, SV_VECTOR, SV_ROTATION} \<Longrightarrow> sv_type (list_at a k t) = t"
  using item_type [of t] by (auto simp: list_at_def Let_def split: option.split simp del: type_eqs)

lemmas types_intros = st.step_refl types_push types_fold types_fields types_listens types_say types_evt

lemma types_chat:
  "same_types i r (snd (bi_llSay j a r))" "same_types i r (snd (bi_llWhisper j a r))"
  "same_types i r (snd (bi_llShout j a r))" "same_types i r (snd (bi_llRegionSay j a r))"
  "same_types i r (snd (bi_llOwnerSay j a r))" "same_types i r (snd (bi_llInstantMessage j a r))"
  "same_types i r (snd (bi_llDialog j a r))" "same_types i r (snd (bi_llTextBox j a r))"
  "same_types i r (snd (bi_llLoadURL j a r))"
  by (simp add: bi_llSay_def bi_llWhisper_def bi_llShout_def bi_llOwnerSay_def bi_llRegionSay_def bi_llInstantMessage_def
      bi_llDialog_def bi_llTextBox_def bi_llLoadURL_def Let_def; intro types_intros)+

lemma types_say_to: "same_types i r (snd (bi_llRegionSayTo j a r))"
  unfolding bi_llRegionSayTo_def Let_def snd_conv
  by (intro types_fold types_fields types_evt st.step_refl) (auto intro: types_listens)

lemma types_text: "same_types i r (snd (bi_llSetText j a r))"
  by (auto simp: bi_llSetText_def Let_def keeps_script_def split: prod.splits intro!: types_evt types_upd)

lemma io_rows: "row_types io_table io_types"
  unfolding row_types_def io_table_def io_types_def
  by (simp add: eval_nat_numeral, intro conjI gives_step types_chat types_say_to types_text)
    (simp_all add: bi_llSay_def bi_llWhisper_def bi_llShout_def bi_llOwnerSay_def bi_llRegionSay_def bi_llRegionSayTo_def
        bi_llInstantMessage_def bi_llSetText_def bi_llDialog_def bi_llTextBox_def bi_llLoadURL_def Let_def split: prod.split)

lemma string_rows: "row_types string_table string_types"
  unfolding row_types_def string_table_def string_types_def
  by (simp, intro conjI gives_pure gives_partial)
    (auto simp: bi_llStringLength_def bi_llSubStringIndex_def bi_llGetSubString_def bi_llDeleteSubString_def bi_llInsertString_def
      bi_llToLower_def bi_llToUpper_def bi_llStringTrim_def bi_llChar_def bi_llOrd_def Let_def len_value_def split: if_splits)

lemma types_randomize: "sv_type (fst (bi_llListRandomize j a r)) = SV_LIST \<and> same_types i r (snd (bi_llListRandomize j a r))"
  by (auto simp: bi_llListRandomize_def Let_def split: option.split prod.split dest: types_shuffle)

lemma list_rows: "row_types list_table list_types"
  unfolding row_types_def list_table_def list_types_def
  by (simp, intro conjI gives_pure gives_step types_randomize [THEN conjunct1] types_randomize [THEN conjunct2])
    (simp_all add: bi_llGetListLength_def len_value_def bi_llList2String_def bi_llList2Integer_def bi_llList2Float_def
      bi_llList2Key_def bi_llList2Vector_def bi_llList2Rot_def bi_llList2List_def bi_llListFindList_def bi_llDeleteSubList_def
      bi_llListSort_def bi_llDumpList2String_def bi_llList2CSV_def bi_llCSV2List_def bi_llParseString2List_def
      bi_llParseStringKeepNulls_def parse_string2list_def list_at_type split: option.split del: type_eqs)

lemma math_rows: "row_types math_table math_types"
  unfolding row_types_def math_table_def math_types_def
  by (simp, intro conjI gives_pure gives_read gives_step types_fields)
    (auto simp: bi_llAbs_def bi_llFabs_def bi_llFloor_def bi_llCeil_def bi_llRound_def bi_llSqrt_def libm1_def libm2_def
      libm_log_def bi_llFrand_def bi_llVecMag_def bi_llVecNorm_def bi_llVecDist_def Let_def split: option.split prod.split
      intro!: types_fields)

lemma map_of_rows:
  "row_types t ts \<Longrightarrow> map_of (zip (map fst t) ts) nm = Some u \<Longrightarrow> \<exists>b. map_of t nm = Some b \<and> gives_type b u"
  unfolding row_types_def by (induction t ts rule: list_all2_induct) (auto split: if_splits)

interpretation tl: typed_library builtins_lookup ll_type
proof
  fix nm t i
  assume "ll_type nm = Some t"
  then have "map_of (zip (map fst typed_rows) (io_types @ string_types @ list_types @ math_types)) nm = Some (Some t)"
    by (simp add: ll_type_def split: option.splits)
  moreover have "row_types typed_rows (io_types @ string_types @ list_types @ math_types)"
    unfolding typed_rows_def by (intro row_types_append io_rows string_rows list_rows math_rows)
  ultimately obtain b where b: "map_of typed_rows nm = Some b" "gives_type b (Some t)" using map_of_rows by blast
  have "builtin_table = typed_rows @ drop (length typed_rows) builtin_table"
    by (simp add: builtin_table_def typed_rows_def)
  then have "builtins_lookup nm = Some b" using b(1) by (metis builtins_lookup_def map_add_Some_iff map_of_append)
  with b(2) show "\<exists>b. builtins_lookup nm = Some b \<and>
      (\<forall>ev i vs r v r'. i < n_scripts r \<longrightarrow> b ev i vs r = Inr (v, r') \<longrightarrow> sv_type v = t \<and> same_types i r r')"
    by (simp add: gives_type_def del: type_eqs)
qed

subsection \<open>Expressions, handlers and the start of a script\<close>

text \<open>C6 Types are sound: evaluating a typed expression of a typed program, with any fuel, gives a value of the type
  of the expression, and afterwards every variable still has its type; assignments, also compound ones and those to
  components, \<open>++\<close> and \<open>--\<close>, calls of the program's functions and calls of library functions included.\<close>

theorem eval_type_sound:
  assumes "typed ll_type p (find_func p) T e t" "typed_program ll_type p" "at_work p i (declared p) T r"
    and "vm_eval builtins_lookup n i e r = Inr (v, r')"
  shows "sv_type v = t \<and> at_work p i (declared p) T r' \<and> (\<forall>nm. find_cell i nm r' = find_cell i nm r)"
proof -
  have "callable ll_type p (find_func p) (declared p)" using assms(2) by (simp add: callable_def typed_program_def)
  from soundD_work [OF tl.types_sound [THEN conjunct1, rule_format, OF this assms(1)] assms(3,4)]
  show ?thesis using same_find_cell [OF assms(3)] by blast
qed

lemma handler_in_program:
  "find_handler p st nm = Some ed \<Longrightarrow> nat st < length (p_states p) \<Longrightarrow> \<exists>sd \<in> set (p_states p). ed \<in> set (sd_events sd)"
  by (auto simp: find_handler_def find_Some_iff intro!: bexI [of _ "p_states p ! nat st"])

text \<open>C7 Whatever a handler of a typed program does, with functions, loops and changes of state, the global variables have
  their declared types when it has run, and no frame is left behind; its event must carry arguments of the types
  of its parameters.\<close>

theorem handler_keeps_types:
  assumes "typed_program ll_type (prog (script_at r i))" "i < n_scripts r" "global_types i r = declared (prog (script_at r i))"
    and "pending_state (script_at r i) < 0" "cur_state (script_at r i) < int (length (p_states (prog (script_at r i))))"
    and "\<forall>ed. find_handler (prog (script_at r i)) (cur_state (script_at r i)) (ev_name ev) = Some ed \<longrightarrow>
      list_all2 (\<lambda>pm v. takes (type_byte (pm_type pm)) (sv_type v)) (ed_params ed) (ev_args ev)"
    and "dispatch_event builtins_lookup n i ev r = Inr r'"
  shows "global_types i r' = declared (prog (script_at r i)) \<and> prog (script_at r' i) = prog (script_at r i) \<and>
    frames r' = frames r"
proof (cases "cur_state (script_at r i) < 0 \<or> find_handler (prog (script_at r i)) (cur_state (script_at r i)) (ev_name ev) = None")
  case True
  then have "r' = r" using assms(7) by (auto simp: dispatch_event_def Let_def split: if_splits)
  with assms(3) show ?thesis by simp
next
  case False
  then obtain ed where ed: "find_handler (prog (script_at r i)) (cur_state (script_at r i)) (ev_name ev) = Some ed"
    and c: "0 \<le> cur_state (script_at r i)" by auto
  let ?r = "evt_event_dispatch i (ev_name ev) (length (ev_args ev)) r"
  have d: "vm_dispatch builtins_lookup n i ed (ev_args ev) ?r = Inr r'"
    using assms(7) ed c by (simp add: dispatch_event_def Let_def)
  have q: "scripts ?r = scripts r" "frames ?r = frames r" by simp_all
  then have s: "script_at ?r i = script_at r i" "n_scripts ?r = n_scripts r" by (simp_all add: script_at_def n_scripts_def)
  have "nat (cur_state (script_at r i)) < length (p_states (prog (script_at r i)))" using assms(5) c by linarith
  with handler_in_program [OF ed] assms(1) have h: "typed_handler ll_type (prog (script_at r i)) ed"
    by (auto simp: typed_program_def)
  have "global_types i r' = declared (prog (script_at r i))"
    using tl.handler_sound [OF h _ _ _ _ _ _ d] assms(1-4,6) ed s by (simp add: typed_program_def global_types_def)
  moreover have "keeps_scripts ?r r' \<and> frames r' = frames ?r" using lib.vm_dispatch_shape [OF d] .
  ultimately show ?thesis
    using keeps_scripts_at [of ?r r' i] assms(2) s q by (simp add: keeps_script_def)
qed

lemma init_globals_types:
  assumes "\<forall>k < length (p_globals p). typed_init ll_type p ts k" "length ts = length (p_globals p)"
  shows "pre @ gs = p_globals p \<Longrightarrow> k = length pre \<Longrightarrow> i < n_scripts r \<Longrightarrow> prog (script_at r i) = p \<Longrightarrow> frames r = [] \<Longrightarrow>
    pending_state (script_at r i) < 0 \<Longrightarrow>
    global_types i r = take k ts @ replicate (length (p_globals p) - k) SV_VOID \<Longrightarrow>
    init_globals (vm_eval builtins_lookup n i) i k gs r = Inr r' \<Longrightarrow> global_types i r' = ts \<and> n_scripts r' = n_scripts r"
proof (induction gs arbitrary: pre k r)
  case Nil
  with assms(2) show ?case by simp
next
  case (Cons g gs)
  let ?G = "global_types i r"
  have k: "k < length (p_globals p)" "p_globals p ! k = g" using Cons.prems(1,2) by (auto simp: nth_append simp flip: Cons.prems(1))
  obtain v r1 where e: "(if gv_init g = E_NULL then Inr (sv_zero (type_byte (gv_type g)), r) else vm_eval builtins_lookup n i (gv_init g) r) =
      Inr (v, r1)"
    and n: "init_globals (vm_eval builtins_lookup n i) i (Suc k) gs (upd_script i (\<lambda>s. s\<lparr>globals := (globals s)[k := v]\<rparr>) r1) = Inr r'"
    using Cons.prems(8) by (auto simp: rbind_eq_Inr)
  have len: "length ?G = length (p_globals p)" using Cons.prems(7) k(1) assms(2) by simp
  have w: "at_work p i ?G (global_env p ?G) r"
    using Cons.prems(3-6) len by (simp add: at_work_def top_locals_def add_names_def plain_top_def)
  have ti: "typed_init ll_type p ts k" using assms(1) k(1) by blast
  have vs: "sv_type v = ts ! k \<and> same_types i r r1"
  proof (cases "gv_init g = E_NULL")
    case True
    with e ti k(2) show ?thesis by (auto simp: typed_init_def Let_def sv_zero_type simp del: type_eqs)
  next
    case False
    with ti k(2) Cons.prems(7) have "typed ll_type p (\<lambda>_. None) (global_env p ?G) (gv_init g) (ts ! k)"
      by (simp add: typed_init_def Let_def)
    from tl.types_sound [THEN conjunct1, rule_format, OF _ this, of ?G n i] have
      "sound (vm_eval builtins_lookup n i) p i ?G (global_env p ?G) (gv_init g) (ts ! k)"
      by (simp add: callable_def)
    from soundD [OF this w] e False show ?thesis by (simp del: type_eqs)
  qed
  then have v: "sv_type v = ts ! k" and s: "same_types i r r1" by blast+
  have es: "eval_shape r r1" using s by (simp add: same_types_def)
  let ?r = "upd_script i (\<lambda>s. s\<lparr>globals := (globals s)[k := v]\<rparr>) r1"
  have w1: "i < n_scripts r1" "prog (script_at r1 i) = p" "pending_state (script_at r1 i) < 0" "n_scripts r1 = n_scripts r"
    using at_work_same [OF w s] es keeps_scripts_n by (auto simp: at_work_def eval_shape_def)
  have f1: "frames r1 = []" using es Cons.prems(5) by (simp add: eval_shape_def)
  have s2: "script_at ?r i = (script_at r1 i)\<lparr>globals := (globals (script_at r1 i))[k := v]\<rparr>" "n_scripts ?r = n_scripts r1"
    using w1(1) by (simp_all add: script_at_def upd_script_def n_scripts_def nth_update_nth)
  have "global_types i ?r = (global_types i r)[k := ts ! k]"
    using s v s2(1) by (simp add: global_types_def map_update same_types_def)
  also have "\<dots> = take (Suc k) ts @ replicate (length (p_globals p) - Suc k) SV_VOID"
  proof -
    have "length (p_globals p) - k = Suc (length (p_globals p) - Suc k)" using k(1) by simp
    moreover have "length (take k ts) = k" "k < length ts" using k(1) assms(2) by simp_all
    ultimately show ?thesis
      unfolding Cons.prems(7) by (simp add: list_update_append take_Suc_conv_app_nth)
  qed
  finally have g: "global_types i ?r = take (Suc k) ts @ replicate (length (p_globals p) - Suc k) SV_VOID" .
  have "global_types i r' = ts \<and> n_scripts r' = n_scripts ?r"
    by (rule Cons.IH [of "pre @ [g]" "Suc k", OF _ _ _ _ _ _ g n]) (use Cons.prems(1,2) w1 s2 f1 in simp_all)
  with s2(2) w1(4) show ?case by simp
qed

text \<open>C8 When a script starts, each global variable gets the type of its initialiser, which is not converted to the
  declared type (\<open>float x = 1\<close> starts as an integer), and its declared type when it has no initialiser. The initialisers
  are typed one after the other, with the later variables still void, and call no function of the program.\<close>

theorem start_gives_types:
  assumes "\<forall>k < length (p_globals (prog (script_at r i))). typed_init ll_type (prog (script_at r i)) ts k"
    and "length ts = length (p_globals (prog (script_at r i)))"
    and "i < n_scripts r" "frames r = []" "pending_state (script_at r i) < 0"
    and "globals (script_at r i) = replicate (length (p_globals (prog (script_at r i)))) SVoid"
    and "init_script builtins_lookup n i r = Inr r'"
  shows "global_types i r' = ts"
proof -
  let ?p = "prog (script_at r i)"
  obtain r1 where n: "init_globals (vm_eval builtins_lookup n i) i 0 (p_globals ?p) r = Inr r1"
    and r': "r' = script_push_event i ''state_entry'' [] (upd_script i start_state r1)"
    using assms(7) by (auto simp: init_script_def rbind_eq_Inr)
  have g: "global_types i r1 = ts \<and> n_scripts r1 = n_scripts r"
    using assms(1-6) n
    by (intro init_globals_types [where p = ?p and pre = "[]" and gs = "p_globals ?p" and k = 0 and r = r and n = n])
      (simp_all add: global_types_def)
  then have "globals (script_at r' i) = globals (script_at r1 i)"
    using assms(3) unfolding r' script_push_event_def
    by (simp add: script_at_def upd_script_def n_scripts_def nth_update_nth start_state_def enqueue_def)
  with g show ?thesis by (simp add: global_types_def)
qed

end
