(* ===== verification/Witnesses.thy ===== *)
theory Witnesses
  imports LoaderProps WorldProps TextProps EncodingProps JsonProps DriverProps RegionMem TypeLib
begin

text \<open>
  Closed instances of the properties that have hypotheses: each theorem here applies a property to a
  concrete program, region or text for which the hypotheses hold.
\<close>

subsection \<open>A small world\<close>

definition demo_host :: host where
  "demo_host = \<lparr>h_rand = (\<lambda>n. 17 * n + 4), h_time = (\<lambda>n. of_nat n), h_timestamp = (\<lambda>n. []), h_date = (\<lambda>n. []),
     h_wallclock = (\<lambda>n. d_zero), h_libm = (\<lambda>f xs. d_zero), h_expired = (\<lambda>n. False),
     h_can_open = (\<lambda>f. True), h_curl = (\<lambda>n a. (200, ''ok''))\<rparr>"

definition demo_program :: program where
  "demo_program = \<lparr>p_strings = [''default'', ''x''], p_globals = [\<lparr>gv_type = 1, gv_name = 1, gv_init = E_NULL\<rparr>],
     p_funcs = [], p_states = [\<lparr>sd_name = 0, sd_line = 0, sd_is_default = 1, sd_events = []\<rparr>], p_flags = 0,
     p_path = ''demo''\<rparr>"

definition demo_listen :: listen_entry where
  "demo_listen = \<lparr>le_handle = 1, le_channel = 0, name_filter = [], id_filter = [], msg_filter = [], le_active = True\<rparr>"

definition demo_region :: region where
  "demo_region = (let r = region_init demo_host None in r\<lparr>
     scripts := [(new_script demo_program ''k1'' r)\<lparr>listens := [demo_listen]\<rparr>],
     avatars := [\<lparr>av_uuid = ''a1'', av_name = ''Ann'', balance = 100, attached_object = None\<rparr>],
     next_handle := 2, vol := Some volume_open, frames := [new_frame]\<rparr>)"

lemma demo_simps [simp]:
  "n_scripts demo_region = 1" "script_at demo_region 0 = hd (scripts demo_region)"
  "scripts demo_region = [(new_script demo_program ''k1'' (region_init demo_host None))\<lparr>listens := [demo_listen]\<rparr>]"
  "avatars demo_region = [\<lparr>av_uuid = ''a1'', av_name = ''Ann'', balance = 100, attached_object = None\<rparr>]"
  "next_handle demo_region = 2" "vol demo_region = Some volume_open" "host demo_region = demo_host"
  "frames demo_region = [new_frame]" "json_events demo_region = False" "dbg demo_region = dbg_off"
  by (simp_all add: demo_region_def Let_def n_scripts_def script_at_def region_init_def)

subsection \<open>Loader\<close>

lemma demo_ok: "ok_program 2 demo_program"
  by (simp add: ok_program_def demo_program_def ok_string_def ok_global_def ok_state_def ok_line_def)

theorem program_load_roundtrip_witness:
  "program_load (\<lambda>_. 0) ''demo'' (enc_program 2 demo_program @ [0, 1]) = Inr (Some demo_program)"
  using program_load_roundtrip [OF demo_ok, of "\<lambda>_. 0" "[0, 1]"] by (simp add: demo_program_def)

theorem program_load_truncated_witness:
  "program_load (\<lambda>_. 0) ''f'' (take 5 (enc_program 2 demo_program)) \<noteq> Inr (Some demo_program)"
proof (rule program_load_truncated [OF demo_ok])
  show "enc_program 2 demo_program = take 5 (enc_program 2 demo_program) @ drop 5 (enc_program 2 demo_program)"
    by simp
  show "drop 5 (enc_program 2 demo_program) \<noteq> []"
    using enc_program_header(1) [OF demo_ok] by simp
qed

theorem program_load_bad_header_witness:
  "program_load (\<lambda>_. 0) ''f'' [1, 2, 3] = Inr None"
  by (rule program_load_bad_header) simp

subsection \<open>Operators and events\<close>

theorem eval_binary_div_mod_witness:
  "\<exists>q m. eval_binary OP_SLASH (SInt (- 7)) (SInt 2) = Inr (SInt q) \<and>
     eval_binary OP_PERCENT (SInt (- 7)) (SInt 2) = Inr (SInt m) \<and>
     sint (- 7 :: llong) = sint q * sint (2 :: llong) + sint m"
proof -
  have "(2 :: llong) \<noteq> 0" "\<not> ((- 7 :: llong) = ll_min \<and> (2 :: llong) = - 1)" by (simp_all add: ll_min_def)
  with eval_binary_div_mod [of "2 :: llong" "- 7"] show ?thesis by (simp only: if_False simp_thms) blast
qed

theorem cast_int_float_int_witness: "do_cast (do_cast (SInt 42) SV_FLOAT) SV_INTEGER = SInt 42"
  by (rule cast_int_float_int) simp

theorem evt_chat_one_line_witness:
  "\<exists>t. out (evt_chat 0 ''say'' 0 [CHR 0x0A] (demo_region\<lparr>json_events := True\<rparr>)) =
     out (demo_region\<lparr>json_events := True\<rparr>) @ t @ [CHR 0x0A] \<and> CHR 0x0A \<notin> set t"
  by (rule evt_chat_one_line) (simp_all add: dbg_off_def)

subsection \<open>Volume, HTTP\<close>

theorem economy_roundtrip_witness:
  "avatars (volume_load_economy ((region_init demo_host None)\<lparr>vol := vol (volume_save_economy demo_region)\<rparr>)) =
     avatars demo_region"
proof -
  have "avatars (volume_load_economy ((region_init demo_host None)\<lparr>vol := vol (volume_save_economy demo_region)\<rparr>)) =
     map (\<lambda>a. a\<lparr>attached_object := None\<rparr>) (avatars demo_region)"
    by (rule economy_roundtrip)
      (simp_all add: demo_host_def plain_avatar_def economy_line_def tab_def nl_def show_ll_def show_int_def
        region_init_def av_keys_def show_nat.simps [of 100] show_nat.simps [of 10] show_nat.simps [of "Suc 0"])
  then show ?thesis by simp
qed

theorem lsd_read_after_write_witness:
  "volume_lsd_read ''a/b'' (snd (volume_lsd_write (\<lambda>_. True) ''a_b'' ''v'' volume_open)) = Some ''v''"
  using lsd_read_after_write [of "\<lambda>_. True" "''a_b''" "''v''" volume_open "''a/b''"]
  by (simp add: sanitise_key_def safe_char_def isalnum_def isdigit_def isupper_def islower_def ord_char_def)

theorem fixture_last_wins_witness:
  "http_fixture_match (http_fix (snd (config_directive ''FIXTURE_URL'' ''b'' (False, demo_region)))) ''abc'' =
     Some \<lparr>match_url = Some ''b'', fx_status = 200, fx_body = None\<rparr>"
proof -
  obtain fx r where c: "config_directive ''FIXTURE_URL'' ''b'' (False, demo_region) = (fx, r)"
    by (cases "config_directive ''FIXTURE_URL'' ''b'' (False, demo_region)")
  show ?thesis
    using fixture_last_wins [OF c, of "''abc''"] by (simp add: c has_substr_def rest_of_def is_blank_def)
qed

subsection \<open>The region functions\<close>

theorem say_routing_witness:
  "evq (script_at (snd (bi_llSay 0 [SInt 0, SString ''hi''] demo_region)) 0) =
     [\<lparr>ev_name = ''listen'', ev_args = [SInt 0, SString ''Object'', SKey ''k1'', SString ''hi'']\<rparr>]"
  by (subst say_routing) (simp_all add: Let_def new_script_def demo_listen_def ai_int_def ai_def
      int_of_ll_def cint_of_ll_def as_str_def opt_str_def int_value_def)

theorem link_message_routing_witness:
  "evq (script_at (snd (bi_llMessageLinked 0 [SInt 1, SInt 7, SString ''m'', SKey ''k''] demo_region)) 0) =
     [\<lparr>ev_name = ''link_message'', ev_args = [SInt 1, SInt 7, SString ''m'', SKey ''k'']\<rparr>]"
  by (subst link_message_routing) (simp_all add: Let_def new_script_def ai_int_def ai_def
      int_of_ll_def cint_of_ll_def as_str_def opt_str_def int_value_def region_init_def n_scripts_def)

theorem listen_handles_unique_witness:
  "handles_ok (snd (bi_llListen 0 [SInt 5, SString [], SKey [], SString []] demo_region))"
proof -
  have "handles_ok demo_region" by (simp add: handles_ok_def handles_def demo_listen_def new_script_def)
  then show ?thesis using listen_handles_unique [of demo_region 0] by simp
qed

text \<open>The script may debit, and its owner has 100.\<close>

definition demo_payer :: region where
  "demo_payer = (upd_script 0 (\<lambda>s. s\<lparr>perms := permission_debit\<rparr>) demo_region)
     \<lparr>avatars := [\<lparr>av_uuid = owner_uuid demo_region, av_name = ''Ann'', balance = 100, attached_object = None\<rparr>]\<rparr>"

lemma demo_payer_funds: "funds demo_payer (owner_uuid demo_payer) = 100" "funds demo_payer ''a2'' = 0" "owner_uuid demo_payer \<noteq> ''a2''"
  by code_simp+

theorem give_money_ledger_witness:
  "\<exists>r'. give_money 0 [SKey ''a2'', SInt 30] demo_payer = (True, r') \<and> total_money r' = total_money demo_payer \<and>
     funds r' (owner_uuid demo_payer) = 70 \<and> funds r' ''a2'' = 30"
proof -
  obtain ok r where g: "give_money 0 [SKey ''a2'', SInt 30] demo_payer = (ok, r)"
    by (cases "give_money 0 [SKey ''a2'', SInt 30] demo_payer")
  have a: "as_str [SKey ''a2'', SInt 30] 0 = ''a2''" "ai [SKey ''a2'', SInt 30] 1 = 30" by code_simp+
  have "perms (script_at demo_payer 0) AND permission_debit \<noteq> 0" by code_simp
  with give_money_ledger [OF g, unfolded a] demo_payer_funds have "ok" by simp
  with give_money_ledger [OF g, unfolded a] demo_payer_funds g show ?thesis by simp
qed

subsection \<open>Text\<close>

theorem list_sort_correct_witness:
  "\<exists>ys. bi_llListSort [SList [SInt 3, SInt 1, SInt 2], SInt 1, SInt 1] = SList ys \<and>
     mset ys = {#SInt 1, SInt 2, SInt 3#} \<and> sorted (map (\<lambda>x. sint (num_i x)) ys)"
proof -
  let ?a = "[SList [SInt 3, SInt 1, SInt 2], SInt 1, SInt 1]"
  have "stride_of ?a = 1" "ai_int ?a 2 \<noteq> 0" "all_ints [SInt 3, SInt 1, SInt 2]"
    by (simp_all add: stride_of_def ai_int_def ai_def int_of_ll_def cint_of_ll_def all_ints_def)
  with list_sort_correct [of "[SInt 3, SInt 1, SInt 2]" "[SInt 1, SInt 1]"] show ?thesis
    by (auto simp: add_mset_commute Let_def)
qed

theorem csv_last_element_witness:
  "bi_llCSV2List [bi_llList2CSV [SList [SString ''a'', SString ''b'']]] = SList [SString ''a'', SString '' b'']"
  using csv_last_element [of "''a''" "[]" "''b''"] by (simp add: plain_piece_def)

theorem string_cut_insert_witness:
  "\<exists>rest. bi_llDeleteSubString [SString ''hello'', SInt 1, SInt 3] = Inr (SString rest) \<and>
     bi_llInsertString [SString rest, SInt 1, bi_llGetSubString [SString ''hello'', SInt 1, SInt 3]] = SString ''hello''"
  using string_cut_insert [of 1 3 "''hello''"] by auto

theorem url_escape_roundtrip_witness: "bi_llUnescapeURL [bi_llEscapeURL [SString ''a b%'']] = SString ''a b%''"
  by (rule url_escape_roundtrip) simp

theorem base64_roundtrip_witness: "bi_llBase64ToString [bi_llStringToBase64 [SString ''hi!'']] = SString ''hi!''"
  by (rule base64_roundtrip) simp

subsection \<open>Hashes\<close>

theorem hashes_standard_witness:
  "bi_llSHA1String [SString ''abc''] = SString (hex_of (sha1_ref [0x61, 0x62, 0x63]))"
proof -
  have "length (show_ll 0) = 1" by (simp add: show_ll_def show_int_def show_nat.simps)
  then show ?thesis using hashes_standard [of "''abc''" 0 "[]"] by (simp add: bytes_of_def ord_char_def)
qed

subsection \<open>JSON\<close>

theorem json_get_lookup_witness:
  "bi_llJsonGetValue [bi_llList2Json [SString (sentinel (CHR 0xBD)), SList (as_items [(''a'', ''x''), (''b'', ''y z'')])],
     SList [SString ''b'']] = Inr (SString ''y z'')"
  by (subst json_get_lookup) (simp_all add: plain_members_def plain_text_def)

theorem json_set_update_witness:
  "bi_llJsonSetValue [bi_llList2Json [SString (sentinel (CHR 0xBD)), SList (as_items [(''a'', ''x''), (''b'', ''y'')])],
     SList [SString ''a''], SString ''w''] =
   Inr (bi_llList2Json [SString (sentinel (CHR 0xBD)), SList (as_items [(''a'', ''w''), (''b'', ''y'')])])"
  by (subst json_set_update) (simp_all add: plain_members_def plain_text_def)

theorem json_array_roundtrip_witness:
  "\<exists>ys. bi_llJson2List [bi_llList2Json [SString (sentinel (CHR 0xBC)), SList [SInt 7, SString ''x'']]] = Inr (SList ys) \<and>
     length ys = 2 \<and> ys ! 1 = SString ''x''"
  by (subst json_array_roundtrip) (simp_all add: plain_text_def)

subsection \<open>The interpreter\<close>

theorem eval_keeps_frames_witness:
  "vm_eval builtins_lookup 3 0 (E_LIST_LIT (0, 0) [E_INT_LIT (0, 0) 7]) demo_region =
     Inr (SList [SInt 7], demo_region) \<and> n_scripts demo_region = n_scripts demo_region"
proof -
  have v: "vm_eval builtins_lookup 3 0 (E_LIST_LIT (0, 0) [E_INT_LIT (0, 0) 7]) demo_region =
     Inr (SList [SInt 7], demo_region)"
    by (simp add: eval_nat_numeral eval_body_def)
  with eval_keeps_frames [OF v] show ?thesis by blast
qed

theorem block_restores_scope_witness:
  "\<exists>rc r' f'. vm_exec builtins_lookup 3 0 (S_BLOCK 0 [S_DECL 0 1 1 E_NULL]) demo_region = Inr (rc, r') \<and>
     frames r' = [f'] \<and> frame_names f' = []"
proof -
  obtain rc r' where x: "vm_exec builtins_lookup 3 0 (S_BLOCK 0 [S_DECL 0 1 1 E_NULL]) demo_region = Inr (rc, r')"
    by (simp add: eval_nat_numeral exec_body_def exec_switch_def top_returning_def top_jumping_def new_frame_def
        stmt_hook_def dbg_off_def exec_decl_def upd_top_def frame_enter_def frame_define_def
        new_script_def script_at_def)
  from block_restores_scope [OF x, of new_frame "[]"]
  show ?thesis using x by (auto simp: scoped_def frame_names_def new_frame_def)
qed

theorem call_keeps_callers_witness:
  "\<exists>v r'. run_user_func (vm_eval builtins_lookup 3 0) (vm_exec builtins_lookup 3 0)
     \<lparr>fd_name = 1, fd_line = 0, fd_ret = 0, fd_has_ret = 0, fd_params = [], fd_body = S_EMPTY 0\<rparr> [] demo_region =
     Inr (v, r') \<and> frames r' = frames demo_region"
proof -
  let ?fd = "\<lparr>fd_name = 1, fd_line = 0, fd_ret = 0, fd_has_ret = 0, fd_params = [], fd_body = S_EMPTY 0\<rparr>"
  obtain v r' where x: "run_user_func (vm_eval builtins_lookup 3 0) (vm_exec builtins_lookup 3 0) ?fd [] demo_region = Inr (v, r')"
    by (simp add: run_user_func_def eval_nat_numeral exec_body_def exec_switch_def top_returning_def
        top_jumping_def new_frame_def stmt_hook_def dbg_off_def frame_push_def)
  from call_keeps_callers [OF x] x show ?thesis by auto
qed

theorem fuel_irrelevant_witness:
  "vm_exec builtins_lookup 9 0 (S_EMPTY 0) demo_region = vm_exec builtins_lookup 1 0 (S_EMPTY 0) demo_region"
  by (rule fuel_irrelevant)
    (simp_all add: exec_body_def exec_switch_def top_returning_def top_jumping_def new_frame_def stmt_hook_def
      dbg_off_def)

theorem jump_free_code_ends_witness:
  "vm_exec builtins_lookup 9 0 (S_WHILE 0 (E_INT_LIT (0, 0) 1) (S_EMPTY 0)) demo_region \<noteq> Inl OutOfFuel"
  by (rule jump_free_code_ends) (simp_all add: top_jumping_def new_frame_def)

lemma demo_ops: "opcode_of 51 = OP_LAND" "opcode_of 36 = OP_ASSIGN"
  by (simp_all add: opcode_of_def opcodes_def)

theorem short_circuit_witness:
  "vm_eval builtins_lookup 2 0 (E_BINARY (0, 0) 51 (E_INT_LIT (0, 0) 0) (E_IDENT (0, 0) 1)) demo_region =
     Inr (SInt 0, demo_region)"
proof -
  have "vm_eval builtins_lookup (Suc 0) 0 (E_INT_LIT (0, 0) 0) demo_region = Inr (SInt 0, demo_region)"
    by (simp add: eval_body_def)
  from short_circuit [OF this, of 51 "(0, 0)" "E_IDENT (0, 0) 1"]
  show ?thesis by (simp add: demo_ops sv_of_bool_def eval_nat_numeral)
qed

theorem assign_then_read_witness:
  "\<exists>r'. vm_eval builtins_lookup 2 0 (E_ASSIGN (0, 0) 36 (E_IDENT (0, 0) 1) (E_INT_LIT (0, 0) 7)) demo_region =
     Inr (SInt 7, r') \<and> vm_eval builtins_lookup 2 0 (E_IDENT (0, 0) 1) r' = Inr (SInt 7, r')"
proof -
  have v: "vm_eval builtins_lookup (Suc 0) 0 (E_INT_LIT (0, 0) 7) demo_region = Inr (SInt 7, demo_region)"
    by (simp add: eval_body_def)
  have c: "find_cell 0 1 demo_region = Some (Glob 0)" "cell_ok 0 (Glob 0) demo_region"
    by (simp_all add: find_cell_def new_frame_def frame_find_def find_global_idx_def cell_ok_def new_script_def
        demo_program_def)
  have g: "get_cell 0 (Glob 0) demo_region = SVoid" by (simp add: get_cell_def new_script_def demo_program_def)
  from assign_then_read [OF v demo_ops(2) c(1,2,1), of "(0, 0)" "(0, 0)"]
  show ?thesis by (auto simp: g assign_target_type_def eval_nat_numeral)
qed

subsection \<open>A region that runs\<close>

text \<open>A region ready to run, with a timer that is due.\<close>

definition demo_run :: region where
  "demo_run = (let r = region_init demo_host None in r\<lparr>
     scripts := [new_script demo_program ''k1'' r],
     avatars := [\<lparr>av_uuid = ''a1'', av_name = ''Ann'', balance = 100, attached_object = None\<rparr>],
     max_steps := 3\<rparr>)"

lemma demo_run_simps [simp]:
  "n_scripts demo_run = 1" "script_at demo_run 0 = hd (scripts demo_run)"
  "scripts demo_run = [new_script demo_program ''k1'' (region_init demo_host None)]"
  "avatars demo_run = [\<lparr>av_uuid = ''a1'', av_name = ''Ann'', balance = 100, attached_object = None\<rparr>]"
  "max_steps demo_run = 3" "n_steps demo_run = 0" "frames demo_run = []" "vol demo_run = None"
  "host demo_run = demo_host" "dbg demo_run = dbg_off" "virtual_offset demo_run = d_zero"
  by (simp_all add: demo_run_def Let_def n_scripts_def script_at_def region_init_def)

lemma demo_script [simp]:
  "prog (new_script p u r) = p" "evq (new_script p u r) = []" "cur_state (new_script p u r) = - 1"
  "pending_state (new_script p u r) = - 1" "globals (new_script p u r) = replicate (length (p_globals p)) SVoid"
  by (simp_all add: new_script_def)

definition demo_with :: "event list \<Rightarrow> int \<Rightarrow> region" where
  "demo_with es k = demo_run\<lparr>scripts := [(new_script demo_program ''k1'' (region_init demo_host None))
     \<lparr>globals := [SInt 0], cur_state := 0, evq := es\<rparr>], n_steps := k, virtual_now := d_zero\<rparr>"

lemma demo_init:
  "init_scripts builtins_lookup n [0] demo_run = Inr (demo_with [\<lparr>ev_name = ''state_entry'', ev_args = []\<rparr>] 0)"
  by (simp add: init_script_def demo_program_def start_state_def default_state_def script_push_event_def
      enqueue_def n_scripts_def upd_script_def demo_with_def script_at_def update_nth_def)
     (simp add: demo_run_def Let_def region_init_def new_script_def demo_program_def type_byte_def svtype_of_def)

lemma demo_fire: "fire_timer (demo_with es k) = (False, demo_with es k)"
  by (simp add: demo_with_def fire_timer_def earliest_timer_def earlier_timer_def n_scripts_def script_at_def
      new_script_def d_zero_def Let_def)

lemma demo_take: "take_turn builtins_lookup n 0 (demo_with [e] k) = Inr (True, demo_with [] (k + 1))"
  by (simp add: take_turn_def dequeue_def demo_with_def script_at_def upd_script_def update_nth_def dispatch_event_def
      find_handler_def demo_program_def count_step_def)

lemma demo_idle: "take_turn builtins_lookup n 0 (demo_with [] k) = Inr (False, demo_with [] k)"
  by (simp add: take_turn_def dequeue_def demo_with_def script_at_def)

lemma demo_with_simps [simp]:
  "n_scripts (demo_with es k) = 1" "max_steps (demo_with es k) = 3" "n_steps (demo_with es k) = k"
  "h_expired (host (demo_with es k)) t = False" "command_lines (demo_with es k) = []"
  "vol (demo_with es k) = None" "dbg_enabled (dbg (demo_with es k)) = False"
  by (simp_all add: demo_with_def n_scripts_def demo_host_def dbg_off_def) (simp add: demo_run_def Let_def region_init_def)

lemma demo_turn:
  "run_turn builtins_lookup n t (demo_with [e] 0) = Inr (True, demo_with [] 1)"
  "run_turn builtins_lookup n t (demo_with [] 1) = Inr (False, demo_with [] 1)"
  using demo_take [of n e 0] by (simp_all add: run_turn_def demo_fire demo_idle commands_pump_def)

lemma demo_runs: "region_run builtins_lookup n 4 demo_run = Inr (demo_with [] 1)"
  by (simp add: region_run_def volume_load_economy_def demo_init eval_nat_numeral demo_turn volume_save_economy_def
      del: init_scripts.simps)

subsection \<open>Runs of the region\<close>

theorem run_conserves_money_witness: "total_money (demo_with [] 1) = total_money demo_run"
  using run_conserves_money [OF demo_runs [of 1]] by (simp add: volume_load_economy_def)

theorem run_keeps_states_valid_witness: "map prog (scripts (demo_with [] 1)) = [demo_program]"
  using run_keeps_states_valid [OF demo_runs [of 1]] by (simp add: demo_program_def)

theorem step_limit_ends_loop_witness: "region_run builtins_lookup 5 14 demo_run = Inr (demo_with [] 1)"
  using step_limit_ends_loop [of demo_run 4 5 10] by (simp add: demo_runs)

theorem plain_run_ends_witness: "region_run builtins_lookup 7 50 demo_run \<noteq> Inl OutOfFuel"
  by (rule plain_run_ends) (simp_all add: plain_program_def demo_program_def states_ok_def state_ok_def)

theorem steps_bounded_witness:
  "\<exists>r'. run_loop builtins_lookup 1 2 0 (demo_with [] 1) = Inr r' \<and> n_steps r' \<le> 5"
proof -
  have l: "run_loop builtins_lookup 1 2 0 (demo_with [] 1) = Inr (demo_with [] 1)"
    by (simp add: eval_nat_numeral demo_turn)
  from steps_bounded [OF l] have "n_steps (demo_with [] 1) \<le> 5" by simp
  with l show ?thesis by blast
qed

subsection \<open>Rounds and state changes\<close>

text \<open>Two scripts with two states: the event \<open>go\<close> changes from the first to the second.\<close>

definition demo_switch :: program where
  "demo_switch = \<lparr>p_strings = [''default'', ''other'', ''go''], p_globals = [], p_funcs = [],
     p_states = [\<lparr>sd_name = 0, sd_line = 0, sd_is_default = 1,
         sd_events = [\<lparr>ed_name = 2, ed_line = 0, ed_params = [], ed_body = S_STATECHG 0 1\<rparr>]\<rparr>,
       \<lparr>sd_name = 1, sd_line = 0, sd_is_default = 0, sd_events = []\<rparr>], p_flags = 0, p_path = ''two''\<rparr>"

definition demo_go :: event where "demo_go = \<lparr>ev_name = ''go'', ev_args = []\<rparr>"

definition demo_two :: "event list \<Rightarrow> region" where
  "demo_two es = demo_run\<lparr>scripts :=
     [(new_script demo_switch ''k1'' demo_run)\<lparr>cur_state := 0, evq := es\<rparr>,
      (new_script demo_switch ''k2'' demo_run)\<lparr>cur_state := 0, evq := [demo_go]\<rparr>]\<rparr>"

lemma demo_switch_simps [simp]:
  "find_handler demo_switch 0 ''go'' = Some \<lparr>ed_name = 2, ed_line = 0, ed_params = [], ed_body = S_STATECHG 0 1\<rparr>"
  "find_handler demo_switch 0 ''state_exit'' = None"
  "find_state demo_switch (prog_str demo_switch 1) = Some 1"
  by (simp_all add: find_handler_def demo_switch_def prog_str_def find_state_def)

lemma demo_go_runs: "\<exists>r'. dispatch_event builtins_lookup 1 0 demo_go (demo_two es) = Inr r' \<and>
   scripts r' = (scripts (demo_two es))[0 := (script_at (demo_two es) 0)\<lparr>pending_state := 1\<rparr>]"
  by (simp add: dispatch_event_def demo_two_def demo_go_def script_at_def Let_def
    vm_dispatch_def exec_body_def exec_switch_def frame_push_def top_returning_def top_jumping_def new_frame_def
    stmt_hook_def exec_statechg_def dbg_off_def upd_script_def update_nth_def)

lemma demo_two_simps [simp]:
  "n_scripts (demo_two es) = 2" "evq (script_at (demo_two es) 0) = es" "evq (script_at (demo_two es) (Suc 0)) = [demo_go]"
  "upd_script 0 (\<lambda>s. s\<lparr>evq := es'\<rparr>) (demo_two es) = demo_two es'"
  by (simp_all add: demo_two_def n_scripts_def script_at_def upd_script_def update_nth_def)

theorem scripts_isolated_witness:
  "\<exists>r' new. dispatch_event builtins_lookup 1 0 demo_go (demo_two []) = Inr r' \<and>
     script_at r' 1 = (script_at (demo_two []) 1)\<lparr>evq := demo_go # new\<rparr>"
proof -
  obtain r' where d: "dispatch_event builtins_lookup 1 0 demo_go (demo_two []) = Inr r'" using demo_go_runs by blast
  have "\<exists>new. script_at r' 1 = (script_at (demo_two []) 1)\<lparr>evq := demo_go # new\<rparr>"
    using scripts_isolated [OF d, of 1] by simp
  with d show ?thesis by blast
qed

theorem state_change_flushes_witness:
  "\<exists>r'. take_turn builtins_lookup 1 0 (demo_two [demo_go, demo_go]) = Inr (True, r') \<and>
     evq (script_at r' 0) = [\<lparr>ev_name = ''state_entry'', ev_args = []\<rparr>] \<and> cur_state (script_at r' 0) = 1"
proof -
  obtain r1 where d: "dispatch_event builtins_lookup 1 0 demo_go (demo_two [demo_go]) = Inr r1"
    and s: "scripts r1 = (scripts (demo_two [demo_go]))[0 := (script_at (demo_two [demo_go]) 0)\<lparr>pending_state := 1\<rparr>]"
    using demo_go_runs by blast
  have p: "pending_state (script_at r1 0) = 1" "cur_state (script_at r1 0) = 0" "prog (script_at r1 0) = demo_switch"
    using s by (simp_all add: script_at_def demo_two_def)
  have q: "dequeue (script_at (demo_two [demo_go, demo_go]) 0) = Some (demo_go, script_at (demo_two [demo_go]) 0)"
    "upd_script 0 (\<lambda>_. script_at (demo_two [demo_go]) 0) (demo_two [demo_go, demo_go]) = demo_two [demo_go]"
    by (simp_all add: dequeue_def demo_two_def script_at_def upd_script_def update_nth_def)
  obtain r' where t: "take_turn builtins_lookup 1 0 (demo_two [demo_go, demo_go]) = Inr (True, r')"
    using d p q by (simp add: take_turn_def switch_state_def count_step_def script_at_def)
  have "script_at r' 0 = (script_at r1 0)\<lparr>evq := [\<lparr>ev_name = ''state_entry'', ev_args = []\<rparr>],
      cur_state := 1, pending_state := - 1\<rparr>"
    using state_change_flushes [OF t, of demo_go "[demo_go]" r1] d p by simp
  then show ?thesis using t by (intro exI [of _ r']) simp
qed

theorem round_serves_every_script_witness:
  "\<exists>r1 new r2. worlds (demo_with [demo_go] 0) r1 \<and>
     script_at r1 0 = (script_at (demo_with [demo_go] 0) 0)\<lparr>evq := demo_go # new\<rparr> \<and>
     dispatch_event builtins_lookup 1 0 demo_go (upd_script 0 (\<lambda>s. s\<lparr>evq := new\<rparr>) r1) = Inr r2"
proof -
  have "round_robin builtins_lookup 1 [0 ..< n_scripts (demo_with [demo_go] 0)] False (demo_with [demo_go] 0) =
      Inr (True, demo_with [] 1)"
    using demo_take [of 1 demo_go 0] by simp
  moreover have "(0 :: nat) < n_scripts (demo_with [demo_go] 0)" "evq (script_at (demo_with [demo_go] 0) 0) = [demo_go]"
    by simp (simp add: demo_with_def script_at_def)
  ultimately show ?thesis using round_serves_every_script [of 1 "demo_with [demo_go] 0" False True "demo_with [] 1" 0 demo_go "[]"]
    unfolding append_Nil by blast
qed

theorem earliest_timer_fires_witness:
  "\<exists>r'. fire_timer (upd_script 0 (\<lambda>s. s\<lparr>timer_interval := d_one\<rparr>) demo_run) = (True, r') \<and>
     evq (script_at r' 0) = [\<lparr>ev_name = ''timer'', ev_args = []\<rparr>]"
proof -
  let ?r = "upd_script 0 (\<lambda>s. s\<lparr>timer_interval := d_one\<rparr>) demo_run"
  obtain b r' where f: "fire_timer ?r = (b, r')" by fastforce
  have 1: "d_lt d_zero (d_add d_zero d_one)" "d_lt d_zero d_one" "d_le d_zero d_zero" by code_simp+
  have s: "script_at ?r 0 = (new_script demo_program ''k1'' (region_init demo_host None))\<lparr>timer_interval := d_one\<rparr>"
    "n_scripts ?r = 1" "virtual_offset ?r = d_zero" "timer_due (script_at ?r 0) = d_zero"
    by (simp_all add: n_scripts_def new_script_def)
  have "b \<and> evq (script_at r' 0) = [\<lparr>ev_name = ''timer'', ev_args = []\<rparr>]"
    using earliest_timer_fires [OF f] 1 s by simp
  with f show ?thesis by (intro exI [of _ r']) simp
qed

subsection \<open>The whole program\<close>

text \<open>A bytecode file with one state and no handler, and the files of a run with it.\<close>

definition demo_code :: "byte list" where
  "demo_code = [83, 76, 66, 67, 0, 1, 0, 0, 0, 0, 0, 0, 0, 1, 0, 0, 0, 1, 0, 0, 0, 97, 0, 0, 0, 0, 0, 0, 0, 0,
     1, 0, 0, 0, 0, 0, 0, 0, 1, 0, 0, 0, 0]"

definition demo_files :: files where
  "demo_files = \<lparr>f_text = (\<lambda>_. None), f_code = (\<lambda>path. if path = ''a'' then Some demo_code else None),
     f_volume = (\<lambda>_. Some volume_open), f_stdin = [], f_junk = (\<lambda>_. 0)\<rparr>"

definition demo_loaded :: program where
  "demo_loaded = \<lparr>p_strings = [''a''], p_globals = [], p_funcs = [],
     p_states = [\<lparr>sd_name = 0, sd_line = 0, sd_is_default = 1, sd_events = []\<rparr>], p_flags = 0, p_path = ''a''\<rparr>"

lemma demo_load: "program_load (f_junk demo_files) ''a'' demo_code = Inr (Some demo_loaded)"
  unfolding demo_code_def demo_files_def demo_loaded_def by code_simp

theorem main_ends_witness:
  "main builtins_lookup 1 100001 demo_files ''slemu'' [''a''] (region_init demo_host None) \<noteq> Inl OutOfFuel"
  by (rule main_ends) (auto simp: demo_files_def demo_load [unfolded demo_files_def, simplified] plain_program_def demo_loaded_def)

lemma demo_main:
  "case main builtins_lookup 1 3 demo_files ''slemu'' [''a''] (region_init demo_host None) of Inl _ \<Rightarrow> False
   | Inr (c, r) \<Rightarrow> c = 0 \<and> n_steps r = 1 \<and> map cur_state (scripts r) = [0]"
  by code_simp

theorem main_safe_witness:
  "\<exists>r. main builtins_lookup 1 3 demo_files ''slemu'' [''a''] (region_init demo_host None) = Inr (0, r) \<and> scripts r \<noteq> [] \<and>
     distinct (av_keys r) \<and> list_all (\<lambda>s. prog s = demo_loaded \<and> cur_state s < 1) (scripts r)"
proof -
  obtain r where m: "main builtins_lookup 1 3 demo_files ''slemu'' [''a''] (region_init demo_host None) = Inr (0, r)"
    and s: "scripts r \<noteq> []"
    using demo_main by (auto split: sum.splits prod.splits)
  have "prog s = demo_loaded \<and> cur_state s < 1" if "s \<in> set (scripts r)" for s
  proof -
    have "prog s = demo_loaded" using main_safe [OF m] that demo_load by (auto simp: demo_files_def)
    then show ?thesis using main_safe [OF m] that by (auto simp: demo_loaded_def)
  qed
  with m s main_safe [OF m] show ?thesis by (auto simp: list_all_iff)
qed

subsection \<open>Memory\<close>

text \<open>A list of a text and an integer, a script with its program, one global and the array of the scripts, a frame.\<close>

definition demo_mem :: mem where
  "demo_mem = \<lparr>blocks = map_of
     [(1, ProgramB \<lparr>cp_strings = 2, cp_n_strings = 1, cp_globals = 4, cp_n_globals = 1, cp_funcs = 0, cp_n_funcs = 0,
         cp_states = 0, cp_n_states = 0, cp_flags = 0, cp_path = 6\<rparr>),
      (2, Ptrs [3]), (3, chars ''x''), (4, Globals [\<lparr>cg_type = 1, cg_name = 0, cg_init = 5\<rparr>]),
      (5, ExprB (CE_INT_LIT (0, 0) 5)), (6, chars ''p''),
      (7, ScriptB \<lparr>sc_prog = 1, sc_prog_owned = True, sc_globals = 8, sc_evq_head = 0, sc_listens = 0, sc_name = 0,
         sc_desc = 0, sc_uuid = 0, sc_perms_key = 0, sc_detected = []\<rparr>),
      (8, Vals [CInt 5]), (9, Ptrs [7]),
      (10, Locals [(0, CList 11 2, 0)]), (11, Vals [CStr 12, CInt 7]), (12, chars ''ab'')], brk = 13\<rparr>"

definition demo_pooled :: program where
  "demo_pooled = \<lparr>p_strings = [''x''], p_globals = [\<lparr>gv_type = 1, gv_name = 0, gv_init = E_INT_LIT (0, 0) 5\<rparr>],
     p_funcs = [], p_states = [], p_flags = 0, p_path = ''p''\<rparr>"

lemma demo_dom: "dom (blocks demo_mem) = {1, 2, 3, 4, 5, 6, 7, 8, 9, 10, 11, 12}"
  by (auto simp: demo_mem_def)

lemma demo_blocks:
  "blocks demo_mem 10 = Some (Locals [(0, CList 11 2, 0)])" "blocks demo_mem 9 = Some (Ptrs [7])"
  "blocks demo_mem 7 = Some (ScriptB \<lparr>sc_prog = 1, sc_prog_owned = True, sc_globals = 8, sc_evq_head = 0, sc_listens = 0,
     sc_name = 0, sc_desc = 0, sc_uuid = 0, sc_perms_key = 0, sc_detected = []\<rparr>)"
  by (simp_all add: demo_mem_def)

lemma demo_rest:
  "\<forall>a. blocks m a = (if a \<in> F then None else blocks demo_mem a) \<Longrightarrow>
     dom (blocks m) = {1, 2, 3, 4, 5, 6, 7, 8, 9, 10, 11, 12} - F"
  unfolding demo_dom [symmetric] by (auto simp: dom_def)

lemma demo_heap: "heap_ok demo_mem"
  by (auto simp: heap_ok_def demo_mem_def split: if_splits)

lemma demo_list: "value_at demo_mem (CList 11 2) (SList [SString ''ab'', SInt 7]) {11, 12}"
proof -
  have "values_at demo_mem [CStr 12, CInt 7] [SString ''ab'', SInt 7] ({12} \<union> ({} \<union> {}))"
    by (intro value_at_intros) (auto simp: demo_mem_def c_string_def)
  then have "value_at demo_mem (CList 11 (length [CStr 12, CInt 7])) (SList [SString ''ab'', SInt 7]) (insert 11 ({12} \<union> ({} \<union> {})))"
    by (intro at_list) (auto simp: demo_mem_def)
  then show ?thesis by (simp add: eval_nat_numeral)
qed

theorem jbuf_lifecycle_witness:
  "\<exists>b m. append_all [''ab'', ''c''] jbuf_init demo_mem = Inr (b, m) \<and> str_at (jb_buf b) m = Inr ''abc''"
  using jbuf_lifecycle [OF demo_heap, of "[''ab'', ''c'']"] by (auto simp: c_string_def)

theorem sv_copy_separate_witness:
  "\<exists>d m. sv_copy 9 (CList 11 2) demo_mem = Inr (d, m) \<and> (\<exists>G. value_at m d (SList [SString ''ab'', SInt 7]) G \<and> {11, 12} \<inter> G = {}) \<and>
     (\<exists>m'. sv_free 9 d m = Inr (CVoid, m') \<and> blocks m' = blocks demo_mem)"
  using sv_copy_separate [OF demo_list demo_heap, of 9] by fastforce

theorem to_text_refines_witness:
  "\<exists>p m. to_text 9 (CList 11 2) demo_mem = Inr (p, m) \<and> str_at p m = Inr ''ab7''"
proof -
  have s: "show_ll 7 = ''7''" by code_simp
  show ?thesis using to_text_refines [OF demo_list demo_heap, of 9] by (auto simp: s)
qed

lemma empty_table: "table_at mk R m 0 0 [] {}"
  by (auto simp: table_at_def array_at_def intro: all_nil)

lemma demo_tables: "program_at demo_mem 1 demo_pooled ({4, 5} \<union> ({} \<union> ({} \<union> ({2, 3} \<union> {6}))))"
proof -
  let ?g = "\<lparr>cg_type = 1, cg_name = 0, cg_init = 5\<rparr>"
  have "all_at (global_at demo_mem) [?g] (p_globals demo_pooled) ({5} \<union> {})"
    unfolding demo_pooled_def program.simps
    by (intro all_cons all_nil) (simp_all add: global_at_def x_int demo_mem_def)
  then have g: "table_at Globals (global_at demo_mem) demo_mem 4 1 (p_globals demo_pooled) {4, 5}"
    unfolding table_at_def
    by (intro exI [of "\<lambda>xs. \<exists>A G. _ xs A G" "[?g]"]) (force simp: array_at_def demo_mem_def)
  have "all_at (string_at demo_mem) [3] (p_strings demo_pooled) ({3} \<union> {})"
    unfolding demo_pooled_def program.simps
    by (intro all_cons all_nil) (simp_all add: string_at_def demo_mem_def)
  then have s: "table_at Ptrs (string_at demo_mem) demo_mem 2 1 (p_strings demo_pooled) {2, 3}"
    unfolding table_at_def
    by (intro exI [of "\<lambda>xs. \<exists>A G. _ xs A G" "[3]"]) (force simp: array_at_def demo_mem_def)
  have p: "string_at demo_mem 6 (p_path demo_pooled) {6}"
    by (simp add: string_at_def demo_mem_def demo_pooled_def)
  have "tables_at demo_mem \<lparr>cp_strings = 2, cp_n_strings = 1, cp_globals = 4, cp_n_globals = 1, cp_funcs = 0, cp_n_funcs = 0,
      cp_states = 0, cp_n_states = 0, cp_flags = 0, cp_path = 6\<rparr> demo_pooled ({4, 5} \<union> ({} \<union> ({} \<union> ({2, 3} \<union> {6}))))"
    unfolding tables_at_def
    by (rule conjI, simp add: demo_pooled_def, rule exI [of _ "{4, 5}"], rule exI [of _ "{}"], rule exI [of _ "{}"],
        rule exI [of _ "{2, 3}"], rule exI [of _ "{6}"])
      (use g s p in \<open>simp add: empty_table demo_pooled_def\<close>)
  then show ?thesis by (simp add: program_at_def) (simp add: demo_mem_def)
qed

lemma demo_trees: "trees_below 9 demo_pooled"
  by (simp add: trees_below_def demo_pooled_def)

theorem program_free_exact_witness:
  "\<exists>m. rbind (program_free 9 1 demo_mem) (free_ptr 1) = Inr m \<and> dom (blocks m) = {7, 8, 9, 10, 11, 12}"
proof -
  obtain m where m: "rbind (program_free 9 1 demo_mem) (free_ptr 1) = Inr m"
    and "\<forall>a. blocks m a = (if a \<in> insert 1 ({4, 5} \<union> ({} \<union> ({} \<union> ({2, 3} \<union> {6})))) then None else blocks demo_mem a)"
    using program_free_exact [OF demo_tables demo_trees] by blast
  from m demo_rest [OF this(2)] show ?thesis by (simp add: insert_Diff_if)
qed

theorem frame_free_exact_witness:
  "\<exists>m. frame_free 9 \<lparr>fr_locs = 10, fr_n_locs = 1, fr_ret_val = CVoid\<rparr> demo_mem = Inr m \<and> dom (blocks m) = {1, 2, 3, 4, 5, 6, 7, 8, 9}"
proof -
  let ?f = "\<lparr>fr_locs = 10, fr_n_locs = 1, fr_ret_val = CVoid\<rparr>"
  have "values_at demo_mem (map (fst \<circ> snd) [(0, CList 11 2, 0)]) [SList [SString ''ab'', SInt 7]] ({11, 12} \<union> {})"
    using at_cons [OF demo_list at_end] by simp
  from frame_free_exact [of ?f demo_mem "[(0, CList 11 2, 0)]", OF _ _ _ this, of SVoid "{}" 9]
  obtain m where m: "frame_free 9 ?f demo_mem = Inr m"
    and "\<forall>a. blocks m a = (if a \<in> insert (fr_locs ?f) (({11, 12} \<union> {}) \<union> {}) then None else blocks demo_mem a)"
    using at_void by (auto simp: demo_blocks)
  from m demo_rest [OF this(2)] show ?thesis by (simp add: insert_Diff_if)
qed

theorem script_free_uses_freed_witness:
  "script_free 9 9 7 demo_mem = Inl BadMemory \<and>
   region_free 9 9 \<lparr>rg_scripts = 9, rg_n_scripts = 1, rg_avatars = 0, rg_n_avatars = 0, rg_volume = 0, rg_http_fix = 0\<rparr> demo_mem = Inl BadMemory"
  using script_free_uses_freed [OF _ _ _ _ _ demo_trees, of demo_mem 7 _ _ 9] demo_tables
  by (simp add: demo_blocks)

subsection \<open>Types\<close>

text \<open>A program with an integer \<open>x = 1\<close>, a function \<open>f(y) = y + 1\<close> and a handler
  \<open>go(integer y) { float z = f(2); x += llAbs(y); z = x; }\<close>.\<close>

definition demo_fun :: func_decl where
  "demo_fun = \<lparr>fd_name = 2, fd_line = 0, fd_ret = 1, fd_has_ret = 1, fd_params = [\<lparr>pm_type = 1, pm_name = 3\<rparr>],
     fd_body = S_RETURN 0 1 (E_BINARY (1, 0) 42 (E_IDENT (1, 0) 3) (E_INT_LIT (1, 0) 1))\<rparr>"

definition demo_handler :: event_decl where
  "demo_handler = \<lparr>ed_name = 6, ed_line = 0, ed_params = [\<lparr>pm_type = 1, pm_name = 3\<rparr>],
     ed_body = S_BLOCK 0
       [S_DECL 0 2 4 (E_CALL (1, 0) 2 [E_INT_LIT (1, 0) 2]),
        S_EXPR 0 (E_ASSIGN (1, 0) 37 (E_IDENT (1, 0) 1) (E_CALL (1, 0) 5 [E_IDENT (1, 0) 3])),
        S_EXPR 0 (E_ASSIGN (2, 0) 36 (E_IDENT (2, 0) 4) (E_IDENT (1, 0) 1))]\<rparr>"

definition demo_typed :: program where
  "demo_typed = \<lparr>p_strings = [''default'', ''x'', ''f'', ''y'', ''z'', ''llAbs'', ''go''],
     p_globals = [\<lparr>gv_type = 1, gv_name = 1, gv_init = E_INT_LIT (1, 0) 1\<rparr>], p_funcs = [demo_fun],
     p_states = [\<lparr>sd_name = 0, sd_line = 0, sd_is_default = 1, sd_events = [demo_handler]\<rparr>], p_flags = 0, p_path = ''typed''\<rparr>"

definition demo_start :: region where
  "demo_start = (let r = region_init demo_host None in r\<lparr>scripts := [new_script demo_typed ''k1'' r]\<rparr>)"

definition demo_ready :: region where
  "demo_ready = upd_script 0 (\<lambda>s. s\<lparr>globals := [SInt 1], cur_state := 0\<rparr>) demo_start"

definition demo_event :: event where "demo_event = \<lparr>ev_name = ''go'', ev_args = [SInt (- 5)]\<rparr>"

definition demo_sum :: expr where
  "demo_sum = E_ASSIGN (1, 0) 37 (E_IDENT (1, 0) 1) (E_CALL (1, 0) 2 [E_CALL (1, 0) 5 [E_INT_LIT (1, 0) (- 5)]])"

lemma demo_goes: "case dispatch_event builtins_lookup 9 0 demo_event demo_ready of Inr r \<Rightarrow> globals (script_at r 0) = [SInt 6] | _ \<Rightarrow> False"
  by code_simp

lemma demo_sums: "case vm_eval builtins_lookup 9 0 demo_sum demo_ready of Inr (v, r) \<Rightarrow> v = SInt 7 | _ \<Rightarrow> False"
  by code_simp

lemma opcode_bytes: "opcode_of 42 = OP_PLUS" "opcode_of 37 = OP_PLUS_ASSIGN" "opcode_of 36 = OP_ASSIGN"
  by code_simp+

lemma type_bytes: "type_byte 1 = SV_INTEGER" "type_byte 2 = SV_FLOAT"
  by code_simp+

lemma demo_names:
  "find_func demo_typed 2 = Some demo_fun" "find_func demo_typed 5 = None" "prog_str demo_typed 5 = ''llAbs''"
  "ll_type ''llAbs'' = Some SV_INTEGER"
  by code_simp+

lemma demo_env: "global_env demo_typed (declared demo_typed) 1 = (True, SV_INTEGER)" by code_simp

lemma fn_demo: "fn_type demo_fun = SV_INTEGER" by code_simp


lemma demo_env': "global_env demo_typed G 1 = (True, G ! 0)"
  by (simp add: global_env_def demo_typed_def)

lemma demo_declared [simp]: "declared demo_typed = [SV_INTEGER]" by code_simp

lemma add_params: "add_names (param_types [\<lparr>pm_type = t, pm_name = n\<rparr>]) T = T(n := (True, type_byte t))"
  by (simp add: add_names_def param_types_def)

lemma operator_types:
  "binary_type (opcode_of 42) SV_INTEGER SV_INTEGER = Some SV_INTEGER"
  "binary_type (compound_op (opcode_of 37)) SV_INTEGER SV_INTEGER = Some SV_INTEGER"
  "takes SV_INTEGER SV_INTEGER" "takes SV_FLOAT SV_INTEGER" "proper SV_FLOAT" "opcode_of 37 \<noteq> OP_ASSIGN"
  by code_simp+

lemma demo_call_abs: "typed ll_type demo_typed F T e SV_INTEGER \<Longrightarrow> typed ll_type demo_typed F T (E_CALL h 5 [e]) SV_INTEGER"
  by (rule t_library) (auto simp: demo_names simp del: type_eqs)

lemma demo_call_fun: "typed ll_type demo_typed (find_func demo_typed) T e SV_INTEGER \<Longrightarrow>
    typed ll_type demo_typed (find_func demo_typed) T (E_CALL h 2 [e]) SV_INTEGER"
  using t_function [of "find_func demo_typed" 2 demo_fun _ _ T "[e]" h] fn_demo
  by (auto simp: demo_names demo_fun_def takes_def type_bytes simp del: type_eqs)

lemma demo_fun_typed: "typed_fun ll_type demo_typed demo_fun"
proof -
  have "typed ll_type demo_typed (find_func demo_typed) (T(3 := (True, SV_INTEGER)))
      (E_BINARY (1, 0) 42 (E_IDENT (1, 0) 3) (E_INT_LIT (1, 0) 1)) SV_INTEGER" for T
    by (rule t_binary [OF t_ident t_int]) (simp add: operator_types)+
  then show ?thesis
    unfolding typed_fun_def fn_demo
    by (auto simp: demo_fun_def add_params type_bytes intro!: exI s_give)
qed

lemma demo_handler_typed: "typed_handler ll_type demo_typed demo_handler"
proof -
  let ?T = "(global_env demo_typed (declared demo_typed))(3 := (True, SV_INTEGER))"
  let ?T' = "?T(4 := (True, SV_FLOAT))"
  note tp = opcode_bytes type_bytes demo_env
  have 1: "typed_stmt ll_type demo_typed (find_func demo_typed) None ?T
      (S_DECL 0 2 4 (E_CALL (1, 0) 2 [E_INT_LIT (1, 0) 2])) (?T(4 := (True, type_byte 2)))"
    by (intro s_decl disjI2 exI conjI, rule demo_call_fun, rule t_int) (simp_all add: operator_types tp)
  have 2: "typed ll_type demo_typed (find_func demo_typed) ?T'
      (E_ASSIGN (1, 0) 37 (E_IDENT (1, 0) 1) (E_CALL (1, 0) 5 [E_IDENT (1, 0) 3])) SV_INTEGER"
    by (rule t_compound [OF _ demo_call_abs [OF t_ident]])
      (simp add: operator_types demo_env del: demo_declared)+
  have 3: "typed ll_type demo_typed (find_func demo_typed) ?T'
      (E_ASSIGN (2, 0) 36 (E_IDENT (2, 0) 4) (E_IDENT (1, 0) 1)) SV_FLOAT"
    by (rule t_assign [OF _ t_ident])
      (simp add: operator_types opcode_bytes demo_env del: demo_declared)+
  show ?thesis
    unfolding typed_handler_def demo_handler_def
    using s_block [OF s_cons [OF 1 [unfolded type_bytes] s_cons [OF s_expr [OF 2] s_cons [OF s_expr [OF 3] s_nil]]]]
    by (auto simp: add_params type_bytes)
qed

lemma demo_typed_program: "typed_program ll_type demo_typed"
proof -
  have "typed_init ll_type demo_typed [SV_INTEGER] 0"
    by (simp add: typed_init_def demo_typed_def type_bytes Let_def t_int)
  then show ?thesis
    using demo_fun_typed demo_handler_typed unfolding typed_program_def demo_declared by (simp add: demo_typed_def)
qed

lemma demo_ready_simps [simp]:
  "n_scripts demo_ready = 1" "n_scripts demo_start = 1" "frames demo_ready = []" "frames demo_start = []"
  "prog (script_at demo_ready 0) = demo_typed" "prog (script_at demo_start 0) = demo_typed"
  "pending_state (script_at demo_ready 0) = - 1" "pending_state (script_at demo_start 0) = - 1"
  "cur_state (script_at demo_ready 0) = 0" "globals (script_at demo_ready 0) = [SInt 1]"
  "globals (script_at demo_start 0) = [SVoid]"
  "global_types 0 demo_ready = [SV_INTEGER]"
  by (simp_all add: demo_ready_def demo_start_def region_init_def Let_def script_at_def n_scripts_def upd_script_def
      update_nth_def new_script_def global_types_def demo_typed_def)

theorem eval_type_sound_witness:
  "\<exists>v r'. vm_eval builtins_lookup 9 0 demo_sum demo_ready = Inr (v, r') \<and> sv_type v = SV_INTEGER \<and>
     global_types 0 r' = [SV_INTEGER]"
proof -
  obtain v r' where e: "vm_eval builtins_lookup 9 0 demo_sum demo_ready = Inr (v, r')"
    using demo_sums by (auto split: sum.splits)
  let ?T = "global_env demo_typed (declared demo_typed)"
  have "typed ll_type demo_typed (find_func demo_typed) ?T demo_sum SV_INTEGER"
    unfolding demo_sum_def
    by (rule t_compound [OF _ demo_call_fun [OF demo_call_abs [OF t_int]]])
      (simp add: operator_types demo_env del: demo_declared)+
  then have "sv_type v = SV_INTEGER \<and> at_work demo_typed 0 (declared demo_typed) ?T r' \<and>
      (\<forall>nm. find_cell 0 nm r' = find_cell 0 nm demo_ready)"
  proof (rule eval_type_sound [OF _ demo_typed_program _ e])
    show "at_work demo_typed 0 (declared demo_typed) ?T demo_ready"
      by (simp add: at_work_def top_locals_def plain_top_def add_names_def) (simp add: demo_typed_def)
  qed
  with e show ?thesis by (auto simp: at_work_def simp del: type_eqs)
qed

theorem handler_keeps_types_witness:
  "\<exists>r'. dispatch_event builtins_lookup 9 0 demo_event demo_ready = Inr r' \<and> global_types 0 r' = [SV_INTEGER]"
proof -
  obtain r' where d: "dispatch_event builtins_lookup 9 0 demo_event demo_ready = Inr r'"
    using demo_goes by (auto split: sum.splits)
  have h: "find_handler demo_typed 0 (ev_name demo_event) = Some demo_handler" by code_simp
  show ?thesis
    using handler_keeps_types [OF _ _ _ _ _ _ d] d demo_typed_program h
    by (simp add: demo_handler_def demo_event_def type_bytes operator_types) (simp add: demo_typed_def)
qed

text \<open>\<open>float x = 1; string y;\<close>\<close>

definition demo_float :: program where
  "demo_float = \<lparr>p_strings = [''default'', ''x'', ''y''],
     p_globals = [\<lparr>gv_type = 2, gv_name = 1, gv_init = E_INT_LIT (1, 0) 1\<rparr>, \<lparr>gv_type = 3, gv_name = 2, gv_init = E_NULL\<rparr>],
     p_funcs = [], p_states = [\<lparr>sd_name = 0, sd_line = 0, sd_is_default = 1, sd_events = []\<rparr>], p_flags = 0, p_path = ''float''\<rparr>"

definition demo_unset :: region where
  "demo_unset = (let r = region_init demo_host None in r\<lparr>scripts := [new_script demo_float ''k1'' r]\<rparr>)"

lemma demo_unset_simps [simp]:
  "n_scripts demo_unset = 1" "frames demo_unset = []" "prog (script_at demo_unset 0) = demo_float"
  "pending_state (script_at demo_unset 0) = - 1" "globals (script_at demo_unset 0) = [SVoid, SVoid]"
  "length (p_globals demo_float) = 2"
  by (simp_all add: demo_unset_def region_init_def Let_def script_at_def n_scripts_def new_script_def demo_float_def)

lemma demo_unset_starts: "case init_script builtins_lookup 3 0 demo_unset of Inr r \<Rightarrow> True | _ \<Rightarrow> False"
  by code_simp

theorem start_gives_types_witness:
  "declared demo_float = [SV_FLOAT, SV_STRING] \<and>
   (\<exists>r'. init_script builtins_lookup 3 0 demo_unset = Inr r' \<and> global_types 0 r' = [SV_INTEGER, SV_STRING])"
proof -
  obtain r' where d: "init_script builtins_lookup 3 0 demo_unset = Inr r'"
    using demo_unset_starts by (auto split: sum.splits)
  have s: "type_byte 3 = SV_STRING" "proper SV_STRING" by code_simp+
  have "typed_init ll_type demo_float [SV_INTEGER, SV_STRING] 0" "typed_init ll_type demo_float [SV_INTEGER, SV_STRING] 1"
    by (simp_all add: typed_init_def demo_float_def Let_def t_int s)
  then have "\<forall>k < 2. typed_init ll_type demo_float [SV_INTEGER, SV_STRING] k" by (simp add: less_2_cases_iff)
  then have "global_types 0 r' = [SV_INTEGER, SV_STRING]"
    by (intro start_gives_types [OF _ _ _ _ _ _ d]) (simp_all add: numeral_2_eq_2)
  moreover have "declared demo_float = [SV_FLOAT, SV_STRING]" by code_simp
  ultimately show ?thesis using d by blast
qed

end
