(* ===== verification/Spec2Isabelle.thy ===== *)
theory Spec2Isabelle
  imports Witnesses
begin

text \<open>
  A model of sakura-slemu, a headless emulator for compiled LSL scripts, with the theorems that make
  its parts correct. The emulator loads bytecode files, runs the scripts of one region against a
  library of \<open>ll\<close> functions, and writes what happens as events.

  \<^bold>\<open>The program and its theories.\<close> One theory models one part of \<open>src/src\<close>; a definition has the name
  of the C function, type or field it models unless HOL already has that name.

  \<^item> \<open>Prelude\<close>: machine integers (\<open>llong\<close> for \<open>int64_t\<close>, \<open>cint\<close> for \<open>int\<close>, \<open>byte\<close>), the errors
    \<open>vm_error\<close> and the result type \<open>res\<close> (\<open>Inl\<close> an error, \<open>Inr\<close> a value), lists updated by index.
    \<open>Float64\<close>: IEEE doubles as sign, mantissa and exponent with round-to-nearest-even arithmetic.
    \<open>CLib\<close>: what the sources use of the C library (\<open>strtoll\<close>, \<open>strtod\<close>, \<open>printf\<close> formats, \<open>strstr\<close>,
    \<open>fgets\<close>) and the JSON escapes of \<open>events.c\<close>.
  \<^item> \<open>Values\<close>: \<open>SValue\<close> and the functions of \<open>value.c\<close>. \<open>Ast\<close>: the structures of a program
    (\<open>slemu.h\<close>). \<open>Consts\<close>: the named constants, \<open>builtins_const\<close>.
  \<^item> \<open>Loader\<close>: \<open>loader.c\<close>, from the bytes of a file to a program. \<open>Codec\<close>, \<open>Format\<close> and
    \<open>LoaderProps\<close>: the file format as an encoder, and the reader against it.
  \<^item> \<open>State\<close>: \<open>Script\<close>, \<open>Region\<close> and the rest of \<open>slemu.h\<close> with the static variables of all files in one
    record \<open>region\<close>; a pointer to a script is its index, a linked list is a HOL list. \<open>RegionOps\<close>:
    the operations of \<open>region.c\<close> on avatars, groups, event queues and scripts.
  \<^item> \<open>Events\<close> (\<open>events.c\<close>), \<open>Dialogs\<close> (\<open>dialog.c\<close>), \<open>Debugger\<close> (\<open>dbg.c\<close>), \<open>Volume\<close> (\<open>volume.c\<close>), \<open>Http\<close>
    (\<open>http.c\<close> and \<open>config.c\<close>).
  \<^item> \<open>Operators\<close> and \<open>Vm\<close>: \<open>vm.c\<close>. \<open>VmShape\<close> and \<open>VmFuel\<close>: what evaluation leaves in place, and when
    the fuel suffices. \<open>VmProps\<close>: the properties of the interpreter on the emulator's own library.
    \<open>Typing\<close>: the types of operators, expressions, statements and programs. \<open>TypeSound\<close>: running code respects
    them, for every library whose functions have signatures. \<open>TypeLib\<close>: signatures for the library's functions
    on chat, text, lists and numbers, and the types of the variables from the start of a script through its handlers.
  \<^item> \<open>BuiltinsWorld\<close>, \<open>BuiltinsText\<close>, \<open>Encoding\<close>, \<open>Json\<close>, \<open>Stubs\<close> and \<open>Builtins\<close>: \<open>builtins.c\<close>; the last
    holds the table behind \<open>builtins_lookup\<close>. \<open>WorldProps\<close>, \<open>TextProps\<close>, \<open>EncodingProps\<close>, \<open>JsonProps\<close>:
    their properties, among them the JSON object functions against association lists. \<open>HashSpec\<close> defines MD5, SHA-1 and
    HMAC as their standards do, apart from the code, and \<open>HashBlocks\<close> relates the compression loops to it.
  \<^item> \<open>Commands\<close>: \<open>commands.c\<close>, the script of player actions. \<open>RegionLoop\<close>: \<open>region_run\<close> and its parts.
    \<open>Effects\<close>: the changes running code can make to the region, as a step relation every library
    function and every evaluation obeys. \<open>RunProps\<close>: the steps of a whole run (\<open>world\<close>) and what each
    preserves. \<open>LoopProps\<close>: timers, rounds and state changes. \<open>RunEnds\<close>: the step limit, the end of runs
    and the invariants of whole runs.
  \<^item> \<open>Driver\<close>: \<open>main.c\<close>, from the command line to the exit code; \<open>DriverProps\<close>: what holds at every exit, and
    when there is one.
  \<^item> \<open>Memory\<close>, \<open>ValueMem\<close>, \<open>ProgramMem\<close>, \<open>RegionMem\<close>: the memory management, on an explicit heap:
    strings and the buffer of \<open>util.c\<close>, the values of \<open>value.c\<close>, the trees and tables of a program
    (\<open>loader.c\<close>), frames, scripts and the region. Everywhere else values and programs are plain HOL values;
    these theories show that copying, printing and releasing them on the heap does what those values
    promise, and where it does not: \<open>script_free\<close> reads the program it has freed.
  \<^item> \<open>Witnesses\<close>: every property with hypotheses applied at a concrete input.

  \<^bold>\<open>State and effects.\<close> An operation takes the region and returns it updated. The frame stack
  \<open>g_frame\<close>, the chat log and the counters are fields of the region; the two output streams are the
  text written so far. What the program takes from outside is the record \<open>host\<close>, a parameter of
  every run: the values of \<open>rand\<close> and \<open>time\<close>, libm, the wall clock, which files can be opened, and
  the answers of \<open>curl\<close>. Undefined behaviour the code can reach is a value of \<open>vm_error\<close>
  (\<open>NullDeref\<close>, \<open>BadMemory\<close>, \<open>DivTrap\<close>); reads of uninitialised variables in the loader give
  arbitrary values. The files a run reads are the record \<open>files\<close>, an argument of \<open>main\<close>. A heap (\<open>mem\<close>)
  maps addresses to blocks; an address is not used twice, so that every use of freed memory is an error,
  and counts of elements are taken to stay below 2^31.

  \<^bold>\<open>Interfaces.\<close> The locales \<open>reader\<close> and \<open>codec\<close> state what a byte reader and an encoder promise
  and are interpreted for every part of the format; \<open>fifo\<close> is the contract of the event queue,
  \<open>kv_store\<close> that of linkset data, \<open>step_rel\<close> that of the relations between a state and a later one,
  \<open>library\<close> and \<open>library_mono\<close> what the interpreter asks of the table of library functions,
  \<open>effect_library\<close> that every function is a sequence of \<open>effect\<close> steps (\<open>plain_library\<close> joins the two),
  \<open>command_rel\<close> that a relation between regions allows every change a command makes, and
  \<open>typed_library\<close> that the functions with a signature give values of their type and leave the variables alone,
  \<open>struct_array\<close> what the release of an array of structures needs of its blocks. The theorems on the
  interpreter are proved once against these contracts and hold for \<open>builtins_lookup\<close> by its
  interpretation.

  \<^bold>\<open>Fuel.\<close> \<open>vm_eval\<close> and \<open>vm_exec\<close> spend one unit per nesting of the C calls and per jump inside a block.
  More fuel never changes a result (\<open>fuel_irrelevant\<close>); for code without jumps and user calls the size
  of the code suffices (\<open>jump_free_code_ends\<close>), because a loop stops after a million turns. In the
  loader the length of the file suffices (\<open>program_load_total\<close>). The main loop spends one unit per turn,
  and more than \<open>max_steps\<close> units never change its result (\<open>step_limit_ends_loop\<close>), so for such scripts the
  whole program ends (\<open>main_ends\<close>). Copying, printing and releasing a value or a tree needs more units than its
  size, releasing a linked list more than its length.

  \<^bold>\<open>Not modelled.\<close> \<open>read_file\<close>, the clocks and \<open>sleep_seconds\<close> of \<open>util.c\<close>, the paths and directories of the
  volume and the \<open>curl\<close> process are input and output: contents, times and answers are arguments. Allocation does
  not fail, and removing a file that exists succeeds. The step counters are unbounded where the C fields are \<open>long\<close>; the signed
  shift in \<open>llBase64ToString\<close> wraps, as compilers have it. The interpreter is not run on the heap; \<open>main\<close> ends before the release of the region, which
  \<open>RegionMem\<close> describes. The unused \<open>arg\<close> of \<open>builtins.c\<close> and the Windows branches are left out.
\<close>

end
